(* ===== verification/Prelude.thy ===== *)
theory Prelude
  imports
    Main
    "HOL-Library.Char_ord"
    "HOL-Library.List_Lexorder"
    "HOL-Library.Product_Lexorder"
    "HOL-Library.Sublist"
begin

section \<open>Prelude: text, results, tables\<close>

text \<open>
  What every component of the development shares.

  \<^item> Python text: \<open>str\<close> is a \<open>string\<close> (ASCII text), with the methods the sources call:
    \<open>lower\<close>, \<open>strip\<close>, \<open>split\<close>, \<open>join\<close>, \<open>startswith\<close> (\<open>prefix\<close>), \<open>endswith\<close>
    (\<open>suffix\<close>) and \<open>in\<close> (\<open>sublist\<close>).
  \<^item> Results: an operation that may raise returns \<open>error + 'a\<close>; \<open>ok_iff\<close> collects the
    rules that open a successful result.
  \<^item> SQL tables: a table is the list of its rows in rowid order; \<open>UPDATE\<close>, \<open>DELETE\<close>,
    \<open>ORDER BY\<close> and \<open>LIMIT\<close> are list functions. \<open>table_simps\<close> collects their lemmas.
  \<^item> The locale \<open>row_machine\<close>: a table whose rows only move along an allowed relation,
    whatever sequence of operations runs. It is interpreted on every store of the model.
\<close>

named_theorems table_simps "rewriting rules for the SQL table operations"
named_theorems ok_iff "characterisation of a successful result of a fallible operation"

subsection \<open>Python text\<close>

definition lower_char :: "char \<Rightarrow> char" where
  "lower_char c = (if CHR ''A'' \<le> c \<and> c \<le> CHR ''Z'' then char_of (of_char c + (32::nat)) else c)"

definition str_lower :: "string \<Rightarrow> string" where
  "str_lower s = map lower_char s"

definition is_space :: "char \<Rightarrow> bool" where
  "is_space c \<longleftrightarrow> (let n = (of_char c :: nat) in n = 32 \<or> (9 \<le> n \<and> n \<le> 13) \<or> (28 \<le> n \<and> n \<le> 31))"

definition is_digit_char :: "char \<Rightarrow> bool" where
  "is_digit_char c \<longleftrightarrow> CHR ''0'' \<le> c \<and> c \<le> CHR ''9''"

definition str_strip :: "string \<Rightarrow> string" where
  "str_strip s = rev (dropWhile is_space (rev (dropWhile is_space s)))"

fun str_join :: "string \<Rightarrow> string list \<Rightarrow> string" where
  "str_join sep [] = []"
| "str_join sep [x] = x"
| "str_join sep (x # y # ys) = x @ sep @ str_join sep (y # ys)"

text \<open>Cut a text at every character that satisfies a predicate; empty pieces are kept.\<close>

fun split_at :: "(char \<Rightarrow> bool) \<Rightarrow> string \<Rightarrow> string list" where
  "split_at p [] = [[]]"
| "split_at p (c # cs) =
     (if p c then [] # split_at p cs
      else (case split_at p cs of [] \<Rightarrow> [[c]] | w # ws \<Rightarrow> (c # w) # ws))"

text \<open>Python's \<open>s.split()\<close>: maximal runs of non-space characters.\<close>

definition str_words :: "string \<Rightarrow> string list" where
  "str_words s = filter (\<lambda>w. w \<noteq> []) (split_at is_space s)"

text \<open>\<open>any(w in text for w in ws)\<close>.\<close>

definition mentions :: "string \<Rightarrow> string list \<Rightarrow> bool" where
  "mentions text ws \<longleftrightarrow> (\<exists>w \<in> set ws. sublist w text)"

lemma split_at_not_Nil [simp]: "split_at p s \<noteq> []"
  by (induction s) (auto split: list.splits)

lemma split_at_pieces: "w \<in> set (split_at p s) \<Longrightarrow> c \<in> set w \<Longrightarrow> \<not> p c \<and> c \<in> set s"
  by (induction s arbitrary: w) (fastforce split: list.splits if_splits)+

lemma split_at_id: "\<forall>c \<in> set s. \<not> p c \<Longrightarrow> split_at p s = [s]"
  by (induction s) auto

lemma length_str_lower [simp]: "length (str_lower s) = length s"
  by (simp add: str_lower_def)

lemma str_strip_no_space: "\<forall>c \<in> set s. \<not> is_space c \<Longrightarrow> str_strip s = s"
proof -
  assume ns: "\<forall>c \<in> set s. \<not> is_space c"
  then have "dropWhile is_space s = s" and "dropWhile is_space (rev s) = rev s"
    by (auto simp: dropWhile_eq_self_iff dest: list.set_sel(1))
      (metis hd_in_set rev_is_Nil_conv set_rev)
  then show ?thesis by (simp add: str_strip_def)
qed

subsection \<open>JSON values and Python text formatting\<close>

text \<open>What the sources pass as \<open>dict[str, Any]\<close>. An object is its list of items in insertion
  order, as a Python dict keeps it.\<close>

datatype json =
    JNull
  | JBool bool
  | JInt int
  | JStr string
  | JList "json list"
  | JObj "(string \<times> json) list"

type_synonym json_obj = "(string \<times> json) list"

definition jget :: "string \<Rightarrow> json_obj \<Rightarrow> json" where
  "jget k d = (case map_of d k of None \<Rightarrow> JNull | Some v \<Rightarrow> v)"

text \<open>\<open>d[k] = v\<close>: an existing key keeps its place.\<close>

fun jput :: "string \<Rightarrow> json \<Rightarrow> json_obj \<Rightarrow> json_obj" where
  "jput k v [] = [(k, v)]"
| "jput k v ((k', v') # d) = (if k' = k then (k, v) # d else (k', v') # jput k v d)"

definition jupdate :: "json_obj \<Rightarrow> json_obj \<Rightarrow> json_obj" where
  "jupdate d e = fold (\<lambda>(k, v). jput k v) e d"

definition jopt :: "string option \<Rightarrow> json" where
  "jopt v = (case v of None \<Rightarrow> JNull | Some s \<Rightarrow> JStr s)"

lemma map_of_jput [simp]: "map_of (jput k v d) = (map_of d)(k \<mapsto> v)"
  by (induction d) (auto simp: fun_eq_iff)

lemma jget_jput [simp]: "jget k' (jput k v d) = (if k' = k then v else jget k' d)"
  by (simp add: jget_def)

lemma keys_jput: "fst ` set (jput k v d) = insert k (fst ` set d)"
  by (induction k v d rule: jput.induct) (simp_all add: insert_commute)

lemma distinct_jput: "distinct (map fst d) \<Longrightarrow> distinct (map fst (jput k v d))"
proof (induction d)
  case (Cons a d)
  then show ?case by (cases a) (simp add: keys_jput, blast)
qed simp

text \<open>Decimal text of an integer, as an f-string prints it.\<close>

fun dec_digits :: "nat \<Rightarrow> string" where
  "dec_digits n = (if n < 10 then [char_of (n + 48)] else dec_digits (n div 10) @ [char_of (n mod 10 + 48)])"

declare dec_digits.simps [simp del]

definition show_int :: "int \<Rightarrow> string" where
  "show_int i = (if i < 0 then ''-'' @ dec_digits (nat (- i)) else dec_digits (nat i))"

text \<open>\<open>'{s}'\<close> in an f-string.\<close>

definition quoted :: "string \<Rightarrow> string" where
  "quoted s = [char_of (39::nat)] @ s @ [char_of (39::nat)]"

text \<open>\<open>repr\<close> of an ASCII text, and of a list of texts.\<close>

definition hex_digit :: "nat \<Rightarrow> char" where
  "hex_digit n = (if n < 10 then char_of (n + 48) else char_of (n + 87))"

definition py_repr :: "string \<Rightarrow> string" where
  "py_repr s =
    (let sq = char_of (39::nat); dq = char_of (34::nat); bs = char_of (92::nat);
         q = (if sq \<in> set s \<and> dq \<notin> set s then dq else sq);
         esc = (\<lambda>c. let n = (of_char c :: nat) in
           if c = q \<or> c = bs then [bs, c]
           else if n = 10 then [bs, CHR ''n''] else if n = 13 then [bs, CHR ''r'']
           else if n = 9 then [bs, CHR ''t'']
           else if n < 32 \<or> n = 127 then [bs, CHR ''x'', hex_digit (n div 16), hex_digit (n mod 16)]
           else [c])
     in [q] @ concat (map esc s) @ [q])"

definition repr_list :: "string list \<Rightarrow> string" where
  "repr_list xs = ''['' @ str_join '', '' (map py_repr xs) @ '']''"

subsection \<open>Results of operations that may raise\<close>

definition bind_result :: "'e + 'a \<Rightarrow> ('a \<Rightarrow> 'e + 'b) \<Rightarrow> 'e + 'b" where
  "bind_result m f = (case m of Inl e \<Rightarrow> Inl e | Inr x \<Rightarrow> f x)"

lemma bind_result_simps [simp]:
  "bind_result (Inl e) f = Inl e"
  "bind_result (Inr x) f = f x"
  by (simp_all add: bind_result_def)

lemma bind_result_Inr [ok_iff]:
  "bind_result m f = Inr y \<longleftrightarrow> (\<exists>x. m = Inr x \<and> f x = Inr y)"
  by (cases m) auto

lemma guard_Inr [ok_iff]: "(if P then Inl e else r) = Inr y \<longleftrightarrow> \<not> P \<and> r = Inr y"
  by auto

text \<open>Python truthiness of optional text: \<open>None\<close> and the empty string are false.\<close>

definition truthy :: "string option \<Rightarrow> bool" where
  "truthy v \<longleftrightarrow> v \<noteq> None \<and> v \<noteq> Some []"

text \<open>Python's \<open>a or b\<close> on optional text.\<close>

definition or_else :: "string option \<Rightarrow> string \<Rightarrow> string" where
  "or_else v d = (case v of None \<Rightarrow> d | Some s \<Rightarrow> if s = [] then d else s)"

lemma or_else_simps [simp]:
  "or_else None d = d"
  "or_else (Some []) d = d"
  "s \<noteq> [] \<Longrightarrow> or_else (Some s) d = s"
  by (simp_all add: or_else_def)

lemma truthy_iff: "truthy v \<longleftrightarrow> (\<exists>s. v = Some s \<and> s \<noteq> [])"
  by (cases v) (auto simp: truthy_def)

subsection \<open>SQL tables as lists of rows\<close>

definition row_of :: "('r \<Rightarrow> 'k) \<Rightarrow> 'k \<Rightarrow> 'r list \<Rightarrow> 'r option" where
  "row_of key k t = List.find (\<lambda>r. key r = k) t"

definition sql_update :: "('r \<Rightarrow> bool) \<Rightarrow> ('r \<Rightarrow> 'r) \<Rightarrow> 'r list \<Rightarrow> 'r list" where
  "sql_update P f t = map (\<lambda>r. if P r then f r else r) t"

definition sql_rowcount :: "('r \<Rightarrow> bool) \<Rightarrow> 'r list \<Rightarrow> nat" where
  "sql_rowcount P t = length (filter P t)"

definition sql_delete :: "('r \<Rightarrow> bool) \<Rightarrow> 'r list \<Rightarrow> 'r list" where
  "sql_delete P t = filter (\<lambda>r. \<not> P r) t"

text \<open>A negative \<open>LIMIT\<close> is no limit in SQLite.\<close>

definition sql_limit :: "int \<Rightarrow> 'r list \<Rightarrow> 'r list" where
  "sql_limit n rows = (if n < 0 then rows else take (nat n) rows)"

text \<open>\<open>ORDER BY k DESC, rowid DESC\<close>: the reverse of the stable ascending order.\<close>

definition order_desc :: "('r \<Rightarrow> 'k::linorder) \<Rightarrow> 'r list \<Rightarrow> 'r list" where
  "order_desc k t = rev (sort_key k t)"

lemma row_of_simps [simp]:
  "row_of key k [] = None"
  "row_of key k (r # t) = (if key r = k then Some r else row_of key k t)"
  by (simp_all add: row_of_def)

lemma row_of_SomeD: "row_of key k t = Some r \<Longrightarrow> r \<in> set t \<and> key r = k"
  by (induction t) (auto split: if_splits)

lemma row_of_None_iff: "row_of key k t = None \<longleftrightarrow> k \<notin> key ` set t"
  by (induction t) auto

lemma row_of_distinct: "distinct (map key t) \<Longrightarrow> r \<in> set t \<Longrightarrow> row_of key (key r) t = Some r"
  by (induction t) (auto simp: image_iff)

lemma row_of_append [table_simps]:
  "row_of key k (t @ u) = (case row_of key k t of None \<Rightarrow> row_of key k u | Some r \<Rightarrow> Some r)"
  by (induction t) auto

lemma sql_update_Nil [simp]: "sql_update P f [] = []"
  by (simp add: sql_update_def)

lemma sql_update_Cons [simp]:
  "sql_update P f (r # t) = (if P r then f r else r) # sql_update P f t"
  by (simp add: sql_update_def)

lemma set_sql_update [table_simps]:
  "set (sql_update P f t) = (\<lambda>r. if P r then f r else r) ` set t"
  by (simp add: sql_update_def)

lemma length_sql_update [simp]: "length (sql_update P f t) = length t"
  by (simp add: sql_update_def)

lemma keys_sql_update [table_simps]:
  "(\<And>r. key (f r) = key r) \<Longrightarrow> map key (sql_update P f t) = map key t"
  by (induction t) auto

lemma row_of_sql_update [table_simps]:
  assumes "\<And>r. key (f r) = key r"
  shows "row_of key k (sql_update P f t) = map_option (\<lambda>r. if P r then f r else r) (row_of key k t)"
  using assms by (induction t) auto

lemma sql_update_none: "\<forall>r \<in> set t. \<not> P r \<Longrightarrow> sql_update P f t = t"
  by (induction t) auto

text \<open>\<open>WHERE key = k\<close> selects one row.\<close>

lemma sql_update_key:
  assumes "distinct (map key t)" and "row_of key k t = Some r"
  shows "sql_update (\<lambda>x. key x = k) f t = sql_update (\<lambda>x. x = r) f t"
proof -
  have k: "key r = k" using row_of_SomeD [OF assms(2)] by blast
  have "(key x = k) = (x = r)" if x: "x \<in> set t" for x
  proof
    assume "key x = k"
    with row_of_distinct [OF assms(1) x] assms(2) show "x = r" by simp
  qed (simp add: k)
  then show ?thesis by (auto simp: sql_update_def)
qed

lemma sql_rowcount_0_iff: "sql_rowcount P t = 0 \<longleftrightarrow> (\<forall>r \<in> set t. \<not> P r)"
  by (auto simp: sql_rowcount_def filter_empty_conv)

lemma set_sql_delete [table_simps]: "set (sql_delete P t) = {r \<in> set t. \<not> P r}"
  by (auto simp: sql_delete_def)

lemma distinct_keys_sql_delete: "distinct (map key t) \<Longrightarrow> distinct (map key (sql_delete P t))"
  by (simp add: sql_delete_def distinct_map_filter)

lemma row_of_sql_delete:
  assumes "distinct (map key t)"
  shows "row_of key k (sql_delete P t) =
    (case row_of key k t of None \<Rightarrow> None | Some r \<Rightarrow> if P r then None else Some r)"
  using assms
proof (induction t)
  case Nil
  then show ?case by (simp add: sql_delete_def)
next
  case (Cons a t)
  show ?case
  proof (cases "key a = k")
    case True
    with Cons.prems have "k \<notin> key ` set t" by auto
    then have "row_of key k (filter (\<lambda>r. \<not> P r) t) = None"
      by (auto simp: row_of_None_iff)
    with True show ?thesis by (simp add: sql_delete_def)
  next
    case False
    with Cons show ?thesis by (simp add: sql_delete_def)
  qed
qed

lemma row_of_sql_delete_other:
  "\<forall>r \<in> set t. P r \<longrightarrow> key r \<noteq> k \<Longrightarrow> row_of key k (sql_delete P t) = row_of key k t"
  by (induction t) (auto simp: sql_delete_def)

lemma sql_delete_append: "sql_delete P (t @ u) = sql_delete P t @ sql_delete P u"
  by (simp add: sql_delete_def)

lemma sql_delete_update:
  "(\<And>r. P r \<Longrightarrow> Q (f r) = Q r) \<Longrightarrow> sql_delete Q (sql_update P f t) = sql_update P f (sql_delete Q t)"
  by (induction t) (auto simp: sql_delete_def)

lemma sql_delete_update_inside:
  "(\<And>r. P r \<Longrightarrow> Q r \<and> Q (f r)) \<Longrightarrow> sql_delete Q (sql_update P f t) = sql_delete Q t"
  by (induction t) (auto simp: sql_delete_def)

lemma length_sql_delete: "length (sql_delete P t) + sql_rowcount P t = length t"
  by (induction t) (auto simp: sql_delete_def sql_rowcount_def)

lemma set_order_desc [simp]: "set (order_desc k t) = set t"
  by (simp add: order_desc_def)

lemma length_order_desc [simp]: "length (order_desc k t) = length t"
  by (simp add: order_desc_def)

lemma sorted_order_desc: "sorted_wrt (\<lambda>a b. k b \<le> k a) (order_desc k t)"
proof -
  have "sorted_wrt (\<lambda>a b. k a \<le> k b) (sort_key k t)"
    using sorted_sort_key [of k t] by (simp add: sorted_map)
  then show ?thesis by (simp add: order_desc_def sorted_wrt_rev)
qed

lemma set_sql_limit: "set (sql_limit n rows) \<subseteq> set rows"
  by (auto simp: sql_limit_def dest: in_set_takeD)

lemma sql_limit_length: "0 \<le> n \<Longrightarrow> length (sql_limit n rows) = min (length rows) (nat n)"
  by (simp add: sql_limit_def min.commute)

text \<open>\<open>with conn:\<close> commits the body's writes when it returns and rolls them back when it raises.\<close>

definition transaction :: "('t \<Rightarrow> ('e + 'a) \<times> 't) \<Rightarrow> 't \<Rightarrow> ('e + 'a) \<times> 't" where
  "transaction body t = (case body t of (Inl e, _) \<Rightarrow> (Inl e, t) | (Inr x, t') \<Rightarrow> (Inr x, t'))"

lemma transaction_simps:
  "body t = (Inl e, t') \<Longrightarrow> transaction body t = (Inl e, t)"
  "body t = (Inr x, t') \<Longrightarrow> transaction body t = (Inr x, t')"
  by (simp_all add: transaction_def)

lemma transaction_error: "transaction body t = (Inl e, t') \<Longrightarrow> t' = t"
  by (auto simp: transaction_def split: prod.splits sum.splits)

lemma transaction_rollback: "fst (transaction body t) = Inl e \<Longrightarrow> snd (transaction body t) = t"
  by (auto simp: transaction_def split: prod.splits sum.splits)

subsection \<open>Tables whose rows only move along an allowed relation\<close>

text \<open>
  The contract every store of the model keeps: an operation \<open>step x\<close> on a state keeps the
  primary key of its table \<open>tab\<close> unique, moves each row along \<open>may\<close>, and adds only \<open>fresh\<close> rows. \<open>may\<close> is
  the lifecycle of a row (for example: pending, approved, consumed). What a client may rely on
  over a whole history of operations is proved once, here.
\<close>

definition table_move ::
    "('r \<Rightarrow> 'k) \<Rightarrow> ('r \<Rightarrow> 'r \<Rightarrow> bool) \<Rightarrow> ('r \<Rightarrow> bool) \<Rightarrow> 'r list \<Rightarrow> 'r list \<Rightarrow> bool" where
  "table_move key may fresh t t' \<longleftrightarrow> (distinct (map key t) \<longrightarrow>
     distinct (map key t') \<and> (\<forall>r \<in> set t. \<exists>s \<in> set t'. may r s)
     \<and> (\<forall>s \<in> set t'. (\<exists>r \<in> set t. may r s) \<or> fresh s))"

lemma table_move_refl: "(\<And>r. may r r) \<Longrightarrow> table_move key may fresh t t"
  by (auto simp: table_move_def)

lemma table_move_update:
  assumes "\<And>r. may r r" and "\<And>r s. may r s \<Longrightarrow> key s = key r" and "\<And>r. P r \<Longrightarrow> may r (f r)"
  shows "table_move key may fresh t (sql_update P f t)"
proof -
  have "key (if P r then f r else r) = key r" for r using assms(2,3) by simp
  then have "map key (sql_update P f t) = map key t" by (simp add: sql_update_def)
  moreover have "\<exists>s \<in> set (sql_update P f t). may r s" if "r \<in> set t" for r
    using that assms(1,3) [of r] by (cases "P r") (auto simp: sql_update_def)
  moreover have "\<exists>r \<in> set t. may r s" if "s \<in> set (sql_update P f t)" for s
    using that assms(1,3) by (auto simp: sql_update_def)
  ultimately show ?thesis by (simp add: table_move_def)
qed

lemma table_move_insert:
  assumes "\<And>r. may r r" and "fresh r" and "key r \<notin> key ` set t"
  shows "table_move key may fresh t (t @ [r])"
  using assms by (auto simp: table_move_def)

lemma table_move_transaction:
  assumes "\<And>r. may r r" and "table_move key may fresh t (snd (body t))"
  shows "table_move key may fresh t (snd (transaction body t))"
  using assms by (auto simp: transaction_def table_move_refl split: prod.splits sum.splits)

locale row_machine =
  fixes key :: "'r \<Rightarrow> 'k"
    and may :: "'r \<Rightarrow> 'r \<Rightarrow> bool"
    and fresh :: "'r \<Rightarrow> bool"
    and tab :: "'s \<Rightarrow> 'r list"
    and step :: "'op \<Rightarrow> 's \<Rightarrow> 's"
  assumes may_refl: "may r r"
    and may_trans: "may r s \<Longrightarrow> may s u \<Longrightarrow> may r u"
    and may_key: "may r s \<Longrightarrow> key s = key r"
    and step_move: "table_move key may fresh (tab t) (tab (step x t))"
begin

lemma step_distinct: "distinct (map key (tab t)) \<Longrightarrow> distinct (map key (tab (step x t)))"
  using step_move [of t x] by (simp add: table_move_def)

lemma step_row: "distinct (map key (tab t)) \<Longrightarrow> r \<in> set (tab t) \<Longrightarrow> \<exists>s \<in> set (tab (step x t)). may r s"
  using step_move [of t x] by (simp add: table_move_def)

lemma step_origin:
  "distinct (map key (tab t)) \<Longrightarrow> s \<in> set (tab (step x t)) \<Longrightarrow> (\<exists>r \<in> set (tab t). may r s) \<or> fresh s"
  using step_move [of t x] by (simp add: table_move_def)

lemma run_distinct: "distinct (map key (tab t)) \<Longrightarrow> distinct (map key (tab (fold step xs t)))"
  by (induction xs arbitrary: t) (auto intro: step_distinct)

lemma run_row:
  "distinct (map key (tab t)) \<Longrightarrow> r \<in> set (tab t) \<Longrightarrow> \<exists>s \<in> set (tab (fold step xs t)). may r s"
proof (induction xs arbitrary: t r)
  case Nil
  then show ?case by (auto intro: may_refl)
next
  case (Cons x xs)
  from step_row [OF Cons.prems] obtain s where s: "s \<in> set (tab (step x t))" "may r s" by blast
  from Cons.IH [OF step_distinct [OF Cons.prems(1)] s(1)]
  obtain u where "u \<in> set (tab (fold step xs (step x t)))" "may s u" by blast
  with s(2) show ?case by (auto intro: may_trans)
qed

lemma run_origin:
  "distinct (map key (tab t)) \<Longrightarrow> s \<in> set (tab (fold step xs t)) \<Longrightarrow>
    (\<exists>r \<in> set (tab t). may r s) \<or> (\<exists>r. fresh r \<and> may r s)"
proof (induction xs arbitrary: t)
  case Nil
  then show ?case by (auto intro: may_refl)
next
  case (Cons x xs)
  from Cons.IH [OF step_distinct [OF Cons.prems(1)]] Cons.prems(2)
  have "(\<exists>r \<in> set (tab (step x t)). may r s) \<or> (\<exists>r. fresh r \<and> may r s)" by simp
  then show ?case
    using step_origin [OF Cons.prems(1)] by (blast intro: may_trans)
qed

lemma run_row_of:
  assumes "distinct (map key (tab t))" and "row_of key k (tab t) = Some r"
  obtains s where "row_of key k (tab (fold step xs t)) = Some s" and "may r s"
proof -
  from assms(2) have r: "r \<in> set (tab t)" "key r = k" by (auto dest: row_of_SomeD)
  from run_row [OF assms(1) r(1)] obtain s where s: "s \<in> set (tab (fold step xs t))" "may r s" by blast
  have "row_of key (key s) (tab (fold step xs t)) = Some s"
    by (rule row_of_distinct [OF run_distinct [OF assms(1)] s(1)])
  moreover have "key s = k" using may_key [OF s(2)] r(2) by simp
  ultimately show ?thesis using s(2) that by simp
qed

lemma run_terminal:
  assumes "distinct (map key (tab t))" and "row_of key k (tab t) = Some r" and "\<And>s. may r s \<Longrightarrow> s = r"
  shows "row_of key k (tab (fold step xs t)) = Some r"
  using run_row_of [OF assms(1,2)] assms(3) by metis

lemma run_same_key:
  assumes "distinct (map key (tab t))" and "r \<in> set (tab t)" and "s \<in> set (tab (fold step xs t))"
    and "key s = key r"
  shows "may r s"
proof -
  from run_row [OF assms(1,2)] obtain u where u: "u \<in> set (tab (fold step xs t))" "may r u" by blast
  then have "key u = key s" using may_key assms(4) by simp
  with u(1) assms(3) run_distinct [OF assms(1)] have "u = s"
    by (metis row_of_distinct option.inject)
  with u(2) show ?thesis by simp
qed

end

text \<open>What a linear search finds is in the list and satisfies the test.\<close>

lemma find_SomeD: "List.find P xs = Some x \<Longrightarrow> x \<in> set xs \<and> P x"
  by (auto simp: List.find_Some_iff)

end
