(* ===== verification/Py_Datetime.thy ===== *)
theory Py_Datetime
  imports Prelude
begin

section \<open>datetime and its ISO text\<close>

text \<open>
  Every store of the program keeps timestamps as the text \<open>datetime.isoformat()\<close> gives and
  lets SQLite compare these texts. A \<open>datetime\<close> is its wall-clock time in microseconds since
  0001-01-01T00:00:00 and, when aware, its offset from UTC in minutes. \<open>isoformat\<close> renders
  it as the standard library does, the microseconds left out when they are zero.

  The main result (\<open>iso_utc_less_iff\<close>): on UTC timestamps of the years 1 to 9999 the order of
  the texts is the order of the instants, although the texts have two different lengths.
\<close>

subsection \<open>The proleptic Gregorian calendar\<close>

definition is_leap :: "int \<Rightarrow> bool" where
  "is_leap y \<longleftrightarrow> y mod 4 = 0 \<and> (y mod 100 \<noteq> 0 \<or> y mod 400 = 0)"

text \<open>Days before the first of January of year \<open>y\<close>.\<close>

definition days_before_year :: "int \<Rightarrow> int" where
  "days_before_year y = (let k = y - 1 in k * 365 + k div 4 - k div 100 + k div 400)"

definition year_of_ordinal :: "int \<Rightarrow> int" where
  "year_of_ordinal n =
     (let y = (400 * (n - 1)) div 146097 + 1
      in if n \<le> days_before_year y then y - 1
         else if days_before_year (y + 1) < n then y + 1 else y)"

lemma days_before_year_400:
  "400 * days_before_year y =
     146097 * (y - 1) - 100 * ((y - 1) mod 4) + 4 * ((y - 1) mod 100) - (y - 1) mod 400"
proof -
  define k where "k = y - 1"
  have "4 * (k div 4) = k - k mod 4" "100 * (k div 100) = k - k mod 100"
    "400 * (k div 400) = k - k mod 400"
    by (simp_all only: minus_mod_eq_mult_div)
  moreover have "days_before_year y = k * 365 + k div 4 - k div 100 + k div 400"
    unfolding days_before_year_def k_def Let_def .. 
  ultimately show ?thesis unfolding k_def [symmetric] by linarith
qed

text \<open>A year has 365.2425 days on average: \<open>days_before_year\<close> is a line up to two days.\<close>

lemma days_before_year_bounds:
  "146097 * (y - 1) - 699 \<le> 400 * days_before_year y"
  "400 * days_before_year y \<le> 146097 * (y - 1) + 396"
proof -
  define a b c where "a = (y - 1) mod 4" and "b = (y - 1) mod 100" and "c = (y - 1) mod 400"
  have "0 \<le> a" "a \<le> 3" "0 \<le> b" "b \<le> 99" "0 \<le> c" "c \<le> 399"
    using pos_mod_bound [of 4 "y - 1"] pos_mod_bound [of 100 "y - 1"] pos_mod_bound [of 400 "y - 1"]
    by (simp_all add: a_def b_def c_def)
  moreover have "400 * days_before_year y = 146097 * (y - 1) - 100 * a + 4 * b - c"
    using days_before_year_400 [of y] by (simp add: a_def b_def c_def)
  ultimately show "146097 * (y - 1) - 699 \<le> 400 * days_before_year y"
    "400 * days_before_year y \<le> 146097 * (y - 1) + 396" by linarith+
qed

lemma year_estimate:
  assumes "y = (400 * (n - 1)) div 146097 + (1::int)"
  shows "days_before_year (y - 1) < n" and "n \<le> days_before_year (y + 2)"
proof -
  define x where "x = 400 * (n - 1)"
  define r where "r = x mod 146097"
  have "x = 146097 * (y - 1) + r"
    using mult_div_mod_eq [of 146097 x] assms by (simp add: x_def r_def)
  moreover have "0 \<le> r" "r < 146097" by (simp_all add: r_def)
  ultimately have "146097 * (y - 1) \<le> x \<and> x < 146097 * y" by simp
  then have lo: "146097 * (y - 1) \<le> 400 * (n - 1)" and hi: "400 * (n - 1) < 146097 * y"
    by (simp_all add: x_def)
  show "days_before_year (y - 1) < n"
    using days_before_year_bounds(2) [of "y - 1"] lo by simp
  show "n \<le> days_before_year (y + 2)"
    using days_before_year_bounds(1) [of "y + 2"] hi by simp
qed

lemma days_before_year_mono: "y \<le> z \<Longrightarrow> days_before_year y \<le> days_before_year z"
proof (cases "y = z")
  case False
  assume "y \<le> z"
  with False show ?thesis
    using days_before_year_bounds(2) [of y] days_before_year_bounds(1) [of z] by simp
qed simp

lemma year_of_ordinal_spec:
  "days_before_year (year_of_ordinal n) < n \<and> n \<le> days_before_year (year_of_ordinal n + 1)"
  using year_estimate [OF refl, of n]
  by (auto simp: year_of_ordinal_def Let_def)

lemma year_of_ordinal_unique:
  assumes "days_before_year y < n" and "n \<le> days_before_year (y + 1)"
  shows "year_of_ordinal n = y"
proof (rule linorder_cases [of "year_of_ordinal n" y])
  assume "year_of_ordinal n < y"
  then have "year_of_ordinal n + 1 \<le> y" by simp
  then have "days_before_year (year_of_ordinal n + 1) \<le> days_before_year y"
    by (rule days_before_year_mono)
  then show ?thesis using year_of_ordinal_spec [of n] assms by linarith
next
  assume "y < year_of_ordinal n"
  then have "y + 1 \<le> year_of_ordinal n" by simp
  then have "days_before_year (y + 1) \<le> days_before_year (year_of_ordinal n)"
    by (rule days_before_year_mono)
  then show ?thesis using year_of_ordinal_spec [of n] assms by linarith
qed simp

text \<open>Days of year \<open>y\<close> before month \<open>m\<close>, and the month of a day of the year (from 1).\<close>

definition days_before_month :: "int \<Rightarrow> int \<Rightarrow> int" where
  "days_before_month y m =
     (let l = (if is_leap y then 1 else 0)
      in if m \<le> 1 then 0 else if m \<le> 2 then 31 else if m \<le> 3 then 59 + l else if m \<le> 4 then 90 + l
         else if m \<le> 5 then 120 + l else if m \<le> 6 then 151 + l else if m \<le> 7 then 181 + l
         else if m \<le> 8 then 212 + l else if m \<le> 9 then 243 + l else if m \<le> 10 then 273 + l
         else if m \<le> 11 then 304 + l else if m \<le> 12 then 334 + l else 365 + l)"

fun month_from :: "nat \<Rightarrow> int \<Rightarrow> int \<Rightarrow> int \<Rightarrow> int" where
  "month_from 0 y m d = m"
| "month_from (Suc k) y m d =
     (if d \<le> days_before_month y (m + 1) then m else month_from k y (m + 1) d)"

definition month_of :: "int \<Rightarrow> int \<Rightarrow> int" where
  "month_of y d = month_from 11 y 1 d"

lemma month_from_spec:
  assumes "days_before_month y m < d" and "d \<le> days_before_month y (m + int k + 1)"
  shows "days_before_month y (month_from k y m d) < d \<and>
    d \<le> days_before_month y (month_from k y m d + 1) \<and>
    m \<le> month_from k y m d \<and> month_from k y m d \<le> m + int k"
  using assms
proof (induction k arbitrary: m)
  case 0
  then show ?case by simp
next
  case (Suc k)
  have "m + int (Suc k) + 1 = m + 1 + int k + 1" by simp
  with Suc.prems Suc.IH [of "m + 1"] show ?case by fastforce
qed

lemma month_of_spec:
  assumes "1 \<le> d" and "d \<le> days_before_month y 13"
  shows "days_before_month y (month_of y d) < d \<and> d \<le> days_before_month y (month_of y d + 1) \<and>
    1 \<le> month_of y d \<and> month_of y d \<le> 12"
proof -
  have "days_before_month y 1 = 0" by (simp add: days_before_month_def)
  with month_from_spec [of y 1 d 11] assms show ?thesis by (simp add: month_of_def)
qed

lemma days_before_month_mono: "m \<le> n \<Longrightarrow> days_before_month y m \<le> days_before_month y n"
  by (simp add: days_before_month_def Let_def)

lemma div_step: "1 < c \<Longrightarrow> y div c = (y - 1) div c + (if y mod c = 0 then 1 else 0)" for c y :: int
proof -
  assume c: "1 < c"
  define q r where "q = y div c" and "r = y mod c"
  have y: "y = c * q + r" "0 \<le> r" "r < c"
    using c by (simp_all add: q_def r_def)
  show ?thesis
  proof (cases "r = 0")
    case True
    have "(y - 1) div c = q - 1"
      by (rule int_div_pos_eq [of _ c _ "c - 1"]) (use y c True in \<open>simp_all add: algebra_simps\<close>)
    with True show ?thesis by (simp add: q_def r_def)
  next
    case False
    have "(y - 1) div c = q"
      by (rule int_div_pos_eq [of _ c _ "r - 1"]) (use y False in simp_all)
    with False show ?thesis by (simp add: q_def r_def)
  qed
qed

lemma year_length: "days_before_year (y + 1) = days_before_year y + days_before_month y 13"
proof -
  have "y mod 400 = 0 \<Longrightarrow> y mod 100 = 0" "y mod 100 = 0 \<Longrightarrow> y mod 4 = 0"
    using mod_mod_cancel [of 100 400 y] mod_mod_cancel [of 4 100 y] by auto
  note m = this
  have e: "days_before_year (y + 1) = y * 365 + y div 4 - y div 100 + y div 400"
    "days_before_year y = (y - 1) * 365 + (y - 1) div 4 - (y - 1) div 100 + (y - 1) div 400"
    "days_before_month y 13 = 365 + (if is_leap y then 1 else 0)"
    by (simp_all add: days_before_year_def days_before_month_def Let_def)
  show ?thesis
    unfolding e is_leap_def div_step [of 4 y, simplified] div_step [of 100 y, simplified]
      div_step [of 400 y, simplified]
    using m by (cases "y mod 4 = 0"; cases "y mod 100 = 0"; cases "y mod 400 = 0") simp_all
qed

definition civil :: "int \<Rightarrow> int \<times> int \<times> int" where
  "civil n =
     (let y = year_of_ordinal n; d = n - days_before_year y; m = month_of y d
      in (y, m, d - days_before_month y m))"

lemma civil_spec:
  assumes "civil n = (y, m, d)"
  shows "n = days_before_year y + days_before_month y m + d" and "1 \<le> m" and "m \<le> 12"
    and "1 \<le> d" and "d \<le> 31" and "y = year_of_ordinal n"
    and "n - days_before_year y \<le> days_before_month y (m + 1)"
proof -
  have y: "y = year_of_ordinal n" and m: "m = month_of y (n - days_before_year y)"
    and d: "d = n - days_before_year y - days_before_month y m"
    using assms by (auto simp: civil_def Let_def)
  have r: "1 \<le> n - days_before_year y" "n - days_before_year y \<le> days_before_month y 13"
    using year_of_ordinal_spec [of n] year_length [of y] y by auto
  note ms = month_of_spec [OF r, folded m]
  show "n = days_before_year y + days_before_month y m + d" "y = year_of_ordinal n"
    using d y by auto
  show "1 \<le> m" "m \<le> 12" "1 \<le> d" "n - days_before_year y \<le> days_before_month y (m + 1)"
    using ms d by auto
  have "days_before_month y (m + 1) \<le> days_before_month y m + 31"
    using ms by (auto simp: days_before_month_def Let_def)
  then show "d \<le> 31" using ms d by linarith
qed

lemma civil_mono:
  assumes "civil n = (y, m, d)" and "civil n' = (y', m', d')" and "n < n'"
  shows "y < y' \<or> y = y' \<and> (m < m' \<or> m = m' \<and> d < d')"
proof -
  note s = civil_spec [OF assms(1)] and s' = civil_spec [OF assms(2)]
  have "\<not> y' < y"
  proof
    assume "y' < y"
    then have "days_before_year (y' + 1) \<le> days_before_year y"
      by (intro days_before_year_mono) simp
    then show False
      using year_of_ordinal_spec [of n] year_of_ordinal_spec [of n'] s(6) s'(6) assms(3) by simp
  qed
  moreover have "\<not> m' < m" if "y = y'"
  proof
    assume "m' < m"
    then have "days_before_month y (m' + 1) \<le> days_before_month y m"
      by (intro days_before_month_mono) simp
    then show False using s(1,4) s'(7) assms(3) that by simp
  qed
  moreover have "d < d'" if "y = y'" "m = m'"
    using s(1) s'(1) assms(3) that by simp
  ultimately show ?thesis by linarith
qed

subsection \<open>Fixed-width numbers\<close>

definition digit_char :: "int \<Rightarrow> char" where
  "digit_char n = char_of (48 + nat (n mod 10))"

fun pad :: "nat \<Rightarrow> int \<Rightarrow> string" where
  "pad 0 n = []"
| "pad (Suc k) n = pad k (n div 10) @ [digit_char n]"

lemma length_pad [simp]: "length (pad k n) = k"
  by (induction k arbitrary: n) auto

lemma digit_char_mono: "m mod 10 < n mod 10 \<Longrightarrow> digit_char m < digit_char n"
  by (simp add: digit_char_def less_char_def)

lemma append_less_iff:
  fixes xs us :: "'a::linorder list"
  shows "length xs = length us \<Longrightarrow> xs @ ys < us @ vs \<longleftrightarrow> xs < us \<or> xs = us \<and> ys < vs"
  by (induction xs us rule: list_induct2) auto

lemma pad_mono: "0 \<le> m \<Longrightarrow> m < n \<Longrightarrow> n < 10 ^ k \<Longrightarrow> pad k m < pad k n"
proof (induction k arbitrary: m n)
  case 0
  then show ?case by simp
next
  case (Suc k)
  have n: "n div 10 < 10 ^ k" using Suc.prems(3) by simp
  show ?case
  proof (cases "m div 10 = n div 10")
    case True
    with Suc.prems(2) have "m mod 10 < n mod 10"
      by (metis mult_div_mod_eq add_less_cancel_left)
    with True show ?thesis by (simp add: append_less_iff digit_char_mono)
  next
    case False
    have "m div 10 \<le> n div 10" using Suc.prems(2) by (simp add: zdiv_mono1)
    with False have "m div 10 < n div 10" by simp
    with Suc.IH [of "m div 10" "n div 10"] n Suc.prems(1) show ?thesis
      by (simp add: append_less_iff)
  qed
qed

subsection \<open>datetime\<close>

record datetime =
  wall :: int
  tz_offset :: "int option"

definition usec_second :: int where "usec_second = 1000000"
definition usec_minute :: int where "usec_minute = 60000000"
definition usec_hour :: int where "usec_hour = 3600000000"
definition usec_day :: int where "usec_day = 86400000000"

lemmas usec_defs = usec_second_def usec_minute_def usec_hour_def usec_day_def

text \<open>The fields of a wall-clock time.\<close>

definition dt_ordinal :: "int \<Rightarrow> int" where "dt_ordinal w = w div usec_day + 1"
definition dt_hour :: "int \<Rightarrow> int" where "dt_hour w = w div usec_hour mod 24"
definition dt_minute :: "int \<Rightarrow> int" where "dt_minute w = w div usec_minute mod 60"
definition dt_second :: "int \<Rightarrow> int" where "dt_second w = w div usec_second mod 60"
definition dt_micro :: "int \<Rightarrow> int" where "dt_micro w = w mod usec_second"

text \<open>Monday is 0.\<close>

definition dt_weekday :: "int \<Rightarrow> int" where "dt_weekday w = (dt_ordinal w + 6) mod 7"

definition iso_date :: "int \<Rightarrow> string" where
  "iso_date n = (case civil n of (y, m, d) \<Rightarrow> pad 4 y @ ''-'' @ pad 2 m @ ''-'' @ pad 2 d)"

definition iso_time :: "int \<Rightarrow> string" where
  "iso_time w = pad 2 (dt_hour w) @ '':'' @ pad 2 (dt_minute w) @ '':'' @ pad 2 (dt_second w)"

definition iso_micro :: "int \<Rightarrow> string" where
  "iso_micro w = (if dt_micro w = 0 then [] else ''.'' @ pad 6 (dt_micro w))"

definition iso_offset :: "int option \<Rightarrow> string" where
  "iso_offset z = (case z of None \<Rightarrow> []
     | Some off \<Rightarrow> (if off < 0 then ''-'' else ''+'') @ pad 2 (\<bar>off\<bar> div 60) @ '':'' @ pad 2 (\<bar>off\<bar> mod 60))"

definition isoformat :: "datetime \<Rightarrow> string" where
  "isoformat d = iso_date (dt_ordinal (wall d)) @ ''T'' @ iso_time (wall d) @ iso_micro (wall d)
     @ iso_offset (tz_offset d)"

text \<open>An instant of UTC, as \<open>datetime.now(timezone.utc)\<close> gives it, and its text.\<close>

type_synonym utc = int

definition utc_datetime :: "utc \<Rightarrow> datetime" where
  "utc_datetime t = \<lparr>wall = t, tz_offset = Some 0\<rparr>"

definition iso_utc :: "utc \<Rightarrow> string" where
  "iso_utc t = isoformat (utc_datetime t)"

text \<open>The instant an aware datetime denotes; naive datetimes are read as UTC.\<close>

definition instant :: "datetime \<Rightarrow> utc" where
  "instant d = wall d - (case tz_offset d of None \<Rightarrow> 0 | Some off \<Rightarrow> off * usec_minute)"

text \<open>The datetimes of the years 1 to 9999.\<close>

definition max_wall :: int where "max_wall = 3652059 * usec_day"

definition valid_utc :: "utc \<Rightarrow> bool" where
  "valid_utc t \<longleftrightarrow> 0 \<le> t \<and> t < max_wall"

lemma length_iso_date [simp]: "length (iso_date n) = 10"
  by (simp add: iso_date_def split: prod.splits)

lemma length_iso_time [simp]: "length (iso_time w) = 8"
  by (simp add: iso_time_def)

lemma year_bounds:
  assumes "1 \<le> n" and "n \<le> 3652059" and "civil n = (y, m, d)"
  shows "1 \<le> y" and "y \<le> 9999"
proof -
  have y: "y = year_of_ordinal n" using civil_spec(6) [OF assms(3)] .
  have b: "days_before_year 1 = 0" "days_before_year 10000 = 3652059"
    by (simp_all add: days_before_year_def)
  show "1 \<le> y"
  proof (rule ccontr)
    assume "\<not> 1 \<le> y"
    then have "days_before_year (y + 1) \<le> days_before_year 1" by (intro days_before_year_mono) simp
    then show False using year_of_ordinal_spec [of n] y b assms(1) by simp
  qed
  show "y \<le> 9999"
  proof (rule ccontr)
    assume "\<not> y \<le> 9999"
    then have "days_before_year 10000 \<le> days_before_year y" by (intro days_before_year_mono) simp
    then show False using year_of_ordinal_spec [of n] y b assms(2) by simp
  qed
qed

lemma iso_date_mono:
  assumes "1 \<le> n" and "n < n'" and "n' \<le> 3652059"
  shows "iso_date n < iso_date n'"
proof -
  obtain y m d y' m' d' where c: "civil n = (y, m, d)" and c': "civil n' = (y', m', d')"
    by (metis prod_cases3)
  have "1 \<le> y" by (rule year_bounds(1) [OF _ _ c]) (use assms in auto)
  moreover have "y' \<le> 9999" by (rule year_bounds(2) [OF _ _ c']) (use assms in auto)
  ultimately have "1 \<le> y" "y' \<le> 9999" .
  note y = this
  have m: "1 \<le> m" "m \<le> 12" "1 \<le> d" "d \<le> 31" using civil_spec(2-5) [OF c] by blast+
  have m': "m' \<le> 12" "d' \<le> 31" using civil_spec(3,5) [OF c'] by blast+
  consider "y < y'" | "y = y'" "m < m'" | "y = y'" "m = m'" "d < d'"
    using civil_mono [OF c c' assms(2)] by blast
  then have "pad 4 y @ ''-'' @ pad 2 m @ ''-'' @ pad 2 d < pad 4 y' @ ''-'' @ pad 2 m' @ ''-'' @ pad 2 d'"
    using y m m' by cases (simp_all add: append_less_iff pad_mono)
  then show ?thesis by (simp add: iso_date_def c c')
qed

text \<open>The fields of \<open>w\<close> from its seconds: a mixed-radix number.\<close>

lemma div_units:
  fixes w :: int
  shows "w div usec_minute = w div usec_second div 60"
    and "w div usec_hour = w div usec_second div 60 div 60"
    and "w div usec_day = w div usec_second div 60 div 60 div 24"
proof -
  have "usec_minute = usec_second * 60" "usec_hour = usec_second * 60 * 60"
    "usec_day = usec_second * 60 * 60 * 24" by (simp_all add: usec_defs)
  note u = this
  show "w div usec_minute = w div usec_second div 60"
    "w div usec_hour = w div usec_second div 60 div 60"
    "w div usec_day = w div usec_second div 60 div 60 div 24"
    unfolding u by (simp_all only: zdiv_zmult2_eq zero_le_numeral)
qed

lemma field_radix:
  "w div usec_second = 86400 * (dt_ordinal w - 1) + 3600 * dt_hour w + 60 * dt_minute w + dt_second w"
proof -
  have eq: "dt_ordinal w - 1 = s div 60 div 60 div 24" "dt_hour w = s div 60 div 60 mod 24"
    "dt_minute w = s div 60 mod 60" "dt_second w = s mod 60" if "s = w div usec_second" for s
    unfolding dt_ordinal_def dt_hour_def dt_minute_def dt_second_def div_units that by simp_all
  have radix: "s = 86400 * (s div 60 div 60 div 24) + 3600 * (s div 60 div 60 mod 24) +
      60 * (s div 60 mod 60) + s mod 60" for s :: int
  proof -
    define m where "m = s div 60"
    define h where "h = m div 60"
    define d where "d = h div 24"
    define s' where "s' = s mod 60"
    define m' where "m' = m mod 60"
    define h' where "h' = h mod 24"
    have "s = 60 * m + s'" "m = 60 * h + m'" "h = 24 * d + h'"
      by (simp_all only: m_def h_def d_def s'_def m'_def h'_def mult_div_mod_eq)
    then have "s = 86400 * d + 3600 * h' + 60 * m' + s'" by simp
    then show ?thesis by (simp only: d_def h'_def m'_def s'_def h_def m_def)
  qed
  show ?thesis unfolding eq [OF refl] by (rule radix)
qed

lemma field_bounds:
  "0 \<le> dt_hour w" "dt_hour w < 24" "0 \<le> dt_minute w" "dt_minute w < 60"
  "0 \<le> dt_second w" "dt_second w < 60"
  by (simp_all add: dt_hour_def dt_minute_def dt_second_def)

lemma iso_time_mono:
  assumes "dt_ordinal w = dt_ordinal w'" and "w div usec_second < w' div usec_second"
  shows "iso_time w < iso_time w'"
proof -
  define h m s where "h = dt_hour w" and "m = dt_minute w" and "s = dt_second w"
  define h' m' s' where "h' = dt_hour w'" and "m' = dt_minute w'" and "s' = dt_second w'"
  have b: "0 \<le> h" "h' < 24" "0 \<le> m" "m < 60" "0 \<le> m'" "m' < 60" "0 \<le> s" "s < 60" "0 \<le> s'" "s' < 60"
    using field_bounds by (simp_all add: h_def m_def s_def h'_def m'_def s'_def)
  have lt: "3600 * h + 60 * m + s < 3600 * h' + 60 * m' + s'"
    using assms by (simp add: field_radix h_def m_def s_def h'_def m'_def s'_def)
  consider "h < h'" | "h = h'" "m < m'" | "h = h'" "m = m'" "s < s'"
    using lt b by arith
  then have "pad 2 h @ '':'' @ pad 2 m @ '':'' @ pad 2 s < pad 2 h' @ '':'' @ pad 2 m' @ '':'' @ pad 2 s'"
    using b by cases (auto simp: append_less_iff intro: pad_mono)
  then show ?thesis by (simp add: iso_time_def h_def m_def s_def h'_def m'_def s'_def)
qed

lemma iso_time_same:
  assumes "w div usec_second = w' div usec_second"
  shows "dt_ordinal w = dt_ordinal w'" and "iso_time w = iso_time w'"
  using assms
  by (simp_all add: dt_ordinal_def iso_time_def dt_hour_def dt_minute_def dt_second_def div_units)

lemma iso_micro_mono:
  assumes "dt_micro w < dt_micro w'"
  shows "iso_micro w @ iso_offset (Some 0) < iso_micro w' @ iso_offset (Some 0)"
proof -
  have "0 \<le> dt_micro w" "dt_micro w' < 10 ^ 6" by (simp_all add: dt_micro_def usec_defs)
  then show ?thesis
    using assms pad_mono [of "dt_micro w" "dt_micro w'" 6]
    by (auto simp: iso_micro_def iso_offset_def append_less_iff)
qed

lemma iso_utc_mono:
  assumes "valid_utc t" and "valid_utc u" and "t < u"
  shows "iso_utc t < iso_utc u"
proof -
  have eq: "iso_utc x = iso_date (dt_ordinal x) @ ''T'' @ iso_time x @ iso_micro x @ iso_offset (Some 0)"
    for x by (simp add: iso_utc_def isoformat_def utc_datetime_def)
  have day: "1 \<le> dt_ordinal x" "dt_ordinal x \<le> 3652059" if "valid_utc x" for x
    using that by (auto simp: dt_ordinal_def valid_utc_def max_wall_def usec_defs)
  have le: "t div c \<le> u div c" if "0 < c" for c using assms(3) that by (simp add: zdiv_mono1)
  show ?thesis
  proof (cases "t div usec_second = u div usec_second")
    case True
    have "dt_micro t < dt_micro u"
      using assms(3) True mult_div_mod_eq [of usec_second t] mult_div_mod_eq [of usec_second u]
      unfolding dt_micro_def by (metis add_less_cancel_left)
    then show ?thesis
      using iso_time_same [OF True] iso_micro_mono by (simp add: eq append_less_iff)
  next
    case False
    with le have sec: "t div usec_second < u div usec_second" by (simp add: usec_defs order_less_le)
    show ?thesis
    proof (cases "dt_ordinal t = dt_ordinal u")
      case True
      then show ?thesis using iso_time_mono [OF True sec] by (simp add: eq append_less_iff)
    next
      case False
      with le [of usec_day] have "dt_ordinal t < dt_ordinal u" by (simp add: dt_ordinal_def usec_defs)
      then show ?thesis
        using iso_date_mono day assms(1,2) by (simp add: eq append_less_iff)
    qed
  qed
qed

theorem iso_utc_less_iff [simp]:
  assumes "valid_utc t" and "valid_utc u"
  shows "iso_utc t < iso_utc u \<longleftrightarrow> t < u"
  using iso_utc_mono [OF assms] iso_utc_mono [OF assms(2,1)] by (metis linorder_less_linear order_less_asym)

lemma iso_utc_le_iff [simp]:
  assumes "valid_utc t" and "valid_utc u"
  shows "iso_utc t \<le> iso_utc u \<longleftrightarrow> t \<le> u"
  using iso_utc_less_iff [OF assms(2,1)] by (simp flip: not_less)

lemma iso_utc_leD: "iso_utc t \<le> iso_utc u \<Longrightarrow> valid_utc t \<Longrightarrow> valid_utc u \<Longrightarrow> t \<le> u"
  by simp

lemma iso_utc_inj [simp]:
  assumes "valid_utc t" and "valid_utc u"
  shows "iso_utc t = iso_utc u \<longleftrightarrow> t = u"
  using iso_utc_less_iff [OF assms] iso_utc_less_iff [OF assms(2,1)] by (metis linorder_less_linear less_irrefl)

end
