(* ===== verification/Smith_Models.thy ===== *)
theory Smith_Models
  imports Py_Datetime
begin

section \<open>Agent Smith: data model\<close>

text \<open>
  The enums and Pydantic models of \<open>src/freyja/agents/models.py\<close>, and the two enums they use
  of \<open>src/freyja/tools/models.py\<close>: the state machine of the write pilot, tasks and plans, the
  approval record and the policy decision. A Pydantic model is a \<open>record\<close> with the fields of
  the class; a field with a default is a field like any other, and each constructor call of
  the sources writes the defaults out. Timestamps are UTC instants.
\<close>

datatype objective_class =
  Inspection | Validation | Diagnostics | Prohibited_write | Prohibited_privileged | Ambiguous

datatype task_status =
    Task_pending | In_progress | Task_completed | Task_failed | Escalated
  | Task_approval_required | Loop_detected

datatype pilot_state =
    Planned | Awaiting_path_approval | Awaiting_content_approval | Written | Validated
  | Awaiting_stage_approval | Staged | Awaiting_commit_approval | Committed | Verified
  | Failed | Rolled_back

fun pilot_state_value :: "pilot_state \<Rightarrow> string" where
  "pilot_state_value Planned = ''planned''"
| "pilot_state_value Awaiting_path_approval = ''awaiting_path_approval''"
| "pilot_state_value Awaiting_content_approval = ''awaiting_content_approval''"
| "pilot_state_value Written = ''written''"
| "pilot_state_value Validated = ''validated''"
| "pilot_state_value Awaiting_stage_approval = ''awaiting_stage_approval''"
| "pilot_state_value Staged = ''staged''"
| "pilot_state_value Awaiting_commit_approval = ''awaiting_commit_approval''"
| "pilot_state_value Committed = ''committed''"
| "pilot_state_value Verified = ''verified''"
| "pilot_state_value Failed = ''failed''"
| "pilot_state_value Rolled_back = ''rolled_back''"

datatype approval_status = Not_required | Required | Requested | Status_approved | Status_denied

record smith_task =
  task_id :: string
  task_description :: string
  task_status :: task_status
  depends_on :: "string list"
  task_approval :: approval_status
  task_request_id :: "string option"
  task_created_at :: utc
  task_updated_at :: utc
  task_metadata :: json_obj

record smith_plan =
  plan_request_id :: string
  plan_objective :: string
  plan_tasks :: "smith_task list"
  plan_created_at :: utc
  plan_metadata :: json_obj

definition pending_tasks :: "smith_plan \<Rightarrow> smith_task list" where
  "pending_tasks p = filter (\<lambda>t. task_status t = Task_pending) (plan_tasks p)"

text \<open>The first pending task whose dependencies are all completed.\<close>

definition completed_ids :: "smith_plan \<Rightarrow> string list" where
  "completed_ids p = map task_id (filter (\<lambda>t. task_status t = Task_completed) (plan_tasks p))"

definition next_runnable_task :: "smith_plan \<Rightarrow> smith_task option" where
  "next_runnable_task p =
     (let completed = completed_ids p
      in List.find (\<lambda>t. task_status t = Task_pending \<and> (\<forall>d \<in> set (depends_on t). d \<in> set completed))
           (plan_tasks p))"

definition is_complete :: "smith_plan \<Rightarrow> bool" where
  "is_complete p \<longleftrightarrow>
     (\<forall>t \<in> set (plan_tasks p). task_status t \<in> {Task_completed, Task_failed, Escalated})"

record step_result =
  step_id :: string
  step_task_id :: string
  step_request_id :: string
  step_tool_name :: "string option"
  step_success :: bool
  step_retryable :: bool
  step_attempts :: int
  step_output :: json_obj
  step_error :: "string option"
  step_approval_required :: bool
  step_audit_record :: "json_obj option"
  step_duration_ms :: "int option"
  step_actor :: string
  step_created_at :: utc

text \<open>What a write-pilot run is built from, with the id it works under.\<close>

record pilot_request =
  objective :: string
  target_path :: string
  proposed_content :: string
  commit_message :: string
  req_actor :: string
  req_request_id :: string

record pilot_transition =
  from_state :: string
  to_state :: string
  trans_action :: string
  trans_outcome :: string

record pilot_approval_record =
  appr_type :: string
  appr_request_id :: string
  appr_target_path :: "string option"
  appr_approved :: bool
  appr_actor :: string

record approval_callback =
  cb_type :: string
  cb_request_id :: string
  cb_approved :: bool
  cb_target_path :: "string option"
  cb_commit_message :: "string option"

datatype approval_record_status = Pending | Approved | Denied | Expired | Consumed | Cancelled

record approval_record =
  rec_id :: string
  rec_request_id :: string
  rec_action :: string
  rec_target_path :: string
  rec_content_hash :: "string option"
  rec_commit_message_hash :: "string option"
  rec_status :: approval_record_status
  rec_summary :: string
  rec_created_at :: utc
  rec_expires_at :: utc
  rec_resolved_at :: "utc option"
  rec_resolved_by :: "string option"
  rec_denial_reason :: "string option"
  rec_consumed_at :: "utc option"
  rec_metadata :: json_obj

text \<open>\<open>ApprovalStoreError\<close>: a message and an HTTP status code.\<close>

record store_error =
  err_message :: string
  err_status :: int

datatype policy_decision = Allow | Approve | Deny

record policy_result =
  decision :: policy_decision
  reason :: "string option"
  approval_required :: bool

record audit_event =
  audit_request_id :: string
  audit_actor :: string
  audit_action :: string
  audit_outcome :: string
  audit_details :: json_obj

datatype risk_level = Read_only | Controlled_write | Privileged

subsection \<open>Plans\<close>

lemma next_runnable_SomeD:
  assumes "next_runnable_task p = Some t"
  shows "t \<in> set (plan_tasks p)" and "task_status t = Task_pending"
    and "\<forall>d \<in> set (depends_on t). \<exists>u \<in> set (plan_tasks p). task_id u = d \<and> task_status u = Task_completed"
  using find_SomeD [OF assms [unfolded next_runnable_task_def Let_def]]
  by (auto simp: completed_ids_def)

lemma next_runnable_None:
  "next_runnable_task p = None \<longleftrightarrow>
     (\<forall>t \<in> set (pending_tasks p). \<exists>d \<in> set (depends_on t). d \<notin> set (completed_ids p))"
  by (auto simp: next_runnable_task_def pending_tasks_def Let_def find_None_iff)

end
