(* ===== verification/Rx.thy ===== *)
theory Rx
  imports Prelude
begin

section \<open>Regular expressions of Python's re module\<close>

text \<open>
  The fragment of \<open>re\<close> that the sources use: character classes, sequence, ordered
  alternative, greedy and lazy repetition, the anchors \<open>^\<close> and \<open>$\<close>, the word boundary
  \<open>\b\<close> and the lookaheads. \<open>rx_ends r s i\<close> is the list of positions where a match of \<open>r\<close>
  that starts at position \<open>i\<close> of \<open>s\<close> can end, in the order in which a backtracking matcher
  tries them, so its head is the match that \<open>re.search\<close> reports. Text is ASCII, where
  \<open>\w\<close>, \<open>\s\<close> and \<open>\d\<close> are the classes below.
\<close>

datatype rx =
    Eps
  | Cls bool "(char \<times> char) list"   \<comment> \<open>negated?, ranges\<close>
  | Seq rx rx
  | Alt rx rx
  | Star rx
  | LazyStar rx
  | Bol
  | Eol
  | WordB
  | Ahead bool rx                    \<comment> \<open>negated?, the lookahead\<close>

fun in_ranges :: "(char \<times> char) list \<Rightarrow> char \<Rightarrow> bool" where
  "in_ranges [] c = False"
| "in_ranges ((a, b) # rs) c = ((a \<le> c \<and> c \<le> b) \<or> in_ranges rs c)"

definition word_ranges :: "(char \<times> char) list" where
  "word_ranges = [(CHR ''a'', CHR ''z''), (CHR ''A'', CHR ''Z''), (CHR ''0'', CHR ''9''), (CHR ''_'', CHR ''_'')]"

definition space_ranges :: "(char \<times> char) list" where
  "space_ranges = [(CHR '' '', CHR '' ''), (CHR 0x09, CHR 0x0D), (CHR 0x1C, CHR 0x1F)]"

definition word_at :: "string \<Rightarrow> nat \<Rightarrow> bool" where
  "word_at s i \<longleftrightarrow> i < length s \<and> in_ranges word_ranges (s ! i)"

text \<open>
  Repetition. Each round must make progress (\<open>i < j\<close>), so \<open>length s - i\<close> rounds are enough:
  the fuel \<open>n\<close> never runs out on a match (\<open>star_ends_fuel\<close>).
\<close>

fun star_ends :: "nat \<Rightarrow> (nat \<Rightarrow> nat list) \<Rightarrow> nat \<Rightarrow> nat list" where
  "star_ends 0 f i = [i]"
| "star_ends (Suc n) f i =
     concat (map (\<lambda>j. if i < j then star_ends n f j else []) (f i)) @ [i]"

fun lazy_ends :: "nat \<Rightarrow> (nat \<Rightarrow> nat list) \<Rightarrow> nat \<Rightarrow> nat list" where
  "lazy_ends 0 f i = [i]"
| "lazy_ends (Suc n) f i =
     i # concat (map (\<lambda>j. if i < j then lazy_ends n f j else []) (f i))"

fun rx_ends :: "rx \<Rightarrow> string \<Rightarrow> nat \<Rightarrow> nat list" where
  "rx_ends Eps s i = [i]"
| "rx_ends (Cls neg rs) s i =
     (if i < length s \<and> in_ranges rs (s ! i) \<noteq> neg then [Suc i] else [])"
| "rx_ends (Seq a b) s i = concat (map (rx_ends b s) (rx_ends a s i))"
| "rx_ends (Alt a b) s i = rx_ends a s i @ rx_ends b s i"
| "rx_ends (Star r) s i = star_ends (length s - i) (rx_ends r s) i"
| "rx_ends (LazyStar r) s i = lazy_ends (length s - i) (rx_ends r s) i"
| "rx_ends Bol s i = (if i = 0 then [i] else [])"
| "rx_ends Eol s i =
     (if i = length s \<or> (Suc i = length s \<and> s ! i = CHR 0x0A) then [i] else [])"
| "rx_ends WordB s i =
     (if (0 < i \<and> word_at s (i - 1)) \<noteq> word_at s i then [i] else [])"
| "rx_ends (Ahead neg r) s i = (if (rx_ends r s i = []) = neg then [i] else [])"

text \<open>Where a match may end: not before its start, and inside the text.\<close>

lemma star_ends_ge: "j \<in> set (star_ends n f i) \<Longrightarrow> i \<le> j"
  by (induction n arbitrary: i) (fastforce split: if_splits)+

lemma lazy_ends_ge: "j \<in> set (lazy_ends n f i) \<Longrightarrow> i \<le> j"
  by (induction n arbitrary: i) (fastforce split: if_splits)+

lemma star_ends_le:
  assumes f: "\<And>i j. i \<le> m \<Longrightarrow> j \<in> set (f i) \<Longrightarrow> j \<le> m"
  shows "i \<le> m \<Longrightarrow> j \<in> set (star_ends n f i) \<Longrightarrow> j \<le> m"
proof (induction n arbitrary: i)
  case (Suc n)
  from Suc.prems(2) consider "j = i" | k where "k \<in> set (f i)" "j \<in> set (star_ends n f k)"
    by (auto split: if_splits)
  then show ?case using Suc.IH f [OF Suc.prems(1)] Suc.prems(1) by cases blast+
qed simp

lemma lazy_ends_le:
  assumes f: "\<And>i j. i \<le> m \<Longrightarrow> j \<in> set (f i) \<Longrightarrow> j \<le> m"
  shows "i \<le> m \<Longrightarrow> j \<in> set (lazy_ends n f i) \<Longrightarrow> j \<le> m"
proof (induction n arbitrary: i)
  case (Suc n)
  from Suc.prems(2) consider "j = i" | k where "k \<in> set (f i)" "j \<in> set (lazy_ends n f k)"
    by (auto split: if_splits)
  then show ?case using Suc.IH f [OF Suc.prems(1)] Suc.prems(1) by cases blast+
qed simp

lemma rx_ends_bounds:
  "i \<le> length s \<Longrightarrow> j \<in> set (rx_ends r s i) \<Longrightarrow> i \<le> j \<and> j \<le> length s"
proof (induction r arbitrary: i j)
  case (Seq a b)
  from Seq.prems(2) obtain k where k: "k \<in> set (rx_ends a s i)" "j \<in> set (rx_ends b s k)"
    by auto
  from Seq.IH(1) [OF Seq.prems(1) k(1)] Seq.IH(2) [OF _ k(2)] show ?case by linarith
next
  case (Star r)
  have f: "k \<le> length s" if "i \<le> length s" "k \<in> set (rx_ends r s i)" for i k
    using Star.IH [OF that] by simp
  from Star.prems(2) have "j \<in> set (star_ends (length s - i) (rx_ends r s) i)" by simp
  with f Star.prems(1) have "j \<le> length s" by (rule star_ends_le)
  then show ?case using Star.prems(2) star_ends_ge by auto
next
  case (LazyStar r)
  have f: "k \<le> length s" if "i \<le> length s" "k \<in> set (rx_ends r s i)" for i k
    using LazyStar.IH [OF that] by simp
  from LazyStar.prems(2) have "j \<in> set (lazy_ends (length s - i) (rx_ends r s) i)" by simp
  with f LazyStar.prems(1) have "j \<le> length s" by (rule lazy_ends_le)
  then show ?case using LazyStar.prems(2) lazy_ends_ge by auto
next
  case (Alt a b)
  from Alt.prems(2) consider "j \<in> set (rx_ends a s i)" | "j \<in> set (rx_ends b s i)" by auto
  then show ?case using Alt.IH [OF Alt.prems(1)] by cases blast+
next
  case (Ahead neg r)
  from Ahead.prems show ?case by (simp split: if_split_asm)
qed (simp_all split: if_split_asm)

lemma star_ends_fuel:
  assumes "\<And>i j. j \<in> set (f i) \<Longrightarrow> j \<le> m"
  shows "m - i \<le> n \<Longrightarrow> set (star_ends (Suc n) f i) = set (star_ends n f i)"
proof (induction n arbitrary: i)
  case 0
  then have "\<not> i < j" if "j \<in> set (f i)" for j using assms [OF that] by simp
  then show ?case by auto
next
  case (Suc n)
  have "set (star_ends (Suc n) f j) = set (star_ends n f j)" if "i < j" for j
    using Suc.IH [of j] Suc.prems that by simp
  then show ?case
    unfolding star_ends.simps(2) [of "Suc n"] star_ends.simps(2) [of n f i]
    by (auto split: if_splits)
qed

subsection \<open>search, fullmatch and sub\<close>

fun search_from :: "rx \<Rightarrow> string \<Rightarrow> nat list \<Rightarrow> (nat \<times> nat) option" where
  "search_from r s [] = None"
| "search_from r s (i # is) =
     (case rx_ends r s i of [] \<Rightarrow> search_from r s is | j # _ \<Rightarrow> Some (i, j))"

definition rx_search :: "rx \<Rightarrow> string \<Rightarrow> (nat \<times> nat) option" where
  "rx_search r s = search_from r s [0..<Suc (length s)]"

definition rx_found :: "rx \<Rightarrow> string \<Rightarrow> bool" where
  "rx_found r s \<longleftrightarrow> rx_search r s \<noteq> None"

definition rx_fullmatch :: "rx \<Rightarrow> string \<Rightarrow> bool" where
  "rx_fullmatch r s \<longleftrightarrow> length s \<in> set (rx_ends r s 0)"

text \<open>
  \<open>pattern.sub(f, s)\<close>: the leftmost match at or after position \<open>i\<close> is replaced by \<open>f\<close> of
  the matched text; after an empty match one character is copied. Fuel: each round moves on
  by at least one position, so \<open>Suc (length s)\<close> rounds reach the end.
\<close>

fun sub_from :: "nat \<Rightarrow> rx \<Rightarrow> (string \<Rightarrow> string) \<Rightarrow> string \<Rightarrow> nat \<Rightarrow> string" where
  "sub_from 0 r f s i = drop i s"
| "sub_from (Suc n) r f s i =
     (case search_from r s [i..<Suc (length s)] of
        None \<Rightarrow> drop i s
      | Some (a, b) \<Rightarrow>
          take (a - i) (drop i s) @ f (take (b - a) (drop a s)) @
          (if a = b then take 1 (drop b s) @ (if b < length s then sub_from n r f s (Suc b) else [])
           else sub_from n r f s b))"

definition rx_sub :: "rx \<Rightarrow> (string \<Rightarrow> string) \<Rightarrow> string \<Rightarrow> string" where
  "rx_sub r f s = sub_from (Suc (length s)) r f s 0"

lemma search_from_Some:
  "search_from r s is = Some (a, b) \<Longrightarrow> a \<in> set is \<and> b \<in> set (rx_ends r s a)"
  by (induction "is") (auto split: list.splits)

lemma search_from_None_iff: "search_from r s is = None \<longleftrightarrow> (\<forall>i \<in> set is. rx_ends r s i = [])"
  by (induction "is") (auto split: list.splits)

lemma rx_found_iff: "rx_found r s \<longleftrightarrow> (\<exists>i \<le> length s. rx_ends r s i \<noteq> [])"
  unfolding rx_found_def rx_search_def search_from_None_iff set_upt
  by (auto simp: less_Suc_eq_le)

lemma rx_sub_no_match: "\<not> rx_found r s \<Longrightarrow> rx_sub r f s = s"
  by (simp add: rx_sub_def rx_found_def rx_search_def del: upt_Suc not_None_eq)

subsection \<open>Building blocks\<close>

definition rx_chr :: "char \<Rightarrow> rx" where
  "rx_chr c = Cls False [(c, c)]"

definition rx_lit :: "string \<Rightarrow> rx" where
  "rx_lit s = foldr (\<lambda>c r. Seq (rx_chr c) r) s Eps"

text \<open>A letter in both cases, for patterns under \<open>(?i)\<close>.\<close>

definition rx_ci :: "string \<Rightarrow> rx" where
  "rx_ci s = foldr (\<lambda>c r.
     Seq (if CHR ''a'' \<le> c \<and> c \<le> CHR ''z''
          then (let u = char_of (of_char c - (32::nat)) in Cls False [(c, c), (u, u)])
          else rx_chr c) r) s Eps"

definition rx_alts :: "rx list \<Rightarrow> rx" where
  "rx_alts rs = (case rs of [] \<Rightarrow> Alt Eps Eps | r # rest \<Rightarrow> fold (\<lambda>a acc. Alt acc a) rest r)"

definition rx_opt :: "rx \<Rightarrow> rx" where
  "rx_opt r = Alt r Eps"

definition rx_plus :: "rx \<Rightarrow> rx" where
  "rx_plus r = Seq r (Star r)"

definition rx_space :: rx where "rx_space = Cls False space_ranges"

definition rx_word :: rx where "rx_word = Cls False word_ranges"

text \<open>\<open>r{0,n}\<close>, greedy.\<close>

fun rx_upto :: "nat \<Rightarrow> rx \<Rightarrow> rx" where
  "rx_upto 0 r = Eps"
| "rx_upto (Suc n) r = Alt (Seq r (rx_upto n r)) Eps"

lemma rx_lit_simps [simp]:
  "rx_lit [] = Eps" "rx_lit (c # s) = Seq (rx_chr c) (rx_lit s)"
  by (simp_all add: rx_lit_def)

lemma rx_ends_lit: "rx_ends (rx_lit p) s i = (if take (length p) (drop i s) = p \<and> i + length p \<le> length s \<or> p = [] then [i + length p] else [])"
proof (induction p arbitrary: i)
  case Nil
  then show ?case by simp
next
  case (Cons c p)
  show ?case
  proof (cases "i < length s")
    case True
    then have "drop i s = s ! i # drop (Suc i) s" by (simp add: Cons_nth_drop_Suc)
    with True Cons [of "Suc i"] show ?thesis by (auto simp: rx_chr_def)
  next
    case False
    then show ?thesis by (simp add: rx_chr_def)
  qed
qed

text \<open>A full match of one class repeated: every character is in the class.\<close>

lemma star_ends_steps:
  assumes "\<And>i j. j \<in> set (f i) \<Longrightarrow> j = Suc i \<and> Q i"
  shows "j \<in> set (star_ends n f i) \<Longrightarrow> i \<le> k \<Longrightarrow> k < j \<Longrightarrow> Q k"
proof (induction n arbitrary: i)
  case 0
  then show ?case by simp
next
  case (Suc n)
  show ?case
  proof (cases "j = i")
    case True
    with Suc.prems show ?thesis by simp
  next
    case False
    with Suc.prems(1) obtain m where "m \<in> set (f i)" and m: "j \<in> set (star_ends n f m)"
      by (auto split: if_splits)
    with assms have step: "m = Suc i" "Q i" by blast+
    show ?thesis
    proof (cases "k = i")
      case True
      with step show ?thesis by simp
    next
      case False
      with Suc.prems(2) step(1) have "m \<le> k" by simp
      then show ?thesis using Suc.IH [OF m] Suc.prems(3) by blast
    qed
  qed
qed

lemma star_class_member:
  assumes "j \<in> set (star_ends n (rx_ends (Cls neg rs) s) i)" and "i \<le> k" and "k < j"
  shows "k < length s \<and> in_ranges rs (s ! k) \<noteq> neg"
  using assms(1)
  by (rule star_ends_steps [where Q = "\<lambda>k. k < length s \<and> in_ranges rs (s ! k) \<noteq> neg", rotated])
    (use assms in \<open>auto split: if_splits\<close>)

subsection \<open>Matching with groups\<close>

text \<open>All ways to match a sequence of expressions, in backtracking order, with the positions between
  them: group \<open>k\<close> lies between cut \<open>k\<close> and cut \<open>Suc k\<close>.\<close>

fun rx_cuts :: "rx list \<Rightarrow> string \<Rightarrow> nat \<Rightarrow> nat list list" where
  "rx_cuts [] s i = [[i]]"
| "rx_cuts (r # rs) s i = concat (map (\<lambda>j. map (\<lambda>c. i # c) (rx_cuts rs s j)) (rx_ends r s i))"

fun first_cuts :: "rx list \<Rightarrow> string \<Rightarrow> nat list \<Rightarrow> nat list option" where
  "first_cuts rs s [] = None"
| "first_cuts rs s (i # is) = (case rx_cuts rs s i of [] \<Rightarrow> first_cuts rs s is | c # _ \<Rightarrow> Some c)"

definition cut_piece :: "string \<Rightarrow> nat list \<Rightarrow> nat \<Rightarrow> string" where
  "cut_piece s c k = take (c ! Suc k - c ! k) (drop (c ! k) s)"

lemma rx_cuts_not_Nil: "c \<in> set (rx_cuts rs s i) \<Longrightarrow> c \<noteq> []"
  by (cases rs) auto

lemma rx_cuts_ends: "map last (rx_cuts rs s i) = rx_ends (foldr Seq rs Eps) s i"
proof (induction rs arbitrary: i)
  case (Cons r rs)
  have "map (\<lambda>c. last (i # c)) (rx_cuts rs s j) = rx_ends (foldr Seq rs Eps) s j" for j
    using Cons [of j] rx_cuts_not_Nil [of _ rs s j] by (metis (mono_tags, lifting) last_ConsR map_eq_conv)
  then show ?case by (simp add: map_concat comp_def)
qed simp

definition rx_any_char :: rx where "rx_any_char = Cls True []"

definition rx_dot :: rx where "rx_dot = Cls True [(CHR 0x0A, CHR 0x0A)]"

end
