(* ===== verification/Agent_Policy.thy ===== *)
theory Agent_Policy
  imports Smith_Models Rx
begin

section \<open>Agent Smith policy\<close>

text \<open>
  \<open>AgentPolicy\<close> of \<open>src/freyja/agents/policy.py\<close>: the operation and tool allowlists, the path
  checks and the loop detector. The loaded YAML is the record \<open>agent_policy\<close>. A path is the
  list of its parts below the root directory. What the file system answers is a parameter:
  \<open>resolve\<close> (\<open>Path(p).expanduser().resolve()\<close>) and \<open>is_symlink\<close>.
\<close>

type_synonym path = "string list"

record agent_policy =
  allowed_root :: path
  auto_allowed :: "string list"
  approval_required_ops :: "string list"
  prohibited_operations :: "string list"
  read_only_builtin_tools :: "string list"
  smith_read_only_tools :: "string list"
  write_pilot_allowed_tools :: "string list"
  write_pilot_sandbox :: path
  max_retries :: int
  secret_patterns :: "rx list"
  audit_enabled :: bool

text \<open>\<open>PolicyCheckResult(decision=ALLOW)\<close>, \<open>(decision=DENY, reason=...)\<close> and
  \<open>(decision=APPROVE, reason=..., approval_required=True)\<close>.\<close>

definition allow :: policy_result where
  "allow = \<lparr>decision = Allow, reason = None, approval_required = False\<rparr>"

definition deny_with :: "string \<Rightarrow> policy_result" where
  "deny_with m = \<lparr>decision = Deny, reason = Some m, approval_required = False\<rparr>"

definition approve_with :: "string \<Rightarrow> policy_result" where
  "approve_with m = \<lparr>decision = Approve, reason = Some m, approval_required = True\<rparr>"

lemma decision_simps [simp]:
  "decision allow = Allow" "decision (deny_with m) = Deny" "decision (approve_with m) = Approve"
  "approval_required allow = False" "approval_required (deny_with m) = False"
  "approval_required (approve_with m) = True"
  by (simp_all add: allow_def deny_with_def approve_with_def)

subsection \<open>Paths\<close>

definition path_parts :: "string \<Rightarrow> path" where
  "path_parts s = filter (\<lambda>p. p \<noteq> [] \<and> p \<noteq> ''.'') (split_at (\<lambda>c. c = CHR ''/'') s)"

definition path_text :: "path \<Rightarrow> string" where
  "path_text ps = ''/'' @ str_join ''/'' ps"

definition path_name :: "path \<Rightarrow> string" where
  "path_name ps = (if ps = [] then [] else last ps)"

text \<open>\<open>PurePath.suffix\<close>: from the last dot, which is neither the first nor the last character.\<close>

definition path_suffix :: "string \<Rightarrow> string" where
  "path_suffix name =
     (let ext = takeWhile (\<lambda>c. c \<noteq> CHR ''.'') (rev name);
          i = length name - length ext - 1
      in if length ext < length name \<and> 0 < i \<and> ext \<noteq> [] then ''.'' @ rev ext else [])"

text \<open>\<open>(^|/|\.)env\<close>, \<open>(^|/)secrets?(/|$)\<close>, \<open>(^|/|\.)(key|pem|crt|p12|pfx|keystore)(/|$)\<close>,
  \<open>(^|/)\.ssh(/|$)\<close>, \<open>(^|/)\.aws(/|$)\<close>, \<open>(^|/)\.git-credentials(/|$)\<close>.\<close>

definition rx_slash_or_start :: rx where "rx_slash_or_start = Alt Bol (rx_lit ''/'')"
definition rx_slash_or_end :: rx where "rx_slash_or_end = Alt (rx_lit ''/'') Eol"
definition rx_dot_slash_or_start :: rx where
  "rx_dot_slash_or_start = Alt (Alt Bol (rx_lit ''/'')) (rx_lit ''.'')"

definition SECRET_PATH_PATTERNS :: "rx list" where
  "SECRET_PATH_PATTERNS =
    [Seq rx_dot_slash_or_start (rx_lit ''env''),
     Seq rx_slash_or_start (Seq (rx_lit ''secret'') (Seq (rx_opt (rx_lit ''s'')) rx_slash_or_end)),
     Seq rx_dot_slash_or_start
       (Seq (rx_alts (map rx_lit [''key'', ''pem'', ''crt'', ''p12'', ''pfx'', ''keystore''])) rx_slash_or_end),
     Seq rx_slash_or_start (Seq (rx_lit ''.ssh'') rx_slash_or_end),
     Seq rx_slash_or_start (Seq (rx_lit ''.aws'') rx_slash_or_end),
     Seq rx_slash_or_start (Seq (rx_lit ''.git-credentials'') rx_slash_or_end)]"

definition is_secret_path :: "agent_policy \<Rightarrow> path \<Rightarrow> bool" where
  "is_secret_path P target \<longleftrightarrow>
     (let s = path_text target
      in (\<exists>r \<in> set (secret_patterns P). rx_found r s) \<or> (\<exists>r \<in> set SECRET_PATH_PATTERNS. rx_found r s))"

subsection \<open>Operations\<close>

definition check_tool_permitted :: "agent_policy \<Rightarrow> string \<Rightarrow> risk_level \<Rightarrow> policy_result" where
  "check_tool_permitted P tool risk =
    (if tool \<in> set (prohibited_operations P)
     then deny_with (''Tool '' @ quoted tool @ '' is prohibited for Agent Smith.'')
     else if risk = Read_only \<and>
         (tool \<in> set (read_only_builtin_tools P) \<or> tool \<in> set (smith_read_only_tools P))
     then allow
     else if risk = Controlled_write \<and> tool \<in> set (approval_required_ops P)
     then approve_with (''Tool '' @ quoted tool @ '' requires explicit approval before execution.'')
     else deny_with (''Tool '' @ quoted tool
            @ '' is not in the Agent Smith whitelist or is not read-only.''))"

definition check_path :: "agent_policy \<Rightarrow> (string \<Rightarrow> path) \<Rightarrow> string \<Rightarrow> policy_result" where
  "check_path P resolve requested =
    (let target = resolve requested
     in if \<not> prefix (allowed_root P) target
        then deny_with (''Path '' @ quoted requested @ '' is outside the allowed repository root ''
               @ quoted (path_text (allowed_root P)) @ ''.'')
        else if is_secret_path P target
        then deny_with (''Path '' @ quoted requested @ '' matches a protected secret pattern.'')
        else allow)"

definition check_operation ::
    "agent_policy \<Rightarrow> (string \<Rightarrow> path) \<Rightarrow> string \<Rightarrow> string option \<Rightarrow> policy_result" where
  "check_operation P resolve op target =
    (if op \<in> set (prohibited_operations P)
     then deny_with (''Operation '' @ quoted op @ '' is prohibited by Agent Smith policy.'')
     else
       (let verdict =
          (if op \<in> set (auto_allowed P) then allow
           else if op \<in> set (approval_required_ops P)
           then approve_with (''Operation '' @ quoted op
                  @ '' requires explicit approval before execution.'')
           else deny_with (''Operation '' @ quoted op @ '' is not in the Agent Smith allowlist.''))
        in case target of
             None \<Rightarrow> verdict
           | Some p \<Rightarrow> (let r = check_path P resolve p in if decision r = Deny then r else verdict)))"

definition check_approval :: "agent_policy \<Rightarrow> string \<Rightarrow> bool \<Rightarrow> policy_result" where
  "check_approval P op approved =
    (if op \<notin> set (approval_required_ops P) then allow
     else if approved
     then \<lparr>decision = Allow,
           reason = Some (''Operation '' @ quoted op @ '' was explicitly approved.''),
           approval_required = False\<rparr>
     else deny_with (''Operation '' @ quoted op
            @ '' requires explicit approval but was not approved.''))"

text \<open>The loop \<open>for parent in target.parents\<close>: from the longest proper prefix of the target
  down to the repository root.\<close>

fun symlink_above :: "(path \<Rightarrow> bool) \<Rightarrow> path \<Rightarrow> path \<Rightarrow> bool" where
  "symlink_above is_symlink root [] = False"
| "symlink_above is_symlink root (p # ps) =
     (let parent = butlast (p # ps)
      in if parent = root then False
         else if is_symlink parent then True
         else symlink_above is_symlink root parent)"

definition check_write_pilot_path ::
    "agent_policy \<Rightarrow> (path \<Rightarrow> bool) \<Rightarrow> path option \<Rightarrow> string \<Rightarrow> policy_result" where
  "check_write_pilot_path P is_symlink repo_root requested =
    (let q = ''Path '' @ quoted requested; parts = path_parts requested;
         root = (case repo_root of None \<Rightarrow> allowed_root P | Some r \<Rightarrow> r);
         target = root @ parts
     in if requested = [] then deny_with ''Write-pilot target path is empty.''
        else if CHR '' '' \<in> set requested
        then deny_with (q @ '' contains multiple path components.'')
        else if prefix ''-'' requested then deny_with (q @ '' looks like an option argument.'')
        else if prefix ''/'' requested \<or> prefix [CHR 0x5C] requested
        then deny_with (q @ '' is absolute; only repository-relative paths are allowed.'')
        else if ''..'' \<in> set parts then deny_with (q @ '' contains parent directory traversal.'')
        else if suffix ''/'' requested \<or> suffix [CHR 0x5C] requested
        then deny_with (q @ '' is a directory, not a file.'')
        else if prefix ''.'' (path_name parts) \<or> (\<exists>p \<in> set parts. prefix ''.'' p)
        then deny_with (q @ '' is hidden or contains hidden components.'')
        else if str_lower (path_suffix (path_name parts)) \<noteq> ''.md''
        then deny_with (q @ '' is not a Markdown (.md) file.'')
        else if symlink_above is_symlink root target
        then deny_with (q @ '' traverses a symlink.'')
        else if is_symlink target then deny_with (q @ '' is a symlink, which is not allowed.'')
        else if \<not> prefix (write_pilot_sandbox P) target
        then deny_with (q @ '' is outside the write-pilot sandbox ''
               @ quoted (path_text (write_pilot_sandbox P)) @ ''.'')
        else if is_secret_path P target
        then deny_with (q @ '' matches a protected secret pattern.'')
        else allow)"

definition check_write_pilot_tool :: "agent_policy \<Rightarrow> string \<Rightarrow> policy_result" where
  "check_write_pilot_tool P tool =
    (if tool \<in> set (prohibited_operations P)
     then deny_with (''Tool '' @ quoted tool @ '' is prohibited for the write-pilot.'')
     else if tool \<in> set (write_pilot_allowed_tools P) then allow
     else deny_with (''Tool '' @ quoted tool @ '' is not in the write-pilot allowlist: ''
            @ repr_list (sort (remdups (write_pilot_allowed_tools P))) @ ''.''))"

definition record_audit :: "string \<Rightarrow> string \<Rightarrow> string \<Rightarrow> json_obj \<Rightarrow> audit_event" where
  "record_audit request_id action outcome details =
     \<lparr>audit_request_id = request_id, audit_actor = ''agent_smith'', audit_action = action,
      audit_outcome = outcome, audit_details = details\<rparr>"

subsection \<open>Loop detection\<close>

text \<open>The last six fingerprints, the pairs of neighbours, and the counting loop, which returns
  as soon as one fingerprint is seen for the third time.\<close>

definition last_n :: "nat \<Rightarrow> 'a list \<Rightarrow> 'a list" where
  "last_n n xs = drop (length xs - n) xs"

fun third_time :: "(string \<Rightarrow> nat) \<Rightarrow> string list \<Rightarrow> bool" where
  "third_time counts [] = False"
| "third_time counts (x # xs) =
     (let c = counts x + 1 in if 3 \<le> c then True else third_time (counts(x := c)) xs)"

definition detect_loop :: "string list \<Rightarrow> bool" where
  "detect_loop fingerprints =
    (if length fingerprints < 4 then False
     else
       (let recent = last_n 6 fingerprints; pairs = zip recent (tl recent)
        in if length (remdups recent) = 1 then True
           else if 4 \<le> length pairs \<and> 2 \<le> count_list pairs (last pairs) then True
           else third_time (\<lambda>_. 0) recent))"

lemma length_last_n [simp]: "length (last_n n xs) = min n (length xs)"
  by (auto simp: last_n_def)

lemma third_time_iff:
  "\<forall>x. counts x < 3 \<Longrightarrow> third_time counts xs \<longleftrightarrow> (\<exists>x. 3 \<le> counts x + count_list xs x)"
proof (induction xs arbitrary: counts)
  case Nil
  then show ?case by (auto simp: not_le)
next
  case (Cons a xs)
  show ?case
  proof (cases "3 \<le> counts a + 1")
    case True
    then have "3 \<le> counts a + count_list (a # xs) a" by simp
    with True show ?thesis by (auto simp: Let_def)
  next
    case False
    then have "\<forall>x. (counts(a := counts a + 1)) x < 3" using Cons.prems by simp
    from Cons.IH [OF this] False show ?thesis by (simp add: Let_def fun_upd_def) (metis add_Suc_shift add_Suc)
  qed
qed

lemma one_value_count:
  assumes "length (remdups xs) = 1"
  shows "\<exists>x. count_list xs x = length xs"
proof -
  from assms obtain x where "remdups xs = [x]" by (auto simp: length_Suc_conv)
  then have "set xs \<subseteq> {x}" by (metis set_remdups list.set(1,2) order_refl)
  then have "count_list xs x = length xs" by (induction xs) auto
  then show ?thesis ..
qed


subsection \<open>Lemmas\<close>

lemma take_parents:
  "symlink_above is_symlink root target \<longleftrightarrow>
     (\<exists>n < length target. is_symlink (take n target) \<and> (\<forall>m. n \<le> m \<longrightarrow> m < length target \<longrightarrow> take m target \<noteq> root))"
proof (induction is_symlink root target rule: symlink_above.induct)
  case (1 is_symlink root)
  then show ?case by simp
next
  case (2 is_symlink root p ps)
  define t k where "t = p # ps" and "k = length ps"
  have len: "length t = Suc k" and parent: "butlast t = take k t"
    by (simp_all add: t_def k_def butlast_conv_take)
  have step: "symlink_above is_symlink root t \<longleftrightarrow>
      take k t \<noteq> root \<and> (is_symlink (take k t) \<or> symlink_above is_symlink root (take k t))"
    unfolding parent [symmetric] unfolding t_def symlink_above.simps Let_def by simp
  have IH: "symlink_above is_symlink root (take k t) \<longleftrightarrow> (\<exists>n < k. is_symlink (take n t) \<and>
      (\<forall>m. n \<le> m \<longrightarrow> m < k \<longrightarrow> take m t \<noteq> root))" if "take k t \<noteq> root" "\<not> is_symlink (take k t)"
    using 2 [OF refl that [folded parent, unfolded t_def]]
    unfolding t_def [symmetric] parent len by (auto simp: len min_def)
  have top: "\<not> (\<forall>m. n \<le> m \<longrightarrow> m < Suc k \<longrightarrow> take m t \<noteq> root)" if "take k t = root" "n < Suc k" for n
    using that by (auto intro!: exI [of _ k])
  show ?case
  proof (cases "take k t = root")
    case True
    then show ?thesis unfolding t_def [symmetric] step len using top by blast
  next
    case False
    then show ?thesis unfolding t_def [symmetric] step len
      using IH by (cases "is_symlink (take k t)") (auto simp: less_Suc_eq)
  qed
qed

text \<open>Below the root nothing on the way to the target is a symlink.\<close>

lemma no_symlink_below_root:
  assumes "\<not> symlink_above is_symlink root (root @ parts)" and "0 < k" and "k < length parts"
  shows "\<not> is_symlink (root @ take k parts)"
proof
  let ?t = "root @ parts" and ?n = "length root + k"
  assume "is_symlink (root @ take k parts)"
  then have "is_symlink (take ?n ?t)" by simp
  moreover have "?n < length ?t" using assms(3) by simp
  moreover have "take m ?t \<noteq> root" if "?n \<le> m" "m < length ?t" for m
  proof
    assume "take m ?t = root"
    then have "length (take m ?t) = length root" by simp
    with that assms(2) show False by simp
  qed
  ultimately show False using assms(1) take_parents [of is_symlink root ?t] by blast
qed

lemma path_parts_no_slash:
  "p \<in> set (path_parts s) \<Longrightarrow> p \<noteq> [] \<and> p \<noteq> ''.'' \<and> CHR ''/'' \<notin> set p"
  using split_at_pieces [of p "\<lambda>c. c = CHR ''/''" s] by (auto simp: path_parts_def)

lemma write_pilot_path_allowD:
  assumes "decision (check_write_pilot_path P is_symlink root requested) = Allow"
  defines "parts \<equiv> path_parts requested"
  defines "target \<equiv> (case root of None \<Rightarrow> allowed_root P | Some r \<Rightarrow> r) @ parts"
  shows "''..'' \<notin> set parts" and "\<forall>p \<in> set parts. \<not> prefix ''.'' p"
    and "str_lower (path_suffix (path_name parts)) = ''.md''"
    and "\<not> symlink_above is_symlink (case root of None \<Rightarrow> allowed_root P | Some r \<Rightarrow> r) target"
    and "\<not> is_symlink target" and "prefix (write_pilot_sandbox P) target"
    and "\<not> is_secret_path P target"
  using assms(1) unfolding check_write_pilot_path_def Let_def parts_def target_def
  by (auto split: if_split_asm)

lemma suffix_of_name: "path_suffix name \<noteq> [] \<Longrightarrow> suffix (path_suffix name) name"
proof -
  assume ne: "path_suffix name \<noteq> []"
  let ?ext = "takeWhile (\<lambda>c. c \<noteq> CHR ''.'') (rev name)"
  from ne have eq: "path_suffix name = ''.'' @ rev ?ext" and lt: "length ?ext < length name"
    by (auto simp: path_suffix_def Let_def split: if_splits)
  have split: "rev name = ?ext @ dropWhile (\<lambda>c. c \<noteq> CHR ''.'') (rev name)" by simp
  have "dropWhile (\<lambda>c. c \<noteq> CHR ''.'') (rev name) \<noteq> []"
  proof
    assume "dropWhile (\<lambda>c. c \<noteq> CHR ''.'') (rev name) = []"
    then have "?ext = rev name" using split by (simp only: append_Nil2)
    with lt show False by (metis length_rev less_irrefl)
  qed
  then obtain c rest where d: "dropWhile (\<lambda>c. c \<noteq> CHR ''.'') (rev name) = c # rest"
    by (cases "dropWhile (\<lambda>c. c \<noteq> CHR ''.'') (rev name)") auto
  then have "c = CHR ''.''" by (simp add: dropWhile_eq_Cons_conv)
  note d [unfolded this]
  with split have "rev name = ?ext @ CHR ''.'' # rest" by simp
  from arg_cong [OF this, of rev] have "name = rev rest @ ''.'' @ rev ?ext" by simp
  then show ?thesis unfolding eq suffix_def by blast
qed

lemma str_lower_append: "str_lower (a @ b) = str_lower a @ str_lower b"
  by (simp add: str_lower_def)

lemma lower_suffix_name:
  assumes "str_lower (path_suffix name) = ''.md''"
  shows "suffix ''.md'' (str_lower name)"
proof -
  have "path_suffix name \<noteq> []" using assms by (auto simp: str_lower_def)
  from suffix_of_name [OF this] obtain u where "name = u @ path_suffix name" by (auto simp: suffix_def)
  then have "str_lower name = str_lower u @ ''.md''" using assms str_lower_append by metis
  then show ?thesis unfolding suffix_def by blast
qed

subsection \<open>The shipped policy\<close>

text \<open>\<open>config/agent-smith-policy.yaml\<close>, for a repository at \<open>root\<close>.\<close>

definition shipped_policy :: "path \<Rightarrow> agent_policy" where
  "shipped_policy root = \<lparr>
     allowed_root = root,
     auto_allowed = [''repository_status'', ''repository_diff_summary'', ''run_test_suite'',
       ''compile_project'', ''validate_diff'', ''inspect'', ''no-op'', ''summarize''],
     approval_required_ops = [''git_commit'', ''bounded_file_write'', ''git_add'',
       ''restart_freyja_director'', ''dependency_change''],
     prohibited_operations = [''git_push'', ''git_force_push'', ''git_reset'', ''git_clean'',
       ''git_rebase'', ''destructive_git_operation'', ''arbitrary_shell'',
       ''arbitrary_filesystem_write'', ''package_installation'', ''service_termination'',
       ''credential_access'', ''secret_extraction'', ''outside_root_access'', ''execute_command''],
     read_only_builtin_tools = [''system_health'', ''list_models'', ''recall_conversation''],
     smith_read_only_tools = [''repository_status'', ''repository_diff_summary'',
       ''run_test_suite'', ''compile_project'', ''validate_diff''],
     write_pilot_allowed_tools = [''write_pilot_file_write'', ''write_pilot_git_add'',
       ''write_pilot_git_commit''],
     write_pilot_sandbox = root @ [''docs'', ''smith-pilot''],
     max_retries = 3,
     secret_patterns =
       map (\<lambda>e. Seq (rx_lit e) Eol) [''.env'', ''.pem'', ''.key'', ''.pfx'', ''.p12'', ''.crt''] @
       [Seq rx_slash_or_start (Seq (rx_lit ''secret'') (Seq (rx_opt (rx_lit ''s'')) rx_slash_or_end))] @
       map rx_lit [''token'', ''api_key'', ''password''],
     audit_enabled = True\<rparr>"

subsection \<open>Properties\<close>

definition pilot_root :: "agent_policy \<Rightarrow> path option \<Rightarrow> path" where
  "pilot_root P root = (case root of None \<Rightarrow> allowed_root P | Some r \<Rightarrow> r)"

text \<open>C18. A path the write pilot may write to is safe: its target lies in the sandbox, it has
  no empty, dot, dot-dot or hidden component, its name ends in \<open>.md\<close>, neither the target nor
  any directory between the repository root and the target is a symlink, and no secret
  pattern matches its text.\<close>

theorem write_pilot_path_safe:
  assumes "decision (check_write_pilot_path P is_symlink root requested) = Allow"
  shows "prefix (write_pilot_sandbox P) (pilot_root P root @ path_parts requested)
    \<and> (\<forall>p \<in> set (path_parts requested). p \<noteq> [] \<and> p \<noteq> ''..'' \<and> \<not> prefix ''.'' p \<and> CHR ''/'' \<notin> set p)
    \<and> suffix ''.md'' (str_lower (path_name (path_parts requested)))
    \<and> (\<forall>k. 0 < k \<longrightarrow> k \<le> length (path_parts requested) \<longrightarrow>
          \<not> is_symlink (pilot_root P root @ take k (path_parts requested)))
    \<and> (\<forall>r \<in> set (secret_patterns P) \<union> set SECRET_PATH_PATTERNS.
          \<not> rx_found r (path_text (pilot_root P root @ path_parts requested)))"
proof -
  note D = write_pilot_path_allowD [OF assms, folded pilot_root_def]
  have link: "\<not> is_symlink (pilot_root P root @ take k (path_parts requested))"
    if "0 < k" "k \<le> length (path_parts requested)" for k
    using that D(5) no_symlink_below_root [OF D(4), of k]
    by (cases "k = length (path_parts requested)") auto
  then show ?thesis
    using D(1-3,6,7) lower_suffix_name path_parts_no_slash
    by (auto simp: is_secret_path_def Let_def)
qed

theorem write_pilot_path_safe_witness:
  "prefix [''srv'', ''repo'', ''docs'', ''smith-pilot'']
     ([''srv'', ''repo''] @ path_parts ''docs/smith-pilot/note.md'')"
proof -
  have "decision (check_write_pilot_path (shipped_policy [''srv'', ''repo'']) (\<lambda>_. False) None
      ''docs/smith-pilot/note.md'') = Allow"
    by code_simp
  from write_pilot_path_safe [OF this, THEN conjunct1] show ?thesis
    by (simp add: shipped_policy_def pilot_root_def)
qed

text \<open>C23. The loop detector reports a loop exactly when, of the last six of at least four
  fingerprints, some fingerprint occurs three times, or (with five or more) the last pair of
  neighbours has occurred before.\<close>

theorem detect_loop_spec:
  "detect_loop fps \<longleftrightarrow>
     4 \<le> length fps \<and>
     (let recent = last_n 6 fps; pairs = zip recent (tl recent)
      in (\<exists>x. 3 \<le> count_list recent x) \<or>
         (5 \<le> length fps \<and> 2 \<le> count_list pairs (last pairs)))"
proof (cases "length fps < 4")
  case True
  then show ?thesis by (simp add: detect_loop_def)
next
  case False
  define recent where "recent = last_n 6 fps"
  have len: "4 \<le> length recent" using False by (simp add: recent_def)
  have same: "\<exists>x. 3 \<le> count_list recent x" if "length (remdups recent) = 1"
  proof -
    from one_value_count [OF that] obtain x where "count_list recent x = length recent" ..
    with len show ?thesis by (intro exI [of _ x]) simp
  qed
  have pairs: "4 \<le> length (zip recent (tl recent)) \<longleftrightarrow> 5 \<le> length fps"
    using False by (auto simp: recent_def)
  show ?thesis
    using False same pairs third_time_iff [of "\<lambda>_. 0" recent]
    by (auto simp: detect_loop_def Let_def simp flip: recent_def)
qed

text \<open>What the policy prohibits is refused by every check, whatever the other lists say; and
  a tool that is not read-only is never allowed without approval.\<close>

theorem prohibited_refused:
  "(op \<in> set (prohibited_operations P) \<longrightarrow>
      decision (check_tool_permitted P op risk) = Deny
      \<and> decision (check_operation P resolve op target) = Deny
      \<and> decision (check_write_pilot_tool P op) = Deny)
   \<and> (decision (check_tool_permitted P op risk) = Allow \<longrightarrow> risk = Read_only)
   \<and> (decision (check_tool_permitted P op risk) \<noteq> Deny \<longrightarrow> risk \<noteq> Privileged)"
  by (auto simp: check_tool_permitted_def check_operation_def check_write_pilot_tool_def)

theorem prohibited_refused_witness:
  "decision (check_tool_permitted (shipped_policy []) ''git_push'' Controlled_write) = Deny"
  using prohibited_refused [of "''git_push''" "shipped_policy []" Controlled_write "\<lambda>_. []" None]
  by (simp add: shipped_policy_def)

end
