(* ===== verification/Approval_Store.thy ===== *)
theory Approval_Store
  imports Smith_Models
begin

section \<open>The approval store\<close>

text \<open>
  \<open>SmithApprovalStore\<close> of \<open>src/freyja/agents/approval_store.py\<close>. The SQLite table is the list
  of its rows in rowid order; each method is a function of the current time, its arguments and
  the table that returns its result (or the \<open>ApprovalStoreError\<close> it raises) and the table
  afterwards. Columns that hold an ISO 8601 text hold the instant here; a comparison that SQL
  makes on the text is made on the text (\<open>iso_utc\<close>). \<open>secrets.token_urlsafe\<close> is the
  parameter \<open>new_id\<close> and the clock the parameter \<open>now\<close>. The statement of a method that writes
  runs in a later step than its \<open>SELECT\<close>, and other processes may write in between: the
  writing half of each method is a definition of its own (\<open>approve_commit\<close>, ...) and section
  ``Interleaved calls'' lets them run on tables that changed since the read.
\<close>

type_synonym approvals = "approval_record list"

fun record_status_value :: "approval_record_status \<Rightarrow> string" where
  "record_status_value Pending = ''pending''"
| "record_status_value Approved = ''approved''"
| "record_status_value Denied = ''denied''"
| "record_status_value Expired = ''expired''"
| "record_status_value Consumed = ''consumed''"
| "record_status_value Cancelled = ''cancelled''"

definition store_err :: "int \<Rightarrow> string \<Rightarrow> store_error" where
  "store_err code m = \<lparr>err_message = m, err_status = code\<rparr>"

lemma err_status_store_err [simp]: "err_status (store_err c m) = c"
  by (simp add: store_err_def)

definition unknown_approval :: "string \<Rightarrow> store_error" where
  "unknown_approval aid = store_err 404 (''Unknown approval: '' @ aid)"

definition expired_approval :: "string \<Rightarrow> store_error" where
  "expired_approval aid = store_err 410 (''Approval '' @ aid @ '' has expired'')"

definition already_resolved :: "string \<Rightarrow> approval_record_status \<Rightarrow> store_error" where
  "already_resolved aid st = store_err 409 (''Approval '' @ aid @ '' is already '' @ record_status_value st)"

lemmas store_errors = unknown_approval_def expired_approval_def already_resolved_def

subsection \<open>Operations\<close>

definition create_approval ::
    "int \<Rightarrow> utc \<Rightarrow> string \<Rightarrow> string \<Rightarrow> string \<Rightarrow> string \<Rightarrow> string option \<Rightarrow> string option \<Rightarrow> string
     \<Rightarrow> int option \<Rightarrow> json_obj \<Rightarrow> approvals \<Rightarrow> (store_error + approval_record) \<times> approvals" where
  "create_approval default_ttl now new_id req action target chash mhash summary ttl_seconds meta t =
    (let ttl = (case ttl_seconds of None \<Rightarrow> default_ttl | Some n \<Rightarrow> if n = 0 then default_ttl else n);
         expires = (if ttl = 0 then now - now mod usec_minute else now + ttl * usec_second);
         r = \<lparr>rec_id = new_id, rec_request_id = req, rec_action = action, rec_target_path = target,
              rec_content_hash = chash, rec_commit_message_hash = mhash, rec_status = Pending,
              rec_summary = summary, rec_created_at = now, rec_expires_at = expires,
              rec_resolved_at = None, rec_resolved_by = None, rec_denial_reason = None,
              rec_consumed_at = None, rec_metadata = meta\<rparr>
     in if \<exists>x \<in> set t. rec_id x = new_id \<or> (rec_request_id x = req \<and> rec_action x = action)
        then (Inl (store_err 500 (''Approval already exists for request_id='' @ req
                @ '' action='' @ action)), t)
        else (Inr r, t @ [r]))"

definition get_approval :: "string \<Rightarrow> approvals \<Rightarrow> approval_record option" where
  "get_approval aid t = row_of rec_id aid t"

definition list_by_request :: "string \<Rightarrow> approvals \<Rightarrow> approval_record list" where
  "list_by_request req t =
     sort_key (\<lambda>r. iso_utc (rec_created_at r)) (filter (\<lambda>r. rec_request_id r = req) t)"

definition list_pending :: "approvals \<Rightarrow> approval_record list" where
  "list_pending t =
     sort_key (\<lambda>r. iso_utc (rec_created_at r)) (filter (\<lambda>r. rec_status r = Pending) t)"

text \<open>\<open>UPDATE ... WHERE id = ? AND status = ?\<close>, the test \<open>conn.total_changes == 0\<close> and the
  \<open>SELECT\<close> of the row that the method returns.\<close>

definition guarded_update ::
    "string \<Rightarrow> approval_record_status \<Rightarrow> string \<Rightarrow> (approval_record \<Rightarrow> approval_record)
     \<Rightarrow> approvals \<Rightarrow> (store_error + approval_record) \<times> approvals" where
  "guarded_update aid st conflict f t =
    (let P = (\<lambda>r. rec_id r = aid \<and> rec_status r = st); t' = sql_update P f t
     in if sql_rowcount P t = 0
        then (Inl (store_err 409 (''Approval '' @ aid @ '' was '' @ conflict @ '' by another request'')), t)
        else case row_of rec_id aid t' of
               None \<Rightarrow> (Inl (store_err 500 ''row vanished''), t')
             | Some r \<Rightarrow> (Inr r, t'))"

definition expire_row :: "utc \<Rightarrow> string \<Rightarrow> approvals \<Rightarrow> approvals" where
  "expire_row now aid t =
     sql_update (\<lambda>r. rec_id r = aid) (\<lambda>r. r\<lparr>rec_status := Expired, rec_resolved_at := Some now\<rparr>) t"

definition approve_commit ::
    "utc \<Rightarrow> string \<Rightarrow> string \<Rightarrow> approvals \<Rightarrow> (store_error + approval_record) \<times> approvals" where
  "approve_commit now aid actor =
     guarded_update aid Pending ''resolved''
       (\<lambda>r. r\<lparr>rec_status := Approved, rec_resolved_at := Some now, rec_resolved_by := Some actor\<rparr>)"

definition approve ::
    "utc \<Rightarrow> string \<Rightarrow> string \<Rightarrow> approvals \<Rightarrow> (store_error + approval_record) \<times> approvals" where
  "approve now aid actor = transaction (\<lambda>t.
     case row_of rec_id aid t of
       None \<Rightarrow> (Inl (unknown_approval aid), t)
     | Some r \<Rightarrow>
         if rec_status r = Pending then
           (if rec_expires_at r < now then (Inl (expired_approval aid), expire_row now aid t)
            else approve_commit now aid actor t)
         else (Inl (already_resolved aid (rec_status r)), t))"

definition deny_commit ::
    "utc \<Rightarrow> string \<Rightarrow> string \<Rightarrow> string option \<Rightarrow> approvals \<Rightarrow> (store_error + approval_record) \<times> approvals"
    where
  "deny_commit now aid actor why =
     guarded_update aid Pending ''resolved''
       (\<lambda>r. r\<lparr>rec_status := Denied, rec_resolved_at := Some now, rec_resolved_by := Some actor,
              rec_denial_reason := Some (or_else why [])\<rparr>)"

definition deny ::
    "utc \<Rightarrow> string \<Rightarrow> string \<Rightarrow> string option \<Rightarrow> approvals \<Rightarrow> (store_error + approval_record) \<times> approvals"
    where
  "deny now aid actor why = transaction (\<lambda>t.
     case row_of rec_id aid t of
       None \<Rightarrow> (Inl (unknown_approval aid), t)
     | Some r \<Rightarrow>
         if rec_status r \<noteq> Pending then (Inl (already_resolved aid (rec_status r)), t)
         else deny_commit now aid actor why t)"

text \<open>What \<open>consume\<close> checks on the row it read; a hash is compared only where both the record
  and the caller have one.\<close>

record consume_args =
  use_request_id :: string
  use_action :: string
  use_target_path :: string
  use_content_hash :: "string option"
  use_commit_message_hash :: "string option"

definition hash_mismatch :: "string option \<Rightarrow> string option \<Rightarrow> bool" where
  "hash_mismatch given stored = (case (given, stored) of (Some a, Some b) \<Rightarrow> a \<noteq> b | _ \<Rightarrow> False)"

definition consume_check ::
    "utc \<Rightarrow> string \<Rightarrow> consume_args \<Rightarrow> approval_record \<Rightarrow> store_error option" where
  "consume_check now aid a r =
    (if rec_status r = Pending then
       (if rec_expires_at r < now then Some (expired_approval aid)
        else Some (store_err 409 (''Approval '' @ aid @ '' is still pending'')))
     else if rec_status r \<noteq> Approved then Some (already_resolved aid (rec_status r))
     else if rec_request_id r \<noteq> use_request_id a then Some (store_err 409 ''Approval request_id mismatch'')
     else if rec_action r \<noteq> use_action a then Some (store_err 409 ''Approval action mismatch'')
     else if rec_target_path r \<noteq> use_target_path a
     then Some (store_err 409 ''Approval target_path mismatch'')
     else if hash_mismatch (use_content_hash a) (rec_content_hash r)
     then Some (store_err 409 ''Approval content_hash mismatch'')
     else if hash_mismatch (use_commit_message_hash a) (rec_commit_message_hash r)
     then Some (store_err 409 ''Approval commit_message_hash mismatch'')
     else None)"

definition consume_commit ::
    "utc \<Rightarrow> string \<Rightarrow> string \<Rightarrow> approvals \<Rightarrow> (store_error + approval_record) \<times> approvals" where
  "consume_commit now aid actor =
     guarded_update aid Approved ''consumed''
       (\<lambda>r. r\<lparr>rec_status := Consumed, rec_consumed_at := Some now, rec_resolved_by := Some actor\<rparr>)"

definition consume ::
    "utc \<Rightarrow> string \<Rightarrow> consume_args \<Rightarrow> string \<Rightarrow> approvals \<Rightarrow> (store_error + approval_record) \<times> approvals"
    where
  "consume now aid a actor = transaction (\<lambda>t.
     case row_of rec_id aid t of
       None \<Rightarrow> (Inl (unknown_approval aid), t)
     | Some r \<Rightarrow>
         (case consume_check now aid a r of
            Some e \<Rightarrow>
              (Inl e, if rec_status r = Pending \<and> rec_expires_at r < now then expire_row now aid t else t)
          | None \<Rightarrow> consume_commit now aid actor t))"

definition cancel_commit ::
    "utc \<Rightarrow> string \<Rightarrow> string \<Rightarrow> approvals \<Rightarrow> (store_error + approval_record) \<times> approvals" where
  "cancel_commit now aid actor =
     guarded_update aid Pending ''resolved''
       (\<lambda>r. r\<lparr>rec_status := Cancelled, rec_resolved_at := Some now, rec_resolved_by := Some actor\<rparr>)"

definition cancel ::
    "utc \<Rightarrow> string \<Rightarrow> string \<Rightarrow> approvals \<Rightarrow> (store_error + approval_record) \<times> approvals" where
  "cancel now aid actor = transaction (\<lambda>t.
     case row_of rec_id aid t of
       None \<Rightarrow> (Inl (unknown_approval aid), t)
     | Some r \<Rightarrow>
         if rec_status r \<noteq> Pending then (Inl (already_resolved aid (rec_status r)), t)
         else cancel_commit now aid actor t)"

definition cleanup_expired :: "utc \<Rightarrow> approvals \<Rightarrow> nat \<times> approvals" where
  "cleanup_expired now t =
    (let P = (\<lambda>r. rec_status r = Pending \<and> iso_utc (rec_expires_at r) < iso_utc now)
     in (sql_rowcount P t, sql_update P (\<lambda>r. r\<lparr>rec_status := Expired\<rparr>) t))"

subsection \<open>Lifecycle of a row\<close>

text \<open>The fields that no operation changes.\<close>

definition same_guards :: "approval_record \<Rightarrow> approval_record \<Rightarrow> bool" where
  "same_guards r s \<longleftrightarrow> rec_id s = rec_id r \<and> rec_request_id s = rec_request_id r
     \<and> rec_action s = rec_action r \<and> rec_target_path s = rec_target_path r
     \<and> rec_content_hash s = rec_content_hash r
     \<and> rec_commit_message_hash s = rec_commit_message_hash r
     \<and> rec_created_at s = rec_created_at r \<and> rec_expires_at s = rec_expires_at r"

text \<open>Granted: an approval given before the record expired.\<close>

definition granted_in_time :: "approval_record \<Rightarrow> bool" where
  "granted_in_time r \<longleftrightarrow> (\<exists>w. rec_resolved_at r = Some w \<and> w \<le> rec_expires_at r)"

definition may_become :: "approval_record \<Rightarrow> approval_record \<Rightarrow> bool" where
  "may_become r s \<longleftrightarrow> s = r \<or> same_guards r s \<and>
     (rec_status r = Pending \<and> rec_status s \<noteq> Pending \<and>
        (rec_status s \<in> {Approved, Consumed} \<longrightarrow> granted_in_time s)
      \<or> rec_status r = Approved \<and> rec_status s = Consumed \<and> rec_resolved_at s = rec_resolved_at r
          \<and> rec_consumed_at s \<noteq> None)"

lemma may_become_refl: "may_become r r"
  by (simp add: may_become_def)

lemma may_become_guards: "may_become r s \<Longrightarrow> same_guards r s"
  by (auto simp: may_become_def same_guards_def)

lemma may_become_id: "may_become r s \<Longrightarrow> rec_id s = rec_id r"
  by (auto dest: may_become_guards simp: same_guards_def)

lemma may_become_trans:
  assumes "may_become r s" and "may_become s u"
  shows "may_become r u"
proof (cases "s = r \<or> u = s")
  case True
  then show ?thesis using assms by auto
next
  case False
  with assms have sg: "same_guards r s" "same_guards s u" by (auto simp: may_become_def)
  then have "same_guards r u" by (simp add: same_guards_def)
  moreover from False assms have "rec_status r = Pending" "rec_status s = Approved" "rec_status u = Consumed"
    "granted_in_time s" "rec_resolved_at u = rec_resolved_at s"
    by (auto simp: may_become_def)
  moreover from this sg have "granted_in_time u" by (simp add: granted_in_time_def same_guards_def)
  ultimately show ?thesis by (simp add: may_become_def)
qed

lemma may_become_terminal:
  "may_become r s \<Longrightarrow> rec_status r \<notin> {Pending, Approved} \<Longrightarrow> s = r"
  by (auto simp: may_become_def)

text \<open>One writing statement.\<close>

lemma guarded_update_hit:
  assumes "row_of rec_id aid t = Some r" and "rec_status r = st" and "\<And>x. rec_id (f x) = rec_id x"
  shows "guarded_update aid st c f t =
    (Inr (f r), sql_update (\<lambda>r. rec_id r = aid \<and> rec_status r = st) f t)"
proof -
  have r: "r \<in> set t" "rec_id r = aid" using assms(1) by (auto dest: row_of_SomeD)
  then have "sql_rowcount (\<lambda>r. rec_id r = aid \<and> rec_status r = st) t \<noteq> 0"
    using assms(2) by (auto simp: sql_rowcount_0_iff)
  then show ?thesis
    using assms r(2) by (simp add: guarded_update_def Let_def row_of_sql_update)
qed

lemma guarded_update_miss:
  assumes "distinct (map rec_id t)" and "\<And>r. row_of rec_id aid t = Some r \<Longrightarrow> rec_status r \<noteq> st"
  shows "guarded_update aid st c f t =
    (Inl (store_err 409 (''Approval '' @ aid @ '' was '' @ c @ '' by another request'')), t)"
proof -
  have "\<forall>r \<in> set t. \<not> (rec_id r = aid \<and> rec_status r = st)"
    using assms row_of_distinct [OF assms(1)] by blast
  then show ?thesis by (simp add: guarded_update_def Let_def sql_rowcount_0_iff)
qed

text \<open>What the four statements write is an allowed move of the row.\<close>

abbreviation approvals_move :: "approvals \<Rightarrow> approvals \<Rightarrow> bool" where
  "approvals_move \<equiv> table_move rec_id may_become (\<lambda>r. rec_status r = Pending)"

lemma guarded_update_move:
  assumes "\<And>r. rec_id r = aid \<Longrightarrow> rec_status r = st \<Longrightarrow> may_become r (f r)"
  shows "approvals_move t (snd (guarded_update aid st c f t))"
  using table_move_update [of may_become rec_id "\<lambda>r. rec_id r = aid \<and> rec_status r = st" f]
    assms may_become_refl may_become_id table_move_refl [of may_become]
  by (auto simp: guarded_update_def Let_def split: option.splits)

lemma deny_commit_move: "approvals_move t (snd (deny_commit now aid actor why t))"
  unfolding deny_commit_def
  by (rule guarded_update_move) (simp add: may_become_def same_guards_def)

lemma cancel_commit_move: "approvals_move t (snd (cancel_commit now aid actor t))"
  unfolding cancel_commit_def
  by (rule guarded_update_move) (simp add: may_become_def same_guards_def)

lemma consume_commit_move: "approvals_move t (snd (consume_commit now aid actor t))"
  unfolding consume_commit_def
  by (rule guarded_update_move) (simp add: may_become_def same_guards_def)

lemma approve_commit_move:
  assumes "\<And>r. row_of rec_id aid t = Some r \<Longrightarrow> now \<le> rec_expires_at r" and "distinct (map rec_id t)"
  shows "approvals_move t (snd (approve_commit now aid actor t))"
proof (cases "\<exists>r. row_of rec_id aid t = Some r \<and> rec_status r = Pending")
  case True
  let ?P = "\<lambda>r. rec_id r = aid \<and> rec_status r = Pending \<and> now \<le> rec_expires_at r"
  let ?f = "\<lambda>r. r\<lparr>rec_status := Approved, rec_resolved_at := Some now, rec_resolved_by := Some actor\<rparr>"
  from True obtain r where r: "row_of rec_id aid t = Some r" "rec_status r = Pending" by blast
  have "now \<le> rec_expires_at x" if "x \<in> set t" "rec_id x = aid" for x
    using assms(1) row_of_distinct [OF assms(2) that(1)] that(2) by simp
  then have "sql_update (\<lambda>r. rec_id r = aid \<and> rec_status r = Pending) ?f t = sql_update ?P ?f t"
    by (simp add: sql_update_def)
  moreover have "approvals_move t (sql_update ?P ?f t)"
    by (rule table_move_update)
      (auto simp: may_become_refl may_become_id, simp add: may_become_def same_guards_def granted_in_time_def)
  ultimately show ?thesis
    unfolding approve_commit_def by (simp add: guarded_update_hit [OF r])
next
  case False
  then show ?thesis
    unfolding approve_commit_def
    by (subst guarded_update_miss [OF assms(2)]) (auto simp: table_move_refl may_become_refl)
qed

lemma expire_row_miss: "aid \<notin> rec_id ` set t \<Longrightarrow> expire_row now aid t = t"
  unfolding expire_row_def by (rule sql_update_none) auto

text \<open>The complete calls.\<close>

lemma approve_result:
  assumes "distinct (map rec_id t)"
  shows "approve now aid actor t =
    (case row_of rec_id aid t of
       None \<Rightarrow> (Inl (unknown_approval aid), t)
     | Some r \<Rightarrow>
         if rec_status r \<noteq> Pending then (Inl (already_resolved aid (rec_status r)), t)
         else if rec_expires_at r < now then (Inl (expired_approval aid), t)
         else (let s = r\<lparr>rec_status := Approved, rec_resolved_at := Some now, rec_resolved_by := Some actor\<rparr>
               in (Inr s, sql_update (\<lambda>x. rec_id x = aid \<and> rec_status x = Pending)
                    (\<lambda>x. x\<lparr>rec_status := Approved, rec_resolved_at := Some now, rec_resolved_by := Some actor\<rparr>) t)))"
  by (auto simp: approve_def transaction_def approve_commit_def guarded_update_hit Let_def
      split: option.splits)

lemma consume_result:
  assumes "distinct (map rec_id t)"
  shows "consume now aid a actor t =
    (case row_of rec_id aid t of
       None \<Rightarrow> (Inl (unknown_approval aid), t)
     | Some r \<Rightarrow>
         (case consume_check now aid a r of
            Some e \<Rightarrow> (Inl e, t)
          | None \<Rightarrow>
              (Inr (r\<lparr>rec_status := Consumed, rec_consumed_at := Some now, rec_resolved_by := Some actor\<rparr>),
               sql_update (\<lambda>x. rec_id x = aid \<and> rec_status x = Approved)
                 (\<lambda>x. x\<lparr>rec_status := Consumed, rec_consumed_at := Some now, rec_resolved_by := Some actor\<rparr>) t)))"
proof -
  have "rec_status r = Approved" if "consume_check now aid a r = None" for r
    using that by (auto simp: consume_check_def split: if_splits)
  then show ?thesis
    by (auto simp: consume_def transaction_def consume_commit_def guarded_update_hit
        split: option.splits)
qed

subsection \<open>Histories of calls\<close>

datatype approval_op =
    Op_create int utc string string string string "string option" "string option" string "int option" json_obj
  | Op_approve utc string string
  | Op_deny utc string string "string option"
  | Op_consume utc string consume_args string
  | Op_cancel utc string string
  | Op_cleanup utc

fun approvals_step :: "approval_op \<Rightarrow> approvals \<Rightarrow> approvals" where
  "approvals_step (Op_create d now i req act tgt ch mh summ ttl meta) t =
     snd (create_approval d now i req act tgt ch mh summ ttl meta t)"
| "approvals_step (Op_approve now aid actor) t = snd (approve now aid actor t)"
| "approvals_step (Op_deny now aid actor why) t = snd (deny now aid actor why t)"
| "approvals_step (Op_consume now aid a actor) t = snd (consume now aid a actor t)"
| "approvals_step (Op_cancel now aid actor) t = snd (cancel now aid actor t)"
| "approvals_step (Op_cleanup now) t = snd (cleanup_expired now t)"

lemma create_move: "approvals_move t (snd (create_approval d now i req act tgt ch mh summ ttl meta t))"
  by (auto simp: create_approval_def Let_def table_move_refl may_become_refl
      intro!: table_move_insert)

lemma cleanup_move: "approvals_move t (snd (cleanup_expired now t))"
  unfolding cleanup_expired_def Let_def snd_conv
  by (rule table_move_update)
    (auto simp: may_become_refl may_become_id, simp add: may_become_def same_guards_def)

lemma approve_move: "approvals_move t (snd (approve now aid actor t))"
proof (cases "distinct (map rec_id t)")
  case True
  show ?thesis
  proof (cases "\<exists>r. row_of rec_id aid t = Some r \<and> rec_status r = Pending \<and> now \<le> rec_expires_at r")
    case ok: True
    then have "snd (approve now aid actor t) = snd (approve_commit now aid actor t)"
      by (auto simp: approve_def transaction_def approve_commit_def guarded_update_hit)
    moreover have "now \<le> rec_expires_at x" if "row_of rec_id aid t = Some x" for x
      using ok that by auto
    ultimately show ?thesis using approve_commit_move [of aid t now actor, OF _ True] by simp
  next
    case False
    then have "snd (approve now aid actor t) = t"
      by (auto simp: approve_result [OF True] split: option.splits)
    then show ?thesis by (simp add: table_move_refl may_become_refl)
  qed
qed (simp add: table_move_def)

lemma consume_move: "approvals_move t (snd (consume now aid a actor t))"
proof (cases "distinct (map rec_id t)")
  case True
  show ?thesis
    using consume_commit_move [of t now aid actor]
    unfolding consume_result [OF True]
    by (auto simp: table_move_refl may_become_refl consume_check_def consume_commit_def
        guarded_update_hit split: option.splits if_splits)
qed (simp add: table_move_def)

lemma deny_move: "approvals_move t (snd (deny now aid actor why t))"
  unfolding deny_def
  by (rule table_move_transaction)
    (auto simp: table_move_refl may_become_refl deny_commit_move split: option.splits)

lemma cancel_move: "approvals_move t (snd (cancel now aid actor t))"
  unfolding cancel_def
  by (rule table_move_transaction)
    (auto simp: table_move_refl may_become_refl cancel_commit_move split: option.splits)

interpretation approvals: row_machine rec_id may_become "\<lambda>r. rec_status r = Pending" "\<lambda>t. t" approvals_step
proof
  show "approvals_move t (approvals_step x t)" for t x
    by (cases x) (simp_all add: create_move approve_move deny_move consume_move cancel_move cleanup_move)
qed (auto intro: may_become_refl may_become_trans may_become_id)

subsection \<open>Interleaved calls\<close>

text \<open>
  A call reads its row, checks it, and writes in a later step. The system state holds the table,
  the calls that passed their check and have not written yet, and the calls that succeeded.
\<close>

datatype approval_call =
    Call_approve utc string string
  | Call_deny utc string string "string option"
  | Call_consume utc string consume_args string
  | Call_cancel utc string string

fun call_id :: "approval_call \<Rightarrow> string" where
  "call_id (Call_approve now aid actor) = aid"
| "call_id (Call_deny now aid actor why) = aid"
| "call_id (Call_consume now aid a actor) = aid"
| "call_id (Call_cancel now aid actor) = aid"

fun call_check :: "approval_call \<Rightarrow> approval_record \<Rightarrow> store_error option" where
  "call_check (Call_approve now aid actor) r =
     (if rec_status r \<noteq> Pending then Some (already_resolved aid (rec_status r))
      else if rec_expires_at r < now then Some (expired_approval aid) else None)"
| "call_check (Call_deny now aid actor why) r =
     (if rec_status r \<noteq> Pending then Some (already_resolved aid (rec_status r)) else None)"
| "call_check (Call_consume now aid a actor) r = consume_check now aid a r"
| "call_check (Call_cancel now aid actor) r =
     (if rec_status r \<noteq> Pending then Some (already_resolved aid (rec_status r)) else None)"

fun call_commit :: "approval_call \<Rightarrow> approvals \<Rightarrow> (store_error + approval_record) \<times> approvals" where
  "call_commit (Call_approve now aid actor) t = approve_commit now aid actor t"
| "call_commit (Call_deny now aid actor why) t = deny_commit now aid actor why t"
| "call_commit (Call_consume now aid a actor) t = consume_commit now aid actor t"
| "call_commit (Call_cancel now aid actor) t = cancel_commit now aid actor t"

fun call_run :: "approval_call \<Rightarrow> approvals \<Rightarrow> (store_error + approval_record) \<times> approvals" where
  "call_run (Call_approve now aid actor) t = approve now aid actor t"
| "call_run (Call_deny now aid actor why) t = deny now aid actor why t"
| "call_run (Call_consume now aid a actor) t = consume now aid a actor t"
| "call_run (Call_cancel now aid actor) t = cancel now aid actor t"

fun is_consume :: "approval_call \<Rightarrow> bool" where
  "is_consume (Call_consume now aid a actor) = True"
| "is_consume _ = False"

text \<open>A method is its check followed at once by its write.\<close>

lemma call_run_split:
  "call_run c t =
    (case row_of rec_id (call_id c) t of
       None \<Rightarrow> (Inl (unknown_approval (call_id c)), t)
     | Some r \<Rightarrow> (case call_check c r of Some e \<Rightarrow> (Inl e, t) | None \<Rightarrow> transaction (call_commit c) t))"
  by (cases c)
    (auto simp: approve_def deny_def consume_def cancel_def transaction_def split: option.splits)

record approval_system =
  sys_table :: approvals
  sys_flying :: "approval_call list"
  sys_won :: "approval_call list"

inductive sys_step :: "approval_system \<Rightarrow> approval_system \<Rightarrow> bool" where
  sys_read: "row_of rec_id (call_id c) (sys_table s) = Some r \<Longrightarrow> call_check c r = None \<Longrightarrow>
    sys_step s (s\<lparr>sys_flying := sys_flying s @ [c]\<rparr>)"
| sys_fail: "c \<in> set (sys_flying s) \<Longrightarrow> call_commit c (sys_table s) = (Inl e, t) \<Longrightarrow>
    sys_step s (s\<lparr>sys_flying := remove1 c (sys_flying s)\<rparr>)"
| sys_write: "c \<in> set (sys_flying s) \<Longrightarrow> call_commit c (sys_table s) = (Inr r, t) \<Longrightarrow>
    sys_step s (s\<lparr>sys_table := t, sys_flying := remove1 c (sys_flying s), sys_won := sys_won s @ [c]\<rparr>)"
| sys_create: "create_approval d now i req act tgt ch mh summ ttl meta (sys_table s) = (res, t) \<Longrightarrow>
    sys_step s (s\<lparr>sys_table := t\<rparr>)"
| sys_cleanup: "cleanup_expired now (sys_table s) = (n, t) \<Longrightarrow> sys_step s (s\<lparr>sys_table := t\<rparr>)"

inductive_cases sys_stepE: "sys_step s s'"

inductive sys_reach :: "approvals \<Rightarrow> approval_system \<Rightarrow> bool" for t0 where
  sys_start: "sys_reach t0 \<lparr>sys_table = t0, sys_flying = [], sys_won = []\<rparr>"
| sys_next: "sys_reach t0 s \<Longrightarrow> sys_step s s' \<Longrightarrow> sys_reach t0 s'"

text \<open>The part of a call's check that stays true: it reads only fields that never change.\<close>

fun call_guard :: "approval_call \<Rightarrow> approval_record \<Rightarrow> bool" where
  "call_guard (Call_approve now aid actor) r = (now \<le> rec_expires_at r)"
| "call_guard (Call_consume now aid a actor) r =
     (rec_request_id r = use_request_id a \<and> rec_action r = use_action a
      \<and> rec_target_path r = use_target_path a
      \<and> \<not> hash_mismatch (use_content_hash a) (rec_content_hash r)
      \<and> \<not> hash_mismatch (use_commit_message_hash a) (rec_commit_message_hash r))"
| "call_guard _ r = True"

lemma call_check_guard: "call_check c r = None \<Longrightarrow> call_guard c r"
  by (cases c) (auto simp: consume_check_def split: if_splits)

lemma call_guard_stable: "may_become r s \<Longrightarrow> call_guard c r \<Longrightarrow> call_guard c s"
  using may_become_guards [of r s] by (cases c) (auto simp: same_guards_def)

text \<open>The invariant of the system.\<close>

definition sys_inv :: "approval_system \<Rightarrow> bool" where
  "sys_inv s \<longleftrightarrow> distinct (map rec_id (sys_table s))
     \<and> (\<forall>c \<in> set (sys_flying s). \<exists>r \<in> set (sys_table s). rec_id r = call_id c \<and> call_guard c r)
     \<and> (\<forall>c \<in> set (sys_won s). is_consume c \<longrightarrow>
          (\<exists>r \<in> set (sys_table s). rec_id r = call_id c \<and> rec_status r = Consumed \<and> call_guard c r))
     \<and> distinct (map call_id (filter is_consume (sys_won s)))"

lemma sys_inv_move:
  assumes "sys_inv s" and move: "approvals_move (sys_table s) t"
    and "set fl \<subseteq> set (sys_flying s)"
  shows "sys_inv (s\<lparr>sys_table := t, sys_flying := fl\<rparr>)"
proof -
  from assms(1) have d: "distinct (map rec_id (sys_table s))" by (simp add: sys_inv_def)
  with move have t: "distinct (map rec_id t)" "\<forall>r \<in> set (sys_table s). \<exists>u \<in> set t. may_become r u"
    by (auto simp: table_move_def)
  have stay: "\<exists>u \<in> set t. rec_id u = rec_id r \<and> call_guard c u \<and> (rec_status r = Consumed \<longrightarrow> rec_status u = Consumed)"
    if r: "r \<in> set (sys_table s)" and g: "call_guard c r" for r c
  proof -
    from t(2) r obtain u where u: "u \<in> set t" "may_become r u" by blast
    then have "rec_status r = Consumed \<longrightarrow> rec_status u = Consumed"
      using may_become_terminal [OF u(2)] by auto
    with u may_become_id [OF u(2)] call_guard_stable [OF u(2) g] show ?thesis by blast
  qed
  have "\<exists>r \<in> set t. rec_id r = call_id c \<and> call_guard c r" if "c \<in> set fl" for c
  proof -
    from that assms(1,3) obtain r where "r \<in> set (sys_table s)" "rec_id r = call_id c" "call_guard c r"
      unfolding sys_inv_def by blast
    with stay [of r c] show ?thesis by metis
  qed
  moreover have "\<exists>r \<in> set t. rec_id r = call_id c \<and> rec_status r = Consumed \<and> call_guard c r"
    if "c \<in> set (sys_won s)" "is_consume c" for c
  proof -
    from that assms(1) obtain r where "r \<in> set (sys_table s)" "rec_id r = call_id c"
      "rec_status r = Consumed" "call_guard c r"
      unfolding sys_inv_def by blast
    with stay [of r c] show ?thesis by metis
  qed
  ultimately show ?thesis using assms(1) t(1) unfolding sys_inv_def by simp
qed

lemma sys_inv_write:
  assumes inv: "sys_inv s" and c: "c \<in> set (sys_flying s)"
    and w: "call_commit c (sys_table s) = (Inr r, t)"
  shows "sys_inv (s\<lparr>sys_table := t, sys_flying := remove1 c (sys_flying s), sys_won := sys_won s @ [c]\<rparr>)"
proof -
  let ?t = "sys_table s"
  from inv have d: "distinct (map rec_id ?t)" by (simp add: sys_inv_def)
  from inv c obtain r0 where r0: "r0 \<in> set ?t" "rec_id r0 = call_id c" "call_guard c r0"
    by (auto simp: sys_inv_def)
  then have row: "row_of rec_id (call_id c) ?t = Some r0" using row_of_distinct [OF d r0(1)] by simp
  have move: "approvals_move ?t t"
  proof (cases c)
    case (Call_approve now aid actor)
    have "now \<le> rec_expires_at x" if "row_of rec_id aid ?t = Some x" for x
      using that row r0(3) Call_approve by simp
    from approve_commit_move [OF this d] w Call_approve show ?thesis by (metis call_commit.simps(1) snd_conv)
  next
    case (Call_deny now aid actor why)
    then show ?thesis using deny_commit_move w by (metis call_commit.simps(2) snd_conv)
  next
    case (Call_consume now aid a actor)
    then show ?thesis using consume_commit_move w by (metis call_commit.simps(3) snd_conv)
  next
    case (Call_cancel now aid actor)
    then show ?thesis using cancel_commit_move w by (metis call_commit.simps(4) snd_conv)
  qed
  from sys_inv_move [OF inv move set_remove1_subset]
  have inv': "sys_inv (s\<lparr>sys_table := t, sys_flying := remove1 c (sys_flying s)\<rparr>)" .
  show ?thesis
  proof (cases c)
    case (Call_consume now aid a actor)
    have st: "rec_status r0 = Approved"
    proof (rule ccontr)
      assume "rec_status r0 \<noteq> Approved"
      then have "rec_status x \<noteq> Approved" if "row_of rec_id aid ?t = Some x" for x
        using that row Call_consume by simp
      from guarded_update_miss [OF d this] w Call_consume show False
        by (simp add: consume_commit_def)
    qed
    let ?f = "\<lambda>r. r\<lparr>rec_status := Consumed, rec_consumed_at := Some now, rec_resolved_by := Some actor\<rparr>"
    have "t = sql_update (\<lambda>r. rec_id r = aid \<and> rec_status r = Approved) ?f ?t"
      using w row st Call_consume by (simp add: consume_commit_def guarded_update_hit)
    then have new: "?f r0 \<in> set t" using r0(1,2) st Call_consume by (force simp: set_sql_update)
    have "call_guard c (?f r0)" using r0(3) Call_consume by simp
    then have "\<exists>r \<in> set t. rec_id r = call_id c \<and> rec_status r = Consumed \<and> call_guard c r"
      using new r0(2) by (intro bexI [OF _ new]) simp
    moreover have "call_id c \<notin> call_id ` set (filter is_consume (sys_won s))"
    proof
      assume "call_id c \<in> call_id ` set (filter is_consume (sys_won s))"
      then obtain r1 where "r1 \<in> set ?t" "rec_id r1 = call_id c" "rec_status r1 = Consumed"
        using inv by (force simp: sys_inv_def)
      with st row show False using row_of_distinct [OF d] by fastforce
    qed
    ultimately show ?thesis
      using inv' unfolding sys_inv_def by (auto simp: image_iff)
  qed (use inv' in \<open>auto simp: sys_inv_def\<close>)
qed

lemma sys_inv_step: "sys_inv s \<Longrightarrow> sys_step s s' \<Longrightarrow> sys_inv s'"
proof (erule sys_stepE)
  fix c r assume inv: "sys_inv s" and s': "s' = s\<lparr>sys_flying := sys_flying s @ [c]\<rparr>"
    and row: "row_of rec_id (call_id c) (sys_table s) = Some r" and chk: "call_check c r = None"
  from row_of_SomeD [OF row] call_check_guard [OF chk] inv show "sys_inv s'"
    unfolding s' by (auto simp: sys_inv_def)
next
  fix c assume "sys_inv s" and s': "s' = s\<lparr>sys_flying := remove1 c (sys_flying s)\<rparr>"
  from sys_inv_move [OF this(1) table_move_refl set_remove1_subset] show "sys_inv s'"
    unfolding s' by (simp add: may_become_refl)
next
  fix c r t assume "sys_inv s" "c \<in> set (sys_flying s)" "call_commit c (sys_table s) = (Inr r, t)"
    and s': "s' = s\<lparr>sys_table := t, sys_flying := remove1 c (sys_flying s), sys_won := sys_won s @ [c]\<rparr>"
  then show "sys_inv s'" unfolding s' by (intro sys_inv_write)
next
  fix d now i req act tgt ch mh summ ttl meta res t
  assume inv: "sys_inv s" and s': "s' = s\<lparr>sys_table := t\<rparr>"
    and c: "create_approval d now i req act tgt ch mh summ ttl meta (sys_table s) = (res, t)"
  have "approvals_move (sys_table s) t"
    using create_move [of "sys_table s" d now i req act tgt ch mh summ ttl meta] c by simp
  from sys_inv_move [OF inv this order_refl] show "sys_inv s'" unfolding s' by simp
next
  fix now n t assume inv: "sys_inv s" and s': "s' = s\<lparr>sys_table := t\<rparr>"
    and c: "cleanup_expired now (sys_table s) = (n, t)"
  have "approvals_move (sys_table s) t" using cleanup_move [of "sys_table s" now] c by simp
  from sys_inv_move [OF inv this order_refl] show "sys_inv s'" unfolding s' by simp
qed

lemma sys_reach_inv: "sys_reach t0 s \<Longrightarrow> distinct (map rec_id t0) \<Longrightarrow> sys_inv s"
proof (induction rule: sys_reach.induct)
  case sys_start
  then show ?case by (simp add: sys_inv_def)
next
  case (sys_next s s')
  then show ?case using sys_inv_step by blast
qed

subsection \<open>Properties\<close>

text \<open>C22. \<open>consume\<close> succeeds only on an approved record of the same request, action and path;
  of the two hashes each has to agree only where both the record and the caller have one, and is
  not compared otherwise. It marks that record consumed and changes nothing else of it. A call
  that fails reports 404, 409 or 410 and leaves the table as it was.\<close>

theorem consume_safe:
  assumes "distinct (map rec_id t)"
  shows "case consume now aid a actor t of
      (Inl e, t') \<Rightarrow> t' = t \<and> err_status e \<in> {404, 409, 410}
    | (Inr s, t') \<Rightarrow> \<exists>r. row_of rec_id aid t = Some r \<and> rec_status r = Approved
        \<and> rec_request_id r = use_request_id a \<and> rec_action r = use_action a
        \<and> rec_target_path r = use_target_path a
        \<and> \<not> hash_mismatch (use_content_hash a) (rec_content_hash r)
        \<and> \<not> hash_mismatch (use_commit_message_hash a) (rec_commit_message_hash r)
        \<and> s = r\<lparr>rec_status := Consumed, rec_consumed_at := Some now, rec_resolved_by := Some actor\<rparr>
        \<and> row_of rec_id aid t' = Some s"
proof (cases "row_of rec_id aid t")
  case None
  then show ?thesis by (simp add: consume_result [OF assms] store_errors)
next
  case (Some r)
  show ?thesis
  proof (cases "consume_check now aid a r")
    case None
    then have "rec_status r = Approved" "call_guard (Call_consume now aid a actor) r"
      by (auto simp: consume_check_def split: if_splits)
    with None Some row_of_SomeD [OF Some] show ?thesis
      by (simp add: consume_result [OF assms] row_of_sql_update)
  next
    case err: (Some e)
    then have "err_status e \<in> {404, 409, 410}"
      by (auto simp: consume_check_def store_errors split: if_splits)
    with Some err show ?thesis by (simp add: consume_result [OF assms])
  qed
qed

definition sample_args :: consume_args where
  "sample_args = \<lparr>use_request_id = ''r'', use_action = ''write'', use_target_path = ''docs/a.md'',
     use_content_hash = Some ''h'', use_commit_message_hash = None\<rparr>"

definition sample_table :: approvals where
  "sample_table = snd (create_approval 900 0 ''a'' ''r'' ''write'' ''docs/a.md'' (Some ''h'') None [] None [] [])"

theorem consume_safe_witness:
  "fst (consume 5 ''a'' sample_args ''smith'' sample_table)
    = Inl (store_err 409 ''Approval a is still pending'')
   \<and> snd (consume 5 ''a'' sample_args ''smith'' sample_table) = sample_table"
proof -
  have d: "distinct (map rec_id sample_table)" by code_simp
  have res: "consume 5 ''a'' sample_args ''smith'' sample_table
      = (Inl (store_err 409 ''Approval a is still pending''), sample_table)"
    by code_simp
  from consume_safe [OF d, where now = 5 and aid = "''a''" and a = sample_args and actor = "''smith''"] res show ?thesis by simp
qed

text \<open>C19. An approval is used once: after a \<open>consume\<close> that succeeded, and any history of further
  calls, the record is still the one that was returned and every \<open>consume\<close> of it fails.\<close>

theorem consume_once:
  assumes "distinct (map rec_id t)" and "consume now aid a actor t = (Inr s, t')"
  shows "row_of rec_id aid (fold approvals_step ops t') = Some s
    \<and> (\<forall>now' a' actor'. \<exists>e. consume now' aid a' actor' (fold approvals_step ops t')
         = (Inl e, fold approvals_step ops t') \<and> err_status e = 409)"
proof -
  have move: "approvals_move t t'" using consume_move [of t now aid a actor] assms(2) by simp
  with assms(1) have d': "distinct (map rec_id t')" by (simp add: table_move_def)
  from assms(2) obtain r where r: "row_of rec_id aid t = Some r" "consume_check now aid a r = None"
    and s: "s = r\<lparr>rec_status := Consumed, rec_consumed_at := Some now, rec_resolved_by := Some actor\<rparr>"
    and t': "t' = sql_update (\<lambda>x. rec_id x = aid \<and> rec_status x = Approved)
      (\<lambda>x. x\<lparr>rec_status := Consumed, rec_consumed_at := Some now, rec_resolved_by := Some actor\<rparr>) t"
    by (auto simp: consume_result [OF assms(1)] split: option.splits)
  have "rec_status r = Approved" using r(2) by (auto simp: consume_check_def split: if_splits)
  with r(1) row_of_SomeD [OF r(1)] have row: "row_of rec_id aid t' = Some s"
    by (simp add: t' s row_of_sql_update)
  let ?u = "fold approvals_step ops t'"
  have end_row: "row_of rec_id aid ?u = Some s"
    by (rule approvals.run_terminal [OF d' row]) (auto simp: s dest: may_become_terminal)
  moreover have "consume n aid b c ?u = (Inl (already_resolved aid Consumed), ?u)" for n b c
    using end_row approvals.run_distinct [OF d']
    by (simp add: consume_result consume_check_def s)
  ultimately show ?thesis by (simp add: already_resolved_def)
qed

theorem consume_once_witness:
  "\<exists>e. consume 9 ''a'' sample_args ''smith''
     (fold approvals_step [Op_consume 8 ''a'' sample_args ''smith'', Op_cleanup 100000000000]
       (snd (consume 7 ''a'' sample_args ''smith'' (snd (approve 6 ''a'' ''op'' sample_table)))))
     = (Inl e, snd (consume 7 ''a'' sample_args ''smith'' (snd (approve 6 ''a'' ''op'' sample_table))))
     \<and> err_status e = 409"
proof -
  let ?t = "snd (approve 6 ''a'' ''op'' sample_table)"
  let ?ops = "[Op_consume 8 ''a'' sample_args ''smith'', Op_cleanup 100000000000]"
  let ?s = "snd (consume 7 ''a'' sample_args ''smith'' ?t)"
  have d: "distinct (map rec_id ?t)" by code_simp
  have "isl (fst (consume 7 ''a'' sample_args ''smith'' ?t)) = False" by code_simp
  then obtain s where s: "consume 7 ''a'' sample_args ''smith'' ?t = (Inr s, ?s)"
    by (metis isl_def prod.collapse sum.exhaust)
  have run: "fold approvals_step ?ops ?s = ?s" by code_simp
  from consume_once [OF d s, of ?ops] run show ?thesis by metis
qed

lemma hash_mismatch_iff:
  "hash_mismatch given stored \<longleftrightarrow> (\<exists>g h. given = Some g \<and> stored = Some h \<and> g \<noteq> h)"
  by (auto simp: hash_mismatch_def split: option.splits)

lemma consume_guard_iff:
  "call_guard (Call_consume now i a actor) r \<longleftrightarrow>
     rec_request_id r = use_request_id a \<and> rec_action r = use_action a
     \<and> rec_target_path r = use_target_path a
     \<and> (\<forall>g h. use_content_hash a = Some g \<and> rec_content_hash r = Some h \<longrightarrow> g = h)
     \<and> (\<forall>g h. use_commit_message_hash a = Some g \<and> rec_commit_message_hash r = Some h \<longrightarrow> g = h)"
  by (auto simp: hash_mismatch_iff)

lemma consume_won:
  assumes "sys_reach t0 s" and "distinct (map rec_id t0)"
  shows "length (filter (\<lambda>c. is_consume c \<and> call_id c = aid) (sys_won s)) \<le> 1
    \<and> (\<forall>c \<in> set (sys_won s). is_consume c \<longrightarrow> (\<exists>r. row_of rec_id (call_id c) (sys_table s) = Some r
         \<and> rec_status r = Consumed \<and> call_guard c r))"
proof -
  have inv: "sys_inv s" by (rule sys_reach_inv [OF assms])
  then have d: "distinct (map call_id (filter is_consume (sys_won s)))" by (simp add: sys_inv_def)
  have "filter (\<lambda>c. is_consume c \<and> call_id c = aid) (sys_won s)
      = filter (\<lambda>c. call_id c = aid) (filter is_consume (sys_won s))"
    by (simp add: conj_commute)
  moreover have "length (filter (\<lambda>c. call_id c = aid) cs) \<le> 1" if "distinct (map call_id cs)" for cs
    using that
  proof (induction cs)
    case (Cons c cs)
    then show ?case by (auto simp: filter_empty_conv image_iff intro: le_SucI)
  qed simp
  ultimately show ?thesis
    using inv d row_of_distinct unfolding sys_inv_def by (metis (no_types, lifting))
qed

text \<open>C2. Whatever the interleaving of the reads and writes of any number of calls, at most one
  \<open>consume\<close> of an approval succeeds. The record of a \<open>consume\<close> that succeeded is consumed, and its
  request, action and target path are those of the call. A content hash, or the hash of a commit
  message, is the call's only where both the call and the record have one: the code compares it
  in no other case, so that a call without hashes uses a record that has them.\<close>

theorem consume_race:
  assumes "sys_reach t0 s" and "distinct (map rec_id t0)"
  shows "length (filter (\<lambda>c. is_consume c \<and> call_id c = aid) (sys_won s)) \<le> 1
    \<and> (\<forall>now i a actor. Call_consume now i a actor \<in> set (sys_won s) \<longrightarrow>
         (\<exists>r. row_of rec_id i (sys_table s) = Some r \<and> rec_status r = Consumed
           \<and> rec_request_id r = use_request_id a \<and> rec_action r = use_action a
           \<and> rec_target_path r = use_target_path a
           \<and> (\<forall>g h. use_content_hash a = Some g \<and> rec_content_hash r = Some h \<longrightarrow> g = h)
           \<and> (\<forall>g h. use_commit_message_hash a = Some g \<and> rec_commit_message_hash r = Some h
                \<longrightarrow> g = h)))"
proof (intro conjI allI impI)
  fix now i a actor assume "Call_consume now i a actor \<in> set (sys_won s)"
  with consume_won [OF assms] obtain r where "row_of rec_id i (sys_table s) = Some r"
    "rec_status r = Consumed" "call_guard (Call_consume now i a actor) r"
    by force
  then show "\<exists>r. row_of rec_id i (sys_table s) = Some r \<and> rec_status r = Consumed
      \<and> rec_request_id r = use_request_id a \<and> rec_action r = use_action a
      \<and> rec_target_path r = use_target_path a
      \<and> (\<forall>g h. use_content_hash a = Some g \<and> rec_content_hash r = Some h \<longrightarrow> g = h)
      \<and> (\<forall>g h. use_commit_message_hash a = Some g \<and> rec_commit_message_hash r = Some h \<longrightarrow> g = h)"
    unfolding consume_guard_iff by blast
qed (use consume_won [OF assms] in blast)

definition race_call :: "utc \<Rightarrow> approval_call" where
  "race_call now = Call_consume now ''a'' sample_args ''smith''"

theorem consume_race_witness:
  "\<exists>s. sys_reach (snd (approve 6 ''a'' ''op'' sample_table)) s \<and> sys_won s = [race_call 7]
     \<and> length (filter (\<lambda>c. is_consume c \<and> call_id c = ''a'') (sys_won s)) \<le> 1"
proof -
  let ?t = "snd (approve 6 ''a'' ''op'' sample_table)"
  let ?t' = "snd (consume_commit 7 ''a'' ''smith'' ?t)"
  define s0 s1 s2 where "s0 = \<lparr>sys_table = ?t, sys_flying = [], sys_won = []\<rparr>"
    and "s1 = \<lparr>sys_table = ?t, sys_flying = [race_call 7], sys_won = []\<rparr>"
    and "s2 = \<lparr>sys_table = ?t, sys_flying = [race_call 7, race_call 8], sys_won = []\<rparr>"
  define s3 s4 where "s3 = \<lparr>sys_table = ?t', sys_flying = [race_call 8], sys_won = [race_call 7]\<rparr>"
    and "s4 = \<lparr>sys_table = ?t', sys_flying = [], sys_won = [race_call 7]\<rparr>"
  have row: "row_of rec_id (call_id (race_call n)) ?t = Some (hd ?t)" for n
    by (simp add: race_call_def) code_simp
  have "call_check (race_call 7) (hd ?t) = None" "call_check (race_call 8) (hd ?t) = None" by code_simp+
  then have "sys_step s0 s1" "sys_step s1 s2"
    using sys_read [of "race_call 7" s0] sys_read [of "race_call 8" s1] row
    by (simp_all add: s0_def s1_def s2_def)
  moreover have "isl (fst (call_commit (race_call 7) ?t)) = False" by code_simp
  then obtain r where "call_commit (race_call 7) ?t = (Inr r, ?t')"
    by (metis call_commit.simps(3) isl_def prod.collapse race_call_def sum.exhaust)
  then have "sys_step s2 s3"
    using sys_write [of "race_call 7" s2] by (simp add: s2_def s3_def)
  moreover have "isl (fst (call_commit (race_call 8) ?t'))" by code_simp
  then obtain e u where "call_commit (race_call 8) ?t' = (Inl e, u)"
    by (metis isl_def prod.collapse)
  then have "sys_step s3 s4"
    using sys_fail [of "race_call 8" s3] by (simp add: s3_def s4_def)
  ultimately have reach: "sys_reach ?t s4"
    using sys_start [of ?t, folded s0_def] by (blast intro: sys_next)
  have d: "distinct (map rec_id ?t)" by code_simp
  from consume_race [OF reach d, THEN conjunct1, of "''a''"] reach show ?thesis
    by (intro exI [of _ s4]) (simp add: s4_def)
qed

text \<open>A record that any history from an empty store leaves approved or consumed was approved
  no later than its expiry.\<close>

theorem approved_in_time:
  assumes "r \<in> set (fold approvals_step ops [])" and "rec_status r \<in> {Approved, Consumed}"
  shows "\<exists>w. rec_resolved_at r = Some w \<and> w \<le> rec_expires_at r"
proof -
  from approvals.run_origin [OF _ assms(1)] obtain r0
    where "rec_status r0 = Pending" "may_become r0 r" by auto
  with assms(2) have "granted_in_time r" by (auto simp: may_become_def)
  then show ?thesis by (simp add: granted_in_time_def)
qed

theorem approved_in_time_witness:
  "\<exists>w. rec_resolved_at (hd (snd (approve 6 ''a'' ''op'' sample_table))) = Some w \<and> w \<le> 900000000"
proof -
  let ?ops = "[Op_create 900 0 ''a'' ''r'' ''write'' ''docs/a.md'' (Some ''h'') None [] None [],
    Op_approve 6 ''a'' ''op'']"
  have run: "fold approvals_step ?ops [] = [hd (snd (approve 6 ''a'' ''op'' sample_table))]" by code_simp
  have st: "rec_status (hd (snd (approve 6 ''a'' ''op'' sample_table))) = Approved" by code_simp
  have ex: "rec_expires_at (hd (snd (approve 6 ''a'' ''op'' sample_table))) = 900000000" by code_simp
  from approved_in_time [of "hd (snd (approve 6 ''a'' ''op'' sample_table))" ?ops] run st ex
  show ?thesis by simp
qed

text \<open>Approving an expired pending record raises 410 and leaves the table unchanged: the
  \<open>UPDATE\<close> to \<open>expired\<close> inside the transaction is rolled back by the raise, so the record stays
  pending.\<close>

theorem expiry_not_recorded:
  assumes "distinct (map rec_id t)" and "row_of rec_id aid t = Some r"
    and "rec_status r = Pending" and "rec_expires_at r < now"
  shows "approve now aid actor t = (Inl (expired_approval aid), t)
    \<and> consume now aid a actor t = (Inl (expired_approval aid), t)"
  using assms by (simp add: approve_result consume_result consume_check_def)

theorem expiry_not_recorded_witness:
  "approve 1000000000 ''a'' ''op'' sample_table = (Inl (expired_approval ''a''), sample_table)"
proof -
  have d: "distinct (map rec_id sample_table)" by code_simp
  have "map_option rec_status (row_of rec_id ''a'' sample_table) = Some Pending"
    "map_option rec_expires_at (row_of rec_id ''a'' sample_table) = Some 900000000"
    by code_simp+
  then obtain r where r: "row_of rec_id ''a'' sample_table = Some r" "rec_status r = Pending"
    "rec_expires_at r = 900000000"
    by auto
  from expiry_not_recorded [OF d r(1,2), of 1000000000] r(3) show ?thesis by simp
qed

text \<open>\<open>cleanup_expired\<close>, which compares ISO texts, expires exactly the pending records whose
  expiry is before now, counts them, and changes no other record.\<close>

theorem cleanup_exact:
  assumes "valid_utc now" and "\<forall>r \<in> set t. valid_utc (rec_expires_at r)"
  shows "cleanup_expired now t =
    (length (filter (\<lambda>r. rec_status r = Pending \<and> rec_expires_at r < now) t),
     map (\<lambda>r. if rec_status r = Pending \<and> rec_expires_at r < now then r\<lparr>rec_status := Expired\<rparr> else r) t)"
proof -
  have "(rec_status r = Pending \<and> iso_utc (rec_expires_at r) < iso_utc now) =
      (rec_status r = Pending \<and> rec_expires_at r < now)" if "r \<in> set t" for r
    using assms that by simp
  then show ?thesis
    unfolding cleanup_expired_def Let_def sql_rowcount_def sql_update_def
    by (auto intro!: arg_cong [of _ _ length] filter_cong)
qed

theorem cleanup_exact_witness:
  "fst (cleanup_expired 1000000000 sample_table) = 1"
proof -
  have "map (\<lambda>r. (rec_status r, rec_expires_at r)) sample_table = [(Pending, 900000000)]"
    by code_simp
  then obtain r where r: "sample_table = [r]" "rec_status r = Pending" "rec_expires_at r = 900000000"
    by (auto simp: map_eq_Cons_conv)
  have "\<forall>r \<in> set sample_table. valid_utc (rec_expires_at r)"
    by (simp add: r valid_utc_def max_wall_def usec_defs)
  from cleanup_exact [OF _ this, of 1000000000] show ?thesis
    by (simp add: r valid_utc_def max_wall_def usec_defs)
qed

end
