(* ===== verification/Approval_Provider.thy ===== *)
theory Approval_Provider
  imports Approval_Store
begin

section \<open>The approval provider and the contract of an approval gate\<close>

text \<open>
  \<open>PersistentApprovalProvider\<close> of \<open>src/freyja/agents/approval_provider.py\<close>, over the table of
  the approval store. \<open>hashlib.sha256(...).hexdigest()\<close> is the parameter \<open>sha\<close>. The locale
  \<open>approval_gate\<close> is the contract the write pilot relies on; the resume callback of the
  provider satisfies it (\<open>interpretation provider_gate\<close>).
\<close>

record gate_context =
  ctx_target_path :: "string option"
  ctx_content :: "string option"
  ctx_commit_message :: "string option"
  ctx_summary :: "string option"

definition gate_token :: "string \<Rightarrow> string \<Rightarrow> gate_context \<Rightarrow> bool \<Rightarrow> approval_callback" where
  "gate_token typ req ctx ok =
     \<lparr>cb_type = typ, cb_request_id = req, cb_approved = ok,
      cb_target_path = Some (or_else (ctx_target_path ctx) []),
      cb_commit_message = ctx_commit_message ctx\<rparr>"

definition request_approval ::
    "(string \<Rightarrow> string) \<Rightarrow> int \<Rightarrow> utc \<Rightarrow> string \<Rightarrow> string \<Rightarrow> string \<Rightarrow> gate_context \<Rightarrow> approvals
     \<Rightarrow> approval_callback \<times> approvals" where
  "request_approval sha default_ttl now new_id typ req ctx t =
    (let summary = or_else (ctx_summary ctx) (typ @ '' approval for '' @ req);
         payload = typ = ''path'' \<or> typ = ''content'';
         chash = (if payload then map_option sha (ctx_content ctx) else None);
         mhash = (if payload then map_option sha (ctx_commit_message ctx) else None);
         t' = snd (create_approval default_ttl now new_id req typ (or_else (ctx_target_path ctx) [])
                    chash mhash summary None [] t)
     in (gate_token typ req ctx False, t'))"

definition resume_approval_for_request ::
    "(string \<Rightarrow> string) \<Rightarrow> utc \<Rightarrow> string \<Rightarrow> string option \<Rightarrow> string \<Rightarrow> string \<Rightarrow> gate_context \<Rightarrow> approvals
     \<Rightarrow> approval_callback \<times> approvals" where
  "resume_approval_for_request sha now actor approval_id typ req ctx t =
    (let target = or_else (ctx_target_path ctx) [];
         gate_records = filter (\<lambda>r. rec_action r = typ) (list_by_request req t);
         consumed = filter (\<lambda>r. rec_status r = Consumed) gate_records;
         approved = filter (\<lambda>r. rec_status r = Approved) gate_records
     in if consumed \<noteq> [] then (gate_token typ req ctx True, t)
        else (case approved of
            [] \<Rightarrow> (gate_token typ req ctx False, t)
          | r # _ \<Rightarrow>
              if approval_id \<noteq> None \<and> Some (rec_id r) \<noteq> approval_id
              then (gate_token typ req ctx False, t)
              else (case consume now (rec_id r)
                      \<lparr>use_request_id = req, use_action = typ, use_target_path = target,
                       use_content_hash = map_option sha (ctx_content ctx),
                       use_commit_message_hash = map_option sha (ctx_commit_message ctx)\<rparr> actor t of
                  (Inl _, t') \<Rightarrow> (gate_token typ req ctx False, t')
                | (Inr s, t') \<Rightarrow> (gate_token typ req ctx (rec_status s = Consumed), t'))))"

definition resume_approval ::
    "(string \<Rightarrow> string) \<Rightarrow> utc \<Rightarrow> string \<Rightarrow> string \<Rightarrow> string \<Rightarrow> string \<Rightarrow> gate_context \<Rightarrow> approvals
     \<Rightarrow> approval_callback \<times> approvals" where
  "resume_approval sha now actor approval_id typ req ctx t =
     resume_approval_for_request sha now actor (Some approval_id) typ req ctx t"

definition approval_callback_of ::
    "(string \<Rightarrow> string) \<Rightarrow> int \<Rightarrow> utc \<Rightarrow> string \<Rightarrow> string \<Rightarrow> string \<Rightarrow> gate_context \<Rightarrow> approvals
     \<Rightarrow> approval_callback \<times> approvals" where
  "approval_callback_of sha default_ttl now new_id typ req ctx t =
     request_approval sha default_ttl now new_id typ req ctx t"

text \<open>The state the callbacks of a run share: the times at which the calls run, the tokens that
  \<open>secrets.token_urlsafe\<close> will return, and the table.\<close>

record gate_state =
  gate_clock :: "utc list"
  gate_ids :: "string list"
  gate_table :: approvals

definition gate_now :: "gate_state \<Rightarrow> utc" where
  "gate_now st = (case gate_clock st of [] \<Rightarrow> 0 | n # _ \<Rightarrow> n)"

definition gate_new_id :: "gate_state \<Rightarrow> string" where
  "gate_new_id st = (case gate_ids st of [] \<Rightarrow> [] | i # _ \<Rightarrow> i)"

definition gate_next :: "approvals \<Rightarrow> gate_state \<Rightarrow> gate_state" where
  "gate_next t st = st\<lparr>gate_clock := tl (gate_clock st), gate_ids := tl (gate_ids st), gate_table := t\<rparr>"

definition provider_request ::
    "(string \<Rightarrow> string) \<Rightarrow> int \<Rightarrow> string \<Rightarrow> string \<Rightarrow> gate_context \<Rightarrow> gate_state
     \<Rightarrow> approval_callback \<times> gate_state" where
  "provider_request sha default_ttl typ req ctx st =
    (let (cb, t) = request_approval sha default_ttl (gate_now st) (gate_new_id st) typ req ctx (gate_table st)
     in (cb, gate_next t st))"

text \<open>The callback that \<open>make_resume_callback\<close> builds.\<close>

definition make_resume_callback ::
    "(string \<Rightarrow> string) \<Rightarrow> string option \<Rightarrow> string \<Rightarrow> string \<Rightarrow> string \<Rightarrow> gate_context \<Rightarrow> gate_state
     \<Rightarrow> approval_callback \<times> gate_state" where
  "make_resume_callback sha approval_id actor typ req ctx st =
    (let (cb, t) = resume_approval_for_request sha (gate_now st) actor approval_id typ req ctx (gate_table st)
     in (cb, gate_next t st))"

subsection \<open>The contract of a gate\<close>

text \<open>
  What a caller of an approval callback may rely on: the token names the gate, the request and
  the path it was asked for; a token that says approved is backed by a grant in the gate's
  state; and a grant is never taken back.
\<close>

locale approval_gate =
  fixes gate :: "string \<Rightarrow> string \<Rightarrow> gate_context \<Rightarrow> 's \<Rightarrow> approval_callback \<times> 's"
    and good :: "'s \<Rightarrow> bool"
    and granted :: "'s \<Rightarrow> string \<Rightarrow> string \<Rightarrow> bool"
  assumes gate_good: "good s \<Longrightarrow> good (snd (gate typ req ctx s))"
    and gate_token: "cb_type (fst (gate typ req ctx s)) = typ"
      "cb_request_id (fst (gate typ req ctx s)) = req"
      "cb_target_path (fst (gate typ req ctx s)) = Some (or_else (ctx_target_path ctx) [])"
    and gate_granted: "good s \<Longrightarrow> cb_approved (fst (gate typ req ctx s)) \<Longrightarrow>
      granted (snd (gate typ req ctx s)) typ req"
    and gate_keeps: "good s \<Longrightarrow> granted s typ' req' \<Longrightarrow> granted (snd (gate typ req ctx s)) typ' req'"

definition gate_consumed :: "gate_state \<Rightarrow> string \<Rightarrow> string \<Rightarrow> bool" where
  "gate_consumed st typ req \<longleftrightarrow>
     (\<exists>r \<in> set (gate_table st). rec_request_id r = req \<and> rec_action r = typ \<and> rec_status r = Consumed)"

definition gate_good :: "gate_state \<Rightarrow> bool" where
  "gate_good st \<longleftrightarrow> distinct (map rec_id (gate_table st))"

lemma gate_table_next [simp]: "gate_table (gate_next t st) = t"
  by (simp add: gate_next_def)

lemma set_list_by_request [simp]: "set (list_by_request req t) = {r \<in> set t. rec_request_id r = req}"
  by (simp add: list_by_request_def)

lemma gate_token_simps [simp]:
  "cb_type (gate_token typ req ctx ok) = typ" "cb_request_id (gate_token typ req ctx ok) = req"
  "cb_approved (gate_token typ req ctx ok) = ok"
  "cb_target_path (gate_token typ req ctx ok) = Some (or_else (ctx_target_path ctx) [])"
  by (simp_all add: gate_token_def)

lemma consume_success:
  assumes "distinct (map rec_id t)" and "consume now aid a actor t = (Inr s, t')"
  shows "s \<in> set t'" and "rec_id s = aid" and "rec_status s = Consumed"
    and "rec_request_id s = use_request_id a" and "rec_action s = use_action a"
proof -
  from assms(2) obtain r where r: "row_of rec_id aid t = Some r" "consume_check now aid a r = None"
    and s: "s = r\<lparr>rec_status := Consumed, rec_consumed_at := Some now, rec_resolved_by := Some actor\<rparr>"
    and t': "t' = sql_update (\<lambda>x. rec_id x = aid \<and> rec_status x = Approved)
      (\<lambda>x. x\<lparr>rec_status := Consumed, rec_consumed_at := Some now, rec_resolved_by := Some actor\<rparr>) t"
    by (auto simp: consume_result [OF assms(1)] split: option.splits)
  have chk: "rec_status r = Approved" "rec_request_id r = use_request_id a" "rec_action r = use_action a"
    using r(2) by (auto simp: consume_check_def split: if_splits)
  with row_of_SomeD [OF r(1)] show "s \<in> set t'" by (force simp: t' s set_sql_update)
  show "rec_id s = aid" "rec_status s = Consumed" "rec_request_id s = use_request_id a"
    "rec_action s = use_action a"
    using chk row_of_SomeD [OF r(1)] by (simp_all add: s)
qed

lemma resume_cases:
  assumes "distinct (map rec_id t)"
  obtains (consumed) r where "r \<in> set t" "rec_request_id r = req" "rec_action r = typ"
      "rec_status r = Consumed"
      "resume_approval_for_request sha now actor ai typ req ctx t = (gate_token typ req ctx True, t)"
  | (refused) "resume_approval_for_request sha now actor ai typ req ctx t = (gate_token typ req ctx False, t)"
  | (used) r a s t' where "r \<in> set t" "rec_request_id r = req" "rec_action r = typ"
      "consume now (rec_id r) a actor t = (Inr s, t')" "use_request_id a = req" "use_action a = typ"
      "use_target_path a = or_else (ctx_target_path ctx) []"
      "use_content_hash a = map_option sha (ctx_content ctx)"
      "use_commit_message_hash a = map_option sha (ctx_commit_message ctx)"
      "resume_approval_for_request sha now actor ai typ req ctx t = (gate_token typ req ctx True, t')"
proof -
  let ?g = "filter (\<lambda>r. rec_action r = typ) (list_by_request req t)"
  let ?a = "\<lparr>use_request_id = req, use_action = typ, use_target_path = or_else (ctx_target_path ctx) [],
    use_content_hash = map_option sha (ctx_content ctx),
    use_commit_message_hash = map_option sha (ctx_commit_message ctx)\<rparr>"
  let ?res = "resume_approval_for_request sha now actor ai typ req ctx t"
  consider (c) r where "r \<in> set (filter (\<lambda>r. rec_status r = Consumed) ?g)"
    | (n) "filter (\<lambda>r. rec_status r = Consumed) ?g = []"
    by (metis list.set_intros(1) neq_Nil_conv)
  then show ?thesis
  proof cases
    case c
    then have "filter (\<lambda>r. rec_status r = Consumed) ?g \<noteq> []" by (metis empty_iff list.set(1))
    then have "?res = (gate_token typ req ctx True, t)"
      unfolding resume_approval_for_request_def Let_def by (simp only: if_True not_False_eq_True)
    with c show ?thesis by (intro consumed) auto
  next
    case n
    show ?thesis
    proof (cases "filter (\<lambda>r. rec_status r = Approved) ?g")
      case Nil
      then show ?thesis using n by (intro refused) (simp add: resume_approval_for_request_def Let_def)
    next
      case (Cons r rs)
      then have r: "r \<in> set t" "rec_request_id r = req" "rec_action r = typ"
        using list.set_intros(1) [of r rs] unfolding Cons [symmetric] by auto
      have res: "?res = (if ai \<noteq> None \<and> Some (rec_id r) \<noteq> ai then (gate_token typ req ctx False, t)
          else case consume now (rec_id r) ?a actor t of
                 (Inl _, t') \<Rightarrow> (gate_token typ req ctx False, t')
               | (Inr s, t') \<Rightarrow> (gate_token typ req ctx (rec_status s = Consumed), t'))"
        unfolding resume_approval_for_request_def Let_def n Cons by simp
      show ?thesis
      proof (cases "consume now (rec_id r) ?a actor t")
        case (Pair m t')
        show ?thesis
        proof (cases m)
          case (Inl e)
          then have "t' = t" using transaction_error [of _ t e t'] Pair unfolding consume_def by blast
          then show ?thesis using res Pair Inl by (intro refused) simp
        next
          case (Inr s)
          have "rec_status s = Consumed"
            using consume_success(3) [OF assms Pair [unfolded Inr]] .
          show ?thesis
          proof (cases "ai \<noteq> None \<and> Some (rec_id r) \<noteq> ai")
            case True
            then show ?thesis using res by (intro refused) simp
          next
            case False
            then have "?res = (gate_token typ req ctx (rec_status s = Consumed), t')"
              using Pair Inr unfolding res by (simp only: if_False prod.case sum.case)
            with \<open>rec_status s = Consumed\<close> show ?thesis
              using used [OF r Pair [unfolded Inr]] by simp
          qed
        qed
      qed
    qed
  qed
qed

lemma resume_good:
  assumes "distinct (map rec_id t)"
  shows "distinct (map rec_id (snd (resume_approval_for_request sha now actor ai typ req ctx t)))"
  using assms
proof (cases rule: resume_cases [of t req "typ" sha now actor ai ctx])
  case (used r a s t')
  with consume_move [of t now "rec_id r" a actor] assms show ?thesis by (simp add: table_move_def)
qed (use assms in \<open>simp_all\<close>)

lemma resume_keeps:
  assumes "distinct (map rec_id t)" and "r \<in> set t" and "rec_status r = Consumed"
  shows "r \<in> set (snd (resume_approval_for_request sha now actor ai typ req ctx t))"
  using assms(1)
proof (cases rule: resume_cases [of t req "typ" sha now actor ai ctx])
  case (used u a s t')
  from consume_move [of t now "rec_id u" a actor] used(4) assms(1,2)
  obtain v where "v \<in> set t'" "may_become r v" by (auto simp: table_move_def)
  with assms(3) may_become_terminal [of r v] used(10) show ?thesis by simp
qed (use assms in \<open>simp_all\<close>)

interpretation provider_gate: approval_gate
  "make_resume_callback sha approval_id actor" gate_good gate_consumed
proof
  fix st :: gate_state and "typ" req typ' req' :: string and ctx :: gate_context
  define t now where "t = gate_table st" and "now = gate_now st"
  let ?res = "resume_approval_for_request sha now actor approval_id typ req ctx t"
  have eq: "make_resume_callback sha approval_id actor typ req ctx st = (fst ?res, gate_next (snd ?res) st)"
    by (simp add: make_resume_callback_def t_def now_def Let_def split: prod.splits)
  have tok: "\<exists>ok. fst ?res = gate_token typ req ctx ok"
    by (auto simp: resume_approval_for_request_def Let_def split: list.splits prod.splits sum.splits)
  then show "cb_type (fst (make_resume_callback sha approval_id actor typ req ctx st)) = typ"
    "cb_request_id (fst (make_resume_callback sha approval_id actor typ req ctx st)) = req"
    "cb_target_path (fst (make_resume_callback sha approval_id actor typ req ctx st))
       = Some (or_else (ctx_target_path ctx) [])"
    unfolding eq by auto
  assume good: "gate_good st"
  then have d: "distinct (map rec_id t)" by (simp add: gate_good_def t_def)
  then show "gate_good (snd (make_resume_callback sha approval_id actor typ req ctx st))"
    unfolding eq by (simp add: gate_good_def resume_good)
  show "gate_consumed (snd (make_resume_callback sha approval_id actor typ req ctx st)) typ req"
    if "cb_approved (fst (make_resume_callback sha approval_id actor typ req ctx st))"
    using d
  proof (cases rule: resume_cases [of t req "typ" sha now actor approval_id ctx])
    case (consumed r)
    then show ?thesis unfolding eq by (auto simp: gate_consumed_def)
  next
    case refused
    then show ?thesis using that unfolding eq by simp
  next
    case (used r a s t')
    from consume_success [OF d used(4)] used show ?thesis unfolding eq by (auto simp: gate_consumed_def)
  qed
  show "gate_consumed (snd (make_resume_callback sha approval_id actor typ req ctx st)) typ' req'"
    if "gate_consumed st typ' req'"
    using that resume_keeps [OF d] unfolding eq by (auto simp: gate_consumed_def t_def)
qed

text \<open>\<open>request_approval\<close> as a callback: it never grants, and only adds a pending record.\<close>

lemma request_table:
  "snd (request_approval sha d now i typ req ctx t) = t \<or>
   (\<exists>r. snd (request_approval sha d now i typ req ctx t) = t @ [r] \<and> rec_id r \<notin> rec_id ` set t)"
  by (auto simp: request_approval_def create_approval_def Let_def)

interpretation request_gate: approval_gate "provider_request sha default_ttl" gate_good gate_consumed
proof
  fix st :: gate_state and "typ" req typ' req' :: string and ctx :: gate_context
  let ?p = "provider_request sha default_ttl typ req ctx st"
  let ?r = "request_approval sha default_ttl (gate_now st) (gate_new_id st) typ req ctx (gate_table st)"
  have eq: "?p = (fst ?r, gate_next (snd ?r) st)"
    by (simp add: provider_request_def Let_def split: prod.splits)
  have tok: "fst ?r = gate_token typ req ctx False" by (simp add: request_approval_def Let_def)
  show "cb_type (fst ?p) = typ" "cb_request_id (fst ?p) = req"
    "cb_target_path (fst ?p) = Some (or_else (ctx_target_path ctx) [])"
    unfolding eq by (simp_all add: tok)
  assume good: "gate_good st"
  then show "gate_good (snd ?p)"
    using request_table [of sha default_ttl "gate_now st" "gate_new_id st" "typ" req ctx "gate_table st"]
    unfolding eq by (auto simp: gate_good_def)
  show "gate_consumed (snd ?p) typ req" if "cb_approved (fst ?p)"
    using that unfolding eq by (simp add: tok)
  show "gate_consumed (snd ?p) typ' req'" if "gate_consumed st typ' req'"
    using that request_table [of sha default_ttl "gate_now st" "gate_new_id st" "typ" req ctx "gate_table st"]
    unfolding eq by (auto simp: gate_consumed_def)
qed

subsection \<open>Properties\<close>

text \<open>Asking for approval never grants it: the token says not approved, a new record is
  pending, and no existing record changes.\<close>

theorem request_never_grants:
  "cb_approved (fst (request_approval sha d now new_id typ req ctx t)) = False
   \<and> (snd (request_approval sha d now new_id typ req ctx t) = t
      \<or> (\<exists>r. snd (request_approval sha d now new_id typ req ctx t) = t @ [r]
           \<and> rec_status r = Pending \<and> rec_request_id r = req \<and> rec_action r = typ
           \<and> (typ \<in> {''path'', ''content''} \<longrightarrow> rec_content_hash r = map_option sha (ctx_content ctx))))"
  by (auto simp: request_approval_def create_approval_def Let_def)

theorem request_never_grants_witness:
  "\<exists>r. snd (request_approval id 900 0 ''a'' ''content'' ''r''
       \<lparr>ctx_target_path = Some ''docs/a.md'', ctx_content = Some ''h'', ctx_commit_message = None,
        ctx_summary = None\<rparr> []) = [r]
     \<and> rec_content_hash r = Some ''h''"
  using request_never_grants [of id 900 0 "''a''" "''content''" "''r''"
    "\<lparr>ctx_target_path = Some ''docs/a.md'', ctx_content = Some ''h'', ctx_commit_message = None,
      ctx_summary = None\<rparr>" "[]"]
  by (auto simp: request_approval_def create_approval_def Let_def)

text \<open>A resumed gate says approved only when a record of the same request and gate is
  consumed afterwards; the first time, that record was approved before and its path, content
  hash and message hash agree with the caller's.\<close>

theorem resume_approved_backed:
  assumes "distinct (map rec_id t)"
    and "resume_approval_for_request sha now actor ai typ req ctx t = (cb, t')"
    and "cb_approved cb"
  shows "(\<exists>r \<in> set t'. rec_request_id r = req \<and> rec_action r = typ \<and> rec_status r = Consumed)
    \<and> (t' \<noteq> t \<longrightarrow> (\<exists>r \<in> set t. rec_request_id r = req \<and> rec_action r = typ \<and> rec_status r = Approved
         \<and> rec_target_path r = or_else (ctx_target_path ctx) []
         \<and> \<not> hash_mismatch (map_option sha (ctx_content ctx)) (rec_content_hash r)
         \<and> \<not> hash_mismatch (map_option sha (ctx_commit_message ctx)) (rec_commit_message_hash r)))"
  using assms(1)
proof (cases rule: resume_cases [of t req "typ" sha now actor ai ctx])
  case (consumed r)
  then show ?thesis using assms by auto
next
  case refused
  then show ?thesis using assms by auto
next
  case (used r a s u)
  have u: "u = t'" using used(10) assms(2) by simp
  have row: "row_of rec_id (rec_id r) t = Some r" by (rule row_of_distinct [OF assms(1) used(1)])
  then have "consume_check now (rec_id r) a r = None"
    using used(4) by (auto simp: consume_result [OF assms(1)] split: option.splits)
  then have "rec_status r = Approved" "call_guard (Call_consume now (rec_id r) a actor) r"
    by (auto simp: consume_check_def split: if_splits)
  then show ?thesis
    using used consume_success [OF assms(1) used(4)] unfolding u by auto
qed

definition sample_ctx :: "string \<Rightarrow> gate_context" where
  "sample_ctx content = \<lparr>ctx_target_path = Some ''docs/a.md'', ctx_content = Some content,
     ctx_commit_message = None, ctx_summary = None\<rparr>"

theorem resume_approved_backed_witness:
  "\<exists>r \<in> set (snd (resume_approval_for_request id 7 ''smith'' None ''write'' ''r'' (sample_ctx ''h'')
      (snd (approve 6 ''a'' ''op'' sample_table)))). rec_status r = Consumed"
proof -
  let ?t = "snd (approve 6 ''a'' ''op'' sample_table)"
  let ?res = "resume_approval_for_request id 7 ''smith'' None ''write'' ''r'' (sample_ctx ''h'') ?t"
  have d: "distinct (map rec_id ?t)" by code_simp
  have st: "map (\<lambda>r. (rec_id r, rec_request_id r, rec_action r, rec_status r)) ?t
    = [(''a'', ''r'', ''write'', Approved)]" by code_simp
  then obtain r where t: "?t = [r]" "rec_id r = ''a''" "rec_request_id r = ''r''" "rec_action r = ''write''"
    "rec_status r = Approved"
    by (auto simp: map_eq_Cons_conv)
  have "isl (fst (consume 7 ''a'' \<lparr>use_request_id = ''r'', use_action = ''write'',
      use_target_path = ''docs/a.md'', use_content_hash = Some ''h'',
      use_commit_message_hash = None\<rparr> ''smith'' ?t)) = False" by code_simp
  then obtain s u where "consume 7 ''a'' \<lparr>use_request_id = ''r'', use_action = ''write'',
      use_target_path = ''docs/a.md'', use_content_hash = Some ''h'',
      use_commit_message_hash = None\<rparr> ''smith'' ?t = (Inr s, u)"
    by (metis isl_def prod.collapse sum.exhaust)
  moreover from consume_success(3) [OF d this] have "rec_status s = Consumed" .
  ultimately have ok: "cb_approved (fst ?res)"
    using t by (simp add: resume_approval_for_request_def list_by_request_def sample_ctx_def)
  from resume_approved_backed [OF d prod.collapse [symmetric] ok] show ?thesis by blast
qed

text \<open>Once a gate's record is consumed, resuming the gate says approved whatever path,
  content or commit message the caller now has: the payload is not compared again.\<close>

theorem consumed_gate_ignores_payload:
  assumes "r \<in> set t" and "rec_request_id r = req" and "rec_action r = typ" and "rec_status r = Consumed"
  shows "resume_approval_for_request sha now actor ai typ req ctx t = (gate_token typ req ctx True, t)"
proof -
  have "r \<in> set (filter (\<lambda>r. rec_status r = Consumed) (filter (\<lambda>r. rec_action r = typ) (list_by_request req t)))"
    using assms by simp
  then have "filter (\<lambda>r. rec_status r = Consumed) (filter (\<lambda>r. rec_action r = typ) (list_by_request req t)) \<noteq> []"
    by (metis empty_iff list.set(1))
  then show ?thesis
    unfolding resume_approval_for_request_def Let_def by (simp only: if_True not_False_eq_True)
qed

theorem consumed_gate_ignores_payload_witness:
  "cb_approved (fst (resume_approval_for_request id 8 ''smith'' None ''write'' ''r'' (sample_ctx ''other'')
     (snd (consume 7 ''a'' sample_args ''smith'' (snd (approve 6 ''a'' ''op'' sample_table))))))"
proof -
  let ?t = "snd (consume 7 ''a'' sample_args ''smith'' (snd (approve 6 ''a'' ''op'' sample_table)))"
  have "map (\<lambda>r. (rec_request_id r, rec_action r, rec_status r)) ?t = [(''r'', ''write'', Consumed)]"
    by code_simp
  then have "hd ?t \<in> set ?t" "rec_request_id (hd ?t) = ''r''" "rec_action (hd ?t) = ''write''"
    "rec_status (hd ?t) = Consumed"
    by (auto simp: map_eq_Cons_conv)
  from consumed_gate_ignores_payload [OF this] show ?thesis by simp
qed

end
