(* ===== verification/Write_Pilot.thy ===== *)
theory Write_Pilot
  imports Agent_Policy Approval_Provider
begin

section \<open>The approved-write pilot\<close>

text \<open>
  \<open>_WritePilotRun\<close> of \<open>src/freyja/agents/runtime.py\<close>, its three entry points on
  \<open>SmithRuntime\<close>, and the three tools it calls (\<open>src/freyja/tools/builtin.py\<close>).

  The run's attributes are the record \<open>pilot_run\<close>, which also holds what the run acts on: the
  text files (a finite list of path and content), the git state and the state behind the
  approval callback. Git itself is a record of functions (\<open>git_ops\<close>), the approval callback and
  the provider are fields of the environment, and the tools are called through the field
  \<open>env_exec\<close>, which stands for \<open>ToolRegistry.execute\<close>. \<open>execute\<close> is the sequence of the code's
  numbered phases; a phase goes on (\<open>None\<close>) or stops the run with its result or with an
  uncaught exception. File errors (\<open>OSError\<close>, undecodable text) are not modelled.
\<close>

subsection \<open>Files\<close>

type_synonym files = "(path \<times> string) list"

definition f_get :: "path \<Rightarrow> files \<Rightarrow> string option" where
  "f_get p fs = map_of fs p"

definition f_del :: "path \<Rightarrow> files \<Rightarrow> files" where
  "f_del p fs = filter (\<lambda>e. fst e \<noteq> p) fs"

definition f_put :: "path \<Rightarrow> string \<Rightarrow> files \<Rightarrow> files" where
  "f_put p c fs = (p, c) # f_del p fs"

lemma f_get_del [simp]: "f_get p (f_del q fs) = (if p = q then None else f_get p fs)"
  by (induction fs) (auto simp: f_get_def f_del_def)

lemma f_get_put [simp]: "f_get p (f_put q c fs) = (if p = q then Some c else f_get p fs)"
  by (cases "p = q") (simp_all add: f_put_def f_get_def f_del_def [symmetric] f_get_del [unfolded f_get_def])

text \<open>\<open>fnmatch\<close> patterns, as \<open>Path.glob\<close> uses them on one name.\<close>

fun class_members :: "string \<Rightarrow> char \<Rightarrow> bool" where
  "class_members [] c = False"
| "class_members (a # rest) c =
     (case rest of
        m # b # rest' \<Rightarrow> if m = CHR ''-'' then (a \<le> c \<and> c \<le> b) \<or> class_members rest' c
                         else a = c \<or> class_members rest c
      | _ \<Rightarrow> a = c \<or> class_members rest c)"

text \<open>The body of a class and the text after it: a \<open>]\<close> right after \<open>[\<close> or \<open>[!\<close> is a member.\<close>

definition split_class :: "string \<Rightarrow> (bool \<times> string \<times> string) option" where
  "split_class p =
    (let neg = prefix ''!'' p; q = (if neg then tl p else p);
         k = (if prefix '']'' q then 1 else 0);
         body = take k q @ takeWhile (\<lambda>c. c \<noteq> CHR '']'') (drop k q);
         rest = dropWhile (\<lambda>c. c \<noteq> CHR '']'') (drop k q)
     in case rest of [] \<Rightarrow> None | _ # r \<Rightarrow> Some (neg, body, r))"

lemma split_class_length: "split_class p = Some (neg, body, r) \<Longrightarrow> length r < length p"
proof -
  assume a: "split_class p = Some (neg, body, r)"
  define q where "q = (if prefix ''!'' p then tl p else p)"
  define k :: nat where "k = (if prefix '']'' q then 1 else 0)"
  define d where "d = dropWhile (\<lambda>c. c \<noteq> CHR '']'') (drop k q)"
  have "d \<noteq> [] \<and> r = tl d"
    using a unfolding split_class_def Let_def q_def [symmetric] k_def [symmetric] d_def [symmetric]
    by (cases d) simp_all
  moreover have "length d \<le> length q"
    using length_dropWhile_le [of "\<lambda>c. c \<noteq> CHR '']''" "drop k q"] by (simp add: d_def)
  moreover have "length q \<le> length p" by (simp add: q_def)
  ultimately show ?thesis by (auto simp: neq_Nil_conv)
qed

function (sequential) glob_match :: "string \<Rightarrow> string \<Rightarrow> bool" where
  "glob_match [] s = (s = [])"
| "glob_match (p # ps) [] = (p = CHR ''*'' \<and> glob_match ps [])"
| "glob_match (p # ps) (c # cs) =
     (if p = CHR ''*'' then glob_match ps (c # cs) \<or> glob_match (p # ps) cs
      else if p = CHR ''?'' then glob_match ps cs
      else if p = CHR ''['' then
        (case split_class ps of
           None \<Rightarrow> c = p \<and> glob_match ps cs
         | Some (neg, body, r) \<Rightarrow> class_members body c \<noteq> neg \<and> glob_match r cs)
      else c = p \<and> glob_match ps cs)"
  by pat_completeness auto
termination
  by (relation "measure (\<lambda>(p, s). length p + length s)") (auto dest: split_class_length)

definition is_backup_of :: "path \<Rightarrow> path \<Rightarrow> bool" where
  "is_backup_of target p \<longleftrightarrow> p \<noteq> [] \<and> butlast p = butlast target
     \<and> glob_match (path_name target @ ''.bak.*'') (last p)"

definition delete_backups :: "path \<Rightarrow> files \<Rightarrow> files" where
  "delete_backups target fs = filter (\<lambda>e. \<not> is_backup_of target (fst e)) fs"

lemma f_get_delete_backups:
  "f_get p (delete_backups target fs) = (if is_backup_of target p then None else f_get p fs)"
  by (induction fs) (auto simp: f_get_def delete_backups_def)

text \<open>A target is not one of its own backups.\<close>

lemma glob_min_length: "glob_match p s \<Longrightarrow> CHR ''['' \<notin> set p \<Longrightarrow> length (filter (\<lambda>c. c \<noteq> CHR ''*'') p) \<le> length s"
  by (induction p s rule: glob_match.induct) (auto split: if_splits)

lemma not_own_backup:
  assumes "CHR ''['' \<notin> set (path_name target)" and "CHR ''*'' \<notin> set (path_name target)"
  shows "\<not> is_backup_of target target"
proof
  assume "is_backup_of target target"
  then have m: "glob_match (path_name target @ ''.bak.*'') (path_name target)"
    by (auto simp: is_backup_of_def path_name_def)
  have "filter (\<lambda>c. c \<noteq> CHR ''*'') (path_name target) = path_name target"
    using assms(2) by (auto simp: filter_id_conv)
  with glob_min_length [OF m] assms(1) show False by simp
qed

subsection \<open>Tools\<close>

datatype tool_args =
    Args_write string string path bool   \<comment> \<open>target path, content, repository root, create backup\<close>
  | Args_add string path                 \<comment> \<open>target path, repository root\<close>
  | Args_commit string path string       \<comment> \<open>message, repository root, target path\<close>

record tool_output =
  out_success :: bool
  out_error :: "string option"
  out_backup_path :: "string option"
  out_commit_hash :: "string option"

record tool_result =
  tr_tool :: string
  tr_success :: bool
  tr_output :: tool_output
  tr_public_error :: "string option"

definition output_error :: "string \<Rightarrow> tool_output" where
  "output_error m = \<lparr>out_success = False, out_error = Some m, out_backup_path = None, out_commit_hash = None\<rparr>"

text \<open>The backup name: the first of \<open>name.bak.ts\<close>, \<open>name.bak.ts-1\<close>, \<open>name.bak.ts-2\<close>, ... that is
  not taken. One of the first \<open>Suc (length fs)\<close> is free (\<open>backup_name_exists\<close>).\<close>

definition backup_candidate :: "path \<Rightarrow> string \<Rightarrow> nat \<Rightarrow> path" where
  "backup_candidate target ts k =
     butlast target @ [path_name target @ ''.bak.'' @ ts @ (if k = 0 then [] else ''-'' @ dec_digits k)]"

definition backup_name :: "path \<Rightarrow> string \<Rightarrow> files \<Rightarrow> path option" where
  "backup_name target ts fs =
     map_option (backup_candidate target ts)
       (List.find (\<lambda>k. f_get (backup_candidate target ts k) fs = None) [0..<Suc (length fs)])"

definition write_pilot_file_write ::
    "(path \<Rightarrow> path) \<Rightarrow> (path \<Rightarrow> bool) \<Rightarrow> string \<Rightarrow> string \<Rightarrow> string \<Rightarrow> path \<Rightarrow> bool \<Rightarrow> files
     \<Rightarrow> tool_output \<times> files" where
  "write_pilot_file_write resolve is_symlink ts tpath content root create_backup fs =
    (let parts = path_parts tpath; sandbox = resolve (root @ [''docs'', ''smith-pilot'']);
         target = resolve (root @ parts)
     in if tpath = [] then (output_error ''Missing required argument: target_path'', fs)
        else if prefix ''/'' tpath \<or> ''..'' \<in> set parts
        then (output_error (''Invalid write-pilot target path: '' @ tpath), fs)
        else if str_lower (path_suffix (path_name parts)) \<noteq> ''.md''
        then (output_error (''Path '' @ quoted tpath @ '' is not a Markdown (.md) file.''), fs)
        else if \<not> prefix sandbox target
        then (output_error (''Path '' @ quoted tpath @ '' is outside the write-pilot sandbox ''
                @ quoted (path_text sandbox) @ ''.''), fs)
        else if is_symlink target \<or> (\<exists>n \<in> set [0..<length target]. take n target \<noteq> root \<and> is_symlink (take n target))
        then (output_error (''Path '' @ quoted tpath @ '' is a symlink or traverses a symlink.''), fs)
        else
          (let backup = (case f_get target fs of
                 Some old \<Rightarrow> if create_backup then map_option (\<lambda>b. (b, old)) (backup_name target ts fs) else None
               | None \<Rightarrow> None);
               fs1 = (case backup of None \<Rightarrow> fs | Some (b, old) \<Rightarrow> f_put b old fs);
               tmp = butlast target @ [path_name target @ ''.tmp'']
           in (\<lparr>out_success = True, out_error = None,
                out_backup_path = map_option (\<lambda>(b, _). str_join ''/'' (drop (length root) b)) backup,
                out_commit_hash = None\<rparr>,
               f_put target content (f_del tmp fs1))))"

text \<open>What the run and the tools ask of git; each function sees the files and the git state.\<close>

record 'g git_ops =
  g_tracked :: "files \<Rightarrow> 'g \<Rightarrow> string \<Rightarrow> bool"
  g_diff_check :: "files \<Rightarrow> 'g \<Rightarrow> string \<Rightarrow> string option"   \<comment> \<open>why \<open>git diff --check\<close> fails\<close>
  g_status :: "files \<Rightarrow> 'g \<Rightarrow> string \<Rightarrow> string option"        \<comment> \<open>why \<open>git status\<close> fails\<close>
  g_unstage :: "files \<Rightarrow> 'g \<Rightarrow> string \<Rightarrow> 'g"
  g_add :: "files \<Rightarrow> 'g \<Rightarrow> string \<Rightarrow> string option \<times> 'g"      \<comment> \<open>stderr when it fails\<close>
  g_commit :: "files \<Rightarrow> 'g \<Rightarrow> string \<Rightarrow> string \<Rightarrow> string option \<times> 'g"
  g_head :: "'g \<Rightarrow> string option"                               \<comment> \<open>\<open>git rev-parse HEAD\<close>\<close>

definition write_pilot_git_add :: "'g git_ops \<Rightarrow> string \<Rightarrow> files \<Rightarrow> 'g \<Rightarrow> tool_output \<times> 'g" where
  "write_pilot_git_add G target fs g =
    (if target = [] then (output_error ''Missing required argument: target_path'', g)
     else (case g_add G fs g target of (err, g') \<Rightarrow>
       (\<lparr>out_success = (err = None), out_error = None, out_backup_path = None, out_commit_hash = None\<rparr>, g')))"

definition write_pilot_git_commit ::
    "'g git_ops \<Rightarrow> string \<Rightarrow> string \<Rightarrow> files \<Rightarrow> 'g \<Rightarrow> tool_output \<times> 'g" where
  "write_pilot_git_commit G message target fs g =
    (if message = [] then (output_error ''Missing required argument: message'', g)
     else (case g_commit G fs g message target of (err, g') \<Rightarrow>
       (\<lparr>out_success = (err = None), out_error = None, out_backup_path = None,
         out_commit_hash = (if err = None then g_head G g' else None)\<rparr>, g')))"

subsection \<open>Audit text\<close>

definition SANITIZED_TERMS :: "string list" where
  "SANITIZED_TERMS =
     [''api key'', ''authorization'', ''bearer'', ''sk-'', ''token'', ''password'', ''secret'']"

fun sanitize_for_audit :: "json \<Rightarrow> json" where
  "sanitize_for_audit (JObj d) = JObj (map (\<lambda>(k, v). (k, sanitize_for_audit v)) d)"
| "sanitize_for_audit (JList xs) = JList (map sanitize_for_audit xs)"
| "sanitize_for_audit (JStr s) =
     (if \<exists>t \<in> set SANITIZED_TERMS. sublist t (str_lower s) then JStr ''<redacted>'' else JStr s)"
| "sanitize_for_audit v = v"

subsection \<open>The run\<close>

record ('g, 's) pilot_run =
  pr_state :: pilot_state
  pr_approvals :: "pilot_approval_record list"
  pr_transitions :: "pilot_transition list"
  pr_audit :: "audit_event list"
  pr_original :: "string option"
  pr_backup :: "string option"
  pr_existed :: bool
  pr_tracked :: bool
  pr_final :: "string option"
  pr_commit_hash :: "string option"
  pr_tools :: "tool_result list"
  pr_rolled_back :: bool
  pr_files :: files
  pr_git :: 'g
  pr_gates :: 's

text \<open>The environment of a run: settings, policy, repository, git, tools, approval callback and
  provider, and the flag \<open>rollback_on_unapproved\<close>.\<close>

type_synonym 's gate_callback = "string \<Rightarrow> string \<Rightarrow> gate_context \<Rightarrow> 's \<Rightarrow> approval_callback \<times> 's"

record 's provider_ops =
  prov_request :: "string \<Rightarrow> string \<Rightarrow> gate_context \<Rightarrow> 's \<Rightarrow> 's"
  prov_list :: "string \<Rightarrow> 's \<Rightarrow> approval_record list"

record ('g, 's) pilot_env =
  env_smith_enabled :: bool
  env_pilot_enabled :: bool
  env_policy :: agent_policy
  env_is_symlink :: "path \<Rightarrow> bool"
  env_repo_root :: path
  env_git :: "'g git_ops"
  env_exec :: "tool_args \<Rightarrow> files \<Rightarrow> 'g \<Rightarrow> tool_result \<times> files \<times> 'g"
  env_gate :: "'s gate_callback option"
  env_provider :: "'s provider_ops option"
  env_rollback_on_unapproved :: bool

text \<open>What stops a run: its result, or an \<open>AttributeError\<close> that leaves \<open>execute\<close>.\<close>

record pilot_result =
  res_request_id :: string
  res_status :: string
  res_state :: pilot_state
  res_message :: string
  res_objective :: string
  res_target_path :: string
  res_wrote_content :: bool
  res_staged :: bool
  res_committed :: bool
  res_rolled_back :: bool
  res_commit_hash :: "string option"
  res_original_content :: "string option"
  res_final_content :: "string option"
  res_approvals :: "pilot_approval_record list"
  res_transitions :: "pilot_transition list"
  res_audit :: "audit_event list"
  res_actor :: string

datatype pilot_stop = Stopped pilot_result | Crashed string

type_synonym ('g, 's) phase = "('g, 's) pilot_run \<Rightarrow> pilot_stop option \<times> ('g, 's) pilot_run"

definition then_phase :: "('g, 's) phase \<Rightarrow> ('g, 's) phase \<Rightarrow> ('g, 's) phase" where
  "then_phase p q r = (case p r of (None, r') \<Rightarrow> q r' | (Some x, r') \<Rightarrow> (Some x, r'))"

definition initial_run :: "files \<Rightarrow> 'g \<Rightarrow> 's \<Rightarrow> ('g, 's) pilot_run" where
  "initial_run fs g s = \<lparr>pr_state = Planned, pr_approvals = [], pr_transitions = [], pr_audit = [],
     pr_original = None, pr_backup = None, pr_existed = False, pr_tracked = False, pr_final = None,
     pr_commit_hash = None, pr_tools = [], pr_rolled_back = False, pr_files = fs, pr_git = g,
     pr_gates = s\<rparr>"

text \<open>The id a run works under: the entry points settle it before they build the run.\<close>

definition run_request_id :: "pilot_request \<Rightarrow> string" where
  "run_request_id R = req_request_id R"

definition with_request_id :: "string \<Rightarrow> pilot_request \<Rightarrow> pilot_request" where
  "with_request_id i R = R\<lparr>req_request_id := i\<rparr>"

definition run_target :: "('g, 's) pilot_env \<Rightarrow> pilot_request \<Rightarrow> path" where
  "run_target E R = env_repo_root E @ path_parts (target_path R)"

definition audit :: "pilot_request \<Rightarrow> string \<Rightarrow> string \<Rightarrow> json_obj \<Rightarrow> ('g, 's) pilot_run \<Rightarrow> ('g, 's) pilot_run" where
  "audit R action outcome details r =
     r\<lparr>pr_audit := pr_audit r @
       [\<lparr>audit_request_id = run_request_id R, audit_actor = req_actor R, audit_action = action,
         audit_outcome = outcome,
         audit_details = map (\<lambda>(k, v). (k, sanitize_for_audit v)) details\<rparr>]\<rparr>"

definition transition :: "pilot_state \<Rightarrow> ('g, 's) pilot_run \<Rightarrow> ('g, 's) pilot_run" where
  "transition to r =
     r\<lparr>pr_transitions := pr_transitions r @
         [\<lparr>from_state = pilot_state_value (pr_state r), to_state = pilot_state_value to,
           trans_action = ''state_transition'', trans_outcome = ''ok''\<rparr>],
       pr_state := to\<rparr>"

definition unstage :: "('g, 's) pilot_env \<Rightarrow> pilot_request \<Rightarrow> ('g, 's) pilot_run \<Rightarrow> ('g, 's) pilot_run" where
  "unstage E R r = r\<lparr>pr_git := g_unstage (env_git E) (pr_files r) (pr_git r) (target_path R)\<rparr>"

definition rollback :: "('g, 's) pilot_env \<Rightarrow> pilot_request \<Rightarrow> bool \<Rightarrow> ('g, 's) pilot_run \<Rightarrow> ('g, 's) pilot_run"
  where
  "rollback E R to_rolled_back r =
    (let target = run_target E R;
         fs = (if pr_existed r
               then (case pr_original r of None \<Rightarrow> pr_files r | Some c \<Rightarrow> f_put target c (pr_files r))
               else f_del target (pr_files r));
         r1 = unstage E R (r\<lparr>pr_files := delete_backups target fs\<rparr>);
         r2 = (if to_rolled_back then transition Rolled_back r1 else r1)
     in audit R ''rollback'' ''completed'' [] (r2\<lparr>pr_rolled_back := True\<rparr>))"

definition rollback_if_denied ::
    "('g, 's) pilot_env \<Rightarrow> pilot_request \<Rightarrow> string \<Rightarrow> ('g, 's) pilot_run \<Rightarrow> ('g, 's) pilot_run" where
  "rollback_if_denied E R typ r =
    (if typ = ''path'' \<or> typ = ''content'' then r
     else (case env_provider E of
         None \<Rightarrow> r
       | Some P \<Rightarrow>
           if \<exists>a \<in> set (prov_list P (run_request_id R) (pr_gates r)). rec_action a = typ \<and> rec_status a = Denied
           then
             (let target = run_target E R;
                  r1 = r\<lparr>pr_existed := False, pr_original := None\<rparr>;
                  r2 = (if f_get target (pr_files r1) \<noteq> None
                        then r1\<lparr>pr_files := delete_backups target (f_del target (pr_files r1))\<rparr> else r1);
                  r3 = unstage E R r2;
                  r4 = (if pr_state r3 \<noteq> Rolled_back then transition Rolled_back r3 else r3)
              in audit R ''rollback'' ''completed'' [] (r4\<lparr>pr_rolled_back := True\<rparr>))
           else r))"

definition finish ::
    "pilot_request \<Rightarrow> string \<Rightarrow> string \<Rightarrow> ('g, 's) pilot_run \<Rightarrow> pilot_stop option \<times> ('g, 's) pilot_run" where
  "finish R status message r =
    (let r' = audit R ''write_pilot'' status [(''message'', JStr message)] r
     in (Some (Stopped
           \<lparr>res_request_id = run_request_id R, res_status = status, res_state = pr_state r',
            res_message = message, res_objective = objective R, res_target_path = target_path R,
            res_wrote_content = (pr_final r' \<noteq> None),
            res_staged = (pr_state r' \<in> {Staged, Awaiting_commit_approval, Committed, Verified}),
            res_committed = (pr_commit_hash r' \<noteq> None), res_rolled_back = pr_rolled_back r',
            res_commit_hash = pr_commit_hash r',
            res_original_content = map_option (\<lambda>_. ''<redacted>'') (pr_original r'),
            res_final_content = map_option (\<lambda>_. ''<redacted>'') (pr_final r'),
            res_approvals = pr_approvals r', res_transitions = pr_transitions r',
            res_audit = pr_audit r', res_actor = req_actor R\<rparr>), r'))"

definition fail ::
    "('g, 's) pilot_env \<Rightarrow> pilot_request \<Rightarrow> bool \<Rightarrow> string \<Rightarrow> ('g, 's) pilot_run
     \<Rightarrow> pilot_stop option \<times> ('g, 's) pilot_run" where
  "fail E R rolled_back message r =
    (let should_rollback = rolled_back
           \<and> pr_state r \<notin> {Rolled_back, Planned, Awaiting_path_approval, Awaiting_content_approval}
           \<and> \<not> pr_rolled_back r
     in finish R ''failed'' message (if should_rollback then rollback E R True r else r))"

subsection \<open>Gates\<close>

definition run_context :: "pilot_request \<Rightarrow> gate_context" where
  "run_context R = \<lparr>ctx_target_path = Some (target_path R), ctx_content = Some (proposed_content R),
     ctx_commit_message = Some (commit_message R), ctx_summary = None\<rparr>"

text \<open>The checks on a token after \<open>token.approved\<close>.\<close>

definition token_matches :: "pilot_request \<Rightarrow> string \<Rightarrow> approval_callback \<Rightarrow> bool" where
  "token_matches R typ cb \<longleftrightarrow> cb_request_id cb = run_request_id R \<and> cb_type cb = typ
     \<and> (typ \<in> {''path'', ''content'', ''stage''} \<longrightarrow> cb_target_path cb = Some (target_path R))"

definition pending_record :: "pilot_request \<Rightarrow> string \<Rightarrow> bool \<Rightarrow> pilot_approval_record" where
  "pending_record R typ ok = \<lparr>appr_type = typ, appr_request_id = run_request_id R,
     appr_target_path = Some (target_path R), appr_approved = ok, appr_actor = req_actor R\<rparr>"

definition request_gate ::
    "('g, 's) pilot_env \<Rightarrow> pilot_request \<Rightarrow> string \<Rightarrow> ('g, 's) pilot_run \<Rightarrow> bool \<times> ('g, 's) pilot_run" where
  "request_gate E R typ r =
    (let ctx = run_context R; req = run_request_id R;
         r1 = r\<lparr>pr_approvals := pr_approvals r @ [pending_record R typ False]\<rparr>;
         r2 = (case env_provider E of None \<Rightarrow> r1
               | Some P \<Rightarrow> r1\<lparr>pr_gates := prov_request P typ req ctx (pr_gates r1)\<rparr>)
     in case env_gate E of
          None \<Rightarrow> (False, r2)
        | Some gate \<Rightarrow>
            (let (cb, s) = gate typ req ctx (pr_gates r2); r3 = r2\<lparr>pr_gates := s\<rparr>
             in if cb_approved cb \<and> token_matches R typ cb
                then (True, audit R ''approval'' ''approved'' [(''approval_type'', JStr typ)]
                        (r3\<lparr>pr_approvals := butlast (pr_approvals r3) @
                           [(last (pr_approvals r3))\<lparr>appr_approved := True\<rparr>]\<rparr>))
                else (let r4 = rollback_if_denied E R typ r3
                      in (False, if env_rollback_on_unapproved E then rollback E R False r4 else r4))))"

definition request_or_resume ::
    "('g, 's) pilot_env \<Rightarrow> pilot_request \<Rightarrow> string \<Rightarrow> ('g, 's) pilot_run \<Rightarrow> bool \<times> ('g, 's) pilot_run" where
  "request_or_resume E R typ r =
    (case env_gate E of
       None \<Rightarrow> request_gate E R typ r
     | Some gate \<Rightarrow>
         (let (cb, s) = gate typ (run_request_id R) (run_context R) (pr_gates r); r1 = r\<lparr>pr_gates := s\<rparr>
          in if cb_approved cb
             then (if token_matches R typ cb
                   then (True, audit R ''approval'' ''approved'' [(''approval_type'', JStr typ)]
                           (r1\<lparr>pr_approvals := pr_approvals r1 @ [pending_record R typ True]\<rparr>))
                   else (False, r1))
             else request_gate E R typ (rollback_if_denied E R typ r1)))"

definition gate_phase ::
    "('g, 's) pilot_env \<Rightarrow> pilot_request \<Rightarrow> pilot_state \<Rightarrow> string \<Rightarrow> string \<Rightarrow> ('g, 's) phase" where
  "gate_phase E R awaiting typ denied r =
    (case request_or_resume E R typ (transition awaiting r) of
       (True, r') \<Rightarrow> (None, r')
     | (False, r') \<Rightarrow> fail E R False denied r')"

subsection \<open>Phases\<close>

definition tool_name :: "tool_args \<Rightarrow> string" where
  "tool_name a = (case a of Args_write _ _ _ _ \<Rightarrow> ''write_pilot_file_write''
     | Args_add _ _ \<Rightarrow> ''write_pilot_git_add'' | Args_commit _ _ _ \<Rightarrow> ''write_pilot_git_commit'')"

text \<open>\<open>_run_tool\<close>. For a tool that the policy denies it returns what \<open>_tool_error\<close> returns: the
  class defines that method twice, and the second definition, which is in force, only imports a
  name and returns \<open>None\<close>.\<close>

definition run_tool ::
    "('g, 's) pilot_env \<Rightarrow> pilot_request \<Rightarrow> tool_args \<Rightarrow> ('g, 's) pilot_run
     \<Rightarrow> tool_result option \<times> ('g, 's) pilot_run" where
  "run_tool E R a r =
    (if decision (check_write_pilot_tool (env_policy E) (tool_name a)) = Deny then (None, r)
     else (case env_exec E a (pr_files r) (pr_git r) of (res, fs, g) \<Rightarrow>
       (Some res, audit R ''tool'' (if tr_success res then ''success'' else ''failure'')
          [(''tool_name'', JStr (tool_name a))]
          (r\<lparr>pr_files := fs, pr_git := g, pr_tools := pr_tools r @ [res]\<rparr>))))"

definition no_attribute :: "string" where
  "no_attribute = ''AttributeError: NoneType object has no attribute success''"

definition tool_failed :: "tool_result \<Rightarrow> bool" where
  "tool_failed res \<longleftrightarrow> \<not> tr_success res \<or> \<not> out_success (tr_output res)"

definition tool_error_text :: "string \<Rightarrow> tool_result \<Rightarrow> string" where
  "tool_error_text d res = or_else (out_error (tr_output res)) (or_else (tr_public_error res) d)"

definition start_phase :: "('g, 's) pilot_env \<Rightarrow> pilot_request \<Rightarrow> ('g, 's) phase" where
  "start_phase E R r =
    (if \<not> env_smith_enabled E then finish R ''blocked'' ''Agent Smith is disabled.'' r
     else if \<not> env_pilot_enabled E
     then finish R ''blocked'' ''Agent Smith write-pilot mode is disabled.'' r
     else
       (let r1 = audit R ''write_pilot'' ''started'' [] r;
            chk = check_write_pilot_path (env_policy E) (env_is_symlink E) (Some (env_repo_root E)) (target_path R)
        in if decision chk = Deny then fail E R True (or_else (reason chk) []) r1 else (None, r1)))"

definition write_phase :: "('g, 's) pilot_env \<Rightarrow> pilot_request \<Rightarrow> ('g, 's) phase" where
  "write_phase E R r =
    (let old = f_get (run_target E R) (pr_files r);
         r1 = r\<lparr>pr_existed := (old \<noteq> None),
                pr_tracked := g_tracked (env_git E) (pr_files r) (pr_git r) (target_path R),
                pr_original := (case old of None \<Rightarrow> pr_original r | Some c \<Rightarrow> Some c)\<rparr>
     in case run_tool E R (Args_write (target_path R) (proposed_content R) (env_repo_root E) (old \<noteq> None)) r1 of
          (None, r2) \<Rightarrow> (Some (Crashed no_attribute), r2)
        | (Some res, r2) \<Rightarrow>
            if tool_failed res
            then fail E R True (''Write failed: '' @ tool_error_text ''write failed'' res) r2
            else (None, transition Written
                   (r2\<lparr>pr_backup := out_backup_path (tr_output res), pr_final := Some (proposed_content R)\<rparr>)))"

definition validate_write :: "('g, 's) pilot_env \<Rightarrow> pilot_request \<Rightarrow> ('g, 's) pilot_run \<Rightarrow> string option" where
  "validate_write E R r =
    (if f_get (run_target E R) (pr_files r) = None then Some ''target file does not exist after write''
     else if \<not> prefix (write_pilot_sandbox (env_policy E)) (run_target E R)
     then Some ''target escaped the write-pilot sandbox''
     else case g_diff_check (env_git E) (pr_files r) (pr_git r) (target_path R) of
            Some why \<Rightarrow> Some why
          | None \<Rightarrow> g_status (env_git E) (pr_files r) (pr_git r) (target_path R))"

definition validate_phase :: "('g, 's) pilot_env \<Rightarrow> pilot_request \<Rightarrow> ('g, 's) phase" where
  "validate_phase E R r =
    (case validate_write E R r of
       Some why \<Rightarrow> fail E R True (''Validation failed: '' @ why) r
     | None \<Rightarrow> (None, transition Validated r))"

definition stage_phase :: "('g, 's) pilot_env \<Rightarrow> pilot_request \<Rightarrow> ('g, 's) phase" where
  "stage_phase E R r =
    (case run_tool E R (Args_add (target_path R) (env_repo_root E)) r of
       (None, r1) \<Rightarrow> (Some (Crashed no_attribute), r1)
     | (Some res, r1) \<Rightarrow>
         if tool_failed res
         then fail E R True (''Stage failed: '' @ tool_error_text ''stage failed'' res) r1
         else (None, transition Staged r1))"

definition commit_phase :: "('g, 's) pilot_env \<Rightarrow> pilot_request \<Rightarrow> ('g, 's) phase" where
  "commit_phase E R r =
    (case run_tool E R (Args_commit (commit_message R) (env_repo_root E) (target_path R)) r of
       (None, r1) \<Rightarrow> (Some (Crashed no_attribute), r1)
     | (Some res, r1) \<Rightarrow>
         if tool_failed res
         then fail E R False (''Commit failed: '' @ tool_error_text ''commit failed'' res) r1
         else
           (let r2 = r1\<lparr>pr_commit_hash := out_commit_hash (tr_output res),
                        pr_files := delete_backups (run_target E R) (pr_files r1), pr_backup := None\<rparr>;
                r3 = transition Verified (transition Committed r2)
            in finish R ''complete'' ''Write pilot completed and committed.''
                 (audit R ''write_pilot'' ''verified'' [(''commit_hash'', jopt (pr_commit_hash r3))] r3)))"

definition execute :: "('g, 's) pilot_env \<Rightarrow> pilot_request \<Rightarrow> ('g, 's) phase" where
  "execute E R =
     then_phase (start_phase E R)
    (then_phase (gate_phase E R Awaiting_path_approval ''path'' ''Path approval denied.'')
    (then_phase (gate_phase E R Awaiting_content_approval ''content'' ''Content approval denied.'')
    (then_phase (write_phase E R)
    (then_phase (validate_phase E R)
    (then_phase (gate_phase E R Awaiting_stage_approval ''stage'' ''Stage approval denied.'')
    (then_phase (stage_phase E R)
    (then_phase (gate_phase E R Awaiting_commit_approval ''commit'' ''Commit approval denied.'')
       (commit_phase E R))))))))"

subsection \<open>Entry points\<close>

definition store_provider :: "(string \<Rightarrow> string) \<Rightarrow> int \<Rightarrow> gate_state provider_ops" where
  "store_provider sha default_ttl =
     \<lparr>prov_request = (\<lambda>typ req ctx s. snd (provider_request sha default_ttl typ req ctx s)),
      prov_list = (\<lambda>req s. list_by_request req (gate_table s))\<rparr>"

text \<open>The caller's id is optional. \<open>run_write_pilot\<close> replaces a missing or empty one by a fresh
  one. \<open>run_write_pilot_with_provider\<close> passes it on as it is, so that a run without one raises:
  the results and the approval records require a text, and whichever comes first, the result of a
  run that is blocked or denied or the record of the path gate, cannot be built. Until then the run
  has read its settings and checked the path; files, repository and store are as they were.\<close>

definition run_write_pilot ::
    "('g, 's) pilot_env \<Rightarrow> 's gate_callback option \<Rightarrow> string \<Rightarrow> string option \<Rightarrow> pilot_request
     \<Rightarrow> ('g, 's) phase" where
  "run_write_pilot E callback fresh rid R =
     execute (E\<lparr>env_gate := callback, env_rollback_on_unapproved := True\<rparr>)
       (with_request_id (or_else rid fresh) R)"

definition no_request_id :: string where
  "no_request_id = ''ValidationError: request_id should be a valid string''"

definition pending_of :: "pilot_request \<Rightarrow> ('g, gate_state) pilot_run \<Rightarrow> approval_record list" where
  "pending_of R r = filter (\<lambda>a. rec_request_id a = run_request_id R) (list_pending (gate_table (pr_gates r)))"

definition provider_env ::
    "('g, gate_state) pilot_env \<Rightarrow> (string \<Rightarrow> string) \<Rightarrow> int \<Rightarrow> bool \<Rightarrow> ('g, gate_state) pilot_env" where
  "provider_env E sha default_ttl rollback_flag =
     E\<lparr>env_gate := Some (provider_request sha default_ttl),
       env_provider := Some (store_provider sha default_ttl),
       env_rollback_on_unapproved := rollback_flag\<rparr>"

definition run_write_pilot_with_provider ::
    "('g, gate_state) pilot_env \<Rightarrow> (string \<Rightarrow> string) \<Rightarrow> int \<Rightarrow> bool \<Rightarrow> string option \<Rightarrow> pilot_request
     \<Rightarrow> ('g, gate_state) pilot_run
     \<Rightarrow> (pilot_stop option \<times> ('g, gate_state) pilot_run) \<times> approval_record list" where
  "run_write_pilot_with_provider E sha default_ttl rollback_flag rid R r =
    (case rid of
       None \<Rightarrow> ((Some (Crashed no_request_id), r), [])
     | Some i \<Rightarrow>
         (let Q = with_request_id i R; out = execute (provider_env E sha default_ttl rollback_flag) Q r
          in (out, pending_of Q (snd out))))"

text \<open>The HTTP endpoint, which always passes an id.\<close>

definition smith_write_pilot ::
    "('g, gate_state) pilot_env \<Rightarrow> (string \<Rightarrow> string) \<Rightarrow> int \<Rightarrow> string \<Rightarrow> string option \<Rightarrow> pilot_request
     \<Rightarrow> ('g, gate_state) pilot_run
     \<Rightarrow> nat + (pilot_stop option \<times> ('g, gate_state) pilot_run) \<times> approval_record list" where
  "smith_write_pilot E sha default_ttl fresh rid R r =
    (if \<not> env_smith_enabled E then Inl 404
     else if \<not> env_pilot_enabled E then Inl 403
     else Inr (run_write_pilot_with_provider E sha default_ttl True (Some (or_else rid fresh)) R r))"

definition resume_env ::
    "('g, gate_state) pilot_env \<Rightarrow> (string \<Rightarrow> string) \<Rightarrow> int \<Rightarrow> string \<Rightarrow> bool \<Rightarrow> pilot_request
     \<Rightarrow> ('g, gate_state) pilot_env" where
  "resume_env E sha default_ttl approval_id rollback_flag R =
     E\<lparr>env_gate := Some (make_resume_callback sha (Some approval_id) (req_actor R)),
       env_provider := Some (store_provider sha default_ttl),
       env_rollback_on_unapproved := rollback_flag\<rparr>"

definition resume_write_pilot ::
    "('g, gate_state) pilot_env \<Rightarrow> (string \<Rightarrow> string) \<Rightarrow> int \<Rightarrow> string \<Rightarrow> bool \<Rightarrow> pilot_request
     \<Rightarrow> ('g, gate_state) pilot_run
     \<Rightarrow> (pilot_stop option \<times> ('g, gate_state) pilot_run) \<times> approval_record list" where
  "resume_write_pilot E sha default_ttl approval_id rollback_flag R r =
    (let out = execute (resume_env E sha default_ttl approval_id rollback_flag R) R r
     in (out, pending_of R (snd out)))"

subsection \<open>What each step leaves alone\<close>

named_theorems run_frame "fields of the run that a step does not change"

lemma audit_frame [run_frame]:
  "pr_state (audit R a b d r) = pr_state r" "pr_approvals (audit R a b d r) = pr_approvals r"
  "pr_transitions (audit R a b d r) = pr_transitions r" "pr_original (audit R a b d r) = pr_original r"
  "pr_existed (audit R a b d r) = pr_existed r" "pr_final (audit R a b d r) = pr_final r"
  "pr_commit_hash (audit R a b d r) = pr_commit_hash r" "pr_tools (audit R a b d r) = pr_tools r"
  "pr_rolled_back (audit R a b d r) = pr_rolled_back r" "pr_files (audit R a b d r) = pr_files r"
  "pr_git (audit R a b d r) = pr_git r" "pr_gates (audit R a b d r) = pr_gates r"
  by (simp_all add: audit_def)

lemma transition_frame [run_frame]:
  "pr_state (transition x r) = x" "pr_original (transition x r) = pr_original r"
  "pr_existed (transition x r) = pr_existed r" "pr_final (transition x r) = pr_final r"
  "pr_commit_hash (transition x r) = pr_commit_hash r" "pr_tools (transition x r) = pr_tools r"
  "pr_rolled_back (transition x r) = pr_rolled_back r" "pr_files (transition x r) = pr_files r"
  "pr_git (transition x r) = pr_git r" "pr_gates (transition x r) = pr_gates r"
  by (simp_all add: transition_def)

lemma rollback_frame [run_frame]:
  "pr_commit_hash (rollback E R b r) = pr_commit_hash r" "pr_tools (rollback E R b r) = pr_tools r"
  "pr_gates (rollback E R b r) = pr_gates r" "pr_rolled_back (rollback E R b r) = True"
  by (simp_all add: rollback_def Let_def run_frame unstage_def)

lemma denied_frame [run_frame]:
  "pr_commit_hash (rollback_if_denied E R typ r) = pr_commit_hash r"
  "pr_tools (rollback_if_denied E R typ r) = pr_tools r"
  "pr_gates (rollback_if_denied E R typ r) = pr_gates r"
  by (simp_all add: rollback_if_denied_def Let_def run_frame unstage_def split: option.splits)

lemma denied_no_provider:
  "env_provider E = None \<Longrightarrow> rollback_if_denied E R typ r = r"
  by (simp add: rollback_if_denied_def)

lemma denied_early:
  "typ = ''path'' \<or> typ = ''content'' \<Longrightarrow> rollback_if_denied E R typ r = r"
  by (simp add: rollback_if_denied_def)

lemma finish_result:
  "finish R st m r = (Some (Stopped res), r') \<Longrightarrow>
     pr_gates r' = pr_gates r \<and> pr_tools r' = pr_tools r \<and> pr_files r' = pr_files r \<and> pr_git r' = pr_git r
     \<and> pr_commit_hash r' = pr_commit_hash r \<and> res_committed res = (pr_commit_hash r \<noteq> None)
     \<and> res_state res = pr_state r \<and> res_rolled_back res = pr_rolled_back r \<and> res_status res = st
     \<and> res_transitions res = pr_transitions r"
  by (auto simp: finish_def Let_def run_frame)

lemma finish_stops: "\<exists>res. fst (finish R st m r) = Some (Stopped res)"
  by (simp add: finish_def Let_def)

lemma run_tool_frame [run_frame]:
  "pr_gates (snd (run_tool E R a r)) = pr_gates r"
  "pr_commit_hash (snd (run_tool E R a r)) = pr_commit_hash r"
  "pr_existed (snd (run_tool E R a r)) = pr_existed r"
  "pr_original (snd (run_tool E R a r)) = pr_original r"
  "pr_rolled_back (snd (run_tool E R a r)) = pr_rolled_back r"
  "pr_state (snd (run_tool E R a r)) = pr_state r"
  "pr_transitions (snd (run_tool E R a r)) = pr_transitions r"
  by (simp_all add: run_tool_def run_frame split: prod.splits)

subsection \<open>Reasoning about phases\<close>

text \<open>From \<open>P\<close> the phase either goes on in \<open>Q\<close> or stops in \<open>S\<close>.\<close>

definition phase_ok ::
    "(('g, 's) pilot_run \<Rightarrow> bool) \<Rightarrow> ('g, 's) phase \<Rightarrow> (('g, 's) pilot_run \<Rightarrow> bool)
     \<Rightarrow> (pilot_stop \<Rightarrow> ('g, 's) pilot_run \<Rightarrow> bool) \<Rightarrow> bool" where
  "phase_ok P p Q S \<longleftrightarrow> (\<forall>r. P r \<longrightarrow> (case p r of (None, r') \<Rightarrow> Q r' | (Some x, r') \<Rightarrow> S x r'))"

lemma then_phase_ok: "phase_ok P p Q S \<Longrightarrow> phase_ok Q q R S \<Longrightarrow> phase_ok P (then_phase p q) R S"
  by (fastforce simp: phase_ok_def then_phase_def split: prod.splits option.splits)

lemma phase_okD:
  "phase_ok P p Q S \<Longrightarrow> P r \<Longrightarrow> p r = (None, r') \<Longrightarrow> Q r'"
  "phase_ok P p Q S \<Longrightarrow> P r \<Longrightarrow> p r = (Some x, r') \<Longrightarrow> S x r'"
  by (force simp: phase_ok_def)+

lemma phase_okI:
  assumes "\<And>r r'. P r \<Longrightarrow> p r = (None, r') \<Longrightarrow> Q r'"
    and "\<And>r x r'. P r \<Longrightarrow> p r = (Some x, r') \<Longrightarrow> S x r'"
  shows "phase_ok P p Q S"
  unfolding phase_ok_def using assms by (auto split: prod.split option.split)

lemma phase_weaken:
  assumes "phase_ok P p Q S" and "\<And>x r. S x r \<Longrightarrow> S' x r" and "\<And>r. Q r \<Longrightarrow> Q' r" and "\<And>r. P' r \<Longrightarrow> P r"
  shows "phase_ok P' p Q' S'"
proof (rule phase_okI)
  show "Q' r'" if "P' r" "p r = (None, r')" for r r'
    using phase_okD(1) [OF assms(1)] that assms(3,4) by blast
  show "S' x r'" if "P' r" "p r = (Some x, r')" for r x r'
    using phase_okD(2) [OF assms(1)] that assms(2,4) by blast
qed

lemma execute_ok:
  assumes "phase_ok P0 (start_phase E R) P1 S"
    and "phase_ok P1 (gate_phase E R Awaiting_path_approval ''path'' ''Path approval denied.'') P2 S"
    and "phase_ok P2 (gate_phase E R Awaiting_content_approval ''content'' ''Content approval denied.'') P3 S"
    and "phase_ok P3 (write_phase E R) P4 S" and "phase_ok P4 (validate_phase E R) P5 S"
    and "phase_ok P5 (gate_phase E R Awaiting_stage_approval ''stage'' ''Stage approval denied.'') P6 S"
    and "phase_ok P6 (stage_phase E R) P7 S"
    and "phase_ok P7 (gate_phase E R Awaiting_commit_approval ''commit'' ''Commit approval denied.'') P8 S"
    and "phase_ok P8 (commit_phase E R) P9 S"
  shows "phase_ok P0 (execute E R) P9 S"
  unfolding execute_def by (intro then_phase_ok; fact assms)

text \<open>A failure stops the run in the state that the rollback left.\<close>

lemma fail_stops:
  assumes "fail E R b m r = (x, r')"
  obtains res where "x = Some (Stopped res)" "res_status res = ''failed''" "pr_gates r' = pr_gates r"
    "pr_tools r' = pr_tools r" "pr_commit_hash r' = pr_commit_hash r"
    "res_committed res = (pr_commit_hash r \<noteq> None)"
    "\<not> b \<Longrightarrow> pr_files r' = pr_files r \<and> pr_git r' = pr_git r \<and> res_rolled_back res = pr_rolled_back r
      \<and> res_state res = pr_state r"
proof -
  define q where "q = (if b \<and> pr_state r \<notin> {Rolled_back, Planned, Awaiting_path_approval, Awaiting_content_approval}
    \<and> \<not> pr_rolled_back r then rollback E R True r else r)"
  have eq: "fail E R b m r = finish R ''failed'' m q" by (simp add: fail_def q_def Let_def)
  obtain res where x: "x = Some (Stopped res)"
    using finish_stops [of R "''failed''" m q] assms unfolding eq by auto
  have q: "pr_gates q = pr_gates r" "pr_tools q = pr_tools r" "pr_commit_hash q = pr_commit_hash r"
    "\<not> b \<Longrightarrow> q = r"
    by (simp_all add: q_def run_frame)
  show ?thesis
    using finish_result [of R "''failed''" m q res r'] assms x q that unfolding eq by simp
qed

lemma start_stops:
  assumes "start_phase E R r = (Some x, r')"
  shows "\<exists>res. x = Stopped res \<and> res_committed res = (pr_commit_hash r \<noteq> None) \<and> pr_tools r' = pr_tools r"
proof -
  have f: "\<exists>res. y = Stopped res \<and> res_committed res = (pr_commit_hash q \<noteq> None) \<and> pr_tools q' = pr_tools q"
    if "fail E R b m q = (Some y, q')" for b m q y q'
    using fail_stops [OF that] by (metis option.inject)
  have g: "\<exists>res. y = Stopped res \<and> res_committed res = (pr_commit_hash q \<noteq> None) \<and> pr_tools q' = pr_tools q"
    if "finish R st m q = (Some y, q')" for st m q y q'
    using that by (auto simp: finish_def Let_def run_frame)
  consider st m where "finish R st m r = (Some x, r')"
    | m where "fail E R True m (audit R ''write_pilot'' ''started'' [] r) = (Some x, r')"
    using assms by (auto simp: start_phase_def Let_def split: if_splits)
  then show ?thesis
  proof cases
    case 1
    from g [OF this] show ?thesis .
  next
    case 2
    from f [OF this] show ?thesis by (simp add: run_frame)
  qed
qed

lemma never_goes_on [simp]: "finish R st m r \<noteq> (None, r')" "fail E R b m r \<noteq> (None, r')"
  by (simp_all add: finish_def fail_def Let_def)

lemma start_goes_on:
  "start_phase E R r = (None, r') \<Longrightarrow> r' = audit R ''write_pilot'' ''started'' [] r
     \<and> decision (check_write_pilot_path (env_policy E) (env_is_symlink E) (Some (env_repo_root E)) (target_path R)) \<noteq> Deny"
  by (simp add: start_phase_def Let_def split: if_split_asm)

subsection \<open>A run against a gate that keeps its contract\<close>

text \<open>The environment's callback is the contract's gate, and asking the provider keeps what the
  contract speaks of.\<close>

locale pilot_contract = approval_gate gate good granted
  for gate :: "string \<Rightarrow> string \<Rightarrow> gate_context \<Rightarrow> 's \<Rightarrow> approval_callback \<times> 's" and good granted +
  fixes E :: "('g, 's) pilot_env"
  assumes env_gate: "env_gate E = Some g \<Longrightarrow> g = gate"
    and provider_good: "env_provider E = Some P \<Longrightarrow> good s \<Longrightarrow> good (prov_request P typ req ctx s)"
    and provider_keeps: "env_provider E = Some P \<Longrightarrow> good s \<Longrightarrow> granted s typ' req' \<Longrightarrow>
      granted (prov_request P typ req ctx s) typ' req'"
begin

lemma request_gate_contract:
  assumes "request_gate E R typ r = (ok, r')" and "good (pr_gates r)"
  shows "good (pr_gates r') \<and> (\<forall>t q. granted (pr_gates r) t q \<longrightarrow> granted (pr_gates r') t q)
    \<and> (ok \<longrightarrow> granted (pr_gates r') typ (run_request_id R))
    \<and> pr_tools r' = pr_tools r \<and> pr_commit_hash r' = pr_commit_hash r"
proof -
  define r2 where "r2 = (case env_provider E of None \<Rightarrow> r\<lparr>pr_approvals := pr_approvals r @ [pending_record R typ False]\<rparr>
    | Some P \<Rightarrow> r\<lparr>pr_approvals := pr_approvals r @ [pending_record R typ False],
        pr_gates := prov_request P typ (run_request_id R) (run_context R) (pr_gates r)\<rparr>)"
  have r2: "good (pr_gates r2)" "\<forall>t q. granted (pr_gates r) t q \<longrightarrow> granted (pr_gates r2) t q"
    "pr_tools r2 = pr_tools r" "pr_commit_hash r2 = pr_commit_hash r"
    using assms(2) provider_good provider_keeps by (auto simp: r2_def split: option.splits)
  show ?thesis
  proof (cases "env_gate E")
    case None
    then have "r' = r2" "ok = False"
      using assms(1) by (auto simp: request_gate_def Let_def r2_def split: option.splits)
    with r2 show ?thesis by simp
  next
    case (Some g)
    then have g: "env_gate E = Some gate" using env_gate by simp
    let ?s = "snd (gate typ (run_request_id R) (run_context R) (pr_gates r2))"
    let ?cb = "fst (gate typ (run_request_id R) (run_context R) (pr_gates r2))"
    have gates: "pr_gates r' = ?s" "pr_tools r' = pr_tools r2" "pr_commit_hash r' = pr_commit_hash r2"
      "ok \<longrightarrow> cb_approved ?cb"
      using assms(1) g
      by (auto simp: request_gate_def Let_def r2_def run_frame split: option.splits prod.splits if_splits)
    show ?thesis
      using gates r2 gate_good gate_granted gate_keeps by metis
  qed
qed

lemma gate_contract:
  assumes "request_or_resume E R typ r = (ok, r')" and "good (pr_gates r)"
  shows "good (pr_gates r') \<and> (\<forall>t q. granted (pr_gates r) t q \<longrightarrow> granted (pr_gates r') t q)
    \<and> (ok \<longrightarrow> granted (pr_gates r') typ (run_request_id R))
    \<and> pr_tools r' = pr_tools r \<and> pr_commit_hash r' = pr_commit_hash r"
proof (cases "env_gate E")
  case None
  then show ?thesis using request_gate_contract assms by (simp add: request_or_resume_def)
next
  case (Some g)
  then have g: "env_gate E = Some gate" using env_gate by simp
  define s where "s = snd (gate typ (run_request_id R) (run_context R) (pr_gates r))"
  define cb where "cb = fst (gate typ (run_request_id R) (run_context R) (pr_gates r))"
  have s: "good s" "\<forall>t q. granted (pr_gates r) t q \<longrightarrow> granted s t q"
    "cb_approved cb \<longrightarrow> granted s typ (run_request_id R)"
    unfolding s_def cb_def using assms(2) gate_good gate_keeps gate_granted by blast+
  show ?thesis
  proof (cases "cb_approved cb")
    case True
    then have "pr_gates r' = s" "pr_tools r' = pr_tools r" "pr_commit_hash r' = pr_commit_hash r"
      using assms(1) g by (auto simp: request_or_resume_def Let_def s_def cb_def run_frame split: prod.splits if_splits)
    with s True show ?thesis by simp
  next
    case False
    let ?q = "rollback_if_denied E R typ (r\<lparr>pr_gates := s\<rparr>)"
    have "request_gate E R typ ?q = (ok, r')"
      using assms(1) g False by (simp add: request_or_resume_def Let_def s_def cb_def split: prod.splits)
    from request_gate_contract [OF this] s show ?thesis by (simp add: run_frame)
  qed
qed

text \<open>The gates granted so far, and what a stopped run tells.\<close>

lemma gate_phase_contract:
  "phase_ok (\<lambda>r. good (pr_gates r) \<and> pr_commit_hash r = None \<and> (\<forall>t \<in> ts. granted (pr_gates r) t (run_request_id R))
      \<and> (late \<or> pr_tools r = []))
    (gate_phase E R st typ m)
    (\<lambda>r. good (pr_gates r) \<and> pr_commit_hash r = None \<and> (\<forall>t \<in> insert typ ts. granted (pr_gates r) t (run_request_id R))
      \<and> (late \<or> pr_tools r = []))
    (\<lambda>x r'. \<exists>res. x = Stopped res \<and> \<not> res_committed res \<and> (\<forall>t \<in> ts. granted (pr_gates r') t (run_request_id R))
      \<and> (late \<or> pr_tools r' = []))"
  unfolding phase_ok_def
proof (intro allI impI, elim conjE)
  fix r :: "('g, 's) pilot_run"
  assume g: "good (pr_gates r)" and h: "pr_commit_hash r = None"
    and ts: "\<forall>t \<in> ts. granted (pr_gates r) t (run_request_id R)" and late: "late \<or> pr_tools r = []"
  obtain ok r1 where q: "request_or_resume E R typ (transition st r) = (ok, r1)" by force
  from gate_contract [OF q] g have c: "good (pr_gates r1)"
    "\<forall>t q. granted (pr_gates r) t q \<longrightarrow> granted (pr_gates r1) t q"
    "ok \<longrightarrow> granted (pr_gates r1) typ (run_request_id R)" "pr_tools r1 = pr_tools r"
    "pr_commit_hash r1 = None"
    using h by (simp_all add: run_frame)
  show "case gate_phase E R st typ m r of
      (None, r') \<Rightarrow> good (pr_gates r') \<and> pr_commit_hash r' = None
        \<and> (\<forall>t \<in> insert typ ts. granted (pr_gates r') t (run_request_id R)) \<and> (late \<or> pr_tools r' = [])
    | (Some x, r') \<Rightarrow> \<exists>res. x = Stopped res \<and> \<not> res_committed res
        \<and> (\<forall>t \<in> ts. granted (pr_gates r') t (run_request_id R)) \<and> (late \<or> pr_tools r' = [])"
  proof (cases ok)
    case True
    then show ?thesis using c ts late q by (simp add: gate_phase_def)
  next
    case False
    obtain x r2 where f: "fail E R False m r1 = (x, r2)" by force
    from fail_stops [OF f] obtain res where "x = Some (Stopped res)" "pr_gates r2 = pr_gates r1"
      "pr_tools r2 = pr_tools r1" "res_committed res = (pr_commit_hash r1 \<noteq> None)" by metis
    then show ?thesis using False c ts late q f by (simp add: gate_phase_def)
  qed
qed

text \<open>The stop condition of the whole run.\<close>

definition run_told :: "pilot_request \<Rightarrow> pilot_stop \<Rightarrow> ('g, 's) pilot_run \<Rightarrow> bool" where
  "run_told R x r \<longleftrightarrow>
     (\<forall>res. x = Stopped res \<longrightarrow> res_committed res \<longrightarrow>
        (\<forall>t \<in> {''path'', ''content'', ''stage'', ''commit''}. granted (pr_gates r) t (run_request_id R)))
     \<and> (pr_tools r \<noteq> [] \<longrightarrow> (\<forall>t \<in> {''path'', ''content''}. granted (pr_gates r) t (run_request_id R)))"

lemma fail_told:
  assumes "pr_commit_hash r = None" and "\<forall>t \<in> {''path'', ''content''}. granted (pr_gates r) t (run_request_id R)"
  shows "case fail E R b m r of (None, r') \<Rightarrow> Q r' | (Some x, r') \<Rightarrow> run_told R x r'"
proof -
  obtain x r' where f: "fail E R b m r = (x, r')" by force
  from fail_stops [OF f] obtain res where "x = Some (Stopped res)" "pr_gates r' = pr_gates r"
    "res_committed res = (pr_commit_hash r \<noteq> None)" by metis
  with assms f show ?thesis by (simp add: run_told_def)
qed

definition granted_to :: "string set \<Rightarrow> pilot_request \<Rightarrow> ('g, 's) pilot_run \<Rightarrow> bool" where
  "granted_to ts R r \<longleftrightarrow> good (pr_gates r) \<and> pr_commit_hash r = None
     \<and> (\<forall>t \<in> ts. granted (pr_gates r) t (run_request_id R))"

theorem run_told_execute:
  "phase_ok (\<lambda>r. good (pr_gates r) \<and> pr_commit_hash r = None \<and> pr_tools r = [])
     (execute E R) (\<lambda>r. False) (run_told R)"
proof (rule execute_ok)
  let ?pre = "\<lambda>ts r. good (pr_gates r) \<and> pr_commit_hash r = None
    \<and> (\<forall>t \<in> ts. granted (pr_gates r) t (run_request_id R)) \<and> (False \<or> pr_tools r = [])"
  let ?pc = "{''path'', ''content''}"
  show "phase_ok (\<lambda>r. good (pr_gates r) \<and> pr_commit_hash r = None \<and> pr_tools r = []) (start_phase E R)
      (?pre {}) (run_told R)"
  proof (rule phase_okI)
    fix r r' :: "('g, 's) pilot_run"
    assume r: "good (pr_gates r) \<and> pr_commit_hash r = None \<and> pr_tools r = []"
      and e: "start_phase E R r = (None, r')"
    from r start_goes_on [OF e] show "?pre {} r'" by (simp add: run_frame)
  next
    fix r x r'
    assume r: "good (pr_gates r) \<and> pr_commit_hash r = None \<and> pr_tools r = []"
      and e: "start_phase E R r = (Some x, r')"
    have "\<exists>res. x = Stopped res \<and> \<not> res_committed res \<and> pr_tools r' = []"
      using start_stops [OF e] r by auto
    then show "run_told R x r'" by (auto simp: run_told_def)
  qed
  show "phase_ok (?pre {}) (gate_phase E R Awaiting_path_approval ''path'' ''Path approval denied.'')
      (?pre {''path''}) (run_told R)"
    by (rule phase_weaken [OF gate_phase_contract [where late = False and ts = "{}"]]) (auto simp: run_told_def)
  show "phase_ok (?pre {''path''}) (gate_phase E R Awaiting_content_approval ''content'' ''Content approval denied.'')
      (granted_to ?pc R) (run_told R)"
    by (rule phase_weaken [OF gate_phase_contract [where late = False and ts = "{''path''}"]])
      (auto simp: run_told_def granted_to_def)
  show "phase_ok (granted_to ?pc R) (write_phase E R) (granted_to ?pc R) (run_told R)"
    unfolding phase_ok_def
  proof (intro allI impI)
    fix r :: "('g, 's) pilot_run"
    assume r: "granted_to ?pc R r"
    define r1 where "r1 = r\<lparr>pr_existed := (f_get (run_target E R) (pr_files r) \<noteq> None),
      pr_tracked := g_tracked (env_git E) (pr_files r) (pr_git r) (target_path R),
      pr_original := (case f_get (run_target E R) (pr_files r) of None \<Rightarrow> pr_original r | Some c \<Rightarrow> Some c)\<rparr>"
    let ?t = "run_tool E R (Args_write (target_path R) (proposed_content R) (env_repo_root E)
      (f_get (run_target E R) (pr_files r) \<noteq> None)) r1"
    have k: "pr_gates (snd ?t) = pr_gates r" "pr_commit_hash (snd ?t) = None"
      using r by (simp_all add: run_frame r1_def granted_to_def)
    show "case write_phase E R r of (None, r') \<Rightarrow> granted_to ?pc R r' | (Some x, r') \<Rightarrow> run_told R x r'"
      using r k fail_told [of "snd ?t" R]
      unfolding write_phase_def Let_def r1_def [symmetric]
      by (cases ?t; cases "fst ?t")
        (auto simp: granted_to_def run_told_def run_frame split: if_splits)
  qed
  show "phase_ok (granted_to ?pc R) (validate_phase E R) (\<lambda>r. good (pr_gates r) \<and> pr_commit_hash r = None
      \<and> (\<forall>t \<in> ?pc. granted (pr_gates r) t (run_request_id R)) \<and> (True \<or> pr_tools r = [])) (run_told R)"
    unfolding phase_ok_def
    using fail_told by (auto simp: validate_phase_def granted_to_def run_frame split: option.splits)
  show "phase_ok (\<lambda>r. good (pr_gates r) \<and> pr_commit_hash r = None
      \<and> (\<forall>t \<in> ?pc. granted (pr_gates r) t (run_request_id R)) \<and> (True \<or> pr_tools r = []))
      (gate_phase E R Awaiting_stage_approval ''stage'' ''Stage approval denied.'')
      (granted_to (insert ''stage'' ?pc) R) (run_told R)"
    by (rule phase_weaken [OF gate_phase_contract [where late = True and ts = "?pc"]])
      (auto simp: run_told_def granted_to_def)
  show "phase_ok (granted_to (insert ''stage'' ?pc) R) (stage_phase E R)
      (\<lambda>r. good (pr_gates r) \<and> pr_commit_hash r = None
      \<and> (\<forall>t \<in> insert ''stage'' ?pc. granted (pr_gates r) t (run_request_id R)) \<and> (True \<or> pr_tools r = []))
      (run_told R)"
    unfolding phase_ok_def
  proof (intro allI impI)
    fix r :: "('g, 's) pilot_run"
    assume r: "granted_to (insert ''stage'' ?pc) R r"
    let ?t = "run_tool E R (Args_add (target_path R) (env_repo_root E)) r"
    have k: "pr_gates (snd ?t) = pr_gates r" "pr_commit_hash (snd ?t) = None"
      using r by (simp_all add: run_frame granted_to_def)
    show "case stage_phase E R r of (None, r') \<Rightarrow> good (pr_gates r') \<and> pr_commit_hash r' = None
      \<and> (\<forall>t \<in> insert ''stage'' ?pc. granted (pr_gates r') t (run_request_id R)) \<and> (True \<or> pr_tools r' = [])
      | (Some x, r') \<Rightarrow> run_told R x r'"
      using r k fail_told [of "snd ?t" R]
      unfolding stage_phase_def
      by (cases ?t; cases "fst ?t")
        (auto simp: granted_to_def run_told_def run_frame split: if_splits)
  qed
  show "phase_ok (\<lambda>r. good (pr_gates r) \<and> pr_commit_hash r = None
      \<and> (\<forall>t \<in> insert ''stage'' ?pc. granted (pr_gates r) t (run_request_id R)) \<and> (True \<or> pr_tools r = []))
      (gate_phase E R Awaiting_commit_approval ''commit'' ''Commit approval denied.'')
      (granted_to (insert ''commit'' (insert ''stage'' ?pc)) R) (run_told R)"
    by (rule phase_weaken [OF gate_phase_contract [where late = True and ts = "insert ''stage'' ?pc"]])
      (auto simp: run_told_def granted_to_def)
  show "phase_ok (granted_to (insert ''commit'' (insert ''stage'' ?pc)) R) (commit_phase E R)
      (\<lambda>r. False) (run_told R)"
    unfolding phase_ok_def
  proof (intro allI impI)
    fix r :: "('g, 's) pilot_run"
    assume r: "granted_to (insert ''commit'' (insert ''stage'' ?pc)) R r"
    let ?t = "run_tool E R (Args_commit (commit_message R) (env_repo_root E) (target_path R)) r"
    have k: "pr_gates (snd ?t) = pr_gates r" "pr_commit_hash (snd ?t) = None"
      using r by (simp_all add: run_frame granted_to_def)
    show "case commit_phase E R r of (None, r') \<Rightarrow> False | (Some x, r') \<Rightarrow> run_told R x r'"
      using r k fail_told [of "snd ?t" R "\<lambda>_. False"]
      unfolding commit_phase_def
      by (cases ?t; cases "fst ?t")
        (auto simp: granted_to_def run_told_def run_frame finish_def Let_def split: if_splits)
  qed
qed

end

interpretation resume_run: pilot_contract
  "make_resume_callback sha (Some approval_id) (req_actor R)" gate_good gate_consumed
  "resume_env E sha default_ttl approval_id flag R"
proof
  fix P s "typ" req ctx typ' req'
  assume "env_provider (resume_env E sha default_ttl approval_id flag R) = Some P" and "gate_good s"
  then show "gate_good (prov_request P typ req ctx s)"
    and "gate_consumed s typ' req' \<Longrightarrow> gate_consumed (prov_request P typ req ctx s) typ' req'"
    using request_gate.gate_good request_gate.gate_keeps
    by (auto simp: resume_env_def store_provider_def)
qed (simp add: resume_env_def)

interpretation provider_run: pilot_contract
  "provider_request sha default_ttl" gate_good gate_consumed
  "provider_env E sha default_ttl flag"
proof
  fix P s "typ" req ctx typ' req'
  assume "env_provider (provider_env E sha default_ttl flag) = Some P" and "gate_good s"
  then show "gate_good (prov_request P typ req ctx s)"
    and "gate_consumed s typ' req' \<Longrightarrow> gate_consumed (prov_request P typ req ctx s) typ' req'"
    using request_gate.gate_good request_gate.gate_keeps
    by (auto simp: provider_env_def store_provider_def)
qed (simp add: provider_env_def)

subsection \<open>What a gate does to the files\<close>

text \<open>The part of the run that gates and rollbacks share: files, git and what to restore.\<close>

definition same_work :: "('g, 's) pilot_run \<Rightarrow> ('g, 's) pilot_run \<Rightarrow> bool" where
  "same_work r r' \<longleftrightarrow> pr_files r' = pr_files r \<and> pr_git r' = pr_git r \<and> pr_existed r' = pr_existed r
     \<and> pr_original r' = pr_original r \<and> pr_rolled_back r' = pr_rolled_back r \<and> pr_tools r' = pr_tools r"

lemma same_work_simps [simp]:
  "same_work r r" "same_work r (audit R a b d r') = same_work r r'"
  "same_work r (transition x r') = same_work r r'"
  "same_work r (r'\<lparr>pr_gates := s\<rparr>) = same_work r r'" "same_work r (r'\<lparr>pr_approvals := as\<rparr>) = same_work r r'"
  "same_work (r\<lparr>pr_gates := s\<rparr>) r' = same_work r r'" "same_work (transition x r) r' = same_work r r'"
  "same_work (audit R a b d r) r' = same_work r r'"
  by (simp_all add: same_work_def audit_def transition_def)

text \<open>A gate that no recorded denial touches: it leaves the work alone, or, refused and with the
  flag, rolls it back.\<close>

lemma request_gate_work:
  assumes "request_gate E R typ r = (ok, r')" and quiet: "env_provider E = None \<or> typ = ''path'' \<or> typ = ''content''"
  shows "same_work r r' \<or> \<not> ok \<and> env_rollback_on_unapproved E \<and> (\<exists>q. same_work r q \<and> r' = rollback E R False q)"
proof -
  have den: "rollback_if_denied E R typ q = q" for q
    using quiet denied_no_provider denied_early by blast
  define r2 where "r2 = (case env_provider E of None \<Rightarrow> r\<lparr>pr_approvals := pr_approvals r @ [pending_record R typ False]\<rparr>
    | Some P \<Rightarrow> r\<lparr>pr_approvals := pr_approvals r @ [pending_record R typ False],
        pr_gates := prov_request P typ (run_request_id R) (run_context R) (pr_gates r)\<rparr>)"
  have r2: "same_work r r2" by (simp add: r2_def split: option.splits)
  show ?thesis
  proof (cases "env_gate E")
    case None
    then have "r' = r2"
      using assms(1) by (auto simp: request_gate_def Let_def r2_def split: option.splits)
    with r2 show ?thesis by simp
  next
    case (Some gate)
    define s cb where "s = snd (gate typ (run_request_id R) (run_context R) (pr_gates r2))"
      and "cb = fst (gate typ (run_request_id R) (run_context R) (pr_gates r2))"
    have eq: "request_gate E R typ r =
      (if cb_approved cb \<and> token_matches R typ cb
       then (True, audit R ''approval'' ''approved'' [(''approval_type'', JStr typ)]
               (r2\<lparr>pr_gates := s, pr_approvals := butlast (pr_approvals r2) @
                  [(last (pr_approvals r2))\<lparr>appr_approved := True\<rparr>]\<rparr>))
       else (False, if env_rollback_on_unapproved E then rollback E R False (r2\<lparr>pr_gates := s\<rparr>)
                    else r2\<lparr>pr_gates := s\<rparr>))"
      using Some by (simp add: request_gate_def Let_def r2_def s_def cb_def den split: option.splits prod.splits)
    show ?thesis
      using assms(1) r2 unfolding eq
      by (auto split: if_splits intro!: exI [of _ "r2\<lparr>pr_gates := s\<rparr>"])
  qed
qed

lemma gate_work:
  assumes "request_or_resume E R typ r = (ok, r')" and quiet: "env_provider E = None \<or> typ = ''path'' \<or> typ = ''content''"
  shows "same_work r r' \<or> \<not> ok \<and> env_rollback_on_unapproved E \<and> (\<exists>q. same_work r q \<and> r' = rollback E R False q)"
proof (cases "env_gate E")
  case None
  then show ?thesis using assms request_gate_work by (simp add: request_or_resume_def)
next
  case (Some gate)
  have den: "rollback_if_denied E R typ q = q" for q
    using quiet denied_no_provider denied_early by blast
  define s cb where "s = snd (gate typ (run_request_id R) (run_context R) (pr_gates r))"
    and "cb = fst (gate typ (run_request_id R) (run_context R) (pr_gates r))"
  show ?thesis
  proof (cases "cb_approved cb")
    case True
    then show ?thesis
      using assms(1) Some
      by (auto simp: request_or_resume_def Let_def s_def cb_def split: prod.splits if_splits)
  next
    case False
    then have "request_gate E R typ (r\<lparr>pr_gates := s\<rparr>) = (ok, r')"
      using assms(1) Some by (simp add: request_or_resume_def Let_def s_def cb_def den split: prod.splits)
    from request_gate_work [OF this quiet] show ?thesis by simp
  qed
qed

lemma rollback_target:
  assumes "\<not> is_backup_of (run_target E R) (run_target E R)"
  shows "f_get (run_target E R) (pr_files (rollback E R b r)) =
    (if pr_existed r then (case pr_original r of None \<Rightarrow> f_get (run_target E R) (pr_files r) | Some c \<Rightarrow> Some c)
     else None)"
  using assms
  by (simp add: rollback_def Let_def run_frame unstage_def f_get_delete_backups split: option.splits)

lemma rollback_unexisted:
  "\<not> pr_existed r \<Longrightarrow> f_get (run_target E R) (pr_files (rollback E R b r)) = None"
  by (simp add: rollback_def Let_def run_frame unstage_def f_get_delete_backups)

lemma fail_work:
  assumes "fail E R b m r = (x, r')"
  shows "\<exists>res. x = Some (Stopped res) \<and> res_status res = ''failed'' \<and> pr_tools r' = pr_tools r \<and>
    (pr_files r' = pr_files r \<and> pr_git r' = pr_git r \<and> res_rolled_back res = pr_rolled_back r
     \<or> b \<and> \<not> pr_rolled_back r \<and> pr_state r \<notin> {Rolled_back, Planned, Awaiting_path_approval, Awaiting_content_approval}
        \<and> pr_files r' = pr_files (rollback E R True r) \<and> res_rolled_back res)"
proof -
  let ?go = "b \<and> pr_state r \<notin> {Rolled_back, Planned, Awaiting_path_approval, Awaiting_content_approval}
    \<and> \<not> pr_rolled_back r"
  from fail_stops [OF assms] obtain res where x: "x = Some (Stopped res)" by blast
  show ?thesis
  proof (cases ?go)
    case True
    then have "finish R ''failed'' m (rollback E R True r) = (Some (Stopped res), r')"
      using assms x by (simp add: fail_def Let_def)
    from finish_result [OF this] True x show ?thesis by (simp add: run_frame)
  next
    case False
    then have "finish R ''failed'' m r = (Some (Stopped res), r')"
      using assms x unfolding fail_def Let_def by (simp only: if_False)
    from finish_result [OF this] x show ?thesis by simp
  qed
qed

subsection \<open>Properties\<close>

lemma stopped_by:
  assumes "phase_ok P (execute E R) (\<lambda>r. False) S" and "P r"
  shows "\<exists>x r'. execute E R r = (Some x, r') \<and> S x r'"
proof (cases "execute E R r")
  case (Pair y r')
  with assms phase_okD [OF assms(1,2)] show ?thesis by (cases y) auto
qed

text \<open>C1. A resumed run commits only when the path, content, stage and commit records of its
  request are all consumed, and runs a tool only when the path and content records are; and it
  always ends with a result or an exception.\<close>

theorem commit_needs_four_approvals:
  assumes "gate_good (pr_gates r)" and "pr_commit_hash r = None" and "pr_tools r = []"
  shows "\<exists>x r'. resume_write_pilot E sha ttl approval_id flag R r = ((Some x, r'), pending_of R r')
    \<and> (\<forall>res. x = Stopped res \<longrightarrow> res_committed res \<longrightarrow>
         (\<forall>t \<in> {''path'', ''content'', ''stage'', ''commit''}. gate_consumed (pr_gates r') t (run_request_id R)))
    \<and> (pr_tools r' \<noteq> [] \<longrightarrow> gate_consumed (pr_gates r') ''path'' (run_request_id R)
         \<and> gate_consumed (pr_gates r') ''content'' (run_request_id R))"
proof -
  let ?E = "resume_env E sha ttl approval_id flag R"
  obtain x r' where e: "execute ?E R r = (Some x, r')" and
    t: "resume_run.run_told R x r'"
    using stopped_by [OF resume_run.run_told_execute] assms by metis
  from t show ?thesis
    unfolding resume_run.run_told_def resume_write_pilot_def Let_def e by simp
qed

text \<open>A small repository: one file at the target path, git that tracks nothing and never fails.\<close>

definition sample_git :: "unit git_ops" where
  "sample_git = \<lparr>g_tracked = (\<lambda>_ _ _. False), g_diff_check = (\<lambda>_ _ _. None), g_status = (\<lambda>_ _ _. None),
     g_unstage = (\<lambda>_ g _. g), g_add = (\<lambda>_ g _. (None, g)), g_commit = (\<lambda>_ g _ _. (None, g)),
     g_head = (\<lambda>_. Some ''c0ffee'')\<rparr>"

definition builtin_exec ::
    "'g git_ops \<Rightarrow> (path \<Rightarrow> path) \<Rightarrow> (path \<Rightarrow> bool) \<Rightarrow> string \<Rightarrow> tool_args \<Rightarrow> files \<Rightarrow> 'g
     \<Rightarrow> tool_result \<times> files \<times> 'g" where
  "builtin_exec G resolve is_symlink ts a fs g =
    (case a of
       Args_write target content root bak \<Rightarrow>
         (case write_pilot_file_write resolve is_symlink ts target content root bak fs of
            (out, fs') \<Rightarrow> (\<lparr>tr_tool = tool_name a, tr_success = True, tr_output = out, tr_public_error = None\<rparr>, fs', g))
     | Args_add target root \<Rightarrow>
         (case write_pilot_git_add G target fs g of
            (out, g') \<Rightarrow> (\<lparr>tr_tool = tool_name a, tr_success = True, tr_output = out, tr_public_error = None\<rparr>, fs, g'))
     | Args_commit message root target \<Rightarrow>
         (case write_pilot_git_commit G message target fs g of
            (out, g') \<Rightarrow> (\<lparr>tr_tool = tool_name a, tr_success = True, tr_output = out, tr_public_error = None\<rparr>, fs, g')))"

definition sample_env :: "(unit, gate_state) pilot_env" where
  "sample_env = \<lparr>env_smith_enabled = True, env_pilot_enabled = True,
     env_policy = shipped_policy [''srv'', ''repo''], env_is_symlink = (\<lambda>_. False),
     env_repo_root = [''srv'', ''repo''], env_git = sample_git,
     env_exec = builtin_exec sample_git id (\<lambda>_. False) ''ts'', env_gate = None, env_provider = None,
     env_rollback_on_unapproved = True\<rparr>"

definition sample_request :: pilot_request where
  "sample_request = \<lparr>objective = ''add note'', target_path = ''docs/smith-pilot/note.md'',
     proposed_content = ''new'', commit_message = ''add note'', req_actor = ''agent_smith'',
     req_request_id = ''r''\<rparr>"

definition sample_target :: path where
  "sample_target = [''srv'', ''repo'', ''docs'', ''smith-pilot'', ''note.md'']"

definition sample_gates :: gate_state where
  "sample_gates = \<lparr>gate_clock = [], gate_ids = [''a'', ''b''], gate_table = []\<rparr>"

definition sample_run :: "(unit, gate_state) pilot_run" where
  "sample_run = initial_run [(sample_target, ''old'')] () sample_gates"

theorem commit_needs_four_approvals_witness:
  "\<exists>x r'. resume_write_pilot sample_env id 900 ''a'' False sample_request sample_run
     = ((Some x, r'), pending_of sample_request r')"
proof -
  have "gate_good (pr_gates sample_run)" "pr_commit_hash sample_run = None" "pr_tools sample_run = []"
    by (simp_all add: sample_run_def initial_run_def sample_gates_def gate_good_def)
  from commit_needs_four_approvals [OF this] show ?thesis by blast
qed

lemma sample_path_ok:
  "decision (check_write_pilot_path (shipped_policy [''srv'', ''repo'']) (\<lambda>_. False)
     (Some [''srv'', ''repo'']) ''docs/smith-pilot/note.md'') = Allow"
  by code_simp

definition untouched :: "files \<Rightarrow> 'g \<Rightarrow> ('g, 's) pilot_run \<Rightarrow> bool" where
  "untouched fs g r \<longleftrightarrow> (pr_tools r = [] \<longrightarrow> pr_files r = fs \<and> pr_git r = g)"

lemma same_work_untouched: "same_work r r' \<Longrightarrow> untouched fs g r' = untouched fs g r"
  by (simp add: same_work_def untouched_def)

lemma request_gate_commit_hash: "pr_commit_hash (snd (request_gate E R typ r)) = pr_commit_hash r"
  by (simp add: request_gate_def Let_def run_frame split: option.splits prod.splits)

lemma request_commit_hash: "pr_commit_hash (snd (request_or_resume E R typ r)) = pr_commit_hash r"
  by (simp add: request_or_resume_def Let_def run_frame request_gate_commit_hash split: option.splits prod.splits)

lemma finish_untouched: "untouched fs g (snd (finish R st m r)) = untouched fs g r"
  by (simp add: untouched_def finish_def Let_def run_frame)

lemma fail_tools: "pr_tools (snd (fail E R b m r)) = pr_tools r"
  by (simp add: fail_def finish_def Let_def run_frame)

lemma fail_untouched:
  assumes "untouched fs g r" and "\<not> b \<or> pr_tools r \<noteq> [] \<or> pr_state r \<in> {Planned, Awaiting_content_approval}"
  shows "untouched fs g (snd (fail E R b m r))"
proof (cases "pr_tools r = []")
  case True
  with assms(2) have "fail E R b m r = finish R ''failed'' m r" by (auto simp: fail_def Let_def)
  with assms(1) show ?thesis by (simp add: finish_untouched)
qed (simp add: untouched_def fail_tools)

lemma early_gate_untouched:
  fixes E :: "('g, 's) pilot_env"
  assumes "\<not> env_rollback_on_unapproved E" and "typ = ''path'' \<or> typ = ''content''"
  shows "phase_ok (untouched fs g) (gate_phase E R st typ m) (untouched fs g) (\<lambda>x. untouched fs g)"
proof (rule phase_okI)
  fix r r' :: "('g, 's) pilot_run"
  assume u: "untouched fs g r"
  obtain ok q where q: "request_or_resume E R typ (transition st r) = (ok, q)" by force
  from gate_work [OF q] assms have "same_work r q" by auto
  with u have uq: "untouched fs g q" by (simp add: same_work_untouched)
  show "untouched fs g r'" if "gate_phase E R st typ m r = (None, r')"
    using uq q that by (auto simp: gate_phase_def split: bool.splits)
  show "untouched fs g r'" if "gate_phase E R st typ m r = (Some x, r')" for x
    using uq q that fail_untouched [OF uq, of False E R m]
    by (auto simp: gate_phase_def split: bool.splits)
qed

text \<open>Once a tool ran, it stays on record.\<close>

lemma request_gate_tools: "pr_tools (snd (request_gate E R typ r)) = pr_tools r"
  by (simp add: request_gate_def Let_def run_frame split: option.splits prod.splits)

lemma gate_tools: "pr_tools (snd (request_or_resume E R typ r)) = pr_tools r"
  by (simp add: request_or_resume_def Let_def run_frame request_gate_tools split: option.splits prod.splits)

lemma gate_phase_tools: "pr_tools (snd (gate_phase E R st typ m r)) = pr_tools r"
  using gate_tools [of E R "typ" "transition st r"]
  by (auto simp: gate_phase_def fail_tools run_frame split: prod.splits bool.splits)

lemma run_tool_tools: "pr_tools (snd (run_tool E R a r)) \<noteq> [] \<or> fst (run_tool E R a r) = None \<and> snd (run_tool E R a r) = r"
  by (simp add: run_tool_def run_frame split: prod.splits)

lemma finish_tools: "pr_tools (snd (finish R st m r)) = pr_tools r"
  by (simp add: finish_def Let_def run_frame)

lemma write_phase_untouched:
  fixes E :: "('g, 's) pilot_env"
  shows "phase_ok (untouched fs g) (write_phase E R) (\<lambda>r. pr_tools r \<noteq> []) (\<lambda>x. untouched fs g)"
proof (rule phase_okI)
  fix r r' :: "('g, 's) pilot_run"
  assume u: "untouched fs g r"
  define r1 where "r1 = r\<lparr>pr_existed := (f_get (run_target E R) (pr_files r) \<noteq> None),
    pr_tracked := g_tracked (env_git E) (pr_files r) (pr_git r) (target_path R),
    pr_original := (case f_get (run_target E R) (pr_files r) of None \<Rightarrow> pr_original r | Some c \<Rightarrow> Some c)\<rparr>"
  have u1: "untouched fs g r1" using u by (simp add: untouched_def r1_def)
  let ?t = "run_tool E R (Args_write (target_path R) (proposed_content R) (env_repo_root E)
    (f_get (run_target E R) (pr_files r) \<noteq> None)) r1"
  obtain res q where t: "?t = (res, q)" by force
  have tools: "pr_tools q \<noteq> [] \<or> res = None \<and> q = r1" using run_tool_tools [of E R _ r1] t by (metis fst_conv snd_conv)
  have eq: "write_phase E R r = (case (res, q) of
        (None, r2) \<Rightarrow> (Some (Crashed no_attribute), r2)
      | (Some res, r2) \<Rightarrow> if tool_failed res
          then fail E R True (''Write failed: '' @ tool_error_text ''write failed'' res) r2
          else (None, transition Written
                 (r2\<lparr>pr_backup := out_backup_path (tr_output res), pr_final := Some (proposed_content R)\<rparr>)))"
    unfolding write_phase_def Let_def r1_def [symmetric] t ..
  show "pr_tools r' \<noteq> []" if "write_phase E R r = (None, r')"
    using that tools unfolding eq by (auto simp: run_frame split: option.splits if_splits)
  show "untouched fs g r'" if "write_phase E R r = (Some x, r')" for x
  proof (cases res)
    case None
    with that eq tools u1 show ?thesis by (auto simp: untouched_def)
  next
    case (Some v)
    with tools have ne: "pr_tools q \<noteq> []" by simp
    from that Some eq have "fail E R True (''Write failed: '' @ tool_error_text ''write failed'' v) q = (Some x, r')"
      by (simp split: if_splits)
    then have "pr_tools r' = pr_tools q" by (metis fail_tools snd_conv)
    with ne show ?thesis by (simp add: untouched_def)
  qed
qed

lemma later_untouched:
  fixes p :: "('g, 's) phase"
  assumes "\<And>r. pr_tools r \<noteq> [] \<Longrightarrow> pr_tools (snd (p r)) \<noteq> []"
  shows "phase_ok (\<lambda>r. pr_tools r \<noteq> []) p (\<lambda>r. pr_tools r \<noteq> []) (\<lambda>x. untouched fs g)"
  using assms by (intro phase_okI) (force simp: untouched_def)+

lemma start_untouched:
  fixes E :: "('g, 's) pilot_env"
  shows "phase_ok (\<lambda>r. r = initial_run fs g s) (start_phase E R) (untouched fs g) (\<lambda>x. untouched fs g)"
proof (rule phase_okI)
  fix r r' :: "('g, 's) pilot_run"
  assume r: "r = initial_run fs g s"
  then have u: "untouched fs g r" "pr_state r = Planned" by (simp_all add: untouched_def initial_run_def)
  then have a: "untouched fs g (audit R a b d r)" for a b d by (simp add: untouched_def run_frame)
  show "untouched fs g r'" if "start_phase E R r = (None, r')"
    using start_goes_on [OF that] a by simp
  show "untouched fs g r'" if "start_phase E R r = (Some x, r')" for x
  proof -
    have "snd (start_phase E R r) = r'" using that by simp
    then show ?thesis
      using u finish_untouched [of fs g] fail_untouched [OF a, of True] a
      by (auto simp: start_phase_def Let_def run_frame split: if_splits)
  qed
qed

lemma stage_phase_tools: "pr_tools r \<noteq> [] \<Longrightarrow> pr_tools (snd (stage_phase E R r)) \<noteq> []"
  using run_tool_tools [of E R "Args_add (target_path R) (env_repo_root E)" r]
  by (auto simp: stage_phase_def run_frame fail_tools split: prod.splits option.splits)

lemma commit_phase_tools: "pr_tools r \<noteq> [] \<Longrightarrow> pr_tools (snd (commit_phase E R r)) \<noteq> []"
  using run_tool_tools [of E R "Args_commit (commit_message R) (env_repo_root E) (target_path R)" r]
  by (auto simp: commit_phase_def run_frame fail_tools finish_tools Let_def split: prod.splits option.splits)

lemma validate_phase_tools: "pr_tools r \<noteq> [] \<Longrightarrow> pr_tools (snd (validate_phase E R r)) \<noteq> []"
  by (simp add: validate_phase_def run_frame fail_tools split: option.splits)

text \<open>Without eager rollback, a run in which no tool ran left the files and the git state as
  they were.\<close>

theorem no_tool_no_change:
  fixes E :: "('g, 's) pilot_env"
  assumes "\<not> env_rollback_on_unapproved E"
    and "execute E R (initial_run fs g s) = (Some x, r')" and "pr_tools r' = []"
  shows "pr_files r' = fs \<and> pr_git r' = g"
proof -
  have "phase_ok (\<lambda>r. r = initial_run fs g s) (execute E R) (\<lambda>r. True) (\<lambda>x. untouched fs g)"
  proof (rule execute_ok)
    show "phase_ok (untouched fs g) (gate_phase E R Awaiting_path_approval ''path'' ''Path approval denied.'')
        (untouched fs g) (\<lambda>x. untouched fs g)"
      and "phase_ok (untouched fs g) (gate_phase E R Awaiting_content_approval ''content'' ''Content approval denied.'')
        (untouched fs g) (\<lambda>x. untouched fs g)"
      by (rule early_gate_untouched [OF assms(1)]; simp)+
    show "phase_ok (\<lambda>r. pr_tools r \<noteq> []) (commit_phase E R) (\<lambda>r. True) (\<lambda>x. untouched fs g)"
      by (rule phase_weaken [OF later_untouched [OF commit_phase_tools]]) auto
  qed (rule start_untouched write_phase_untouched later_untouched validate_phase_tools stage_phase_tools
      | simp add: gate_phase_tools)+
  from phase_okD(2) [OF this refl assms(2)] assms(3) show ?thesis by (simp add: untouched_def)
qed

theorem no_tool_no_change_witness:
  "\<exists>x r'. execute (provider_env sample_env id 900 False) sample_request sample_run = (Some x, r')
     \<and> pr_files r' = [(sample_target, ''old'')]"
proof -
  let ?E = "provider_env sample_env id 900 False"
  have "gate_good (pr_gates sample_run)" "pr_commit_hash sample_run = None" "pr_tools sample_run = []"
    by (simp_all add: sample_run_def initial_run_def sample_gates_def gate_good_def)
  with stopped_by [OF provider_run.run_told_execute]
  obtain x r' where e: "execute ?E sample_request sample_run = (Some x, r')" by metis
  have flag: "\<not> env_rollback_on_unapproved ?E" by (simp add: provider_env_def)
  have "pr_tools (snd (execute ?E sample_request sample_run)) = []"
    by (simp add: execute_def then_phase_def start_phase_def gate_phase_def request_or_resume_def
      request_gate_def fail_def finish_def Let_def run_frame sample_run_def initial_run_def provider_env_def
      provider_request_def request_approval_def sample_env_def sample_request_def sample_path_ok
      split: prod.splits)
  with e have "pr_tools r' = []" by simp
  from no_tool_no_change [OF flag e [unfolded sample_run_def] this] e show ?thesis by blast
qed

subsection \<open>Refusals\<close>

lemma refused_gate:
  assumes gate: "env_gate E = Some gate" and no: "\<And>s. \<not> cb_approved (fst (gate typ (run_request_id R) (run_context R) s))"
    and early: "typ = ''path'' \<or> typ = ''content''"
  shows "\<exists>q. same_work r q \<and> request_or_resume E R typ r =
    (False, if env_rollback_on_unapproved E then rollback E R False q else q)"
proof -
  have den: "rollback_if_denied E R typ q = q" for q by (rule denied_early [OF early])
  have fst_no: "\<not> cb_approved cb" if "gate typ (run_request_id R) (run_context R) s = (cb, s')" for cb s s'
    using no [of s] that by simp
  have req: "\<exists>q. same_work r' q \<and> request_gate E R typ r' =
      (False, if env_rollback_on_unapproved E then rollback E R False q else q)" for r'
  proof -
    define r2 where "r2 = (case env_provider E of None \<Rightarrow> r'\<lparr>pr_approvals := pr_approvals r' @ [pending_record R typ False]\<rparr>
      | Some P \<Rightarrow> r'\<lparr>pr_approvals := pr_approvals r' @ [pending_record R typ False],
          pr_gates := prov_request P typ (run_request_id R) (run_context R) (pr_gates r')\<rparr>)"
    have r2: "same_work r' r2" by (simp add: r2_def split: option.splits)
    obtain cb s' where g: "gate typ (run_request_id R) (run_context R) (pr_gates r2) = (cb, s')" by force
    have "request_gate E R typ r' = (False, if env_rollback_on_unapproved E
        then rollback E R False (r2\<lparr>pr_gates := s'\<rparr>) else r2\<lparr>pr_gates := s'\<rparr>)"
      using gate g fst_no [OF g] by (simp add: request_gate_def Let_def r2_def den split: option.splits)
    with r2 show ?thesis by (intro exI [of _ "r2\<lparr>pr_gates := s'\<rparr>"]) simp
  qed
  obtain cb s' where g: "gate typ (run_request_id R) (run_context R) (pr_gates r) = (cb, s')" by force
  have "request_or_resume E R typ r = request_gate E R typ (r\<lparr>pr_gates := s'\<rparr>)"
    using gate g fst_no [OF g] by (simp add: request_or_resume_def Let_def den)
  with req [of "r\<lparr>pr_gates := s'\<rparr>"] show ?thesis by simp
qed

text \<open>A run whose path gate is refused stops there.\<close>

lemma refused_path_run:
  fixes E :: "('g, 's) pilot_env"
  assumes "env_smith_enabled E" and "env_pilot_enabled E"
    and "decision (check_write_pilot_path (env_policy E) (env_is_symlink E) (Some (env_repo_root E)) (target_path R)) \<noteq> Deny"
    and "env_gate E = Some gate" and "\<And>s. \<not> cb_approved (fst (gate ''path'' (run_request_id R) (run_context R) s))"
  shows "\<exists>q res r'. same_work r q \<and> execute E R r = (Some (Stopped res), r') \<and> res_status res = ''failed''
    \<and> \<not> (res_committed res \<and> pr_commit_hash r = None) \<and> pr_tools r' = pr_tools r
    \<and> pr_files r' = pr_files (if env_rollback_on_unapproved E then rollback E R False q else q)"
proof -
  define r1 where "r1 = audit R ''write_pilot'' ''started'' [] r"
  have start: "start_phase E R r = (None, r1)" using assms(1-3) by (simp add: start_phase_def Let_def r1_def)
  obtain q where q: "same_work (transition Awaiting_path_approval r1) q"
    and g: "request_or_resume E R ''path'' (transition Awaiting_path_approval r1) =
      (False, if env_rollback_on_unapproved E then rollback E R False q else q)"
    using refused_gate [OF assms(4,5)] by blast
  let ?q = "if env_rollback_on_unapproved E then rollback E R False q else q"
  obtain x r' where f: "fail E R False ''Path approval denied.'' ?q = (x, r')" by force
  have run: "execute E R r = (x, r')"
    using start g f fail_work [OF f] by (auto simp: execute_def then_phase_def gate_phase_def)
  from fail_stops [OF f] obtain res where res: "x = Some (Stopped res)" "res_status res = ''failed''"
    "pr_tools r' = pr_tools ?q" "pr_commit_hash r' = pr_commit_hash ?q" "pr_files r' = pr_files ?q"
    "res_committed res = (pr_commit_hash ?q \<noteq> None)"
    by metis
  have "same_work r q" using q by (simp add: r1_def)
  moreover have "pr_tools ?q = pr_tools r" using q by (simp add: run_frame same_work_def r1_def)
  moreover have "pr_commit_hash ?q = pr_commit_hash r"
    using request_commit_hash [of E R "''path''" "transition Awaiting_path_approval r1"] g
    by (simp add: run_frame r1_def)
  ultimately show ?thesis using run res by auto
qed



subsection \<open>What a rollback restores\<close>

text \<open>Before the write: the target still holds \<open>old\<close> and nothing is recorded to restore.\<close>

definition not_written :: "('g, 's) pilot_env \<Rightarrow> pilot_request \<Rightarrow> string option \<Rightarrow> ('g, 's) pilot_run \<Rightarrow> bool" where
  "not_written E R old r \<longleftrightarrow> f_get (run_target E R) (pr_files r) = old \<and> pr_tools r = []
     \<and> pr_original r = None \<and> \<not> pr_rolled_back r"

text \<open>After it: what to restore is recorded.\<close>

definition restorable :: "string option \<Rightarrow> ('g, 's) pilot_run \<Rightarrow> bool" where
  "restorable old r \<longleftrightarrow> pr_existed r = (old \<noteq> None) \<and> pr_original r = old \<and> \<not> pr_rolled_back r"

definition restored_stop ::
    "('g, 's) pilot_env \<Rightarrow> pilot_request \<Rightarrow> string option \<Rightarrow> pilot_stop \<Rightarrow> ('g, 's) pilot_run \<Rightarrow> bool" where
  "restored_stop E R old x r \<longleftrightarrow> (\<forall>res. x = Stopped res \<longrightarrow> res_rolled_back res \<longrightarrow> pr_tools r \<noteq> [] \<longrightarrow>
     f_get (run_target E R) (pr_files r) = old)"

lemma restorable_work: "same_work r r' \<Longrightarrow> restorable old r' = restorable old r"
  by (simp add: restorable_def same_work_def)

lemma restorable_frame [simp]:
  "restorable old (transition x r) = restorable old r" "restorable old (audit R a b d r) = restorable old r"
  by (simp_all add: restorable_def run_frame)

lemma rollback_restorable:
  assumes "restorable old r" and "\<not> is_backup_of (run_target E R) (run_target E R)"
  shows "f_get (run_target E R) (pr_files (rollback E R b r)) = old"
  using assms rollback_target [OF assms(2), of b r]
  by (cases old) (auto simp: restorable_def)

lemma fail_restores:
  assumes "fail E R b m r = (x, r')" and "restorable old r"
    and "\<not> is_backup_of (run_target E R) (run_target E R)"
  shows "\<exists>y. x = Some y \<and> restored_stop E R old y r'"
proof -
  from fail_work [OF assms(1)] obtain res where res: "x = Some (Stopped res)"
    "res_rolled_back res = pr_rolled_back r \<or> pr_files r' = pr_files (rollback E R True r)"
    by blast
  show ?thesis
    using res rollback_restorable [OF assms(2,3), of True] assms(2)
    by (auto simp: restored_stop_def restorable_def)
qed

lemma restored_crash [simp]: "restored_stop E R old (Crashed m) r"
  by (simp add: restored_stop_def)

lemma fail_restored:
  "fail E R b m r = (Some x, r') \<Longrightarrow> restorable old r \<Longrightarrow> \<not> is_backup_of (run_target E R) (run_target E R) \<Longrightarrow>
   restored_stop E R old x r'"
  using fail_restores [of E R b m r "Some x" r' old] by simp

lemma late_gate_restores:
  fixes E :: "('g, 's) pilot_env"
  assumes "env_provider E = None" and nb: "\<not> is_backup_of (run_target E R) (run_target E R)"
  shows "phase_ok (restorable old) (gate_phase E R st typ m) (restorable old) (restored_stop E R old)"
proof (rule phase_okI)
  fix r r' :: "('g, 's) pilot_run"
  assume r: "restorable old r"
  obtain ok q where q: "request_or_resume E R typ (transition st r) = (ok, q)" by force
  from gate_work [OF q] assms(1) have w: "same_work r q \<or> \<not> ok \<and> (\<exists>u. same_work r u \<and> q = rollback E R False u)"
    by auto
  show "restorable old r'" if "gate_phase E R st typ m r = (None, r')"
    using that q w r by (auto simp: gate_phase_def restorable_work split: bool.splits)
  show "restored_stop E R old x r'" if "gate_phase E R st typ m r = (Some x, r')" for x
  proof -
    from that q have f: "fail E R False m q = (Some x, r')" by (auto simp: gate_phase_def split: bool.splits)
    from fail_work [OF f] obtain res where res: "x = Stopped res" "pr_files r' = pr_files q"
      "res_rolled_back res = pr_rolled_back q" by auto
    from w show ?thesis
    proof
      assume "same_work r q"
      with r have "\<not> pr_rolled_back q" by (simp add: restorable_def same_work_def)
      with res show ?thesis by (simp add: restored_stop_def)
    next
      assume "\<not> ok \<and> (\<exists>u. same_work r u \<and> q = rollback E R False u)"
      then obtain u where "same_work r u" "q = rollback E R False u" by blast
      with rollback_restorable [OF _ nb, of old u False] r res restorable_work
      show ?thesis by (auto simp: restored_stop_def)
    qed
  qed
qed

lemma early_gate_restores:
  fixes E :: "('g, 's) pilot_env"
  assumes "env_provider E = None"
  shows "phase_ok (not_written E R old) (gate_phase E R st typ m) (not_written E R old) (restored_stop E R old)"
proof (rule phase_okI)
  fix r r' :: "('g, 's) pilot_run"
  assume r: "not_written E R old r"
  obtain ok q where q: "request_or_resume E R typ (transition st r) = (ok, q)" by force
  from gate_work [OF q] assms(1) have w: "same_work r q \<or> \<not> ok" by auto
  show "not_written E R old r'" if "gate_phase E R st typ m r = (None, r')"
    using that q w r by (auto simp: gate_phase_def not_written_def same_work_def split: bool.splits)
  show "restored_stop E R old x r'" if "gate_phase E R st typ m r = (Some x, r')" for x
    using gate_phase_tools [of E R st "typ" m r] that r by (simp add: restored_stop_def not_written_def)
qed

lemma write_phase_restores:
  fixes E :: "('g, 's) pilot_env"
  assumes nb: "\<not> is_backup_of (run_target E R) (run_target E R)"
  shows "phase_ok (not_written E R old) (write_phase E R) (restorable old) (restored_stop E R old)"
proof (rule phase_okI)
  fix r r' :: "('g, 's) pilot_run"
  assume r: "not_written E R old r"
  define r1 where "r1 = r\<lparr>pr_existed := (f_get (run_target E R) (pr_files r) \<noteq> None),
    pr_tracked := g_tracked (env_git E) (pr_files r) (pr_git r) (target_path R),
    pr_original := (case f_get (run_target E R) (pr_files r) of None \<Rightarrow> pr_original r | Some c \<Rightarrow> Some c)\<rparr>"
  have r1: "restorable old r1" using r by (auto simp: restorable_def not_written_def r1_def split: option.splits)
  let ?t = "run_tool E R (Args_write (target_path R) (proposed_content R) (env_repo_root E)
    (f_get (run_target E R) (pr_files r) \<noteq> None)) r1"
  obtain res q where t: "?t = (res, q)" by force
  have q: "restorable old q"
    using r1 run_tool_frame(3-5) [of E R _ r1] t by (simp add: restorable_def) (metis snd_conv)
  have eq: "write_phase E R r = (case (res, q) of
        (None, r2) \<Rightarrow> (Some (Crashed no_attribute), r2)
      | (Some res, r2) \<Rightarrow> if tool_failed res
          then fail E R True (''Write failed: '' @ tool_error_text ''write failed'' res) r2
          else (None, transition Written
                 (r2\<lparr>pr_backup := out_backup_path (tr_output res), pr_final := Some (proposed_content R)\<rparr>)))"
    unfolding write_phase_def Let_def r1_def [symmetric] t ..
  show "restorable old r'" if "write_phase E R r = (None, r')"
    using that q unfolding eq by (auto simp: restorable_def run_frame split: option.splits if_splits)
  show "restored_stop E R old x r'" if "write_phase E R r = (Some x, r')" for x
    using that unfolding eq
    by (auto intro: fail_restored [OF _ q nb] split: option.splits if_splits)
qed

lemma tool_phase_restores:
  fixes E :: "('g, 's) pilot_env"
  assumes nb: "\<not> is_backup_of (run_target E R) (run_target E R)"
    and p: "\<And>r. p r = (case run_tool E R a r of
        (None, r1) \<Rightarrow> (Some (Crashed no_attribute), r1)
      | (Some res, r1) \<Rightarrow> if tool_failed res then fail E R b (msg res) r1 else (None, transition to r1))"
  shows "phase_ok (restorable old) p (restorable old) (restored_stop E R old)"
proof (rule phase_okI)
  fix r r' :: "('g, 's) pilot_run"
  assume r: "restorable old r"
  obtain res q where t: "run_tool E R a r = (res, q)" by force
  have q: "restorable old q"
    using r run_tool_frame(3-5) [of E R a r] t by (simp add: restorable_def)
  show "restorable old r'" if "p r = (None, r')"
    using that q unfolding p t by (auto split: option.splits if_splits)
  show "restored_stop E R old x r'" if "p r = (Some x, r')" for x
    using that unfolding p t
    by (auto intro: fail_restored [OF _ q nb] split: option.splits if_splits)
qed

lemma validate_phase_restores:
  fixes E :: "('g, 's) pilot_env"
  assumes nb: "\<not> is_backup_of (run_target E R) (run_target E R)"
  shows "phase_ok (restorable old) (validate_phase E R) (restorable old) (restored_stop E R old)"
  by (rule phase_okI) (use fail_restores [OF _ _ nb] in \<open>fastforce simp: validate_phase_def split: option.splits\<close>)+


definition until_stage :: "unit gate_callback" where
  "until_stage typ req ctx s = (gate_token typ req ctx (typ = ''path'' \<or> typ = ''content''), s)"

definition plain_exec :: "tool_args \<Rightarrow> files \<Rightarrow> unit \<Rightarrow> tool_result \<times> files \<times> unit" where
  "plain_exec a fs g =
     (\<lparr>tr_tool = tool_name a, tr_success = True,
       tr_output = \<lparr>out_success = True, out_error = None, out_backup_path = None, out_commit_hash = None\<rparr>,
       tr_public_error = None\<rparr>,
      (case a of Args_write t c root _ \<Rightarrow> f_put (root @ path_parts t) c fs | _ \<Rightarrow> fs), g)"

definition interactive_env :: "(unit, unit) pilot_env" where
  "interactive_env = \<lparr>env_smith_enabled = True, env_pilot_enabled = True,
     env_policy = shipped_policy [''srv'', ''repo''], env_is_symlink = (\<lambda>_. False),
     env_repo_root = [''srv'', ''repo''], env_git = sample_git,
     env_exec = plain_exec, env_gate = Some until_stage,
     env_provider = None, env_rollback_on_unapproved = True\<rparr>"


text \<open>A tool that the write-pilot allowlist denies does not fail the run: \<open>_run_tool\<close>
  returns \<open>None\<close> and the run leaves \<open>execute\<close> with an \<open>AttributeError\<close>, without the rollback of a
  failed write, and without any audit record of the denial.\<close>

theorem denied_tool_crashes:
  assumes "decision (check_write_pilot_tool (env_policy E) ''write_pilot_git_add'') = Deny"
  shows "stage_phase E R r = (Some (Crashed no_attribute), r)"
  using assms by (simp add: stage_phase_def run_tool_def tool_name_def)

theorem denied_tool_crashes_witness:
  "stage_phase (sample_env\<lparr>env_policy := (shipped_policy [''srv'', ''repo''])\<lparr>write_pilot_allowed_tools := []\<rparr>\<rparr>)
     sample_request sample_run = (Some (Crashed no_attribute), sample_run)"
  by (rule denied_tool_crashes) (simp add: check_write_pilot_tool_def shipped_policy_def)

end
