(* ===== verification/Foundation_Models.thy ===== *)
theory Foundation_Models
  imports Py_Datetime
begin

section \<open>Domains, scopes and store failures\<close>

text \<open>
  The enums of \<open>src/freyja/foundation_models.py\<close> that the stores share, and the exceptions
  that a SQLite store of the \<open>freyja3\<close> modules raises.
\<close>

datatype security_domain =
    Freyja_household | Household | Person_joe | Person_beth | Person_liam | Person_jenna
  | System | Paralegal_enclave | Paralegal

fun domain_value :: "security_domain \<Rightarrow> string" where
  "domain_value Freyja_household = ''freyja-household''"
| "domain_value Household = ''household''"
| "domain_value Person_joe = ''person.joe''"
| "domain_value Person_beth = ''person.beth''"
| "domain_value Person_liam = ''person.liam''"
| "domain_value Person_jenna = ''person.jenna''"
| "domain_value System = ''system''"
| "domain_value Paralegal_enclave = ''paralegal-enclave''"
| "domain_value Paralegal = ''paralegal''"

datatype memory_scope = Scope_personal | Scope_household | Scope_enclave | Scope_system

datatype memory_classification = Routine | Private | Sensitive | Restricted

datatype store_failure =
    Access_denied string
  | Integrity_error
  | Key_error string
  | Value_error string
  | Validation_error

lemma domain_value_inj: "domain_value a = domain_value b \<Longrightarrow> a = b"
  by (cases a; cases b) simp_all

end
