(* ===== verification/Worker_Queue.thy ===== *)
theory Worker_Queue
  imports Foundation_Models
begin

section \<open>Worker job queue, scheduler and worker policy\<close>

text \<open>
  \<open>Freyja3WorkerJobStore\<close> (\<open>src/freyja/freyja3_workers.py\<close>), \<open>Freyja3SchedulerStore\<close>
  (\<open>src/freyja/freyja3_scheduler.py\<close>) and \<open>WorkerPolicy\<close> (\<open>src/freyja/workers.py\<close>). A table is
  the list of its rows; a method takes the time, its arguments and the table, and returns its
  result (or the exception it raises) and the table. SQL orders rows by ISO text, so the sort
  keys are texts. Field constraints of the Pydantic models (non-empty text, limits from 1 to
  500) hold of the arguments and are not checked again.
\<close>

subsection \<open>Jobs\<close>

datatype job_status = Job_pending | Job_running | Job_completed | Job_failed

record job_create =
  jc_job_id :: string
  jc_worker_class :: string
  jc_target_machine :: "string option"
  jc_objective :: string
  jc_payload :: json_obj
  jc_created_by :: security_domain
  jc_metadata :: json_obj

record worker_job =
  job_id :: string
  worker_class :: string
  target_machine :: "string option"
  job_objective :: string
  job_payload :: json_obj
  job_created_by :: security_domain
  job_metadata :: json_obj
  job_status :: job_status
  claimed_by :: "string option"
  job_result :: "json_obj option"
  job_error :: "string option"
  job_created_at :: utc
  claimed_at :: "utc option"
  completed_at :: "utc option"

record job_query =
  q_status :: "job_status option"
  q_worker_class :: "string option"
  q_target_machine :: "string option"
  q_include_completed :: bool
  q_limit :: int

record job_complete =
  cmp_status :: job_status
  cmp_result :: "json_obj option"
  cmp_error :: "string option"

type_synonym jobs = "worker_job list"

text \<open>What \<open>create\<close> returns has no result; its row stores \<open>json.dumps(result or {})\<close>, so that it
  is read back with an empty one.\<close>

definition job_of :: "utc \<Rightarrow> job_create \<Rightarrow> worker_job" where
  "job_of now j = \<lparr>job_id = jc_job_id j, worker_class = jc_worker_class j,
     target_machine = jc_target_machine j, job_objective = jc_objective j, job_payload = jc_payload j,
     job_created_by = jc_created_by j, job_metadata = jc_metadata j, job_status = Job_pending,
     claimed_by = None, job_result = None, job_error = None, job_created_at = now,
     claimed_at = None, completed_at = None\<rparr>"

definition job_row :: "worker_job \<Rightarrow> worker_job" where
  "job_row j = j\<lparr>job_result := Some (case job_result j of None \<Rightarrow> [] | Some r \<Rightarrow> r)\<rparr>"

definition create_job ::
    "utc \<Rightarrow> job_create \<Rightarrow> security_domain \<Rightarrow> jobs \<Rightarrow> (store_failure + worker_job) \<times> jobs" where
  "create_job now j writer t =
    (if writer \<noteq> Household \<and> writer \<noteq> System
     then (Inl (Access_denied ''worker jobs require household or system write access''), t)
     else if \<exists>r \<in> set t. job_id r = jc_job_id j then (Inl Integrity_error, t)
     else (Inr (job_of now j), t @ [job_row (job_of now j)]))"

text \<open>\<open>ORDER BY created_at ASC, job_id ASC\<close>.\<close>

definition job_key :: "worker_job \<Rightarrow> string \<times> string" where
  "job_key r = (iso_utc (job_created_at r), job_id r)"

definition may_run_on :: "string \<Rightarrow> worker_job \<Rightarrow> bool" where
  "may_run_on m r \<longleftrightarrow> target_machine r = None \<or> target_machine r = Some m"

definition job_matches :: "job_query \<Rightarrow> worker_job \<Rightarrow> bool" where
  "job_matches q r \<longleftrightarrow>
     (case q_status q of
        Some s \<Rightarrow> job_status r = s
      | None \<Rightarrow> q_include_completed q \<or> job_status r = Job_pending \<or> job_status r = Job_running)
     \<and> (truthy (q_worker_class q) \<longrightarrow> Some (worker_class r) = q_worker_class q)
     \<and> (truthy (q_target_machine q) \<longrightarrow> may_run_on (the (q_target_machine q)) r)"

definition list_jobs :: "job_query \<Rightarrow> security_domain \<Rightarrow> jobs \<Rightarrow> store_failure + worker_job list" where
  "list_jobs q reader t =
    (if reader \<noteq> Household \<and> reader \<noteq> System
     then Inl (Access_denied ''worker jobs require household or system read access'')
     else Inr (sql_limit (q_limit q) (sort_key job_key (filter (job_matches q) t))))"

definition claimable :: "string \<Rightarrow> string option \<Rightarrow> worker_job \<Rightarrow> bool" where
  "claimable m cls r \<longleftrightarrow> job_status r = Job_pending \<and> may_run_on m r
     \<and> (truthy cls \<longrightarrow> Some (worker_class r) = cls)"

text \<open>One \<open>UPDATE\<close> whose subquery picks the first claimable job.\<close>

definition claim_next ::
    "utc \<Rightarrow> string \<Rightarrow> string option \<Rightarrow> security_domain \<Rightarrow> jobs
     \<Rightarrow> (store_failure + worker_job option) \<times> jobs" where
  "claim_next now m cls claimer t =
    (if claimer \<noteq> System
     then (Inl (Access_denied ''worker job claims require system access''), t)
     else (case sort_key job_key (filter (claimable m cls) t) of
         [] \<Rightarrow> (Inr None, t)
       | first # _ \<Rightarrow>
           (let t' = sql_update (\<lambda>r. job_id r = job_id first)
              (\<lambda>r. r\<lparr>job_status := Job_running, claimed_by := Some m, claimed_at := Some now\<rparr>) t
            in (Inr (row_of job_id (job_id first) t'), t'))))"

definition complete_job ::
    "utc \<Rightarrow> string \<Rightarrow> job_complete \<Rightarrow> string \<Rightarrow> security_domain \<Rightarrow> jobs
     \<Rightarrow> (store_failure + worker_job) \<times> jobs" where
  "complete_job now jid c m completer t =
    (if cmp_status c \<noteq> Job_completed \<and> cmp_status c \<noteq> Job_failed then (Inl Validation_error, t)
     else if completer \<noteq> System
     then (Inl (Access_denied ''worker job completion requires system access''), t)
     else
       (let P = (\<lambda>r. job_id r = jid \<and> job_status r = Job_running \<and> claimed_by r = Some m);
            t' = sql_update P (\<lambda>r. r\<lparr>job_status := cmp_status c,
                   job_result := Some (case cmp_result c of None \<Rightarrow> [] | Some v \<Rightarrow> v),
                   job_error := cmp_error c, completed_at := Some now\<rparr>) t
        in if sql_rowcount P t = 0 then (Inl (Key_error jid), t)
           else (case row_of job_id jid t' of None \<Rightarrow> (Inl (Key_error jid), t) | Some r \<Rightarrow> (Inr r, t'))))"

subsection \<open>Schedules\<close>

record schedule_create =
  sc_schedule_id :: string
  sc_due_at :: datetime
  sc_target_agent :: string
  sc_resolved_user :: "string option"
  sc_conversation :: string
  sc_channel :: string
  sc_text :: string
  sc_created_by :: security_domain
  sc_metadata :: json_obj

record scheduled_envelope =
  schedule_id :: string
  due_at :: utc
  target_agent :: string
  resolved_user :: "string option"
  sched_conversation :: string
  sched_channel :: string
  sched_text :: string
  sched_created_by :: security_domain
  sched_metadata :: json_obj
  sched_created_at :: utc
  dispatched_at :: "utc option"

record schedule_query =
  due_before :: "datetime option"
  include_dispatched :: bool
  sched_limit :: int

type_synonym schedules = "scheduled_envelope list"

definition create_schedule ::
    "utc \<Rightarrow> schedule_create \<Rightarrow> security_domain \<Rightarrow> schedules
     \<Rightarrow> (store_failure + scheduled_envelope) \<times> schedules" where
  "create_schedule now s writer t =
    (if writer \<noteq> Household \<and> writer \<noteq> System
     then (Inl (Access_denied ''scheduled agent triggers require household or system write access''), t)
     else if \<exists>r \<in> set t. schedule_id r = sc_schedule_id s then (Inl Integrity_error, t)
     else
       (let e = \<lparr>schedule_id = sc_schedule_id s, due_at = instant (sc_due_at s),
              target_agent = sc_target_agent s, resolved_user = sc_resolved_user s,
              sched_conversation = sc_conversation s, sched_channel = sc_channel s,
              sched_text = sc_text s, sched_created_by = sc_created_by s,
              sched_metadata = sc_metadata s, sched_created_at = now, dispatched_at = None\<rparr>
        in (Inr e, t @ [e])))"

text \<open>\<open>ORDER BY due_at ASC, created_at ASC, schedule_id ASC\<close>.\<close>

definition sched_key :: "scheduled_envelope \<Rightarrow> string \<times> string \<times> string" where
  "sched_key r = (iso_utc (due_at r), iso_utc (sched_created_at r), schedule_id r)"

definition sched_matches :: "schedule_query \<Rightarrow> scheduled_envelope \<Rightarrow> bool" where
  "sched_matches q r \<longleftrightarrow>
     (case due_before q of None \<Rightarrow> True | Some d \<Rightarrow> iso_utc (due_at r) \<le> iso_utc (instant d))
     \<and> (include_dispatched q \<or> dispatched_at r = None)"

definition list_schedules ::
    "schedule_query \<Rightarrow> security_domain \<Rightarrow> schedules \<Rightarrow> store_failure + scheduled_envelope list" where
  "list_schedules q reader t =
    (if reader \<noteq> Household \<and> reader \<noteq> System
     then Inl (Access_denied ''scheduled agent triggers require household or system read access'')
     else Inr (sql_limit (sched_limit q) (sort_key sched_key (filter (sched_matches q) t))))"

definition mark_dispatched ::
    "utc \<Rightarrow> string \<Rightarrow> security_domain \<Rightarrow> schedules \<Rightarrow> (store_failure + scheduled_envelope) \<times> schedules"
    where
  "mark_dispatched now sid dispatcher t =
    (if dispatcher \<noteq> System
     then (Inl (Access_denied ''only system dispatchers may mark scheduled agent triggers dispatched''), t)
     else
       (let P = (\<lambda>r. schedule_id r = sid \<and> dispatched_at r = None);
            t' = sql_update P (\<lambda>r. r\<lparr>dispatched_at := Some now\<rparr>) t
        in if sql_rowcount P t = 0 then (Inl (Key_error sid), t)
           else (case row_of schedule_id sid t' of None \<Rightarrow> (Inl (Key_error sid), t) | Some r \<Rightarrow> (Inr r, t'))))"

subsection \<open>Worker policy\<close>

datatype worker_trust = Trusted_internal | Untrusted_external_content

datatype external_worker = Web_research | Email_content | Document_ingestion | Scraping

definition DEFAULT_UNTRUSTED_EXCLUDED :: "string list" where
  "DEFAULT_UNTRUSTED_EXCLUDED = [''memory.authoritative_write'', ''message.send'', ''home.control'',
     ''admin.configuration'', ''privileged.execution'']"

definition CAPABILITY_ALIASES :: "(string \<times> string) list" where
  "CAPABILITY_ALIASES =
    [(''memory_put_shared'', ''memory.authoritative_write''),
     (''memory_write'', ''memory.authoritative_write''),
     (''signal_send'', ''message.send''),
     (''imessage_send'', ''message.send''),
     (''gmail_send'', ''message.send''),
     (''home_assistant_control_state'', ''home.control''),
     (''restart_director'', ''admin.configuration''),
     (''write_pilot_file_write'', ''privileged.execution''),
     (''write_pilot_git_add'', ''privileged.execution''),
     (''write_pilot_git_commit'', ''privileged.execution''),
     (''run_test_suite'', ''privileged.execution'')]"

record worker_decision =
  wd_allowed :: bool
  wd_reason :: string
  wd_class :: external_worker
  wd_trust :: worker_trust
  wd_capability :: string
  wd_canonical :: string

record worker_observation =
  obs_class :: external_worker
  obs_trust :: worker_trust
  obs_proposed :: "string list"

definition canonical_capability :: "string \<Rightarrow> string" where
  "canonical_capability c = (case map_of CAPABILITY_ALIASES c of None \<Rightarrow> c | Some d \<Rightarrow> d)"

text \<open>\<open>set(excluded_capabilities or DEFAULT)\<close>: an empty set means the default.\<close>

definition excluded_set :: "string list option \<Rightarrow> string list" where
  "excluded_set ex = (case ex of None \<Rightarrow> DEFAULT_UNTRUSTED_EXCLUDED
     | Some xs \<Rightarrow> if xs = [] then DEFAULT_UNTRUSTED_EXCLUDED else xs)"

definition worker_authorize ::
    "string list \<Rightarrow> external_worker \<Rightarrow> worker_trust \<Rightarrow> string \<Rightarrow> worker_decision" where
  "worker_authorize excluded cls trust cap =
    (let canonical = canonical_capability cap;
         denied = trust = Untrusted_external_content \<and> canonical \<in> set excluded
     in \<lparr>wd_allowed = \<not> denied,
         wd_reason = (if denied then ''untrusted external content cannot invoke excluded capability''
                      else ''capability allowed for worker trust level''),
         wd_class = cls, wd_trust = trust, wd_capability = cap, wd_canonical = canonical\<rparr>)"

definition validate_observation :: "string list \<Rightarrow> worker_observation \<Rightarrow> worker_decision list" where
  "validate_observation excluded obs =
     map (worker_authorize excluded (obs_class obs) (obs_trust obs)) (obs_proposed obs)"

subsection \<open>Ordered queries\<close>

lemma sort_key_head:
  assumes "sort_key k xs = x # ys"
  shows "x \<in> set xs" and "\<forall>y \<in> set xs. k x \<le> k y"
proof -
  have "set (sort_key k xs) = set xs" by simp
  then show "x \<in> set xs" unfolding assms by auto
  have "sorted (map k (x # ys))" using sorted_sort_key [of k xs] assms by simp
  then show "\<forall>y \<in> set xs. k x \<le> k y" using \<open>set (sort_key k xs) = set xs\<close> unfolding assms by auto
qed

lemma sort_key_Nil_iff: "sort_key k xs = [] \<longleftrightarrow> xs = []"
  by (metis length_0_conv length_sort)

lemma sorted_take: "sorted (map k xs) \<Longrightarrow> sorted (map k (take n xs))"
  by (simp add: sorted_wrt_take flip: take_map)

lemma sorted_sql_limit: "sorted (map k xs) \<Longrightarrow> sorted (map k (sql_limit n xs))"
  by (simp add: sql_limit_def sorted_take)

text \<open>A listing that did not reach its limit is complete.\<close>

lemma sql_limit_all: "int (length xs) \<le> n \<Longrightarrow> sql_limit n xs = xs"
  by (simp add: sql_limit_def)

lemma sql_limit_short: "int (length (sql_limit n xs)) < n \<Longrightarrow> sql_limit n xs = xs"
  by (simp add: sql_limit_def split: if_splits)

subsection \<open>Lifecycle of a job\<close>

definition same_job :: "worker_job \<Rightarrow> worker_job \<Rightarrow> bool" where
  "same_job r s \<longleftrightarrow> job_id s = job_id r \<and> worker_class s = worker_class r
     \<and> target_machine s = target_machine r \<and> job_objective s = job_objective r
     \<and> job_payload s = job_payload r \<and> job_created_by s = job_created_by r
     \<and> job_metadata s = job_metadata r \<and> job_created_at s = job_created_at r"

definition job_may :: "worker_job \<Rightarrow> worker_job \<Rightarrow> bool" where
  "job_may r s \<longleftrightarrow> s = r \<or> same_job r s \<and>
     (job_status r = Job_pending \<and> job_status s \<noteq> Job_pending
        \<and> (\<exists>m. claimed_by s = Some m \<and> may_run_on m r)
      \<or> job_status r = Job_running \<and> job_status s \<in> {Job_completed, Job_failed}
        \<and> claimed_by s = claimed_by r \<and> claimed_at s = claimed_at r)"

lemma job_may_refl: "job_may r r"
  by (simp add: job_may_def)

lemma job_may_key: "job_may r s \<Longrightarrow> job_id s = job_id r"
  by (auto simp: job_may_def same_job_def)

lemma same_job_trans: "same_job r s \<Longrightarrow> same_job s u \<Longrightarrow> same_job r u"
  by (simp add: same_job_def)

lemma job_may_trans:
  assumes "job_may r s" and "job_may s u"
  shows "job_may r u"
proof (cases "s = r \<or> u = s")
  case True
  then show ?thesis using assms by auto
next
  case False
  with assms have "same_job r u" unfolding job_may_def by (blast intro: same_job_trans)
  moreover have "job_status r = Job_pending" "job_status u \<noteq> Job_pending" "claimed_by u = claimed_by s"
    "\<exists>m. claimed_by s = Some m \<and> may_run_on m r"
    using False assms by (auto simp: job_may_def)
  ultimately show ?thesis by (simp add: job_may_def)
qed

abbreviation jobs_move :: "jobs \<Rightarrow> jobs \<Rightarrow> bool" where
  "jobs_move \<equiv> table_move job_id job_may (\<lambda>r. job_status r = Job_pending)"

datatype job_op =
    Op_create_job utc job_create security_domain
  | Op_claim utc string "string option" security_domain
  | Op_complete utc string job_complete string security_domain

fun jobs_step :: "job_op \<Rightarrow> jobs \<Rightarrow> jobs" where
  "jobs_step (Op_create_job now j d) t = snd (create_job now j d t)"
| "jobs_step (Op_claim now m cls d) t = snd (claim_next now m cls d t)"
| "jobs_step (Op_complete now jid c m d) t = snd (complete_job now jid c m d t)"

lemma create_job_move: "jobs_move t (snd (create_job now j d t))"
  by (auto simp: create_job_def job_of_def job_row_def table_move_refl job_may_refl
      intro!: table_move_insert)

text \<open>What a claim does, in terms of the job it picks.\<close>

lemma claim_next_cases:
  assumes "distinct (map job_id t)"
  obtains (denied) "d \<noteq> System" "claim_next now m cls d t = (Inl (Access_denied ''worker job claims require system access''), t)"
  | (none) "d = System" "\<forall>r \<in> set t. \<not> claimable m cls r" "claim_next now m cls d t = (Inr None, t)"
  | (claimed) r where "d = System" "r \<in> set t" "claimable m cls r"
      "\<forall>x \<in> set t. claimable m cls x \<longrightarrow> job_key r \<le> job_key x"
      "claim_next now m cls d t =
        (Inr (Some (r\<lparr>job_status := Job_running, claimed_by := Some m, claimed_at := Some now\<rparr>)),
         sql_update (\<lambda>x. job_id x = job_id r)
           (\<lambda>x. x\<lparr>job_status := Job_running, claimed_by := Some m, claimed_at := Some now\<rparr>) t)"
proof (cases "d = System")
  case False
  then show ?thesis by (intro denied) (simp_all add: claim_next_def)
next
  case True
  show ?thesis
  proof (cases "sort_key job_key (filter (claimable m cls) t)")
    case Nil
    then have "\<forall>r \<in> set t. \<not> claimable m cls r" by (simp add: sort_key_Nil_iff filter_empty_conv)
    then show ?thesis using True Nil by (intro none) (simp_all add: claim_next_def)
  next
    case (Cons r rs)
    from sort_key_head [OF this] have r: "r \<in> set t" "claimable m cls r"
      "\<forall>x \<in> set t. claimable m cls x \<longrightarrow> job_key r \<le> job_key x" by auto
    show ?thesis
      using True Cons r row_of_distinct [OF assms r(1)]
      by (intro claimed [of r]) (simp_all add: claim_next_def Let_def row_of_sql_update)
  qed
qed

lemma claim_next_move: "jobs_move t (snd (claim_next now m cls d t))"
proof (cases "distinct (map job_id t)")
  case True
  then show ?thesis
  proof (cases rule: claim_next_cases [of t d now m cls])
    case (claimed r)
    let ?f = "\<lambda>x. x\<lparr>job_status := Job_running, claimed_by := Some m, claimed_at := Some now\<rparr>"
    have only: "x = r" if "x \<in> set t" "job_id x = job_id r" for x
      using that claimed(2) True row_of_distinct by (metis option.inject)
    have "sql_update (\<lambda>x. job_id x = job_id r) ?f t = sql_update (\<lambda>x. x = r) ?f t"
      using only by (auto simp: sql_update_def)
    moreover have "job_may r (?f r)"
      using claimed(3) by (simp add: job_may_def same_job_def claimable_def)
    then have "jobs_move t (sql_update (\<lambda>x. x = r) ?f t)"
      by (intro table_move_update) (auto intro: job_may_refl job_may_key)
    ultimately show ?thesis using claimed(5) by simp
  qed (simp_all add: table_move_refl job_may_refl)
qed (simp add: table_move_def)

lemma complete_job_move: "jobs_move t (snd (complete_job now jid c m d t))"
proof -
  have "jobs_move t (sql_update (\<lambda>r. job_id r = jid \<and> job_status r = Job_running \<and> claimed_by r = Some m)
      (\<lambda>r. r\<lparr>job_status := cmp_status c, job_result := Some (case cmp_result c of None \<Rightarrow> [] | Some v \<Rightarrow> v),
             job_error := cmp_error c, completed_at := Some now\<rparr>) t)"
    if "cmp_status c \<in> {Job_completed, Job_failed}"
    by (rule table_move_update)
      (use that in \<open>auto intro: job_may_refl job_may_key\<close>, simp_all add: job_may_def same_job_def)
  then show ?thesis
    by (auto simp: complete_job_def Let_def table_move_refl job_may_refl split: option.splits)
qed

interpretation jobs: row_machine job_id job_may "\<lambda>r. job_status r = Job_pending" "\<lambda>t. t" jobs_step
proof
  show "jobs_move t (jobs_step x t)" for t x
    by (cases x) (simp_all add: create_job_move claim_next_move complete_job_move)
qed (auto intro: job_may_refl job_may_trans job_may_key)

subsection \<open>Lifecycle of a schedule\<close>

definition sched_may :: "scheduled_envelope \<Rightarrow> scheduled_envelope \<Rightarrow> bool" where
  "sched_may r s \<longleftrightarrow> s = r \<or> dispatched_at r = None \<and> (\<exists>w. s = r\<lparr>dispatched_at := Some w\<rparr>)"

abbreviation schedules_move :: "schedules \<Rightarrow> schedules \<Rightarrow> bool" where
  "schedules_move \<equiv> table_move schedule_id sched_may (\<lambda>r. dispatched_at r = None)"

datatype sched_op =
    Op_create_schedule utc schedule_create security_domain
  | Op_dispatch utc string security_domain

fun sched_step :: "sched_op \<Rightarrow> schedules \<Rightarrow> schedules" where
  "sched_step (Op_create_schedule now s d) t = snd (create_schedule now s d t)"
| "sched_step (Op_dispatch now sid d) t = snd (mark_dispatched now sid d t)"

lemma sched_may_refl: "sched_may r r"
  by (simp add: sched_may_def)

lemma sched_may_key: "sched_may r s \<Longrightarrow> schedule_id s = schedule_id r"
  by (auto simp: sched_may_def)

lemma mark_dispatched_move: "schedules_move t (snd (mark_dispatched now sid d t))"
proof -
  have "schedules_move t (sql_update (\<lambda>r. schedule_id r = sid \<and> dispatched_at r = None)
      (\<lambda>r. r\<lparr>dispatched_at := Some now\<rparr>) t)"
    by (rule table_move_update) (auto simp: sched_may_refl sched_may_key, auto simp: sched_may_def)
  then show ?thesis
    by (auto simp: mark_dispatched_def Let_def table_move_refl sched_may_refl split: option.splits)
qed

interpretation schedules: row_machine schedule_id sched_may "\<lambda>r. dispatched_at r = None" "\<lambda>t. t" sched_step
proof
  show "schedules_move t (sched_step x t)" for t x
    by (cases x)
      (auto simp: mark_dispatched_move create_schedule_def Let_def table_move_refl sched_may_refl
        intro!: table_move_insert)
  show "sched_may r u" if "sched_may r s" "sched_may s u" for r s u
    using that by (auto simp: sched_may_def)
qed (auto intro: sched_may_refl sched_may_key)

subsection \<open>Properties\<close>

text \<open>\<open>claim_next\<close> returns nothing exactly when no pending job fits the machine and the worker
  class; otherwise it returns the earliest one (by creation, then id), running and claimed by
  the machine, and changes no other job.\<close>

theorem claim_next_earliest:
  assumes "distinct (map job_id t)" and "\<forall>r \<in> set t. valid_utc (job_created_at r)"
  shows "case claim_next now m cls System t of
      (Inr None, t') \<Rightarrow> t' = t \<and> (\<forall>r \<in> set t. \<not> claimable m cls r)
    | (Inr (Some s), t') \<Rightarrow> \<exists>r \<in> set t. claimable m cls r
        \<and> s = r\<lparr>job_status := Job_running, claimed_by := Some m, claimed_at := Some now\<rparr>
        \<and> (\<forall>x \<in> set t. claimable m cls x \<longrightarrow> job_created_at r \<le> job_created_at x)
        \<and> t' = map (\<lambda>x. if job_id x = job_id r then s else x) t
    | (Inl _, _) \<Rightarrow> False"
  using assms(1)
proof (cases rule: claim_next_cases [of t System now m cls])
  case (claimed r)
  let ?f = "\<lambda>x. x\<lparr>job_status := Job_running, claimed_by := Some m, claimed_at := Some now\<rparr>"
  have only: "x = r" if "x \<in> set t" "job_id x = job_id r" for x
    using that claimed(2) assms(1) row_of_distinct by (metis option.inject)
  have upd: "sql_update (\<lambda>x. job_id x = job_id r) ?f t = map (\<lambda>x. if job_id x = job_id r then ?f r else x) t"
    using only by (auto simp: sql_update_def)
  have early: "job_created_at r \<le> job_created_at x" if "x \<in> set t" "claimable m cls x" for x
  proof -
    from claimed(4) that have "job_key r \<le> job_key x" by blast
    then have "iso_utc (job_created_at r) \<le> iso_utc (job_created_at x)"
      by (auto simp: job_key_def less_eq_prod_def)
    then show ?thesis using assms(2) that(1) claimed(2) by simp
  qed
  show ?thesis using claimed(2,3,5) upd early by auto
qed simp_all

definition sample_job :: "string \<Rightarrow> string option \<Rightarrow> job_create" where
  "sample_job i target = \<lparr>jc_job_id = i, jc_worker_class = ''research'', jc_target_machine = target,
     jc_objective = ''look'', jc_payload = [], jc_created_by = System, jc_metadata = []\<rparr>"

definition sample_jobs :: jobs where
  "sample_jobs = fold jobs_step [Op_create_job 7 (sample_job ''a'' (Some ''mars'')) System,
     Op_create_job 5 (sample_job ''b'' None) Household] []"

lemma sample_jobs_eq: "sample_jobs =
    [job_row (job_of 7 (sample_job ''a'' (Some ''mars''))), job_row (job_of 5 (sample_job ''b'' None))]"
  by (simp add: sample_jobs_def create_job_def sample_job_def job_of_def job_row_def)

lemma sample_jobs_ok: "distinct (map job_id sample_jobs)" "\<forall>r \<in> set sample_jobs. valid_utc (job_created_at r)"
  by (simp_all add: sample_jobs_eq sample_job_def job_of_def job_row_def valid_utc_def max_wall_def usec_defs)

theorem claim_next_earliest_witness:
  "\<exists>s t'. claim_next 9 ''mars'' None System sample_jobs = (Inr (Some s), t') \<and> job_id s = ''b''"
proof -
  have two: "\<forall>r \<in> set sample_jobs. claimable ''mars'' None r"
    by (simp add: sample_jobs_eq sample_job_def job_of_def job_row_def claimable_def may_run_on_def truthy_def)
  show ?thesis
    using claim_next_earliest [OF sample_jobs_ok, where now = 9 and m = "''mars''" and cls = None] two
    by (auto simp: sample_jobs_eq sample_job_def job_of_def job_row_def
        split: prod.splits sum.splits option.splits)
qed

text \<open>C25. A claimed job belongs to its machine: after any further history it is still claimed by
  it, no \<open>claim_next\<close> returns it again, and no other machine can complete it.\<close>

theorem claim_exclusive:
  assumes "distinct (map job_id t)" and "claim_next now m cls d t = (Inr (Some s), t')"
  shows "(\<exists>u. row_of job_id (job_id s) (fold jobs_step ops t') = Some u \<and> claimed_by u = Some m
       \<and> job_status u \<noteq> Job_pending)
    \<and> (\<forall>n m2 c v t2. claim_next n m2 c System (fold jobs_step ops t') = (Inr (Some v), t2) \<longrightarrow> job_id v \<noteq> job_id s)
    \<and> (m2 \<noteq> m \<longrightarrow> fst (complete_job n (job_id s) c m2 d2 (fold jobs_step ops t'))
         \<in> {Inl Validation_error, Inl (Access_denied ''worker job completion requires system access''),
            Inl (Key_error (job_id s))})"
proof -
  let ?u = "fold jobs_step ops t'"
  have d': "distinct (map job_id t')"
    using claim_next_move [of t now m cls d] assms by (simp add: table_move_def)
  have du: "distinct (map job_id ?u)" by (rule jobs.run_distinct [OF d'])
  from assms(1) have s: "s \<in> set t' \<and> job_status s = Job_running \<and> claimed_by s = Some m"
  proof (cases rule: claim_next_cases [of t d now m cls])
    case (claimed r)
    with assms(2) show ?thesis by (force simp: set_sql_update)
  qed (use assms(2) in auto)
  then have "row_of job_id (job_id s) t' = Some s" using row_of_distinct [OF d'] by simp
  from jobs.run_row_of [OF d' this] obtain u where u: "row_of job_id (job_id s) ?u = Some u" "job_may s u" .
  then have cu: "claimed_by u = Some m" "job_status u \<noteq> Job_pending" using s by (auto simp: job_may_def)
  have uniq: "x = u" if "x \<in> set ?u" "job_id x = job_id s" for x
    using row_of_distinct [OF du that(1)] that(2) u(1) by simp
  have again: "job_id v \<noteq> job_id s" if "claim_next n m2 c System ?u = (Inr (Some v), t2)" for n m2 c v t2
    using du
  proof (cases rule: claim_next_cases [of ?u System n m2 c])
    case (claimed r)
    with that have "job_id v = job_id r" by auto
    moreover have "job_id r \<noteq> job_id s" using uniq [OF claimed(2)] claimed(3) cu by (auto simp: claimable_def)
    ultimately show ?thesis by simp
  qed (use that in auto)
  have "sql_rowcount (\<lambda>r. job_id r = job_id s \<and> job_status r = Job_running \<and> claimed_by r = Some m2) ?u = 0"
    if "m2 \<noteq> m" using uniq cu that by (auto simp: sql_rowcount_0_iff)
  then have "m2 \<noteq> m \<longrightarrow> fst (complete_job n (job_id s) c m2 d2 ?u)
      \<in> {Inl Validation_error, Inl (Access_denied ''worker job completion requires system access''),
         Inl (Key_error (job_id s))}"
    by (auto simp: complete_job_def Let_def)
  with u cu again show ?thesis by blast
qed

theorem claim_exclusive_witness:
  "\<exists>s t'. claim_next 9 ''mars'' None System sample_jobs = (Inr (Some s), t')
     \<and> fst (complete_job 10 (job_id s) \<lparr>cmp_status = Job_completed, cmp_result = None, cmp_error = None\<rparr>
          ''venus'' System (fold jobs_step [Op_claim 10 ''mars'' None System] t'))
        \<in> {Inl Validation_error, Inl (Access_denied ''worker job completion requires system access''),
           Inl (Key_error (job_id s))}"
proof -
  have two: "\<forall>r \<in> set sample_jobs. claimable ''mars'' None r"
    by (simp add: sample_jobs_eq sample_job_def job_of_def job_row_def claimable_def may_run_on_def truthy_def)
  have "\<exists>s t'. claim_next 9 ''mars'' None System sample_jobs = (Inr (Some s), t')"
    using sample_jobs_ok(1)
  proof (cases rule: claim_next_cases [of sample_jobs System 9 "''mars''" None])
    case none
    with two show ?thesis unfolding sample_jobs_eq by (metis list.set_intros(1))
  next
    case (claimed r)
    then show ?thesis by blast
  qed simp
  then obtain s t' where c: "claim_next 9 ''mars'' None System sample_jobs = (Inr (Some s), t')" by blast
  from claim_exclusive [OF sample_jobs_ok(1) c, of "[Op_claim 10 ''mars'' None System]" "''venus''"] c
  show ?thesis by simp
qed

text \<open>A listing holds only matching jobs in order of creation, at most \<open>limit\<close> of them, and
  all of them when it is shorter than the limit.\<close>

theorem list_jobs_ordered:
  assumes "list_jobs q reader t = Inr js" and "0 \<le> q_limit q"
    and "\<forall>r \<in> set t. valid_utc (job_created_at r)"
  shows "set js \<subseteq> {r \<in> set t. job_matches q r} \<and> sorted (map job_created_at js)
    \<and> int (length js) \<le> q_limit q
    \<and> (int (length js) < q_limit q \<longrightarrow> set js = {r \<in> set t. job_matches q r})"
proof -
  let ?m = "sort_key job_key (filter (job_matches q) t)"
  from assms(1) have js: "js = sql_limit (q_limit q) ?m" by (auto simp: list_jobs_def split: if_splits)
  have sub: "set js \<subseteq> {r \<in> set t. job_matches q r}"
    using set_sql_limit [of "q_limit q" ?m] by (auto simp: js)
  have "sorted (map job_key js)" unfolding js by (rule sorted_sql_limit) simp
  then have "sorted_wrt (\<lambda>a b. job_key a \<le> job_key b) js" by (simp add: sorted_map)
  then have "sorted_wrt (\<lambda>a b. job_created_at a \<le> job_created_at b) js"
  proof (rule sorted_wrt_mono_rel [rotated])
    fix a b assume ab: "a \<in> set js" "b \<in> set js" "job_key a \<le> job_key b"
    then have "iso_utc (job_created_at a) \<le> iso_utc (job_created_at b)"
      by (auto simp: job_key_def less_eq_prod_def)
    with ab sub assms(3) show "job_created_at a \<le> job_created_at b" by (blast intro: iso_utc_leD)
  qed
  then have "sorted (map job_created_at js)" by (simp add: sorted_map)
  moreover have "int (length js) \<le> q_limit q" unfolding js using sql_limit_length [OF assms(2), of ?m] assms(2) by simp
  moreover have "set js = {r \<in> set t. job_matches q r}" if "int (length js) < q_limit q"
    using sql_limit_short [of "q_limit q" ?m] that unfolding js by simp
  ultimately show ?thesis using sub by blast
qed

theorem list_jobs_ordered_witness:
  "\<exists>js. list_jobs \<lparr>q_status = None, q_worker_class = None, q_target_machine = None,
      q_include_completed = False, q_limit = 50\<rparr> System sample_jobs = Inr js \<and> sorted (map job_created_at js)"
proof -
  let ?q = "\<lparr>q_status = None, q_worker_class = None, q_target_machine = None,
    q_include_completed = False, q_limit = 50\<rparr>"
  obtain js where js: "list_jobs ?q System sample_jobs = Inr js" by (simp add: list_jobs_def)
  from list_jobs_ordered [OF js _ sample_jobs_ok(2)] js show ?thesis by simp
qed

text \<open>A schedule is dispatched at most once: after a successful \<open>mark_dispatched\<close> and any
  further history its row is unchanged, dispatching it again fails, and no listing of
  undispatched schedules shows it.\<close>

theorem dispatch_once:
  assumes "distinct (map schedule_id t)" and "mark_dispatched now sid d t = (Inr s, t')"
  shows "row_of schedule_id sid (fold sched_step ops t') = Some s \<and> dispatched_at s = Some now
    \<and> mark_dispatched now2 sid System (fold sched_step ops t') = (Inl (Key_error sid), fold sched_step ops t')
    \<and> (\<not> include_dispatched q \<longrightarrow> list_schedules q System (fold sched_step ops t') = Inr es \<longrightarrow> s \<notin> set es)"
proof -
  let ?u = "fold sched_step ops t'"
  have d': "distinct (map schedule_id t')"
    using mark_dispatched_move [of t now sid d] assms by (simp add: table_move_def)
  have du: "distinct (map schedule_id ?u)" by (rule schedules.run_distinct [OF d'])
  from assms(2) have s: "row_of schedule_id sid t' = Some s"
    by (auto simp: mark_dispatched_def Let_def split: if_splits option.splits)
  from assms(2) have t': "t' = sql_update (\<lambda>r. schedule_id r = sid \<and> dispatched_at r = None)
      (\<lambda>r. r\<lparr>dispatched_at := Some now\<rparr>) t"
    and hit: "sql_rowcount (\<lambda>r. schedule_id r = sid \<and> dispatched_at r = None) t \<noteq> 0"
    by (auto simp: mark_dispatched_def Let_def split: if_splits option.splits)
  from hit obtain r where r: "r \<in> set t" "schedule_id r = sid" "dispatched_at r = None"
    by (auto simp: sql_rowcount_0_iff)
  with row_of_distinct [OF assms(1) r(1)] s have ds: "dispatched_at s = Some now"
    by (auto simp: t' row_of_sql_update)
  have row: "row_of schedule_id sid ?u = Some s"
    by (rule schedules.run_terminal [OF d' s]) (auto simp: sched_may_def ds)
  have "x = s" if "x \<in> set ?u" "schedule_id x = sid" for x
    using row_of_distinct [OF du that(1)] that(2) row by simp
  then have "sql_rowcount (\<lambda>r. schedule_id r = sid \<and> dispatched_at r = None) ?u = 0"
    using ds by (auto simp: sql_rowcount_0_iff)
  then have "mark_dispatched now2 sid System ?u = (Inl (Key_error sid), ?u)"
    by (simp add: mark_dispatched_def Let_def)
  moreover have "s \<notin> set es" if "\<not> include_dispatched q" "list_schedules q System ?u = Inr es"
    using that ds set_sql_limit [of "sched_limit q" "sort_key sched_key (filter (sched_matches q) ?u)"]
    by (auto simp: list_schedules_def sched_matches_def)
  ultimately show ?thesis using row ds by blast
qed

definition sample_schedule :: schedule_create where
  "sample_schedule = \<lparr>sc_schedule_id = ''s'', sc_due_at = \<lparr>wall = 7200000000, tz_offset = Some 60\<rparr>,
     sc_target_agent = ''smith'', sc_resolved_user = None, sc_conversation = ''c'',
     sc_channel = ''scheduler'', sc_text = ''ping'', sc_created_by = System, sc_metadata = []\<rparr>"

theorem dispatch_once_witness:
  "\<exists>s t'. mark_dispatched 9 ''s'' System (snd (create_schedule 0 sample_schedule System [])) = (Inr s, t')
     \<and> mark_dispatched 10 ''s'' System t' = (Inl (Key_error ''s''), t')"
proof -
  let ?t = "snd (create_schedule 0 sample_schedule System [])"
  have d: "distinct (map schedule_id ?t)" by (simp add: create_schedule_def sample_schedule_def Let_def)
  obtain s t' where m: "mark_dispatched 9 ''s'' System ?t = (Inr s, t')"
    by (simp add: mark_dispatched_def create_schedule_def sample_schedule_def Let_def sql_rowcount_def)
  from dispatch_once [OF d m, of "[]" 10] m show ?thesis by simp
qed

text \<open>What is listed as due at \<open>d\<close> is due by then as an instant, whatever offsets the two
  times were given in, and comes in order of its due time.\<close>

theorem due_listing:
  assumes "list_schedules q reader t = Inr es" and "due_before q = Some d" and "valid_utc (instant d)"
    and "\<forall>r \<in> set t. valid_utc (due_at r)"
  shows "(\<forall>e \<in> set es. due_at e \<le> instant d) \<and> sorted (map due_at es)"
proof -
  let ?m = "sort_key sched_key (filter (sched_matches q) t)"
  from assms(1) have es: "es = sql_limit (sched_limit q) ?m"
    by (auto simp: list_schedules_def split: if_splits)
  have sub: "set es \<subseteq> {r \<in> set t. sched_matches q r}"
    using set_sql_limit [of "sched_limit q" ?m] by (auto simp: es)
  then have "\<forall>e \<in> set es. due_at e \<le> instant d" using assms(2-4) by (auto simp: sched_matches_def)
  moreover
  have "sorted (map sched_key es)" unfolding es by (rule sorted_sql_limit) simp
  then have "sorted_wrt (\<lambda>a b. sched_key a \<le> sched_key b) es" by (simp add: sorted_map)
  then have "sorted_wrt (\<lambda>a b. due_at a \<le> due_at b) es"
  proof (rule sorted_wrt_mono_rel [rotated])
    fix a b assume ab: "a \<in> set es" "b \<in> set es" "sched_key a \<le> sched_key b"
    then have "iso_utc (due_at a) \<le> iso_utc (due_at b)" by (auto simp: sched_key_def less_eq_prod_def)
    with ab sub assms(4) show "due_at a \<le> due_at b" by (blast intro: iso_utc_leD)
  qed
  then have "sorted (map due_at es)" by (simp add: sorted_map)
  ultimately show ?thesis by blast
qed

theorem due_listing_witness:
  "\<exists>es. list_schedules \<lparr>due_before = Some \<lparr>wall = 3600000000, tz_offset = Some 0\<rparr>,
      include_dispatched = False, sched_limit = 50\<rparr> System
      (snd (create_schedule 0 sample_schedule System [])) = Inr es
    \<and> (\<forall>e \<in> set es. due_at e \<le> 3600000000)"
proof -
  let ?d = "\<lparr>wall = 3600000000, tz_offset = Some 0\<rparr>"
  let ?q = "\<lparr>due_before = Some ?d, include_dispatched = False, sched_limit = 50\<rparr>"
  let ?t = "snd (create_schedule 0 sample_schedule System [])"
  obtain es where es: "list_schedules ?q System ?t = Inr es" by (simp add: list_schedules_def)
  have v: "valid_utc (instant ?d)" "\<forall>r \<in> set ?t. valid_utc (due_at r)"
    by (simp_all add: instant_def create_schedule_def sample_schedule_def Let_def valid_utc_def
      max_wall_def usec_defs)
  from due_listing [OF es _ v] es show ?thesis by (simp add: instant_def)
qed

text \<open>With the default exclusions, an observation from untrusted external content gets no
  proposed capability that is, or is an alias of, an authoritative memory write, a message, home
  control, administration or privileged execution; trusted work is never restricted.\<close>

theorem untrusted_observation_bounded:
  "(\<forall>w \<in> set (validate_observation (excluded_set None) obs).
      wd_allowed w \<longrightarrow> obs_trust obs = Untrusted_external_content \<longrightarrow>
        wd_canonical w \<notin> {''memory.authoritative_write'', ''message.send'', ''home.control'',
          ''admin.configuration'', ''privileged.execution''}
        \<and> wd_capability w \<notin> fst ` set CAPABILITY_ALIASES)
   \<and> (obs_trust obs = Trusted_internal \<longrightarrow> (\<forall>w \<in> set (validate_observation ex obs). wd_allowed w))
   \<and> map wd_capability (validate_observation ex obs) = obs_proposed obs"
proof -
  have al: "canonical_capability c \<in> set DEFAULT_UNTRUSTED_EXCLUDED" if "c \<in> fst ` set CAPABILITY_ALIASES" for c
    using that by (auto simp: CAPABILITY_ALIASES_def canonical_capability_def DEFAULT_UNTRUSTED_EXCLUDED_def)
  have one: "wd_canonical w \<notin> set DEFAULT_UNTRUSTED_EXCLUDED \<and> wd_capability w \<notin> fst ` set CAPABILITY_ALIASES"
    if "w \<in> set (validate_observation (excluded_set None) obs)" "wd_allowed w"
      "obs_trust obs = Untrusted_external_content" for w
  proof -
    from that(1) obtain c where w: "w = worker_authorize DEFAULT_UNTRUSTED_EXCLUDED (obs_class obs) (obs_trust obs) c"
      by (auto simp: validate_observation_def excluded_set_def)
    with that(2,3) have "canonical_capability c \<notin> set DEFAULT_UNTRUSTED_EXCLUDED"
      by (simp add: worker_authorize_def Let_def)
    with w al show ?thesis by (auto simp: worker_authorize_def Let_def)
  qed
  have two: "\<forall>w \<in> set (validate_observation ex obs). wd_allowed w" if "obs_trust obs = Trusted_internal"
    using that by (simp add: validate_observation_def worker_authorize_def Let_def)
  have "map wd_capability (validate_observation ex obs) = obs_proposed obs"
    by (simp add: validate_observation_def worker_authorize_def Let_def comp_def)
  with one two show ?thesis unfolding DEFAULT_UNTRUSTED_EXCLUDED_def set_simps by blast
qed

theorem untrusted_observation_bounded_witness:
  "map wd_allowed (validate_observation (excluded_set None)
     \<lparr>obs_class = Web_research, obs_trust = Untrusted_external_content, obs_proposed = [''gmail_send'']\<rparr>) = [False]"
  using untrusted_observation_bounded
    [of "\<lparr>obs_class = Web_research, obs_trust = Untrusted_external_content, obs_proposed = [''gmail_send'']\<rparr>"
      "excluded_set None"]
  by (simp add: validate_observation_def worker_authorize_def Let_def CAPABILITY_ALIASES_def)

end
