(* ===== verification/Domain_Memory.thy ===== *)
theory Domain_Memory
  imports Foundation_Models
begin

section \<open>Scoped memory with trust boundaries\<close>

text \<open>
  \<open>Freyja3MemoryStore\<close> of \<open>src/freyja/freyja3_memory.py\<close>: memory records, candidates that wait
  for review, and the access rules between security domains. The state holds the two tables.
  New ids (\<open>uuid4\<close>) and the clock are parameters. \<open>confidence\<close> is the float's integer ratio.
  \<open>expires_at\<close> is stored as the ISO text of the datetime as given, in its own offset, and is
  compared as text. \<open>review_candidate\<close> uses three transactions: the read of the candidate, the
  insertion of the memory (\<open>put_memory\<close>) and the update of the candidate (\<open>mark_reviewed\<close>).
\<close>

type_synonym confidence = "int \<times> int"

record memory_record =
  memory_id :: string
  owner :: security_domain
  scope :: memory_scope
  source_agent :: string
  content :: string
  provenance :: string
  confidence :: confidence
  classification :: memory_classification
  allowed_readers :: "security_domain set"
  allowed_writers :: "security_domain set"
  mem_metadata :: json_obj
  mem_created_at :: utc
  mem_updated_at :: utc
  mem_expires_at :: "datetime option"

record memory_write =
  mw_owner :: security_domain
  mw_scope :: memory_scope
  mw_source_agent :: string
  mw_content :: string
  mw_provenance :: string
  mw_confidence :: confidence
  mw_classification :: memory_classification
  mw_readers :: "security_domain set"
  mw_writers :: "security_domain set"
  mw_metadata :: json_obj
  mw_expires_at :: "datetime option"

record memory_query =
  mq_owner :: "security_domain option"
  mq_scope :: "memory_scope option"
  mq_source_agent :: "string option"
  mq_limit :: int

datatype candidate_status = Cand_pending | Cand_approved | Cand_rejected

fun candidate_status_value :: "candidate_status \<Rightarrow> string" where
  "candidate_status_value Cand_pending = ''pending''"
| "candidate_status_value Cand_approved = ''approved''"
| "candidate_status_value Cand_rejected = ''rejected''"

record memory_candidate =
  candidate_id :: string
  cand_owner :: security_domain
  cand_scope :: memory_scope
  cand_source_agent :: string
  cand_content :: string
  cand_provenance :: string
  cand_confidence :: confidence
  cand_classification :: memory_classification
  cand_readers :: "security_domain set"
  cand_writers :: "security_domain set"
  cand_metadata :: json_obj
  cand_status :: candidate_status
  proposed_at :: utc
  reviewed_at :: "utc option"
  reviewed_by :: "security_domain option"
  review_reason :: "string option"
  approved_memory_id :: "string option"

record candidate_query =
  cq_owner :: "security_domain option"
  cq_status :: "string option"
  cq_source_agent :: "string option"
  cq_limit :: int

record candidate_review =
  rv_approve :: bool     \<comment> \<open>\<open>decision == "approve"\<close>\<close>
  rv_reason :: string

record memory_state =
  memories :: "memory_record list"
  candidates :: "memory_candidate list"

subsection \<open>Access rules\<close>

definition write_denial :: "memory_write \<Rightarrow> security_domain \<Rightarrow> string option" where
  "write_denial w writer =
    (if mw_owner w = Paralegal \<and> writer \<noteq> Paralegal then Some ''paralegal memory is outside Freyja trust''
     else if writer = Paralegal \<and> mw_owner w \<noteq> Paralegal
     then Some ''paralegal enclave cannot write Freyja memory''
     else if writer = mw_owner w \<or> writer \<in> mw_writers w then None
     else if mw_scope w \<in> {Scope_household, Scope_system} \<and> writer = System then None
     else Some ''memory write denied'')"

definition can_read :: "memory_record \<Rightarrow> security_domain \<Rightarrow> bool" where
  "can_read r reader \<longleftrightarrow>
    (if owner r = Paralegal \<and> reader \<noteq> Paralegal then False
     else if reader = Paralegal \<and> owner r \<noteq> Paralegal then False
     else reader = owner r \<or> reader \<in> allowed_readers r)"

definition can_read_candidate :: "memory_candidate \<Rightarrow> security_domain \<Rightarrow> bool" where
  "can_read_candidate c reader \<longleftrightarrow>
    (if cand_owner c = Paralegal \<and> reader \<noteq> Paralegal then False
     else if reader = Paralegal \<and> cand_owner c \<noteq> Paralegal then False
     else reader = cand_owner c \<or> reader = System \<or> reader \<in> cand_readers c)"

definition can_review_candidate :: "memory_candidate \<Rightarrow> security_domain \<Rightarrow> bool" where
  "can_review_candidate c reviewer \<longleftrightarrow>
    (if cand_owner c = Paralegal then reviewer = Paralegal
     else if reviewer = Paralegal then False
     else reviewer = cand_owner c \<or> reviewer = System \<or> reviewer \<in> cand_writers c)"

subsection \<open>Memories\<close>

definition record_of :: "utc \<Rightarrow> string \<Rightarrow> memory_write \<Rightarrow> memory_record" where
  "record_of now new_id w = \<lparr>memory_id = new_id, owner = mw_owner w, scope = mw_scope w,
     source_agent = mw_source_agent w, content = mw_content w, provenance = mw_provenance w,
     confidence = mw_confidence w, classification = mw_classification w,
     allowed_readers = insert (mw_owner w) (mw_readers w),
     allowed_writers = insert (mw_owner w) (mw_writers w), mem_metadata = mw_metadata w,
     mem_created_at = now, mem_updated_at = now, mem_expires_at = mw_expires_at w\<rparr>"

definition put_memory ::
    "utc \<Rightarrow> string \<Rightarrow> memory_write \<Rightarrow> security_domain \<Rightarrow> memory_state
     \<Rightarrow> (store_failure + memory_record) \<times> memory_state" where
  "put_memory now new_id w writer st =
    (case write_denial w writer of
       Some why \<Rightarrow> (Inl (Access_denied why), st)
     | None \<Rightarrow>
         if \<exists>r \<in> set (memories st). memory_id r = new_id then (Inl Integrity_error, st)
         else (let r = record_of now new_id w in (Inr r, st\<lparr>memories := memories st @ [r]\<rparr>)))"

definition not_expired :: "utc \<Rightarrow> memory_record \<Rightarrow> bool" where
  "not_expired now r \<longleftrightarrow> (case mem_expires_at r of None \<Rightarrow> True | Some e \<Rightarrow> iso_utc now < isoformat e)"

definition memory_matches :: "memory_query \<Rightarrow> memory_record \<Rightarrow> bool" where
  "memory_matches q r \<longleftrightarrow> (mq_owner q = None \<or> mq_owner q = Some (owner r))
     \<and> (mq_scope q = None \<or> mq_scope q = Some (scope r))
     \<and> (mq_source_agent q = None \<or> mq_source_agent q = Some (source_agent r))"

text \<open>\<open>ORDER BY updated_at DESC, memory_id DESC LIMIT ?\<close>, and the access filter after it.\<close>

definition list_memories :: "utc \<Rightarrow> memory_query \<Rightarrow> security_domain \<Rightarrow> memory_state \<Rightarrow> memory_record list" where
  "list_memories now q reader st =
     filter (\<lambda>r. can_read r reader)
       (sql_limit (mq_limit q)
         (order_desc (\<lambda>r. (iso_utc (mem_updated_at r), memory_id r))
           (filter (\<lambda>r. not_expired now r \<and> memory_matches q r) (memories st))))"

definition get_memory :: "string \<Rightarrow> security_domain \<Rightarrow> memory_state \<Rightarrow> store_failure + memory_record option" where
  "get_memory mid reader st =
    (case row_of memory_id mid (memories st) of
       None \<Rightarrow> Inr None
     | Some r \<Rightarrow> if can_read r reader then Inr (Some r) else Inl (Access_denied ''memory read denied''))"

subsection \<open>Candidates\<close>

definition candidate_as_write :: "memory_candidate \<Rightarrow> memory_write" where
  "candidate_as_write c = \<lparr>mw_owner = cand_owner c, mw_scope = cand_scope c,
     mw_source_agent = cand_source_agent c, mw_content = cand_content c,
     mw_provenance = ''approved-memory-candidate:'' @ candidate_id c,
     mw_confidence = cand_confidence c, mw_classification = cand_classification c,
     mw_readers = cand_readers c, mw_writers = cand_writers c,
     mw_metadata = jput ''candidate_id'' (JStr (candidate_id c)) (cand_metadata c),
     mw_expires_at = None\<rparr>"

text \<open>\<open>Freyja3MemoryCandidateWrite\<close> has the fields of a memory write except \<open>expires_at\<close>; the
  check is made on a memory write without it.\<close>

definition propose_candidate ::
    "utc \<Rightarrow> string \<Rightarrow> memory_write \<Rightarrow> security_domain \<Rightarrow> memory_state
     \<Rightarrow> (store_failure + memory_candidate) \<times> memory_state" where
  "propose_candidate now new_id w proposer st =
    (case write_denial (w\<lparr>mw_expires_at := None\<rparr>) proposer of
       Some why \<Rightarrow> (Inl (Access_denied why), st)
     | None \<Rightarrow>
         if \<exists>c \<in> set (candidates st). candidate_id c = new_id then (Inl Integrity_error, st)
         else
           (let c = \<lparr>candidate_id = new_id, cand_owner = mw_owner w, cand_scope = mw_scope w,
                  cand_source_agent = mw_source_agent w, cand_content = mw_content w,
                  cand_provenance = mw_provenance w, cand_confidence = mw_confidence w,
                  cand_classification = mw_classification w, cand_readers = mw_readers w,
                  cand_writers = mw_writers w, cand_metadata = mw_metadata w,
                  cand_status = Cand_pending, proposed_at = now, reviewed_at = None,
                  reviewed_by = None, review_reason = None, approved_memory_id = None\<rparr>
            in (Inr c, st\<lparr>candidates := candidates st @ [c]\<rparr>)))"

definition candidate_matches :: "candidate_query \<Rightarrow> memory_candidate \<Rightarrow> bool" where
  "candidate_matches q c \<longleftrightarrow> (cq_owner q = None \<or> cq_owner q = Some (cand_owner c))
     \<and> (cq_status q = None \<or> cq_status q = Some (candidate_status_value (cand_status c)))
     \<and> (cq_source_agent q = None \<or> cq_source_agent q = Some (cand_source_agent c))"

definition list_candidates :: "candidate_query \<Rightarrow> security_domain \<Rightarrow> memory_state \<Rightarrow> memory_candidate list" where
  "list_candidates q reader st =
     filter (\<lambda>c. can_read_candidate c reader)
       (sql_limit (cq_limit q)
         (order_desc (\<lambda>c. (iso_utc (proposed_at c), candidate_id c))
           (filter (candidate_matches q) (candidates st))))"

text \<open>The checks of \<open>review_candidate\<close> on the row it read.\<close>

definition review_denial :: "string \<Rightarrow> security_domain \<Rightarrow> memory_candidate option \<Rightarrow> store_failure option" where
  "review_denial cid reviewer row =
    (case row of
       None \<Rightarrow> Some (Key_error cid)
     | Some c \<Rightarrow>
         if cand_status c \<noteq> Cand_pending
         then Some (Access_denied ''memory candidate has already been reviewed'')
         else if \<not> can_review_candidate c reviewer
         then Some (Access_denied ''memory candidate review denied'')
         else None)"

definition mark_reviewed ::
    "utc \<Rightarrow> string \<Rightarrow> candidate_review \<Rightarrow> security_domain \<Rightarrow> string option \<Rightarrow> memory_state \<Rightarrow> memory_state" where
  "mark_reviewed now cid rv reviewer approved st =
     st\<lparr>candidates := sql_update (\<lambda>c. candidate_id c = cid)
       (\<lambda>c. c\<lparr>cand_status := (if rv_approve rv then Cand_approved else Cand_rejected),
              reviewed_at := Some now, reviewed_by := Some reviewer,
              review_reason := Some (rv_reason rv), approved_memory_id := approved\<rparr>) (candidates st)\<rparr>"

text \<open>What \<open>review_candidate\<close> does after its checks, with the candidate \<open>c\<close> it read: the
  transaction that inserts the memory, and the one that marks the candidate, whose UPDATE has no
  guard on the status. The store may have changed before each of them.\<close>

definition review_store ::
    "utc \<Rightarrow> string \<Rightarrow> candidate_review \<Rightarrow> security_domain \<Rightarrow> memory_candidate \<Rightarrow> memory_state
     \<Rightarrow> (store_failure + memory_record option) \<times> memory_state" where
  "review_store now new_id rv reviewer c st =
    (if rv_approve rv
     then (case put_memory now new_id (candidate_as_write c) reviewer st of
             (Inl e, st1) \<Rightarrow> (Inl e, st1) | (Inr r, st1) \<Rightarrow> (Inr (Some r), st1))
     else (Inr None, st))"

definition review_mark ::
    "utc \<Rightarrow> string \<Rightarrow> candidate_review \<Rightarrow> security_domain \<Rightarrow> memory_record option \<Rightarrow> memory_state
     \<Rightarrow> (store_failure + memory_candidate \<times> memory_record option) \<times> memory_state" where
  "review_mark now cid rv reviewer made st =
    (let st' = mark_reviewed now cid rv reviewer (map_option memory_id made) st
     in case row_of candidate_id cid (candidates st') of
          None \<Rightarrow> (Inl (Key_error cid), st')
        | Some c' \<Rightarrow> (Inr (c', made), st'))"

definition review_commit ::
    "utc \<Rightarrow> string \<Rightarrow> string \<Rightarrow> candidate_review \<Rightarrow> security_domain \<Rightarrow> memory_candidate \<Rightarrow> memory_state
     \<Rightarrow> (store_failure + memory_candidate \<times> memory_record option) \<times> memory_state" where
  "review_commit now new_id cid rv reviewer c st =
    (case review_store now new_id rv reviewer c st of
       (Inl e, st1) \<Rightarrow> (Inl e, st1)
     | (Inr made, st1) \<Rightarrow> review_mark now cid rv reviewer made st1)"

text \<open>The whole call when nothing else happens between its transactions, with one reading of the
  clock; the theory \<open>Memory_Reviews\<close> has calls that overlap.\<close>

lemmas review_parts = review_commit_def review_store_def review_mark_def

definition review_candidate ::
    "utc \<Rightarrow> string \<Rightarrow> string \<Rightarrow> candidate_review \<Rightarrow> security_domain \<Rightarrow> memory_state
     \<Rightarrow> (store_failure + memory_candidate \<times> memory_record option) \<times> memory_state" where
  "review_candidate now new_id cid rv reviewer st =
    (let row = row_of candidate_id cid (candidates st)
     in case review_denial cid reviewer row of
          Some e \<Rightarrow> (Inl e, st)
        | None \<Rightarrow> review_commit now new_id cid rv reviewer (the row) st)"

subsection \<open>Lifecycle of candidates and memories\<close>

definition reviewed_as ::
    "candidate_status \<Rightarrow> utc \<Rightarrow> security_domain \<Rightarrow> string \<Rightarrow> string option \<Rightarrow> memory_candidate \<Rightarrow> memory_candidate"
    where
  "reviewed_as s now reviewer why m c = c\<lparr>cand_status := s, reviewed_at := Some now,
     reviewed_by := Some reviewer, review_reason := Some why, approved_memory_id := m\<rparr>"

definition cand_may :: "memory_candidate \<Rightarrow> memory_candidate \<Rightarrow> bool" where
  "cand_may c d \<longleftrightarrow> d = c \<or> cand_status c = Cand_pending \<and> cand_status d \<noteq> Cand_pending
     \<and> (\<exists>s now reviewer why m. d = reviewed_as s now reviewer why m c \<and> can_review_candidate c reviewer)"

datatype memory_op =
    Op_put utc string memory_write security_domain
  | Op_propose utc string memory_write security_domain
  | Op_review utc string string candidate_review security_domain

fun memory_step :: "memory_op \<Rightarrow> memory_state \<Rightarrow> memory_state" where
  "memory_step (Op_put now i w d) st = snd (put_memory now i w d st)"
| "memory_step (Op_propose now i w d) st = snd (propose_candidate now i w d st)"
| "memory_step (Op_review now i cid rv d) st = snd (review_candidate now i cid rv d st)"

lemma reviewed_as_status [simp]: "cand_status (reviewed_as s now reviewer why m c) = s"
  by (simp add: reviewed_as_def)

lemma cand_may_reviewed:
  assumes "cand_status c = Cand_pending" and "s \<noteq> Cand_pending" and "can_review_candidate c d"
  shows "cand_may c (reviewed_as s now d why m c)"
  unfolding cand_may_def
proof (rule disjI2, intro conjI)
  show "cand_status (reviewed_as s now d why m c) \<noteq> Cand_pending" using assms(2) by simp
  show "\<exists>s' now' reviewer why' m'. reviewed_as s now d why m c = reviewed_as s' now' reviewer why' m' c
      \<and> can_review_candidate c reviewer"
    using assms(3) by blast
qed (rule assms)

lemma cand_may_refl: "cand_may c c"
  by (simp add: cand_may_def)

lemma cand_may_key: "cand_may c d \<Longrightarrow> candidate_id d = candidate_id c"
  by (auto simp: cand_may_def reviewed_as_def)

lemma cand_may_trans:
  assumes "cand_may c d" and "cand_may d e"
  shows "cand_may c e"
proof (cases "d = c")
  case False
  then have "cand_status d \<noteq> Cand_pending" using assms(1) by (simp add: cand_may_def)
  then have "e = d" using assms(2) by (simp add: cand_may_def)
  with assms(1) show ?thesis by simp
qed (use assms in simp)

lemma record_of_id [simp]: "memory_id (record_of now i w) = i"
  by (simp add: record_of_def)

lemma put_candidates [simp]: "candidates (snd (put_memory now i w d st)) = candidates st"
  by (simp add: put_memory_def Let_def split: option.splits)

abbreviation candidates_move :: "memory_candidate list \<Rightarrow> memory_candidate list \<Rightarrow> bool" where
  "candidates_move \<equiv> table_move candidate_id cand_may (\<lambda>c. cand_status c = Cand_pending)"

lemma propose_move: "candidates_move (candidates st) (candidates (snd (propose_candidate now i w d st)))"
  by (auto simp: propose_candidate_def Let_def table_move_refl cand_may_refl
      split: option.splits intro!: table_move_insert)

text \<open>A review that gets through its checks.\<close>

lemma review_result:
  "review_candidate now i cid rv d st =
    (case row_of candidate_id cid (candidates st) of
       None \<Rightarrow> (Inl (Key_error cid), st)
     | Some c \<Rightarrow>
         (case review_denial cid d (Some c) of
            Some e \<Rightarrow> (Inl e, st)
          | None \<Rightarrow>
              if rv_approve rv
              then (case put_memory now i (candidate_as_write c) d st of
                      (Inl e, st1) \<Rightarrow> (Inl e, st1)
                    | (Inr r, st1) \<Rightarrow> (Inr (c\<lparr>cand_status := Cand_approved, reviewed_at := Some now,
                          reviewed_by := Some d, review_reason := Some (rv_reason rv),
                          approved_memory_id := Some (memory_id r)\<rparr>, Some r),
                        mark_reviewed now cid rv d (Some (memory_id r)) st1))
              else (Inr (c\<lparr>cand_status := Cand_rejected, reviewed_at := Some now,
                          reviewed_by := Some d, review_reason := Some (rv_reason rv),
                          approved_memory_id := None\<rparr>, None),
                    mark_reviewed now cid rv d None st)))"
proof (cases "row_of candidate_id cid (candidates st)")
  case None
  then show ?thesis by (simp add: review_candidate_def review_denial_def)
next
  case (Some c)
  then have id: "candidate_id c = cid" by (auto dest: row_of_SomeD)
  have mark: "row_of candidate_id cid (candidates (mark_reviewed now cid rv d m st1)) =
      Some (c\<lparr>cand_status := (if rv_approve rv then Cand_approved else Cand_rejected),
              reviewed_at := Some now, reviewed_by := Some d, review_reason := Some (rv_reason rv),
              approved_memory_id := m\<rparr>)" if "candidates st1 = candidates st" for m st1
    using Some id that by (simp add: mark_reviewed_def row_of_sql_update)
  show ?thesis
  proof (cases "review_denial cid d (Some c)")
    case denied: (Some e)
    then show ?thesis using Some by (simp add: review_candidate_def)
  next
    case None
    show ?thesis
    proof (cases "put_memory now i (candidate_as_write c) d st")
      case (Pair res st1)
      then have "candidates st1 = candidates st" using put_candidates [of now i "candidate_as_write c" d st] by simp
      from mark [OF this] mark [OF refl] show ?thesis
        using Some None Pair by (cases res) (auto simp: review_candidate_def review_parts Let_def)
    qed
  qed
qed

lemma review_move: "candidates_move (candidates st) (candidates (snd (review_candidate now i cid rv d st)))"
proof (cases "distinct (map candidate_id (candidates st))")
  case True
  have mark: "candidates_move (candidates st) (candidates (mark_reviewed now cid rv d m st1))"
    if row: "row_of candidate_id cid (candidates st) = Some c" and ok: "review_denial cid d (Some c) = None"
      and st1: "candidates st1 = candidates st" for c m st1
  proof -
    let ?f = "\<lambda>c. c\<lparr>cand_status := (if rv_approve rv then Cand_approved else Cand_rejected),
              reviewed_at := Some now, reviewed_by := Some d, review_reason := Some (rv_reason rv),
              approved_memory_id := m\<rparr>"
    have "sql_update (\<lambda>x. candidate_id x = cid) ?f (candidates st) = sql_update (\<lambda>x. x = c) ?f (candidates st)"
      by (rule sql_update_key [OF True row])
    moreover have "cand_status c = Cand_pending" "can_review_candidate c d"
      using ok by (auto simp: review_denial_def split: if_splits)
    then have "cand_may c (reviewed_as (if rv_approve rv then Cand_approved else Cand_rejected) now d (rv_reason rv) m c)"
      by (intro cand_may_reviewed) auto
    then have "cand_may c (?f c)" by (simp add: reviewed_as_def)
    then have "candidates_move (candidates st) (sql_update (\<lambda>x. x = c) ?f (candidates st))"
      by (intro table_move_update) (auto intro: cand_may_refl cand_may_key)
    ultimately show ?thesis using st1 by (simp add: mark_reviewed_def)
  qed
  show ?thesis
  proof (cases "row_of candidate_id cid (candidates st)")
    case None
    then show ?thesis by (simp add: review_result table_move_refl cand_may_refl)
  next
    case (Some c)
    obtain res st1 where put: "put_memory now i (candidate_as_write c) d st = (res, st1)" by force
    then have st1: "candidates st1 = candidates st" using put_candidates [of now i "candidate_as_write c" d st] by simp
    show ?thesis
      using Some put mark [OF Some _ st1] mark [OF Some _ refl] st1
      by (cases "review_denial cid d (Some c)"; cases res)
        (auto simp: review_result table_move_refl cand_may_refl)
  qed
qed (simp add: table_move_def)

interpretation candidate_table: row_machine candidate_id cand_may "\<lambda>c. cand_status c = Cand_pending"
  candidates memory_step
proof
  show "candidates_move (candidates st) (candidates (memory_step x st))" for st x
    by (cases x) (simp_all add: propose_move review_move table_move_refl cand_may_refl)
qed (auto intro: cand_may_refl cand_may_trans cand_may_key)

text \<open>Memories are never changed or deleted.\<close>

lemma put_memories:
  "\<exists>new. memories (snd (put_memory now i w d st)) = memories st @ new \<and>
     (\<forall>r \<in> set new. r = record_of now i w \<and> write_denial w d = None \<and> (\<forall>x \<in> set (memories st). memory_id x \<noteq> i))
     \<and> length new \<le> 1"
  by (auto simp: put_memory_def Let_def split: option.splits)

lemma mark_memories [simp]: "memories (mark_reviewed now cid rv d m st) = memories st"
  by (simp add: mark_reviewed_def)

lemma review_memories:
  "memories (snd (review_candidate now i cid rv d st)) = memories st \<or>
   (\<exists>c. row_of candidate_id cid (candidates st) = Some c \<and> review_denial cid d (Some c) = None \<and> rv_approve rv
     \<and> memories (snd (review_candidate now i cid rv d st))
       = memories (snd (put_memory now i (candidate_as_write c) d st)))"
  by (auto simp: review_result split: option.splits prod.splits sum.splits)

abbreviation memories_move :: "memory_record list \<Rightarrow> memory_record list \<Rightarrow> bool" where
  "memories_move \<equiv> table_move memory_id (\<lambda>r s. s = r) (\<lambda>r. True)"

lemma put_memories_move: "memories_move (memories st) (memories (snd (put_memory now i w d st)))"
  by (auto simp: put_memory_def Let_def table_move_refl split: option.splits intro!: table_move_insert)

interpretation memory_table: row_machine memory_id "\<lambda>r s. s = r" "\<lambda>r. True" memories memory_step
proof
  show "memories_move (memories st) (memories (memory_step x st))" for st x
  proof (cases x)
    case (Op_review now i cid rv d)
    then show ?thesis
      using review_memories [of now i cid rv d st] put_memories_move [of st now i _ d]
      by (auto simp: table_move_refl)
  next
    case (Op_propose now i w d)
    then show ?thesis
      by (auto simp: propose_candidate_def Let_def table_move_refl split: option.splits)
  qed (simp add: put_memories_move)
qed auto

subsection \<open>Properties\<close>

text \<open>The state without the rows of the paralegal enclave, and who performs an operation.\<close>

definition outside :: "memory_state \<Rightarrow> memory_state" where
  "outside st = \<lparr>memories = sql_delete (\<lambda>r. owner r = Paralegal) (memories st),
     candidates = sql_delete (\<lambda>c. cand_owner c = Paralegal) (candidates st)\<rparr>"

fun op_actor :: "memory_op \<Rightarrow> security_domain" where
  "op_actor (Op_put _ _ _ d) = d"
| "op_actor (Op_propose _ _ _ d) = d"
| "op_actor (Op_review _ _ _ _ d) = d"

fun op_id :: "memory_op \<Rightarrow> string" where
  "op_id (Op_put _ i _ _) = i"
| "op_id (Op_propose _ i _ _) = i"
| "op_id (Op_review _ i _ _ _) = i"

definition row_ids :: "memory_state \<Rightarrow> string set" where
  "row_ids st = memory_id ` set (memories st) \<union> candidate_id ` set (candidates st)"

definition memory_keys_ok :: "memory_state \<Rightarrow> bool" where
  "memory_keys_ok st \<longleftrightarrow> distinct (map memory_id (memories st)) \<and> distinct (map candidate_id (candidates st))"

lemma memory_keys_step: "memory_keys_ok st \<Longrightarrow> memory_keys_ok (memory_step x st)"
  unfolding memory_keys_ok_def
  using memory_table.step_distinct candidate_table.step_distinct by blast

lemma write_denial_side: "write_denial w d = None \<Longrightarrow> mw_owner w = Paralegal \<longleftrightarrow> d = Paralegal"
  by (auto simp: write_denial_def split: if_splits)

lemma review_denial_side:
  "review_denial cid d (Some c) = None \<Longrightarrow> cand_owner c = Paralegal \<longleftrightarrow> d = Paralegal"
  by (auto simp: review_denial_def can_review_candidate_def split: if_splits)

lemma record_of_owner [simp]: "owner (record_of now i w) = mw_owner w"
  by (simp add: record_of_def)

lemma candidate_as_write_owner [simp]: "mw_owner (candidate_as_write c) = cand_owner c"
  by (simp add: candidate_as_write_def)

lemma outside_memories [simp]: "memories (outside st) = sql_delete (\<lambda>r. owner r = Paralegal) (memories st)"
  and outside_candidates [simp]:
    "candidates (outside st) = sql_delete (\<lambda>c. cand_owner c = Paralegal) (candidates st)"
  by (simp_all add: outside_def)

lemma put_inside: "d = Paralegal \<Longrightarrow> outside (snd (put_memory now i w d st)) = outside st"
  by (auto simp: put_memory_def Let_def outside_def sql_delete_append sql_delete_def
      dest!: write_denial_side split: option.splits)

lemma put_outside:
  assumes "d \<noteq> Paralegal" and "i \<notin> row_ids st"
  shows "put_memory now i w d (outside st)
    = (fst (put_memory now i w d st), outside (snd (put_memory now i w d st)))"
proof (cases "write_denial w d")
  case None
  then have "mw_owner w \<noteq> Paralegal" using write_denial_side assms(1) by blast
  moreover have "\<forall>r \<in> set (memories st). memory_id r \<noteq> i" using assms(2) by (auto simp: row_ids_def)
  ultimately show ?thesis using None
    by (simp add: put_memory_def Let_def outside_def sql_delete_append set_sql_delete)
      (simp add: sql_delete_def)
qed (simp add: put_memory_def)

lemma propose_inside: "d = Paralegal \<Longrightarrow> outside (snd (propose_candidate now i w d st)) = outside st"
  by (auto simp: propose_candidate_def Let_def outside_def sql_delete_append sql_delete_def
      dest!: write_denial_side split: option.splits)

lemma propose_outside:
  assumes "d \<noteq> Paralegal" and "i \<notin> row_ids st"
  shows "snd (propose_candidate now i w d (outside st)) = outside (snd (propose_candidate now i w d st))"
proof (cases "write_denial (w\<lparr>mw_expires_at := None\<rparr>) d")
  case None
  then have "mw_owner w \<noteq> Paralegal" using write_denial_side [of "w\<lparr>mw_expires_at := None\<rparr>" d] assms(1) by simp
  moreover have "\<forall>c \<in> set (candidates st). candidate_id c \<noteq> i" using assms(2) by (auto simp: row_ids_def)
  ultimately show ?thesis using None
    by (simp add: propose_candidate_def Let_def outside_def sql_delete_append set_sql_delete)
      (simp add: sql_delete_def)
qed (simp add: propose_candidate_def)

lemma mark_inside:
  assumes "memory_keys_ok st" and "row_of candidate_id cid (candidates st) = Some c"
    and "cand_owner c = Paralegal" and "candidates st1 = candidates st"
  shows "outside (mark_reviewed now cid rv d m st1) = outside st1"
proof -
  have "sql_update (\<lambda>x. candidate_id x = cid) f (candidates st1) = sql_update (\<lambda>x. x = c) f (candidates st1)" for f
    using sql_update_key [OF _ assms(2)] assms(1,4) by (simp add: memory_keys_ok_def)
  moreover have "sql_delete (\<lambda>c. cand_owner c = Paralegal) (sql_update (\<lambda>x. x = c) f t) =
      sql_delete (\<lambda>c. cand_owner c = Paralegal) t" if "cand_owner (f c) = Paralegal" for f t
    by (rule sql_delete_update_inside) (use assms(3) that in auto)
  ultimately show ?thesis
    using assms(3) by (simp add: mark_reviewed_def outside_def)
qed

lemma mark_outside: "mark_reviewed now cid rv d m (outside st) = outside (mark_reviewed now cid rv d m st)"
  by (simp add: mark_reviewed_def outside_def sql_delete_update)

lemma review_inside:
  assumes "memory_keys_ok st" and "d = Paralegal"
  shows "outside (snd (review_candidate now i cid rv d st)) = outside st"
proof (cases "row_of candidate_id cid (candidates st)")
  case (Some c)
  show ?thesis
  proof (cases "review_denial cid d (Some c)")
    case None
    then have c: "cand_owner c = Paralegal" using review_denial_side assms(2) by blast
    obtain res st1 where put: "put_memory now i (candidate_as_write c) d st = (res, st1)" by force
    then have "candidates st1 = candidates st" "outside st1 = outside st"
      using put_candidates [of now i "candidate_as_write c" d st]
        put_inside [OF assms(2), of now i "candidate_as_write c" st] by simp_all
    with put mark_inside [OF assms(1) Some c] Some None show ?thesis
      by (cases res) (simp_all add: review_result)
  qed (simp add: review_result Some)
qed (simp add: review_result)

lemma review_outside:
  assumes "memory_keys_ok st" and "d \<noteq> Paralegal" and "i \<notin> row_ids st"
  shows "snd (review_candidate now i cid rv d (outside st)) = outside (snd (review_candidate now i cid rv d st))"
proof (cases "row_of candidate_id cid (candidates st)")
  case None
  then have "row_of candidate_id cid (candidates (outside st)) = None"
    using assms(1) by (simp add: row_of_sql_delete memory_keys_ok_def)
  with None show ?thesis by (simp add: review_result)
next
  case (Some c)
  have row: "row_of candidate_id cid (candidates (outside st)) = (if cand_owner c = Paralegal then None else Some c)"
    using Some assms(1) by (simp add: row_of_sql_delete memory_keys_ok_def)
  show ?thesis
  proof (cases "review_denial cid d (Some c)")
    case None
    then have c: "cand_owner c \<noteq> Paralegal" using review_denial_side assms(2) by blast
    obtain res st1 where put: "put_memory now i (candidate_as_write c) d st = (res, st1)" by force
    then have "put_memory now i (candidate_as_write c) d (outside st) = (res, outside st1)"
      using put_outside [OF assms(2,3), of now "candidate_as_write c"] by simp
    with put row c Some None show ?thesis
      by (cases res) (simp_all add: review_result mark_outside)
  next
    case (Some e)
    with row \<open>row_of candidate_id cid (candidates st) = Some c\<close> show ?thesis by (simp add: review_result)
  qed
qed

lemma step_inside: "memory_keys_ok st \<Longrightarrow> op_actor x = Paralegal \<Longrightarrow> outside (memory_step x st) = outside st"
  by (cases x) (simp_all add: put_inside propose_inside review_inside)

lemma step_outside:
  "memory_keys_ok st \<Longrightarrow> op_actor x \<noteq> Paralegal \<Longrightarrow> op_id x \<notin> row_ids st \<Longrightarrow>
    memory_step x (outside st) = outside (memory_step x st)"
  by (cases x) (simp_all add: put_outside propose_outside review_outside)

lemma put_ids: "row_ids (snd (put_memory now i w d st)) \<subseteq> insert i (row_ids st)"
  by (auto simp: put_memory_def row_ids_def Let_def split: option.splits)

lemma mark_ids [simp]: "row_ids (mark_reviewed now cid rv d m st) = row_ids st"
proof -
  have "map candidate_id (candidates (mark_reviewed now cid rv d m st)) = map candidate_id (candidates st)"
    by (simp add: mark_reviewed_def keys_sql_update)
  then have "candidate_id ` set (candidates (mark_reviewed now cid rv d m st)) = candidate_id ` set (candidates st)"
    by (metis list.set_map)
  then show ?thesis by (simp add: row_ids_def)
qed

lemma step_ids: "row_ids (memory_step x st) \<subseteq> insert (op_id x) (row_ids st)"
proof (cases x)
  case (Op_review now i cid rv d)
  show ?thesis
  proof (cases "row_of candidate_id cid (candidates st)")
    case (Some c)
    obtain res st1 where put: "put_memory now i (candidate_as_write c) d st = (res, st1)" by force
    then have "row_ids st1 \<subseteq> insert i (row_ids st)"
      using put_ids [of now i "candidate_as_write c" d st] by simp
    with put Some Op_review show ?thesis
      by (cases res) (auto simp: review_result split: option.splits)
  qed (auto simp: Op_review review_result)
next
  case (Op_propose now i w d)
  then show ?thesis by (auto simp: propose_candidate_def row_ids_def Let_def split: option.splits)
qed (simp add: put_ids)

lemma disjoint_insert_step: "a \<notin> S \<Longrightarrow> S \<inter> R = {} \<Longrightarrow> R' \<subseteq> insert a R \<Longrightarrow> S \<inter> R' = {}"
  by blast

text \<open>C24. Noninterference of the paralegal enclave. Deleting every row of the enclave from the
  result of a history gives what the history gives without the operations of the enclave, run on
  the store without its rows: nothing the enclave does changes the rest of the store. The ids the
  operations draw are fresh (\<open>uuid4\<close>).\<close>

theorem enclave_noninterference:
  assumes "memory_keys_ok st" and "distinct (map op_id ops)" and "op_id ` set ops \<inter> row_ids st = {}"
  shows "outside (fold memory_step ops st) =
    fold memory_step (filter (\<lambda>x. op_actor x \<noteq> Paralegal) ops) (outside st)"
  using assms
proof (induction ops arbitrary: st)
  case (Cons x ops)
  have fresh: "op_id x \<notin> op_id ` set ops" "op_id ` set ops \<inter> row_ids st = {}" "distinct (map op_id ops)"
    using Cons.prems(2,3) by (simp_all add: Int_insert_left split: if_splits)
  from fresh(1,2) have "op_id ` set ops \<inter> row_ids (memory_step x st) = {}"
    by (rule disjoint_insert_step [OF _ _ step_ids])
  with Cons.IH [OF memory_keys_step [OF Cons.prems(1)] fresh(3)]
  have "outside (fold memory_step ops (memory_step x st)) =
      fold memory_step (filter (\<lambda>x. op_actor x \<noteq> Paralegal) ops) (outside (memory_step x st))" .
  moreover have "op_id x \<notin> row_ids st" using Cons.prems(3) by auto
  ultimately show ?case
    using step_inside [OF Cons.prems(1), of x] step_outside [OF Cons.prems(1), of x] by simp
qed simp

definition sample_write :: "security_domain \<Rightarrow> memory_scope \<Rightarrow> string \<Rightarrow> memory_write" where
  "sample_write d s text = \<lparr>mw_owner = d, mw_scope = s, mw_source_agent = ''smith'', mw_content = text,
     mw_provenance = ''test'', mw_confidence = (1, 1), mw_classification = Private, mw_readers = {},
     mw_writers = {}, mw_metadata = [], mw_expires_at = None\<rparr>"

definition no_memory :: memory_state where "no_memory = \<lparr>memories = [], candidates = []\<rparr>"

theorem enclave_noninterference_witness:
  "outside (fold memory_step [Op_put 1 ''a'' (sample_write Paralegal Scope_enclave ''x'') Paralegal,
      Op_put 2 ''b'' (sample_write Person_joe Scope_personal ''y'') Person_joe] no_memory)
   = memory_step (Op_put 2 ''b'' (sample_write Person_joe Scope_personal ''y'') Person_joe) no_memory"
  using enclave_noninterference [of no_memory
      "[Op_put 1 ''a'' (sample_write Paralegal Scope_enclave ''x'') Paralegal,
        Op_put 2 ''b'' (sample_write Person_joe Scope_personal ''y'') Person_joe]"]
  by (simp add: memory_keys_ok_def row_ids_def no_memory_def outside_def sql_delete_def)

text \<open>What a reader gets crosses the border of the enclave in neither direction, whatever
  readers and writers a record names.\<close>

theorem enclave_reads:
  "(\<forall>r \<in> set (list_memories now q reader st). owner r = Paralegal \<longleftrightarrow> reader = Paralegal)
   \<and> (\<forall>r. get_memory mid reader st = Inr (Some r) \<longrightarrow> (owner r = Paralegal \<longleftrightarrow> reader = Paralegal))
   \<and> (\<forall>c \<in> set (list_candidates cq reader st). cand_owner c = Paralegal \<longleftrightarrow> reader = Paralegal)
   \<and> (\<forall>c m. fst (review_candidate now i cid rv reader st) = Inr (c, m) \<longrightarrow>
        (cand_owner c = Paralegal \<longleftrightarrow> reader = Paralegal))"
proof (intro conjI allI impI ballI)
  fix r assume "get_memory mid reader st = Inr (Some r)"
  then show "owner r = Paralegal \<longleftrightarrow> reader = Paralegal"
    by (auto simp: get_memory_def can_read_def split: option.splits if_splits)
next
  fix c m assume "fst (review_candidate now i cid rv reader st) = Inr (c, m)"
  then show "cand_owner c = Paralegal \<longleftrightarrow> reader = Paralegal"
    by (auto simp: review_result dest!: review_denial_side split: option.splits if_splits prod.splits sum.splits)
qed (auto simp: list_memories_def list_candidates_def can_read_def can_read_candidate_def split: if_splits)

theorem enclave_reads_witness:
  "\<exists>r. get_memory ''a'' Paralegal (memory_step (Op_put 1 ''a''
      (sample_write Paralegal Scope_enclave ''x'') Paralegal) no_memory) = Inr (Some r)
    \<and> (owner r = Paralegal \<longleftrightarrow> Paralegal = Paralegal)"
proof -
  let ?st = "memory_step (Op_put 1 ''a'' (sample_write Paralegal Scope_enclave ''x'') Paralegal) no_memory"
  obtain r where r: "get_memory ''a'' Paralegal ?st = Inr (Some r)"
    by (simp add: get_memory_def put_memory_def write_denial_def sample_write_def record_of_def
        can_read_def no_memory_def Let_def)
  with enclave_reads [of 0 undefined Paralegal ?st "''a''"] show ?thesis by blast
qed

text \<open>A memory that was put can be read back by every reader in its reader set, after any
  history: memories are never changed and never deleted.\<close>

theorem put_get_roundtrip:
  assumes "memory_keys_ok st" and "put_memory now i w d st = (Inr r, st')" and "can_read r reader"
  shows "get_memory i reader (fold memory_step ops st') = Inr (Some r) \<and> r = record_of now i w"
proof -
  from assms(2) have r: "r = record_of now i w" and st': "st' = st\<lparr>memories := memories st @ [r]\<rparr>"
    and new: "\<forall>x \<in> set (memories st). memory_id x \<noteq> i"
    by (auto simp: put_memory_def Let_def split: option.splits if_splits)
  have d: "distinct (map memory_id (memories st'))"
    using assms(1) new by (auto simp: st' r memory_keys_ok_def)
  have "row_of memory_id (memory_id r) (memories st') = Some r"
    by (rule row_of_distinct [OF d]) (simp add: st')
  then have "row_of memory_id i (memories st') = Some r" by (simp add: r)
  then have "row_of memory_id i (memories (fold memory_step ops st')) = Some r"
    by (rule memory_table.run_terminal [OF d]) simp
  with assms(3) r show ?thesis by (simp add: get_memory_def)
qed

theorem put_get_roundtrip_witness:
  "\<exists>r st'. put_memory 1 ''a'' (sample_write Person_joe Scope_personal ''x'') Person_joe no_memory = (Inr r, st')
     \<and> get_memory ''a'' Person_joe (fold memory_step [Op_put 2 ''b'' (sample_write Household Scope_household ''y'') System] st')
        = Inr (Some r)"
proof -
  obtain r st' where p: "put_memory 1 ''a'' (sample_write Person_joe Scope_personal ''x'') Person_joe no_memory
      = (Inr r, st')" "can_read r Person_joe"
    by (simp add: put_memory_def write_denial_def sample_write_def record_of_def can_read_def no_memory_def Let_def)
  from put_get_roundtrip [OF _ p(1,2)] p(1) show ?thesis
    by (metis memory_keys_ok_def no_memory_def distinct.simps(1) list.map(1) memory_state.select_convs)
qed

text \<open>C26. For calls that do not overlap: a candidate is reviewed at most once. An approval adds
  exactly one memory, with the candidate's content, owner and scope; a rejection adds none. After
  it, whatever calls follow, one after the other, the candidate keeps the decision and the
  reviewer, and every further review of it fails. (Calls that overlap are not atomic in the code:
  \<open>review_race\<close> and \<open>reviews_settle\<close>.)\<close>

theorem review_once:
  assumes "memory_keys_ok st" and "review_candidate now i cid rv d st = (Inr (c, m), st')"
  shows "memories st' = memories st @ (case m of None \<Rightarrow> [] | Some r \<Rightarrow> [r])
    \<and> (rv_approve rv \<longleftrightarrow> (\<exists>r. m = Some r \<and> content r = cand_content c \<and> owner r = cand_owner c
          \<and> scope r = cand_scope c \<and> approved_memory_id c = Some (memory_id r)))
    \<and> reviewed_by c = Some d
    \<and> row_of candidate_id cid (candidates (fold memory_step ops st')) = Some c
    \<and> review_candidate now2 i2 cid rv2 d2 (fold memory_step ops st')
       = (Inl (Access_denied ''memory candidate has already been reviewed''), fold memory_step ops st')"
proof -
  have keys: "memory_keys_ok st'"
    using memory_keys_step [OF assms(1), of "Op_review now i cid rv d"] assms(2) by simp
  from assms(2) obtain c0 where c0: "row_of candidate_id cid (candidates st) = Some c0"
    "review_denial cid d (Some c0) = None"
    by (auto simp: review_result split: option.splits)
  have rev: "row_of candidate_id cid (candidates st') = Some c \<and> cand_status c \<noteq> Cand_pending
      \<and> reviewed_by c = Some d
      \<and> memories st' = memories st @ (case m of None \<Rightarrow> [] | Some r \<Rightarrow> [r])
      \<and> (rv_approve rv \<longleftrightarrow> (\<exists>r. m = Some r \<and> content r = cand_content c \<and> owner r = cand_owner c
          \<and> scope r = cand_scope c \<and> approved_memory_id c = Some (memory_id r)))"
  proof (cases "rv_approve rv")
    case True
    then obtain r st1 where put: "put_memory now i (candidate_as_write c0) d st = (Inr r, st1)"
      using assms(2) c0 by (auto simp: review_result split: prod.splits sum.splits)
    then have "r = record_of now i (candidate_as_write c0)" "st1 = st\<lparr>memories := memories st @ [r]\<rparr>"
      by (auto simp: put_memory_def Let_def split: option.splits if_splits)
    with put True assms(2) c0 show ?thesis
      by (auto simp: review_result mark_reviewed_def row_of_sql_update record_of_def candidate_as_write_def
          dest: row_of_SomeD)
  next
    case False
    with assms(2) c0 show ?thesis
      by (auto simp: review_result mark_reviewed_def row_of_sql_update dest: row_of_SomeD)
  qed
  then have row: "row_of candidate_id cid (candidates (fold memory_step ops st')) = Some c"
    using keys by (intro candidate_table.run_terminal) (auto simp: memory_keys_ok_def cand_may_def)
  with rev show ?thesis by (simp add: review_result review_denial_def)
qed

definition sample_proposed :: memory_state where
  "sample_proposed = snd (propose_candidate 1 ''c'' (sample_write Person_joe Scope_personal ''x'') Person_joe no_memory)"

definition approval_of :: "bool \<Rightarrow> candidate_review" where
  "approval_of b = \<lparr>rv_approve = b, rv_reason = ''checked''\<rparr>"

lemmas sample_memory_defs = sample_proposed_def propose_candidate_def put_memory_def write_denial_def
  sample_write_def no_memory_def review_result review_denial_def can_review_candidate_def
  candidate_as_write_def approval_of_def Let_def memory_keys_ok_def

theorem review_once_witness:
  "\<exists>c m st'. review_candidate 2 ''m'' ''c'' (approval_of True) Person_joe sample_proposed = (Inr (c, m), st')
     \<and> review_candidate 3 ''n'' ''c'' (approval_of True) System st'
        = (Inl (Access_denied ''memory candidate has already been reviewed''), st')"
proof -
  obtain c m st' where r: "review_candidate 2 ''m'' ''c'' (approval_of True) Person_joe sample_proposed
      = (Inr (c, m), st')"
    by (simp add: sample_memory_defs)
  have "memory_keys_ok sample_proposed" by (simp add: sample_memory_defs)
  from review_once [OF this r, of "[]" 3 "''n''" "approval_of True" System] r show ?thesis by auto
qed

text \<open>The system domain may reject any pending candidate outside the enclave, but it can
  approve one only for household or system memory, or when it is the owner or a named writer: any
  other approval raises "memory write denied" and leaves the store as it was.\<close>

theorem system_approval_limits:
  assumes "row_of candidate_id cid (candidates st) = Some c"
    and "cand_status c = Cand_pending" and "cand_owner c \<notin> {Paralegal, System}"
    and "System \<notin> cand_writers c" and "cand_scope c \<notin> {Scope_household, Scope_system}"
  shows "review_candidate now i cid (approval_of True) System st = (Inl (Access_denied ''memory write denied''), st)
    \<and> (\<exists>c' st'. review_candidate now i cid (approval_of False) System st = (Inr (c', None), st')
          \<and> cand_status c' = Cand_rejected \<and> memories st' = memories st)"
  using assms
  by (auto simp: review_result review_denial_def can_review_candidate_def put_memory_def write_denial_def
      candidate_as_write_def approval_of_def)

theorem system_approval_limits_witness:
  "review_candidate 2 ''m'' ''c'' (approval_of True) System sample_proposed
     = (Inl (Access_denied ''memory write denied''), sample_proposed)"
proof -
  obtain c where c: "row_of candidate_id ''c'' (candidates sample_proposed) = Some c"
    "cand_status c = Cand_pending" "cand_owner c \<notin> {Paralegal, System}" "System \<notin> cand_writers c"
    "cand_scope c \<notin> {Scope_household, Scope_system}"
    by (simp add: sample_memory_defs)
  from system_approval_limits [OF c] show ?thesis by blast
qed

definition unreadable_first :: memory_state where
  "unreadable_first = snd (put_memory 2 ''b'' (sample_write Person_beth Scope_personal ''y'') Person_beth
     (snd (put_memory 1 ''a'' (sample_write Person_joe Scope_personal ''x'') Person_joe no_memory)))"

text \<open>\<open>list\<close> returns only readable, matching records, the most recent first; every such
  record when all matching ones fit the limit. The limit is applied before the access check, so
  otherwise a reader may get nothing although a record of its own matches.\<close>

theorem list_memories_limit:
  assumes "\<forall>r \<in> set (memories st). valid_utc (mem_updated_at r)"
  shows "set (list_memories now q reader st) \<subseteq>
      {r \<in> set (memories st). not_expired now r \<and> memory_matches q r \<and> can_read r reader}
    \<and> sorted (rev (map mem_updated_at (list_memories now q reader st)))
    \<and> (int (length (filter (\<lambda>r. not_expired now r \<and> memory_matches q r) (memories st))) \<le> mq_limit q \<longrightarrow>
        set (list_memories now q reader st) =
          {r \<in> set (memories st). not_expired now r \<and> memory_matches q r \<and> can_read r reader})
    \<and> (\<exists>st' r'. r' \<in> set (memories st') \<and> can_read r' Person_joe \<and> mem_expires_at r' = None \<and>
        list_memories 5 \<lparr>mq_owner = None, mq_scope = None, mq_source_agent = None, mq_limit = 1\<rparr> Person_joe st' = [])"
proof -
  let ?m = "filter (\<lambda>r. not_expired now r \<and> memory_matches q r) (memories st)"
  let ?key = "\<lambda>r. (iso_utc (mem_updated_at r), memory_id r)"
  let ?o = "order_desc ?key ?m"
  let ?l = "list_memories now q reader st"
  have l: "?l = filter (\<lambda>r. can_read r reader) (sql_limit (mq_limit q) ?o)" by (simp add: list_memories_def)
  have sub: "set ?l \<subseteq> {r \<in> set (memories st). not_expired now r \<and> memory_matches q r \<and> can_read r reader}"
    using set_sql_limit [of "mq_limit q" ?o] by (auto simp: l)
  have "sorted_wrt (\<lambda>a b. ?key b \<le> ?key a) ?l"
    unfolding l sql_limit_def using sorted_order_desc [of ?key ?m]
    by (auto intro!: sorted_wrt_filter sorted_wrt_take)
  then have "sorted_wrt (\<lambda>a b. mem_updated_at b \<le> mem_updated_at a) ?l"
  proof (rule sorted_wrt_mono_rel [rotated])
    fix a b assume ab: "a \<in> set ?l" "b \<in> set ?l" "?key b \<le> ?key a"
    then have "iso_utc (mem_updated_at b) \<le> iso_utc (mem_updated_at a)" by (auto simp: less_eq_prod_def)
    with ab sub assms show "mem_updated_at b \<le> mem_updated_at a" by (blast intro: iso_utc_leD)
  qed
  then have "sorted (rev (map mem_updated_at ?l))" by (simp add: sorted_wrt_rev sorted_wrt_map)
  moreover have "set ?l = {r \<in> set (memories st). not_expired now r \<and> memory_matches q r \<and> can_read r reader}"
    if "int (length ?m) \<le> mq_limit q"
  proof -
    from that have "sql_limit (mq_limit q) ?o = ?o" by (simp add: sql_limit_def)
    then show ?thesis by (auto simp: l)
  qed
  moreover
  have "valid_utc 1" "valid_utc 2" by (simp_all add: valid_utc_def max_wall_def usec_defs)
  then have "list_memories 5 \<lparr>mq_owner = None, mq_scope = None, mq_source_agent = None, mq_limit = 1\<rparr>
      Person_joe unreadable_first = []"
    by (simp add: list_memories_def unreadable_first_def sample_memory_defs record_of_def not_expired_def
        memory_matches_def order_desc_def sql_limit_def can_read_def less_eq_prod_def)
  moreover have "\<exists>r' \<in> set (memories unreadable_first). can_read r' Person_joe \<and> mem_expires_at r' = None"
    by (simp add: unreadable_first_def sample_memory_defs record_of_def can_read_def)
  ultimately show ?thesis using sub by blast
qed

theorem list_memories_limit_witness:
  "set (list_memories 5 \<lparr>mq_owner = None, mq_scope = None, mq_source_agent = None, mq_limit = 9\<rparr> Person_joe
     unreadable_first) = {r \<in> set (memories unreadable_first). can_read r Person_joe}"
proof -
  have v: "\<forall>r \<in> set (memories unreadable_first). valid_utc (mem_updated_at r)"
    and n: "length (memories unreadable_first) = 2"
    and all: "\<forall>r \<in> set (memories unreadable_first). mem_expires_at r = None"
    by (simp_all add: unreadable_first_def sample_memory_defs record_of_def valid_utc_def max_wall_def usec_defs)
  let ?q = "\<lparr>mq_owner = None, mq_scope = None, mq_source_agent = None, mq_limit = 9\<rparr>"
  from n have "int (length (filter P (memories unreadable_first))) \<le> mq_limit ?q" for P
    using length_filter_le [of P "memories unreadable_first"] by simp
  with list_memories_limit [OF v, of 5 ?q Person_joe] all n show ?thesis
    by (auto simp: not_expired_def memory_matches_def)
qed

definition late_record :: memory_record where
  "late_record = record_of 0 ''late'' (sample_write Person_joe Scope_personal ''x'')
     \<lparr>mem_expires_at := Some \<lparr>wall = 14 * usec_hour, tz_offset = Some 300\<rparr>\<rparr>"

definition utc_record :: memory_record where
  "utc_record = record_of 0 ''early'' (sample_write Person_joe Scope_personal ''x'')
     \<lparr>mem_expires_at := Some \<lparr>wall = usec_hour, tz_offset = Some 0\<rparr>\<rparr>"

definition any_memory :: memory_query where
  "any_memory = \<lparr>mq_owner = None, mq_scope = None, mq_source_agent = None, mq_limit = 50\<rparr>"

text \<open>An expiry given in UTC is respected by \<open>list\<close>: nothing is listed at or after its
  expiry. In another offset the stored text is compared as it is: a record that expires at 14:00
  in an offset of five hours, 09:00 UTC, is still listed at 13:00 UTC. \<open>get\<close> returns expired
  records in any case.\<close>

theorem expiry_by_text:
  assumes "valid_utc now" and "\<forall>r \<in> set (memories st). \<forall>e. mem_expires_at r = Some e \<longrightarrow>
      tz_offset e = Some 0 \<and> valid_utc (wall e)"
  shows "(\<forall>r \<in> set (list_memories now q reader st). \<forall>e. mem_expires_at r = Some e \<longrightarrow> now < instant e)
    \<and> (\<exists>r e st'. r \<in> set (list_memories (13 * usec_hour) any_memory Person_joe st')
          \<and> mem_expires_at r = Some e \<and> instant e = 9 * usec_hour)
    \<and> (\<forall>r. row_of memory_id mid (memories st) = Some r \<longrightarrow> can_read r reader \<longrightarrow>
          get_memory mid reader st = Inr (Some r))"
proof (intro conjI ballI allI impI)
  fix r e assume r: "r \<in> set (list_memories now q reader st)" "mem_expires_at r = Some e"
  then have "r \<in> set (memories st)" "not_expired now r"
    using set_sql_limit [of "mq_limit q" "order_desc (\<lambda>r. (iso_utc (mem_updated_at r), memory_id r))
      (filter (\<lambda>r. not_expired now r \<and> memory_matches q r) (memories st))"]
    by (auto simp: list_memories_def)
  with assms r(2) have e: "tz_offset e = Some 0" "valid_utc (wall e)" "iso_utc now < isoformat e"
    by (auto simp: not_expired_def)
  have "isoformat e = iso_utc (wall e)" using e(1) by (cases e) (simp add: iso_utc_def utc_datetime_def)
  with e assms(1) show "now < instant e" by (simp add: instant_def)
next
  have "iso_utc (13 * usec_hour) < isoformat \<lparr>wall = 14 * usec_hour, tz_offset = Some 300\<rparr>"
    by code_simp
  then have "late_record \<in> set (list_memories (13 * usec_hour) any_memory Person_joe
      \<lparr>memories = [late_record], candidates = []\<rparr>)"
    by (simp add: list_memories_def late_record_def any_memory_def record_of_def sample_write_def not_expired_def
        memory_matches_def order_desc_def sql_limit_def can_read_def)
  moreover have "mem_expires_at late_record = Some \<lparr>wall = 14 * usec_hour, tz_offset = Some 300\<rparr>"
    "instant \<lparr>wall = 14 * usec_hour, tz_offset = Some 300\<rparr> = 9 * usec_hour"
    by (simp_all add: late_record_def instant_def usec_defs)
  ultimately show "\<exists>r e st'. r \<in> set (list_memories (13 * usec_hour) any_memory Person_joe st')
          \<and> mem_expires_at r = Some e \<and> instant e = 9 * usec_hour" by blast
qed (simp add: get_memory_def)

lemma expired_list_empty:
  "\<forall>r \<in> set L. \<forall>x. mem_expires_at r = Some x \<longrightarrow> n < instant x \<Longrightarrow> set L \<subseteq> {s} \<Longrightarrow>
    \<not> n < instant e \<Longrightarrow> mem_expires_at s = Some e \<Longrightarrow> L = []"
  by (cases L) auto

theorem expiry_by_text_witness:
  "list_memories (2 * usec_hour) any_memory Person_joe \<lparr>memories = [utc_record], candidates = []\<rparr> = []"
proof -
  let ?st = "\<lparr>memories = [utc_record], candidates = []\<rparr>"
  have e: "mem_expires_at utc_record = Some \<lparr>wall = usec_hour, tz_offset = Some 0\<rparr>"
    by (simp add: utc_record_def)
  have "valid_utc (2 * usec_hour)" "valid_utc usec_hour" by (simp_all add: valid_utc_def max_wall_def usec_defs)
  with e expiry_by_text [of "2 * usec_hour" ?st any_memory Person_joe]
  have "\<forall>r \<in> set (list_memories (2 * usec_hour) any_memory Person_joe ?st).
      \<forall>x. mem_expires_at r = Some x \<longrightarrow> 2 * usec_hour < instant x" by simp
  moreover have "set (list_memories (2 * usec_hour) any_memory Person_joe ?st) \<subseteq> {utc_record}"
    using set_sql_limit [of 50 "order_desc (\<lambda>r. (iso_utc (mem_updated_at r), memory_id r))
      (filter (\<lambda>r. not_expired (2 * usec_hour) r \<and> memory_matches any_memory r) [utc_record])"]
    by (auto simp: list_memories_def any_memory_def)
  moreover have "\<not> 2 * usec_hour < instant \<lparr>wall = usec_hour, tz_offset = Some 0\<rparr>"
    by (simp add: instant_def usec_defs)
  ultimately show ?thesis using e by (rule expired_list_empty)
qed

text \<open>C28. A review is not atomic: two reviewers that both read the candidate while it was
  pending both approve it, and the store ends up with two memories of it; the candidate keeps only
  the second decision.\<close>

theorem review_race:
  assumes "row_of candidate_id cid (candidates st) = Some c"
    and "review_denial cid d1 (Some c) = None" and "review_denial cid d2 (Some c) = None"
    and "write_denial (candidate_as_write c) d1 = None" and "write_denial (candidate_as_write c) d2 = None"
    and "i1 \<notin> memory_id ` set (memories st)" and "i2 \<notin> memory_id ` set (memories st)" and "i1 \<noteq> i2"
    and "rv_approve rv1" and "rv_approve rv2"
  shows "\<exists>st1 st2 c1 c2. review_commit n1 i1 cid rv1 d1 c st = (Inr (c1, Some (record_of n1 i1 (candidate_as_write c))), st1)
    \<and> review_commit n2 i2 cid rv2 d2 c st1 = (Inr (c2, Some (record_of n2 i2 (candidate_as_write c))), st2)
    \<and> memories st2 = memories st @ [record_of n1 i1 (candidate_as_write c), record_of n2 i2 (candidate_as_write c)]
    \<and> row_of candidate_id cid (candidates st2) = Some c2 \<and> approved_memory_id c2 = Some i2 \<and> reviewed_by c2 = Some d2"
proof -
  have fresh: "\<forall>r \<in> set (memories st). memory_id r \<noteq> i1" "\<forall>r \<in> set (memories st). memory_id r \<noteq> i2"
    using assms(6,7) by auto
  have cid: "candidate_id c = cid" using assms(1) by (auto dest: row_of_SomeD)
  show ?thesis
    using assms(1,4,5,8-10) fresh cid
    by (simp add: review_parts put_memory_def mark_reviewed_def row_of_sql_update Let_def)
qed

theorem review_race_witness:
  "\<exists>c st1 st2 c1 c2 m1 m2. row_of candidate_id ''c'' (candidates sample_proposed) = Some c
     \<and> review_commit 2 ''m'' ''c'' (approval_of True) Person_joe c sample_proposed = (Inr (c1, Some m1), st1)
     \<and> review_commit 3 ''n'' ''c'' (approval_of True) Person_joe c st1 = (Inr (c2, Some m2), st2)
     \<and> memories st2 = [m1, m2]"
proof -
  obtain c where c: "row_of candidate_id ''c'' (candidates sample_proposed) = Some c"
    "review_denial ''c'' Person_joe (Some c) = None" "write_denial (candidate_as_write c) Person_joe = None"
    by (simp add: sample_memory_defs)
  have m: "memories sample_proposed = []" "rv_approve (approval_of True)" by (simp_all add: sample_memory_defs)
  from review_race [OF c(1) c(2) c(2) c(3) c(3), of "''m''" "''n''" "approval_of True" "approval_of True" 2 3] c(1) m
  show ?thesis by (simp only: list.set image_empty) (simp, blast)
qed

end
