(* ===== verification/Py_Json.thy ===== *)
theory Py_Json
  imports Prelude
begin

section \<open>Python text of JSON values\<close>

text \<open>
  What the sources use of \<open>str\<close>, \<open>bool\<close>, \<open>==\<close> and \<open>json.dumps\<close> on \<open>dict[str, Any]\<close>
  values. Numbers are integers: no floats occur in the values the model handles.
\<close>

fun json_repr :: "json \<Rightarrow> string" where
  "json_repr JNull = ''None''"
| "json_repr (JBool b) = (if b then ''True'' else ''False'')"
| "json_repr (JInt i) = show_int i"
| "json_repr (JStr s) = py_repr s"
| "json_repr (JList xs) = ''['' @ str_join '', '' (map json_repr xs) @ '']''"
| "json_repr (JObj d) = ''{'' @ str_join '', '' (map (\<lambda>(k, v). py_repr k @ '': '' @ json_repr v) d) @ ''}''"

definition json_str :: "json \<Rightarrow> string" where
  "json_str v = (case v of JStr s \<Rightarrow> s | _ \<Rightarrow> json_repr v)"

fun json_truthy :: "json \<Rightarrow> bool" where
  "json_truthy JNull = False"
| "json_truthy (JBool b) = b"
| "json_truthy (JInt i) = (i \<noteq> 0)"
| "json_truthy (JStr s) = (s \<noteq> [])"
| "json_truthy (JList xs) = (xs \<noteq> [])"
| "json_truthy (JObj d) = (d \<noteq> [])"

text \<open>\<open>str(v or "")\<close>.\<close>

definition str_or_empty :: "json \<Rightarrow> string" where
  "str_or_empty v = (if json_truthy v then json_str v else [])"

text \<open>\<open>str(v or d)\<close> for a text \<open>d\<close>.\<close>

definition str_or :: "json \<Rightarrow> string \<Rightarrow> string" where
  "str_or v d = (if json_truthy v then json_str v else d)"

text \<open>\<open>v if isinstance(v, dict) else {}\<close> and \<open>v if isinstance(v, list) else []\<close>.\<close>

definition as_dict :: "json \<Rightarrow> json_obj" where
  "as_dict v = (case v of JObj d \<Rightarrow> d | _ \<Rightarrow> [])"

definition as_list :: "json \<Rightarrow> json list" where
  "as_list v = (case v of JList xs \<Rightarrow> xs | _ \<Rightarrow> [])"

text \<open>\<open>==\<close>: \<open>True == 1\<close>, and dicts are equal in any order of their items.\<close>

fun canon :: "json \<Rightarrow> json" where
  "canon JNull = JNull"
| "canon (JBool b) = JInt (if b then 1 else 0)"
| "canon (JInt i) = JInt i"
| "canon (JStr s) = JStr s"
| "canon (JList xs) = JList (map canon xs)"
| "canon (JObj d) = JObj (sort_key fst (map (\<lambda>(k, v). (k, canon v)) d))"

definition py_eq :: "json \<Rightarrow> json \<Rightarrow> bool" where
  "py_eq a b \<longleftrightarrow> canon a = canon b"

definition py_in :: "json \<Rightarrow> json list \<Rightarrow> bool" where
  "py_in v xs \<longleftrightarrow> (\<exists>x \<in> set xs. py_eq v x)"

lemma py_eq_refl [simp]: "py_eq v v"
  by (simp add: py_eq_def)

lemma py_in_member: "v \<in> set xs \<Longrightarrow> py_in v xs"
  unfolding py_in_def by (rule bexI [of _ v]) simp_all

text \<open>\<open>json.dumps\<close> with its defaults.\<close>

definition dumps_char :: "char \<Rightarrow> string" where
  "dumps_char c =
    (let n = (of_char c :: nat); bs = char_of (92::nat) in
     if n = 34 \<or> n = 92 then [bs, c]
     else if n = 10 then [bs, CHR ''n''] else if n = 13 then [bs, CHR ''r'']
     else if n = 9 then [bs, CHR ''t''] else if n = 12 then [bs, CHR ''f'']
     else if n = 8 then [bs, CHR ''b'']
     else if n < 32 \<or> 126 < n
     then [bs, CHR ''u'', CHR ''0'', CHR ''0'', hex_digit (n div 16), hex_digit (n mod 16)]
     else [c])"

definition dumps_str :: "string \<Rightarrow> string" where
  "dumps_str s = [char_of (34::nat)] @ concat (map dumps_char s) @ [char_of (34::nat)]"

fun json_dumps :: "json \<Rightarrow> string" where
  "json_dumps JNull = ''null''"
| "json_dumps (JBool b) = (if b then ''true'' else ''false'')"
| "json_dumps (JInt i) = show_int i"
| "json_dumps (JStr s) = dumps_str s"
| "json_dumps (JList xs) = ''['' @ str_join '', '' (map json_dumps xs) @ '']''"
| "json_dumps (JObj d) = ''{'' @ str_join '', '' (map (\<lambda>(k, v). dumps_str k @ '': '' @ json_dumps v) d) @ ''}''"

lemma length_dumps_char: "1 \<le> length (dumps_char c) \<and> length (dumps_char c) \<le> 6"
  by (simp add: dumps_char_def Let_def)

lemma length_concat_dumps: "length s \<le> length (concat (map dumps_char s)) \<and> length (concat (map dumps_char s)) \<le> 6 * length s"
proof (induction s)
  case (Cons c s)
  with length_dumps_char [of c] show ?case by simp
qed simp

lemma length_dumps_str: "length (dumps_str s) \<le> 6 * length s + 2"
  using length_concat_dumps [of s] by (simp add: dumps_str_def)

subsection \<open>json.loads\<close>

text \<open>
  The parser of \<open>json.loads\<close>, without floats, \<open>NaN\<close> and surrogate pairs: a text with one is not
  accepted. The fuel bounds the nesting of calls; every call consumes a character, so the length
  of the text is enough.
\<close>

definition json_ws :: "char \<Rightarrow> bool" where
  "json_ws c \<longleftrightarrow> (let n = (of_char c :: nat) in n = 32 \<or> n = 9 \<or> n = 10 \<or> n = 13)"

definition skip_ws :: "string \<Rightarrow> string" where
  "skip_ws s = dropWhile json_ws s"

definition hex_value :: "char \<Rightarrow> nat option" where
  "hex_value c = (let n = (of_char c :: nat) in
     if 48 \<le> n \<and> n \<le> 57 then Some (n - 48) else if 97 \<le> n \<and> n \<le> 102 then Some (n - 87)
     else if 65 \<le> n \<and> n \<le> 70 then Some (n - 55) else None)"

definition escape_value :: "char \<Rightarrow> char option" where
  "escape_value c =
    (let n = (of_char c :: nat) in
     if n = 34 \<or> n = 92 \<or> n = 47 then Some c
     else if n = 98 then Some (char_of (8::nat)) else if n = 102 then Some (char_of (12::nat))
     else if n = 110 then Some (char_of (10::nat)) else if n = 114 then Some (char_of (13::nat))
     else if n = 116 then Some (char_of (9::nat)) else None)"

text \<open>The characters of a string literal after its opening quote, and the rest of the text.\<close>

fun parse_chars :: "string \<Rightarrow> (string \<times> string) option" where
  "parse_chars [] = None"
| "parse_chars (c # s) =
    (let n = (of_char c :: nat) in
     if n = 34 then Some ([], s)
     else if n = 92 then
       (case s of
          [] \<Rightarrow> None
        | e # s1 \<Rightarrow>
            if e = CHR ''u'' then
              (case s1 of
                 a # b # x # y # s2 \<Rightarrow>
                   (case (hex_value a, hex_value b, hex_value x, hex_value y) of
                      (Some 0, Some 0, Some h, Some l) \<Rightarrow>
                        map_option (\<lambda>(t, r). (char_of (16 * h + l) # t, r)) (parse_chars s2)
                    | _ \<Rightarrow> None)
               | _ \<Rightarrow> None)
            else
              (case escape_value e of
                 None \<Rightarrow> None
               | Some d \<Rightarrow> map_option (\<lambda>(t, r). (d # t, r)) (parse_chars s1)))
     else if n < 32 then None
     else map_option (\<lambda>(t, r). (c # t, r)) (parse_chars s))"

definition digits_int :: "string \<Rightarrow> int" where
  "digits_int ds = fold (\<lambda>c n. 10 * n + (of_char c - 48)) ds 0"

definition parse_number :: "string \<Rightarrow> (json \<times> string) option" where
  "parse_number s =
    (let neg = (s \<noteq> [] \<and> hd s = CHR ''-''); s1 = (if neg then tl s else s);
         ds = takeWhile is_digit_char s1; rest = dropWhile is_digit_char s1
     in if ds = [] \<or> (hd ds = CHR ''0'' \<and> 1 < length ds)
           \<or> (rest \<noteq> [] \<and> hd rest \<in> {CHR ''.'', CHR ''e'', CHR ''E''})
        then None else Some (JInt (if neg then - digits_int ds else digits_int ds), rest))"

fun parse_value :: "nat \<Rightarrow> string \<Rightarrow> (json \<times> string) option"
  and parse_items :: "nat \<Rightarrow> string \<Rightarrow> (json list \<times> string) option"
  and parse_members :: "nat \<Rightarrow> string \<Rightarrow> (json_obj \<times> string) option"
where
  "parse_value 0 s = None"
| "parse_value (Suc n) s =
    (let t = skip_ws s in
     case t of
       [] \<Rightarrow> None
     | c # r \<Rightarrow>
         if (of_char c :: nat) = 34 then map_option (\<lambda>(x, r'). (JStr x, r')) (parse_chars r)
         else if c = CHR ''['' then
           (case skip_ws r of
              [] \<Rightarrow> None
            | d # r' \<Rightarrow> if d = CHR '']'' then Some (JList [], r')
                else map_option (\<lambda>(xs, q). (JList xs, q)) (parse_items n r))
         else if c = CHR ''{'' then
           (case skip_ws r of
              [] \<Rightarrow> None
            | d # r' \<Rightarrow> if d = CHR ''}'' then Some (JObj [], r')
                else map_option (\<lambda>(xs, q). (JObj (jupdate [] xs), q)) (parse_members n r))
         else if prefix ''true'' t then Some (JBool True, drop 4 t)
         else if prefix ''false'' t then Some (JBool False, drop 5 t)
         else if prefix ''null'' t then Some (JNull, drop 4 t)
         else parse_number t)"
| "parse_items 0 s = None"
| "parse_items (Suc n) s =
    (case parse_value n s of
       None \<Rightarrow> None
     | Some (v, r) \<Rightarrow>
         (case skip_ws r of
            [] \<Rightarrow> None
          | d # r' \<Rightarrow>
              if d = CHR '']'' then Some ([v], r')
              else if d = CHR '','' then map_option (\<lambda>(xs, q). (v # xs, q)) (parse_items n r')
              else None))"
| "parse_members 0 s = None"
| "parse_members (Suc n) s =
    (case skip_ws s of
       [] \<Rightarrow> None
     | c # r \<Rightarrow>
         if (of_char c :: nat) \<noteq> 34 then None
         else (case parse_chars r of
            None \<Rightarrow> None
          | Some (k, r1) \<Rightarrow>
              (case skip_ws r1 of
                 [] \<Rightarrow> None
               | d # r2 \<Rightarrow>
                   if d \<noteq> CHR '':'' then None
                   else (case parse_value n r2 of
                      None \<Rightarrow> None
                    | Some (v, r3) \<Rightarrow>
                        (case skip_ws r3 of
                           [] \<Rightarrow> None
                         | e # r4 \<Rightarrow>
                             if e = CHR ''}'' then Some ([(k, v)], r4)
                             else if e = CHR '','' then
                               map_option (\<lambda>(xs, q). ((k, v) # xs, q)) (parse_members n r4)
                             else None)))))"

text \<open>\<open>None\<close>: \<open>json.loads\<close> raises \<open>JSONDecodeError\<close>.\<close>

definition json_loads :: "string \<Rightarrow> json option" where
  "json_loads s =
    (case parse_value (length s + 1) s of
       None \<Rightarrow> None | Some (v, r) \<Rightarrow> if skip_ws r = [] then Some v else None)"

subsection \<open>Marked parts of a text\<close>

text \<open>The text before and after the first occurrence of \<open>p\<close>.\<close>

fun find_sub :: "string \<Rightarrow> string \<Rightarrow> (string \<times> string) option" where
  "find_sub p [] = (if p = [] then Some ([], []) else None)"
| "find_sub p (c # s) =
    (if prefix p (c # s) then Some ([], drop (length p) (c # s))
     else map_option (\<lambda>(b, a). (c # b, a)) (find_sub p s))"

lemma find_sub_append: "find_sub p s = Some (b, a) \<Longrightarrow> s = b @ p @ a"
proof (induction p s arbitrary: b rule: find_sub.induct)
  case (2 p c s)
  then show ?case by (auto simp: prefix_def split: if_splits)
qed (auto split: if_splits)

text \<open>The first match of \<open>open(.*?)close\<close>: the text before it, its group and the text after it.\<close>

definition find_marked :: "string \<Rightarrow> string \<Rightarrow> string \<Rightarrow> (string \<times> string \<times> string) option" where
  "find_marked p q s =
    (case find_sub p s of
       None \<Rightarrow> None
     | Some (b, a) \<Rightarrow> (case find_sub q a of None \<Rightarrow> None | Some (g, r) \<Rightarrow> Some (b, g, r)))"

lemma find_marked_length: "find_marked p q s = Some (b, g, r) \<Longrightarrow> p \<noteq> [] \<Longrightarrow> length r < length s"
  by (auto simp: find_marked_def split: option.splits dest!: find_sub_append)

text \<open>\<open>re.sub(open.*?close, "", s)\<close>.\<close>

function remove_marked :: "string \<Rightarrow> string \<Rightarrow> string \<Rightarrow> string" where
  "remove_marked p q s =
    (if p = [] then s
     else case find_marked p q s of None \<Rightarrow> s | Some (b, g, r) \<Rightarrow> b @ remove_marked p q r)"
  by pat_completeness auto
termination
  by (relation "measure (\<lambda>(p, q, s). length s)") (auto dest!: find_marked_length)

declare remove_marked.simps [simp del]

text \<open>\<open>int(x)\<close>; \<open>None\<close> when it raises.\<close>

definition py_int :: "json \<Rightarrow> int option" where
  "py_int v =
    (case v of
       JInt i \<Rightarrow> Some i
     | JBool b \<Rightarrow> Some (if b then 1 else 0)
     | JStr s \<Rightarrow>
         (let t = str_strip s; neg = prefix ''-'' t; u = (if neg \<or> prefix ''+'' t then tl t else t);
              parts = split_at (\<lambda>c. c = CHR ''_'') u
          in if list_all (\<lambda>p. p \<noteq> [] \<and> list_all is_digit_char p) parts
             then Some ((if neg then -1 else 1) * digits_int (concat parts)) else None)
     | _ \<Rightarrow> None)"

text \<open>\<open>v or {}\<close> where a dict is needed; \<open>None\<close>: the use as a dict raises.\<close>

definition dict_or_empty :: "json \<Rightarrow> json_obj option" where
  "dict_or_empty v = (if \<not> json_truthy v then Some [] else case v of JObj d \<Rightarrow> Some d | _ \<Rightarrow> None)"

text \<open>\<open>splitlines()\<close>.\<close>

definition line_break :: "char \<Rightarrow> bool" where
  "line_break c \<longleftrightarrow> c \<in> {CHR 0x0A, CHR 0x0B, CHR 0x0C, CHR 0x0D, CHR 0x1C, CHR 0x1D, CHR 0x1E}"

fun splitlines_from :: "string \<Rightarrow> string \<Rightarrow> string list" where
  "splitlines_from acc [] = (if acc = [] then [] else [rev acc])"
| "splitlines_from acc (c # s) =
    (if c = CHR 0x0D \<and> s \<noteq> [] \<and> hd s = CHR 0x0A then rev acc # splitlines_from [] (tl s)
     else if line_break c then rev acc # splitlines_from [] s
     else splitlines_from (c # acc) s)"

end
