(* ===== verification/Routing.thy ===== *)
theory Routing
  imports Complex_Main Py_Json
begin

section \<open>Model routing\<close>

text \<open>
  The decision part of \<open>src/freyja/router.py\<close> (\<open>Router.decide\<close> and the classification
  functions it uses) and the provider profiles of \<open>src/freyja/inference.py\<close>. What the router
  observes is a record: which clients are registered, what the health check of the reasoning
  client answers and what the Iris classifier recommends. Amounts of money and confidences are
  exact rationals; the estimate of the code, rounded to six decimals, is exact. The profiles that
  a deployment configures in JSON are a list in the settings. A decision made by \<open>decide\<close> gets
  the id of the request, which \<open>execute\<close> sets.
\<close>

subsection \<open>Provider profiles\<close>

datatype locality = Loc_deterministic | Loc_iris | Loc_local_heavy | Loc_cloud

record provider_profile =
  pp_id :: string
  pp_logical :: "string option"
  pp_kind :: string
  pp_base_url :: string
  pp_model :: string
  pp_capabilities :: "string set"
  pp_locality :: locality
  pp_tier :: int
  pp_priority :: int
  pp_enabled :: bool

type_synonym provider_registry = "(string \<times> provider_profile) list"

fun profile_register :: "provider_profile \<Rightarrow> provider_registry \<Rightarrow> provider_registry" where
  "profile_register p [] = [(pp_id p, p)]"
| "profile_register p ((k, q) # ps) = (if k = pp_id p then (k, p) # ps else (k, q) # profile_register p ps)"

definition profile_get :: "string \<Rightarrow> provider_registry \<Rightarrow> provider_profile option" where
  "profile_get k ps = map_of ps k"

definition profiles_enabled :: "provider_registry \<Rightarrow> provider_profile list" where
  "profiles_enabled ps = sort_key (\<lambda>p. (pp_priority p, pp_id p)) (filter pp_enabled (map snd ps))"

definition profiles_by_locality :: "locality \<Rightarrow> provider_registry \<Rightarrow> provider_profile list" where
  "profiles_by_locality l ps = filter (\<lambda>p. pp_locality p = l) (profiles_enabled ps)"

definition profiles_by_logical :: "string \<Rightarrow> provider_registry \<Rightarrow> provider_profile list" where
  "profiles_by_logical l ps = filter (\<lambda>p. pp_logical p = Some l) (profiles_enabled ps)"

lemma profile_get_register [simp]:
  "profile_get k (profile_register p ps) = (if k = pp_id p then Some p else profile_get k ps)"
  by (induction p ps rule: profile_register.induct) (auto simp: profile_get_def)

text \<open>The settings that routing reads (\<open>src/freyja/config.py\<close>).\<close>

record route_settings =
  ollama_base_url :: string
  ollama_reasoning_base_url :: string
  vulcan_base_url :: string
  iris_ollama_base_url :: string
  openrouter_base_url :: string
  ollama_model :: string
  ollama_chat_model :: string
  ollama_reasoning_model :: string
  ollama_coding_model :: string
  ollama_vision_model :: string
  model_fast :: string
  model_reason :: string
  model_code :: string
  model_vision :: string
  iris_router_model :: string
  openrouter_model :: string
  ollama_min_chat_b :: int
  local_max_prompt_chars :: int
  cloud_enabled :: bool
  monthly_hard_limit :: rat
  per_request_limit :: rat
  openrouter_allowlist :: string
  iris_router_enabled :: bool
  iris_advisory_enabled :: bool
  iris_threshold :: rat
  default_output_tokens :: int
  chat_max_tool_iterations :: int
  chat_max_tool_output_chars :: int
  memory_shared_enabled :: bool
  memory_recall_max_items :: int
  memory_recall_max_item_chars :: int
  memory_recall_max_total_chars :: int
  memory_recall_include_in_cloud :: bool
  weather_tool_enabled :: bool
  configured_profiles :: "provider_profile list"

text \<open>\<open>a or b\<close> on texts, and \<open>rstrip("/")\<close>.\<close>

definition text_or :: "string \<Rightarrow> string \<Rightarrow> string" where
  "text_or a b = (if a = [] then b else a)"

definition rstrip_slash :: "string \<Rightarrow> string" where
  "rstrip_slash s = rev (dropWhile (\<lambda>c. c = CHR ''/'') (rev s))"

definition builtin_profiles :: "route_settings \<Rightarrow> provider_profile list" where
  "builtin_profiles S =
    (let legacy = rstrip_slash (ollama_base_url S); vulcan = rstrip_slash (vulcan_base_url S);
         reasoning = rstrip_slash (text_or (ollama_reasoning_base_url S) (text_or (vulcan_base_url S) (ollama_base_url S)))
     in
     [\<lparr>pp_id = ''legacy_ollama'', pp_logical = Some ''fast'', pp_kind = ''ollama'', pp_base_url = legacy,
       pp_model = text_or (model_fast S) (text_or (ollama_chat_model S) (ollama_model S)),
       pp_capabilities = {''chat'', ''classification'', ''summarization''}, pp_locality = Loc_iris,
       pp_tier = 1, pp_priority = 20, pp_enabled = True\<rparr>,
      \<lparr>pp_id = ''iris_router'', pp_logical = Some ''classifier'', pp_kind = ''ollama'',
       pp_base_url = rstrip_slash (iris_ollama_base_url S), pp_model = iris_router_model S,
       pp_capabilities = {''classification'', ''route_recommendation'', ''reflex''}, pp_locality = Loc_iris,
       pp_tier = 1, pp_priority = 10, pp_enabled = iris_router_enabled S\<rparr>,
      \<lparr>pp_id = ''heavy_local'', pp_logical = Some ''reason'', pp_kind = ''ollama'',
       pp_base_url = text_or vulcan reasoning, pp_model = text_or (model_reason S) (ollama_reasoning_model S),
       pp_capabilities = {''chat'', ''reasoning'', ''coding'', ''planning''}, pp_locality = Loc_local_heavy,
       pp_tier = 3, pp_priority = 30, pp_enabled = True\<rparr>,
      \<lparr>pp_id = ''qwen_coding'', pp_logical = Some ''code'', pp_kind = ''ollama'',
       pp_base_url = text_or vulcan reasoning, pp_model = text_or (model_code S) (ollama_coding_model S),
       pp_capabilities = {''chat'', ''coding'', ''debugging'', ''refactoring''}, pp_locality = Loc_local_heavy,
       pp_tier = 3, pp_priority = 28, pp_enabled = True\<rparr>,
      \<lparr>pp_id = ''local_vision'', pp_logical = Some ''vision'', pp_kind = ''ollama'',
       pp_base_url = text_or vulcan legacy, pp_model = text_or (model_vision S) (ollama_vision_model S),
       pp_capabilities = {''chat'', ''vision'', ''image_understanding''},
       pp_locality = (if vulcan_base_url S \<noteq> [] then Loc_local_heavy else Loc_iris),
       pp_tier = 2, pp_priority = 18, pp_enabled = True\<rparr>,
      \<lparr>pp_id = ''openrouter_frontier'', pp_logical = Some ''frontier'', pp_kind = ''openrouter'',
       pp_base_url = rstrip_slash (openrouter_base_url S), pp_model = openrouter_model S,
       pp_capabilities = {''chat'', ''reasoning'', ''coding'', ''long_context''}, pp_locality = Loc_cloud,
       pp_tier = 4, pp_priority = 40, pp_enabled = cloud_enabled S\<rparr>])"

definition provider_registry_from_settings :: "route_settings \<Rightarrow> provider_registry" where
  "provider_registry_from_settings S =
     fold profile_register (configured_profiles S) (fold profile_register (builtin_profiles S) [])"

definition legacy_provider_profile_id :: "string \<Rightarrow> string option" where
  "legacy_provider_profile_id p =
    (if p = ''ollama'' then Some ''legacy_ollama''
     else if p = ''local_reasoning'' then Some ''heavy_local''
     else if p = ''local_vision'' then Some ''local_vision''
     else if p = ''openrouter'' then Some ''openrouter_frontier''
     else if p = ''deterministic'' then Some ''deterministic''
     else None)"

text \<open>Elements of \<open>OPENROUTER_ALLOWLIST\<close> (\<open>Settings.approved_openrouter_models\<close>).\<close>

definition approved_models :: "route_settings \<Rightarrow> string list" where
  "approved_models S =
    (if openrouter_allowlist S = [] then []
     else map str_strip (filter (\<lambda>m. str_strip m \<noteq> [])
       (split_at (\<lambda>c. c = CHR '','') (openrouter_allowlist S))))"

subsection \<open>Requests and decisions\<close>

record route_request =
  rq_id :: string
  rq_prompt :: string
  rq_provider :: string
  rq_model :: "string option"
  rq_task_type :: "string option"
  rq_privacy :: "string option"
  rq_tools_required :: bool
  rq_context_size :: int
  rq_conversation :: "string option"
  rq_images :: "string list"

record classifier_meta =
  cm_provider :: "string option"
  cm_model :: "string option"
  cm_confidence :: "rat option"
  cm_latency :: "int option"
  cm_target :: "string option"
  cm_complexity :: "int option"
  cm_error :: "string option"

definition no_classifier :: classifier_meta where
  "no_classifier = \<lparr>cm_provider = None, cm_model = None, cm_confidence = None, cm_latency = None,
     cm_target = None, cm_complexity = None, cm_error = None\<rparr>"

type_synonym attempt = "string \<times> string"

record route_decision =
  rd_request_id :: string
  rd_provider :: string
  rd_model :: string
  rd_reason :: string
  rd_privacy :: string
  rd_fallbacks :: "attempt list"
  rd_cost :: rat
  rd_notice :: "string option"
  rd_public_error :: "string option"
  rd_classifier :: classifier_meta

text \<open>\<open>IrisShadowResult\<close> and \<open>IrisRouteRecommendation\<close> of \<open>src/freyja/iris_router.py\<close>, the fields the router reads.\<close>

record iris_recommendation =
  ir_complexity :: int
  ir_sensitivity :: string
  ir_confidence :: rat
  ir_target :: string
  ir_reason :: string

record iris_result =
  is_ok :: bool
  is_recommendation :: "iris_recommendation option"
  is_latency :: "int option"
  is_model :: "string option"
  is_error :: "string option"

text \<open>What the router observes when it decides.\<close>

record route_env =
  re_settings :: route_settings
  has_ollama :: bool
  has_reasoning :: bool
  has_openrouter :: bool
  has_iris :: bool
  reasoning_answers :: bool     \<comment> \<open>\<open>healthy()\<close> of the client used for reasoning\<close>
  iris_answer :: "route_request \<Rightarrow> iris_result"

subsection \<open>Classification of a request\<close>

definition SENSITIVE_KEYWORDS :: "string list" where
  "SENSITIVE_KEYWORDS = [''ssn'', ''social security'', ''password'', ''credit card'', ''bank account'',
     ''routing number'', ''medical record'', ''diagnosis'', ''prescription'', ''therapy'', ''mental health'',
     ''location'', ''address'', ''home address'', ''phone number'', ''private'', ''confidential'', ''secret'']"

definition ROUTINE_TASK_TYPES :: "string list" where
  "ROUTINE_TASK_TYPES = [''chat'', ''summarize'', ''summary'', ''extract'', ''extraction'', ''classify'',
     ''classification'', ''routine'']"

definition CLOUD_TASK_TYPES :: "string list" where
  "CLOUD_TASK_TYPES = [''code'', ''coding'', ''debug'', ''debugging'', ''refactor'', ''refactoring'', ''plan'',
     ''planning'', ''architecture'', ''architectural'', ''reason'', ''reasoning'', ''analysis'', ''complex'',
     ''difficult'', ''large_context'', ''advanced'', ''math'', ''translation'', ''tool_selection'', ''tool-selection'']"

definition COMPLEX_PROMPT_PATTERNS :: "string list" where
  "COMPLEX_PROMPT_PATTERNS = [''write code'', ''fix the bug'', ''debug'', ''stack trace'', ''patch'', ''refactor'',
     ''architecture'', ''design a system'', ''implementation plan'', ''plan the implementation'',
     ''tool selection'', ''which tool'']"

definition WEATHER_PROMPT_PATTERNS :: "string list" where
  "WEATHER_PROMPT_PATTERNS = [''weather'', ''forecast'', ''temperature'', ''rain'', ''raining'', ''snow'', ''storm'']"

definition INSTANT_PROMPT_PATTERNS :: "string list" where
  "INSTANT_PROMPT_PATTERNS = [''hi'', ''hello'', ''hey'', ''ok'', ''okay'', ''thanks'', ''thank you'',
     ''ok thanks'', ''okay thanks'']"

definition classify_privacy :: "string \<Rightarrow> string option \<Rightarrow> string" where
  "classify_privacy prompt explicit =
    (if truthy explicit \<and> str_lower (the explicit) \<in> {''private'', ''sensitive'', ''public'', ''routine''}
     then str_lower (the explicit)
     else if mentions (str_lower prompt) SENSITIVE_KEYWORDS then ''sensitive'' else ''routine'')"

definition requires_internal :: "string \<Rightarrow> bool" where
  "requires_internal p \<longleftrightarrow> p \<in> {''private'', ''sensitive''}"

text \<open>The first match of \<open>(\d+)(?:\.\d+)?[bB]\<close>: a maximal run of digits, possibly with decimals,
  before a letter b.\<close>

definition at_b :: "string \<Rightarrow> bool" where
  "at_b s \<longleftrightarrow> (case s of [] \<Rightarrow> False | c # _ \<Rightarrow> c = CHR ''b'' \<or> c = CHR ''B'')"

definition digits_value :: "string \<Rightarrow> int" where
  "digits_value ds = fold (\<lambda>c n. 10 * n + (of_char c - 48)) ds 0"

fun parameter_count :: "string \<Rightarrow> int option" where
  "parameter_count [] = None"
| "parameter_count (c # s) =
    (let ds = takeWhile is_digit_char (c # s); rest = dropWhile is_digit_char (c # s);
         tail_ok = (case rest of [] \<Rightarrow> False
           | d # r \<Rightarrow> d = CHR ''.'' \<and> takeWhile is_digit_char r \<noteq> [] \<and> at_b (dropWhile is_digit_char r))
     in if ds \<noteq> [] \<and> (tail_ok \<or> at_b rest) then Some (digits_value ds) else parameter_count s)"

definition meets_min_chat :: "route_settings \<Rightarrow> string \<Rightarrow> bool" where
  "meets_min_chat S m = (case parameter_count m of None \<Rightarrow> True | Some n \<Rightarrow> ollama_min_chat_b S \<le> n)"

definition task_of :: "route_request \<Rightarrow> string" where
  "task_of r = str_lower (or_else (rq_task_type r) [])"

definition is_weather_prompt :: "string \<Rightarrow> bool" where
  "is_weather_prompt p \<longleftrightarrow> mentions (str_lower p) WEATHER_PROMPT_PATTERNS"

definition routine_score :: "route_settings \<Rightarrow> route_request \<Rightarrow> int" where
  "routine_score S r =
     (if mentions (task_of r) ROUTINE_TASK_TYPES then 2 else 0)
     + (if rq_tools_required r then 0 else 1)
     + (if rq_context_size r \<le> 4096 then 1 else 0)
     + (if int (length (rq_prompt r)) \<le> local_max_prompt_chars S then 1 else 0)"

definition cloud_score :: "route_settings \<Rightarrow> route_request \<Rightarrow> int" where
  "cloud_score S r =
     (if rq_images r \<noteq> [] then 3 else 0)
     + (if mentions (task_of r) CLOUD_TASK_TYPES then 2 else 0)
     + (if rq_tools_required r then 1 else 0)
     + (if 4096 < rq_context_size r then 1 else 0)
     + (if local_max_prompt_chars S < int (length (rq_prompt r)) then 1 else 0)"

definition local_reasoning_score :: "route_settings \<Rightarrow> route_request \<Rightarrow> int" where
  "local_reasoning_score S r =
     cloud_score S r
     + (if mentions (task_of r) CLOUD_TASK_TYPES then 2 else 0)
     + (if mentions (str_lower (rq_prompt r)) COMPLEX_PROMPT_PATTERNS then 2 else 0)
     + (if is_weather_prompt (str_lower (rq_prompt r)) then 4 else 0)"

definition is_coding_request :: "route_request \<Rightarrow> bool" where
  "is_coding_request r \<longleftrightarrow>
     mentions (task_of r) [''code'', ''coding'', ''debug'', ''debugging'', ''refactor'', ''refactoring'']
     \<or> mentions (str_lower (rq_prompt r))
         [''write code'', ''fix the test'', ''fix this test'', ''debug'', ''refactor'', ''patch '']"

text \<open>\<open>strip(".! ")\<close>.\<close>

definition strip_chars :: "string \<Rightarrow> string \<Rightarrow> string" where
  "strip_chars cs s = (let d = dropWhile (\<lambda>c. c \<in> set cs) in rev (d (rev (d s))))"

definition is_instant_prompt :: "string \<Rightarrow> bool" where
  "is_instant_prompt p \<longleftrightarrow>
    (let l = strip_chars ''.! '' (str_lower (str_strip p))
     in l \<in> set INSTANT_PROMPT_PATTERNS
        \<or> length l \<le> 32 \<and> (\<exists>w \<in> {''hi'', ''hello'', ''hey'', ''thanks''}. prefix (w @ '' '') l))"

subsection \<open>Models and costs\<close>

definition profile_model :: "route_settings \<Rightarrow> string \<Rightarrow> string \<Rightarrow> string" where
  "profile_model S k fallback =
    (case profile_get k (provider_registry_from_settings S) of
       None \<Rightarrow> fallback | Some p \<Rightarrow> text_or (pp_model p) fallback)"

definition reasoning_model :: "route_settings \<Rightarrow> string option \<Rightarrow> string" where
  "reasoning_model S requested =
     or_else requested (profile_model S ''heavy_local'' (text_or (model_reason S) (ollama_reasoning_model S)))"

definition vision_model :: "route_settings \<Rightarrow> string option \<Rightarrow> string" where
  "vision_model S requested =
     or_else requested (profile_model S ''local_vision'' (text_or (model_vision S) (ollama_vision_model S)))"

definition coding_model :: "route_settings \<Rightarrow> string" where
  "coding_model S = profile_model S ''qwen_coding'' (text_or (model_code S) (ollama_coding_model S))"

definition local_chat_model :: "route_settings \<Rightarrow> string option \<Rightarrow> string" where
  "local_chat_model S requested =
    (let m = or_else requested (profile_model S ''legacy_ollama'' (ollama_model S))
     in if meets_min_chat S m then m else profile_model S ''legacy_ollama'' (ollama_chat_model S))"

definition approved_model :: "route_settings \<Rightarrow> string option \<Rightarrow> string \<times> string" where
  "approved_model S requested =
    (let approved = approved_models S;
         default_model = profile_model S ''openrouter_frontier'' (openrouter_model S) in
     if truthy requested then
       (if approved \<noteq> [] \<and> the requested \<notin> set approved
        then (default_model, ''requested model not in allowlist; using default '' @ default_model)
        else (the requested, ''using requested model '' @ the requested))
     else if approved \<noteq> [] then (hd approved, ''using first approved allowlist model '' @ hd approved)
     else if default_model \<noteq> [] then (default_model, ''using default model '' @ default_model)
     else ([], ''no approved OpenRouter model available''))"

definition estimate_cost :: "string \<Rightarrow> rat" where
  "estimate_cost prompt = of_nat (length prompt) / 1000000"

definition request_cost :: "route_request \<Rightarrow> rat" where
  "request_cost r = (if rq_images r \<noteq> [] then max (estimate_cost (rq_prompt r)) (1 / 1000)
     else estimate_cost (rq_prompt r))"

subsection \<open>The classifier\<close>

definition classifier_enabled :: "route_env \<Rightarrow> bool" where
  "classifier_enabled E \<longleftrightarrow> iris_router_enabled (re_settings E) \<and> iris_advisory_enabled (re_settings E) \<and> has_iris E"

definition iris_recommend :: "route_env \<Rightarrow> route_request \<Rightarrow> iris_result option" where
  "iris_recommend E r = (if classifier_enabled E then Some (iris_answer E r) else None)"

definition classifier_metadata :: "iris_result option \<Rightarrow> classifier_meta" where
  "classifier_metadata c =
    (case c of
       None \<Rightarrow> no_classifier
     | Some x \<Rightarrow> \<lparr>cm_provider = Some ''iris_router'', cm_model = is_model x,
         cm_confidence = map_option ir_confidence (is_recommendation x), cm_latency = is_latency x,
         cm_target = map_option ir_target (is_recommendation x),
         cm_complexity = map_option ir_complexity (is_recommendation x), cm_error = is_error x\<rparr>)"

definition classifier_privacy :: "string \<Rightarrow> iris_result option \<Rightarrow> string" where
  "classifier_privacy p c =
    (if p \<in> {''private'', ''sensitive''} then p
     else (case Option.bind c is_recommendation of
             None \<Rightarrow> p
           | Some x \<Rightarrow> if ir_sensitivity x \<in> {''private'', ''sensitive''} then ir_sensitivity x else p))"

definition classifier_confident :: "route_settings \<Rightarrow> iris_result option \<Rightarrow> bool" where
  "classifier_confident S c =
    (case c of
       None \<Rightarrow> False
     | Some x \<Rightarrow> is_ok x \<and> (case is_recommendation x of None \<Rightarrow> False
                              | Some y \<Rightarrow> iris_threshold S \<le> ir_confidence y))"

definition make_decision :: "route_request \<Rightarrow> string \<Rightarrow> string \<Rightarrow> string \<Rightarrow> string \<Rightarrow> rat \<Rightarrow> route_decision" where
  "make_decision r provider model reason privacy cost =
     \<lparr>rd_request_id = rq_id r, rd_provider = provider, rd_model = model, rd_reason = reason,
      rd_privacy = privacy, rd_fallbacks = [], rd_cost = cost, rd_notice = None,
      rd_public_error = None, rd_classifier = no_classifier\<rparr>"

definition apply_classifier ::
    "route_settings \<Rightarrow> route_request \<Rightarrow> string \<Rightarrow> iris_result option \<Rightarrow> rat \<Rightarrow> rat \<Rightarrow> route_decision option" where
  "apply_classifier S r privacy c cost spent =
    (if \<not> classifier_confident S c then None
     else (case Option.bind c is_recommendation of
        None \<Rightarrow> None
      | Some y \<Rightarrow>
         (let meta = classifier_metadata c in
          if ir_target y = ''local_heavy'' then
            Some ((make_decision r ''local_reasoning'' (reasoning_model S None)
              (''iris classifier selected local_reasoning: '' @ ir_reason y) privacy 0)\<lparr>rd_classifier := meta\<rparr>)
          else if ir_target y = ''cloud'' then
            (let (model, reason) = approved_model S (rq_model r) in
             if requires_internal privacy \<or> \<not> cloud_enabled S then None
             else if monthly_hard_limit S \<le> spent then None
             else if per_request_limit S < cost then None
             else if model = [] then None
             else Some ((make_decision r ''openrouter'' model
               (''iris classifier selected cloud; '' @ reason @ '': '' @ ir_reason y) privacy cost)\<lparr>rd_classifier := meta\<rparr>))
          else if ir_target y = ''iris'' then
            Some ((make_decision r ''ollama'' (local_chat_model S (rq_model r))
              (''iris classifier selected routine local: '' @ ir_reason y) privacy 0)\<lparr>rd_classifier := meta\<rparr>)
          else None)))"

subsection \<open>Routing\<close>

definition reasoning_healthy :: "route_env \<Rightarrow> bool" where
  "reasoning_healthy E \<longleftrightarrow> (has_reasoning E \<or> has_ollama E) \<and> reasoning_answers E"

definition route_sensitive :: "route_env \<Rightarrow> route_request \<Rightarrow> string \<Rightarrow> route_decision" where
  "route_sensitive E r privacy =
    (if reasoning_healthy E
     then make_decision r ''local_reasoning'' (reasoning_model (re_settings E) None)
       ''sensitive/private request with healthy local_reasoning model'' privacy 0
     else (make_decision r ''error'' []
       ''sensitive/private request requires internal model; local_reasoning model unhealthy'' privacy 0)
       \<lparr>rd_fallbacks := [(''local_reasoning'', ''unhealthy'')],
        rd_public_error := Some ''Internal model is unavailable for private data.''\<rparr>)"

text \<open>\<open>provider == "cloud"\<close>. A refused request with images goes to the vision model.\<close>

definition cloud_refused ::
    "route_settings \<Rightarrow> route_request \<Rightarrow> string \<Rightarrow> rat \<Rightarrow> string \<Rightarrow> string \<Rightarrow> string \<Rightarrow> route_decision" where
  "cloud_refused S r privacy cost why vision_notice local_notice =
    (if rq_images r \<noteq> []
     then (make_decision r ''local_vision'' (vision_model S (rq_model r))
       (''manual cloud override rejected: '' @ why @ ''; image request routed to local vision provider'') privacy cost)
       \<lparr>rd_notice := Some vision_notice\<rparr>
     else (make_decision r ''ollama'' (local_chat_model S (rq_model r))
       (''manual cloud override rejected: '' @ why) privacy cost)\<lparr>rd_notice := Some local_notice\<rparr>)"

definition decide_cloud :: "route_settings \<Rightarrow> route_request \<Rightarrow> string \<Rightarrow> rat \<Rightarrow> rat \<Rightarrow> route_decision" where
  "decide_cloud S r privacy cost spent =
    (if requires_internal privacy then
       (if routine_score S r < local_reasoning_score S r
        then make_decision r ''local_reasoning'' (reasoning_model S None)
          ''manual cloud override rejected: privacy requires internal local_reasoning'' privacy 0
        else make_decision r ''ollama'' (local_chat_model S (rq_model r))
          ''manual cloud override rejected: privacy requires internal model'' privacy 0)
     else if \<not> cloud_enabled S then
       cloud_refused S r privacy 0 ''cloud disabled''
         ''Cloud routing is currently disabled; using local vision.''
         ''Cloud routing is currently disabled; falling back to local.''
     else if monthly_hard_limit S \<le> spent then
       cloud_refused S r privacy cost ''hard budget reached''
         ''Monthly cloud budget exhausted; using local vision.''
         ''Monthly cloud budget exhausted; falling back to local.''
     else if per_request_limit S < cost then
       cloud_refused S r privacy cost ''per-request cost limit exceeded''
         ''Request exceeds per-request cost limit; using local vision.''
         ''Request exceeds per-request cost limit; falling back to local.''
     else (let (model, reason) = approved_model S (rq_model r)
           in make_decision r ''openrouter'' model (''manual cloud override; '' @ reason) privacy cost))"

definition decide_images :: "route_settings \<Rightarrow> route_request \<Rightarrow> string \<Rightarrow> rat \<Rightarrow> rat \<Rightarrow> route_decision" where
  "decide_images S r privacy cost spent =
    (let (model, reason) = approved_model S (rq_model r) in
     if \<not> requires_internal privacy \<and> cloud_enabled S \<and> spent < monthly_hard_limit S
        \<and> cost \<le> per_request_limit S \<and> model \<noteq> []
     then make_decision r ''openrouter'' model
       (''routine image request routed to approved cloud vision; '' @ reason) privacy cost
     else make_decision r ''local_vision'' (vision_model S (rq_model r))
       ''image request routed to local vision provider'' privacy 0)"

definition decide_auto :: "route_env \<Rightarrow> route_request \<Rightarrow> string \<Rightarrow> rat \<Rightarrow> rat \<Rightarrow> route_decision" where
  "decide_auto E r privacy0 cost spent =
    (let S = re_settings E; c = iris_recommend E r; privacy = classifier_privacy privacy0 c;
         meta = classifier_metadata c in
     case apply_classifier S r privacy c cost spent of
       Some d \<Rightarrow> d
     | None \<Rightarrow>
         (if \<not> requires_internal privacy \<and> is_instant_prompt (rq_prompt r) then
            make_decision r ''ollama'' (local_chat_model S None)
              ''instant response routed to Iris/local fast path'' privacy 0
          else if is_coding_request r then
            make_decision r ''local_reasoning'' (reasoning_model S None)
              ''coding request routed to Vulcan orchestrator with Agent Smith/Qwen coding lane'' privacy 0
          else if routine_score S r < local_reasoning_score S r then
            make_decision r ''local_reasoning'' (reasoning_model S None)
              (if requires_internal privacy then ''privacy requires internal local_reasoning''
               else ''local_reasoning preferred for complex local task'') privacy 0
          else if requires_internal privacy then route_sensitive E r privacy
          else make_decision r ''local_reasoning'' (reasoning_model S None)
            ''auto default routed to Vulcan/local_reasoning'' privacy 0)\<lparr>rd_classifier := meta\<rparr>)"

definition decide :: "route_env \<Rightarrow> route_request \<Rightarrow> rat \<Rightarrow> route_decision" where
  "decide E r spent =
    (let S = re_settings E; privacy = classify_privacy (rq_prompt r) (rq_privacy r); cost = request_cost r in
     if rq_provider r \<notin> {''local'', ''local_reasoning'', ''cloud'', ''auto''} then
       make_decision r ''error'' [] (''invalid provider '' @ quoted (rq_provider r)) privacy 0
     else if rq_provider r = ''local_reasoning'' then
       make_decision r ''local_reasoning'' (reasoning_model S (rq_model r)) ''manual local_reasoning override'' privacy 0
     else if rq_provider r = ''local'' then
       (if rq_images r \<noteq> []
        then make_decision r ''local_vision'' (vision_model S (rq_model r))
          ''manual local image request routed to local vision provider'' privacy 0
        else make_decision r ''ollama'' (local_chat_model S (rq_model r)) ''manual local override'' privacy 0)
     else if rq_provider r = ''cloud'' then decide_cloud S r privacy cost spent
     else if rq_images r \<noteq> [] then decide_images S r privacy cost spent
     else decide_auto E r privacy cost spent)"

subsection \<open>Lemmas\<close>

lemma make_decision_sel [simp]:
  "rd_provider (make_decision r p m why priv c) = p" "rd_model (make_decision r p m why priv c) = m"
  "rd_privacy (make_decision r p m why priv c) = priv" "rd_cost (make_decision r p m why priv c) = c"
  "rd_request_id (make_decision r p m why priv c) = rq_id r" "rd_fallbacks (make_decision r p m why priv c) = []"
  "rd_public_error (make_decision r p m why priv c) = None"
  by (simp_all add: make_decision_def)

text \<open>When a model of the cloud may be used.\<close>

definition cloud_allowed :: "route_settings \<Rightarrow> route_request \<Rightarrow> string \<Rightarrow> rat \<Rightarrow> rat \<Rightarrow> bool" where
  "cloud_allowed S r privacy cost spent \<longleftrightarrow> \<not> requires_internal privacy \<and> cloud_enabled S
     \<and> spent < monthly_hard_limit S \<and> cost \<le> per_request_limit S"

definition LOCAL_PROVIDERS :: "string list" where
  "LOCAL_PROVIDERS = [''ollama'', ''local_reasoning'', ''local_vision'']"

lemma local_providers [simp]:
  "''ollama'' \<in> set LOCAL_PROVIDERS" "''local_reasoning'' \<in> set LOCAL_PROVIDERS"
  "''local_vision'' \<in> set LOCAL_PROVIDERS" "''openrouter'' \<notin> set LOCAL_PROVIDERS"
  "''error'' \<notin> set LOCAL_PROVIDERS"
  by (simp_all add: LOCAL_PROVIDERS_def)

text \<open>A decision is local, or goes to the cloud as allowed.\<close>

definition routed_ok ::
    "route_settings \<Rightarrow> route_request \<Rightarrow> string \<Rightarrow> rat \<Rightarrow> rat \<Rightarrow> route_decision \<Rightarrow> bool" where
  "routed_ok S r privacy cost spent d \<longleftrightarrow> rd_privacy d = privacy \<and>
     (rd_provider d \<in> set LOCAL_PROVIDERS
      \<or> rd_provider d = ''openrouter'' \<and> cloud_allowed S r privacy cost spent \<and> rd_cost d = cost
        \<and> rd_model d = fst (approved_model S (rq_model r)))"

lemma routed_ok_decision:
  "rd_provider d \<in> set LOCAL_PROVIDERS \<Longrightarrow> rd_privacy d = privacy \<Longrightarrow> routed_ok S r privacy cost spent d"
  by (simp add: routed_ok_def)

lemma decide_cloud_ok: "routed_ok S r privacy cost spent (decide_cloud S r privacy cost spent)"
  by (cases "approved_model S (rq_model r)")
    (simp add: decide_cloud_def cloud_refused_def routed_ok_def cloud_allowed_def)

lemma decide_images_ok: "routed_ok S r privacy cost spent (decide_images S r privacy cost spent)"
  by (cases "approved_model S (rq_model r)")
    (simp add: decide_images_def routed_ok_def cloud_allowed_def)

lemma apply_classifier_ok:
  assumes "apply_classifier S r privacy c cost spent = Some d"
  shows "routed_ok S r privacy cost spent d \<and> (rd_provider d = ''openrouter'' \<longrightarrow> rd_model d \<noteq> [])"
proof -
  obtain m why where a: "approved_model S (rq_model r) = (m, why)" by fastforce
  with assms show ?thesis
    by (auto simp: apply_classifier_def Let_def routed_ok_def cloud_allowed_def split: if_splits option.splits)
qed

text \<open>The automatic route ends with an error only for a private request without a reasoning model.\<close>

lemma decide_auto_cases:
  fixes E r p cost spent
  defines "S \<equiv> re_settings E" and "c \<equiv> iris_recommend E r"
  defines "privacy \<equiv> classifier_privacy p c"
  obtains (ok) "routed_ok S r privacy cost spent (decide_auto E r p cost spent)"
      "rd_provider (decide_auto E r p cost spent) = ''openrouter'' \<longrightarrow> rd_model (decide_auto E r p cost spent) \<noteq> []"
  | (error) "rd_provider (decide_auto E r p cost spent) = ''error''" "requires_internal privacy"
      "\<not> reasoning_healthy E" "rd_privacy (decide_auto E r p cost spent) = privacy"
proof (cases "apply_classifier S r privacy c cost spent")
  case None
  show ?thesis
  proof (cases "requires_internal privacy \<and> \<not> reasoning_healthy E \<and> \<not> is_coding_request r
      \<and> \<not> routine_score S r < local_reasoning_score S r")
    case True
    with None show ?thesis
      by (intro error) (simp_all add: decide_auto_def Let_def route_sensitive_def S_def c_def privacy_def)
  next
    case False
    with None have "rd_provider (decide_auto E r p cost spent) \<in> set LOCAL_PROVIDERS"
      "rd_privacy (decide_auto E r p cost spent) = privacy"
      by (auto simp: decide_auto_def Let_def route_sensitive_def S_def c_def privacy_def)
    then show ?thesis by (intro ok routed_ok_decision) auto
  qed
next
  case (Some d)
  then have "decide_auto E r p cost spent = d"
    by (simp add: decide_auto_def Let_def S_def c_def privacy_def)
  with apply_classifier_ok [OF Some] show ?thesis by (intro ok) auto
qed

lemma classifier_privacy_keeps: "requires_internal p \<Longrightarrow> classifier_privacy p c = p"
  by (simp add: classifier_privacy_def requires_internal_def)

lemma classifier_privacy_internal:
  "\<not> requires_internal (classifier_privacy p c) \<Longrightarrow> classifier_privacy p c = p \<and> \<not> requires_internal p"
  by (auto simp: classifier_privacy_def requires_internal_def split: if_splits option.splits)

text \<open>The privacy under which a request is finally routed.\<close>

definition effective_privacy :: "route_env \<Rightarrow> route_request \<Rightarrow> string" where
  "effective_privacy E r =
    (let p = classify_privacy (rq_prompt r) (rq_privacy r)
     in if rq_provider r = ''auto'' \<and> rq_images r = [] then classifier_privacy p (iris_recommend E r) else p)"

lemma decide_cases:
  obtains (ok) "routed_ok (re_settings E) r (effective_privacy E r) (request_cost r) spent (decide E r spent)"
      "rd_provider (decide E r spent) = ''openrouter'' \<and> rq_provider r = ''auto'' \<longrightarrow> rd_model (decide E r spent) \<noteq> []"
      "rq_provider r \<in> {''local'', ''local_reasoning'', ''cloud'', ''auto''}"
  | (invalid) "rd_provider (decide E r spent) = ''error''" "rq_provider r \<notin> {''local'', ''local_reasoning'', ''cloud'', ''auto''}"
      "rd_privacy (decide E r spent) = effective_privacy E r"
  | (closed) "rd_provider (decide E r spent) = ''error''" "rq_provider r = ''auto''" "rq_images r = []"
      "requires_internal (effective_privacy E r)" "\<not> reasoning_healthy E"
      "rd_privacy (decide E r spent) = effective_privacy E r"
proof -
  let ?S = "re_settings E" and ?p = "classify_privacy (rq_prompt r) (rq_privacy r)" and ?c = "request_cost r"
  consider (inv) "rq_provider r \<notin> {''local'', ''local_reasoning'', ''cloud'', ''auto''}"
    | (local) "rq_provider r \<in> {''local'', ''local_reasoning''}" | (cloud) "rq_provider r = ''cloud''"
    | (img) "rq_provider r = ''auto''" "rq_images r \<noteq> []" | (auto) "rq_provider r = ''auto''" "rq_images r = []"
    by blast
  then show ?thesis
  proof cases
    case inv
    then show ?thesis by (intro invalid) (simp_all add: decide_def effective_privacy_def)
  next
    case local
    then have "rd_provider (decide E r spent) \<in> set LOCAL_PROVIDERS" "rd_privacy (decide E r spent) = effective_privacy E r"
      by (auto simp: decide_def Let_def effective_privacy_def)
    with local show ?thesis by (intro ok routed_ok_decision) auto
  next
    case cloud
    then have "decide E r spent = decide_cloud ?S r ?p ?c spent" "effective_privacy E r = ?p"
      by (simp_all add: decide_def Let_def effective_privacy_def)
    with cloud show ?thesis by (intro ok) (simp_all add: decide_cloud_ok)
  next
    case img
    then have d: "decide E r spent = decide_images ?S r ?p ?c spent" "effective_privacy E r = ?p"
      by (simp_all add: decide_def Let_def effective_privacy_def)
    have "rd_provider (decide_images ?S r ?p ?c spent) = ''openrouter'' \<longrightarrow> rd_model (decide_images ?S r ?p ?c spent) \<noteq> []"
      by (cases "approved_model ?S (rq_model r)") (simp add: decide_images_def)
    with img d show ?thesis by (intro ok) (simp_all add: decide_images_ok)
  next
    case auto
    then have d: "decide E r spent = decide_auto E r ?p ?c spent"
      and p: "effective_privacy E r = classifier_privacy ?p (iris_recommend E r)"
      by (simp_all add: decide_def Let_def effective_privacy_def)
    show ?thesis
    proof (cases rule: decide_auto_cases [of E r ?p ?c spent])
      case a: ok
      with auto d p show ?thesis by (intro ok) simp_all
    next
      case error
      with auto d p show ?thesis by (intro closed) simp_all
    qed
  qed
qed

subsection \<open>Properties\<close>

text \<open>C3. A request goes to the cloud only when neither its text or declared privacy nor the
  classifier makes it private or sensitive, the cloud is enabled, the month's spending is below the
  hard limit, and the estimated cost, which is the cost of the decision, is within the limit for
  one request. With an allowlist that is not empty, the model is one of the list or the default
  model, and a requested model that is not on the list is replaced by the default model, which
  itself need not be on it. With an empty allowlist, which is the default of the settings, nothing
  is checked: a requested model is used whatever it is. Without a requested model it is the first
  of the list, or the default when the list is empty. There is no model at all only for a request
  that names the cloud.\<close>

theorem cloud_only_when_allowed:
  assumes "rd_provider (decide E r spent) = ''openrouter''"
  shows "\<not> requires_internal (classify_privacy (rq_prompt r) (rq_privacy r))
    \<and> \<not> requires_internal (rd_privacy (decide E r spent))
    \<and> cloud_enabled (re_settings E) \<and> spent < monthly_hard_limit (re_settings E)
    \<and> request_cost r \<le> per_request_limit (re_settings E)
    \<and> rd_cost (decide E r spent) = request_cost r
    \<and> (approved_models (re_settings E) \<noteq> [] \<longrightarrow> rd_model (decide E r spent) \<in> set (approved_models (re_settings E))
        \<or> rd_model (decide E r spent) = profile_model (re_settings E) ''openrouter_frontier'' (openrouter_model (re_settings E)))
    \<and> (\<forall>m. rq_model r = Some m \<and> m \<noteq> [] \<longrightarrow> rd_model (decide E r spent)
         = (if approved_models (re_settings E) = [] \<or> m \<in> set (approved_models (re_settings E)) then m
            else profile_model (re_settings E) ''openrouter_frontier'' (openrouter_model (re_settings E))))
    \<and> (rq_model r \<in> {None, Some []} \<longrightarrow> rd_model (decide E r spent)
         = (if approved_models (re_settings E) \<noteq> [] then hd (approved_models (re_settings E))
            else profile_model (re_settings E) ''openrouter_frontier'' (openrouter_model (re_settings E))))
    \<and> (rd_model (decide E r spent) = [] \<longrightarrow> rq_provider r = ''cloud'')"
proof (cases rule: decide_cases [of E r spent])
  case ok
  let ?S = "re_settings E"
  from ok(1) assms have a: "cloud_allowed ?S r (effective_privacy E r) (request_cost r) spent"
    "rd_privacy (decide E r spent) = effective_privacy E r" "rd_cost (decide E r spent) = request_cost r"
    "rd_model (decide E r spent) = fst (approved_model ?S (rq_model r))"
    by (simp_all add: routed_ok_def)
  from a(1) have "\<not> requires_internal (effective_privacy E r)" by (simp add: cloud_allowed_def)
  then have p: "\<not> requires_internal (classify_privacy (rq_prompt r) (rq_privacy r))"
    using classifier_privacy_internal by (auto simp: effective_privacy_def Let_def split: if_splits)
  have m: "approved_models ?S \<noteq> [] \<longrightarrow> fst (approved_model ?S (rq_model r)) \<in> set (approved_models ?S)
      \<or> fst (approved_model ?S (rq_model r)) = profile_model ?S ''openrouter_frontier'' (openrouter_model ?S)"
    by (simp add: approved_model_def Let_def)
  have named: "rq_model r = Some x \<and> x \<noteq> [] \<longrightarrow> fst (approved_model ?S (rq_model r))
      = (if approved_models ?S = [] \<or> x \<in> set (approved_models ?S) then x
         else profile_model ?S ''openrouter_frontier'' (openrouter_model ?S))" for x
    by (auto simp: approved_model_def Let_def truthy_def)
  have unnamed: "rq_model r \<in> {None, Some []} \<longrightarrow> fst (approved_model ?S (rq_model r))
      = (if approved_models ?S \<noteq> [] then hd (approved_models ?S)
         else profile_model ?S ''openrouter_frontier'' (openrouter_model ?S))"
    by (auto simp: approved_model_def Let_def truthy_def)
  have "rq_provider r = ''cloud''" if "rd_model (decide E r spent) = []"
  proof -
    from ok(2) that assms have "rq_provider r \<noteq> ''auto''" by blast
    moreover have "rd_provider (decide E r spent) \<noteq> ''openrouter''" if "rq_provider r \<in> {''local'', ''local_reasoning''}"
      using that by (auto simp: decide_def Let_def)
    ultimately show ?thesis using ok(3) assms by auto
  qed
  with a p m named unnamed show ?thesis by (simp add: cloud_allowed_def)
qed (use assms in simp_all)

definition sample_settings :: route_settings where
  "sample_settings = \<lparr>ollama_base_url = ''o'', ollama_reasoning_base_url = [], vulcan_base_url = [],
     iris_ollama_base_url = ''i'', openrouter_base_url = ''c'', ollama_model = ''qwen2.5:7b'',
     ollama_chat_model = ''qwen2.5:7b'', ollama_reasoning_model = ''gpt-oss:20b'',
     ollama_coding_model = ''qwen2.5-coder:14b'', ollama_vision_model = ''moondream'', model_fast = [],
     model_reason = [], model_code = [], model_vision = [], iris_router_model = ''qwen2.5:7b'',
     openrouter_model = ''openai/gpt-4o-mini'', ollama_min_chat_b = 3, local_max_prompt_chars = 8000,
     cloud_enabled = True, monthly_hard_limit = 30, per_request_limit = 1, openrouter_allowlist = [],
     iris_router_enabled = False, iris_advisory_enabled = False, iris_threshold = 4 / 5,
     default_output_tokens = 512, chat_max_tool_iterations = 3, chat_max_tool_output_chars = 4000,
     memory_shared_enabled = True, memory_recall_max_items = 12, memory_recall_max_item_chars = 500,
     memory_recall_max_total_chars = 3000, memory_recall_include_in_cloud = False, weather_tool_enabled = False, configured_profiles = []\<rparr>"

definition sample_env :: route_env where
  "sample_env = \<lparr>re_settings = sample_settings, has_ollama = True, has_reasoning = False, has_openrouter = True,
     has_iris = False, reasoning_answers = False,
     iris_answer = (\<lambda>r. \<lparr>is_ok = False, is_recommendation = None, is_latency = None, is_model = None, is_error = None\<rparr>)\<rparr>"

definition sample_route :: "string \<Rightarrow> string \<Rightarrow> route_request" where
  "sample_route provider prompt = \<lparr>rq_id = ''r1'', rq_prompt = prompt, rq_provider = provider, rq_model = None,
     rq_task_type = None, rq_privacy = None, rq_tools_required = False, rq_context_size = 0,
     rq_conversation = None, rq_images = []\<rparr>"

lemma sample_not_private: "classify_privacy ''hello there'' None = ''routine''"
  by code_simp

theorem cloud_only_when_allowed_witness:
  "rd_provider (decide sample_env (sample_route ''cloud'' ''hello there'') 0) = ''openrouter''
   \<and> rd_cost (decide sample_env (sample_route ''cloud'' ''hello there'') 0) = 11 / 1000000"
proof -
  have p: "rd_provider (decide sample_env (sample_route ''cloud'' ''hello there'') 0) = ''openrouter''"
    using sample_not_private
    by (simp add: decide_def Let_def decide_cloud_def sample_env_def sample_settings_def sample_route_def
        requires_internal_def request_cost_def estimate_cost_def split: prod.split)
  have "request_cost (sample_route ''cloud'' ''hello there'') = 11 / 1000000"
    by (simp add: request_cost_def estimate_cost_def sample_route_def)
  with cloud_only_when_allowed [OF p] p show ?thesis by simp
qed

text \<open>Routing is total and fails closed: every decision names a local model, the cloud or an
  error; an error is an unknown provider, or a private request of the automatic route whose
  reasoning model does not answer. The decision's privacy is never weaker than the request's, and a
  private request never leaves the internal models.\<close>

theorem routing_fails_closed:
  "rd_provider (decide E r spent) \<in> set LOCAL_PROVIDERS \<union> {''openrouter'', ''error''}
   \<and> (rq_provider r \<notin> {''local'', ''local_reasoning'', ''cloud'', ''auto''} \<longrightarrow>
        rd_provider (decide E r spent) = ''error'')
   \<and> (rd_provider (decide E r spent) = ''error'' \<longrightarrow>
        rq_provider r \<notin> {''local'', ''local_reasoning'', ''cloud'', ''auto''}
        \<or> requires_internal (rd_privacy (decide E r spent)) \<and> \<not> reasoning_healthy E
          \<and> rq_provider r = ''auto'' \<and> rq_images r = [])
   \<and> (requires_internal (classify_privacy (rq_prompt r) (rq_privacy r)) \<longrightarrow>
        rd_privacy (decide E r spent) = classify_privacy (rq_prompt r) (rq_privacy r)
        \<and> rd_provider (decide E r spent) \<in> set LOCAL_PROVIDERS \<union> {''error''})"
proof -
  have keep: "effective_privacy E r = classify_privacy (rq_prompt r) (rq_privacy r)"
    if "requires_internal (classify_privacy (rq_prompt r) (rq_privacy r))"
    using that by (simp add: effective_privacy_def Let_def classifier_privacy_keeps)
  show ?thesis
  proof (cases rule: decide_cases [of E r spent])
    case ok
    then have "rd_provider (decide E r spent) \<noteq> ''error''" by (auto simp: routed_ok_def)
    with ok keep show ?thesis by (auto simp: routed_ok_def cloud_allowed_def)
  qed (use keep in auto)
qed

theorem routing_fails_closed_witness:
  "rd_provider (decide sample_env (sample_route ''auto'' ''my password'') 0) \<in> set LOCAL_PROVIDERS \<union> {''error''}"
proof -
  have "classify_privacy (rq_prompt (sample_route ''auto'' ''my password'')) (rq_privacy (sample_route ''auto'' ''my password''))
      = ''sensitive''"
    by code_simp
  then show ?thesis
    using routing_fails_closed [of sample_env "sample_route ''auto'' ''my password''" 0]
    by (simp add: requires_internal_def)
qed

end
