(* ===== verification/Household.thy ===== *)
theory Household
  imports Prelude
begin

section \<open>Household agents\<close>

text \<open>
  \<open>HouseholdAgentRegistry\<close> of \<open>src/freyja/agents/household.py\<close>: the agent of each person. The
  texts of the prompt roles are not kept.
\<close>

record household_agent =
  ha_agent_id :: string
  ha_display_name :: string
  ha_owner :: string
  ha_person_id :: string
  ha_capabilities :: "string list"
  ha_tool_grants :: "string list"
  ha_memory_scope :: string
  ha_preset :: string
  ha_cloud_allowed :: bool
  ha_active :: bool

definition agent_allows :: "household_agent \<Rightarrow> string \<Rightarrow> bool" where
  "agent_allows a c \<longleftrightarrow> c \<in> set (ha_capabilities a)"

definition household_entry ::
    "string \<Rightarrow> string \<Rightarrow> string \<Rightarrow> string \<Rightarrow> string list \<Rightarrow> string list \<Rightarrow> string \<Rightarrow> string \<Rightarrow> household_agent" where
  "household_entry aid name own person caps grants scope preset =
     \<lparr>ha_agent_id = aid, ha_display_name = name, ha_owner = own, ha_person_id = person,
      ha_capabilities = caps, ha_tool_grants = grants, ha_memory_scope = scope, ha_preset = preset,
      ha_cloud_allowed = False, ha_active = True\<rparr>"

definition DEFAULT_HOUSEHOLD_AGENTS :: "household_agent list" where
  "DEFAULT_HOUSEHOLD_AGENTS =
   [household_entry ''freyja'' ''Freyja'' ''person:family'' ''family'' []
      [''home-assistant.read'', ''home-assistant.control'', ''calendar.read'', ''calendar.write'',
       ''messaging.send'', ''macagent.apple'', ''documents.process'', ''vision.inspect'', ''memory.shared'']
      ''family'' ''@preset/freyja-fast-local'',
    household_entry ''cloyd-gibbler'' ''Cloyd Gibbler'' ''person:joe'' ''joe''
      [''code.inspect'', ''code.edit'', ''code.test'', ''code.diff'', ''code.commit'']
      [''calendar.read'', ''calendar.write'', ''messaging.send'', ''macagent.apple'', ''shell.run'',
       ''filesystem.read'', ''filesystem.write'', ''git.inspect'', ''git.write'', ''opencode.status'',
       ''coding.execute'', ''documents.process'', ''vision.inspect'', ''memory.private'', ''memory.shared'']
      ''person:joe'' ''@preset/freyja-coder'',
    household_entry ''benedict'' ''Benedict'' ''person:beth'' ''beth'' []
      [''calendar.read'', ''calendar.write'', ''messaging.send'', ''macagent.apple'', ''documents.process'',
       ''memory.private'', ''memory.shared'']
      ''person:beth'' ''@preset/freyja-private-local'',
    household_entry ''agent-47'' ''Agent 47'' ''person:liam'' ''liam'' []
      [''calendar.read'', ''messaging.send'', ''vision.inspect'', ''music.control'', ''memory.private'', ''memory.shared'']
      ''person:liam'' ''@preset/freyja-private-local'',
    household_entry ''jennacide'' ''JennaCide'' ''person:jenna'' ''jenna'' []
      [''calendar.read'', ''messaging.send'', ''vision.inspect'', ''music.control'', ''memory.private'', ''memory.shared'']
      ''person:jenna'' ''@preset/freyja-private-local'',
    household_entry ''smith'' ''Agent Smith'' ''person:system'' ''system'' [] [''system.health'']
      ''system'' ''@preset/freyja-private-local'']"

definition normalize_person_id :: "string option \<Rightarrow> string" where
  "normalize_person_id p =
    (let n = str_lower (str_strip (or_else p ''family''))
     in case map_of [(''joseph'', ''joe''), (''elizabeth'', ''beth''), (''household'', ''family''),
          (''home'', ''family''), (''freyja'', ''family'')] n of None \<Rightarrow> n | Some a \<Rightarrow> a)"

text \<open>\<open>self._by_person\<close>: a later agent of the same person replaces an earlier one.\<close>

definition by_person :: "household_agent list \<Rightarrow> string \<Rightarrow> household_agent option" where
  "by_person agents = map_of (rev (map (\<lambda>a. (ha_person_id a, a)) agents))"

definition assigned :: "household_agent list \<Rightarrow> string option \<Rightarrow> household_agent option" where
  "assigned agents p = by_person agents (normalize_person_id p)"

text \<open>\<open>resolve\<close>; the constructor has looked up the family agent (\<open>None\<close>: it raised).\<close>

definition resolve_agent :: "household_agent list \<Rightarrow> string option \<Rightarrow> household_agent option" where
  "resolve_agent agents p =
    (case by_person agents ''family'' of
       None \<Rightarrow> None
     | Some fam \<Rightarrow>
         (let a = (case by_person agents (normalize_person_id p) of None \<Rightarrow> fam | Some a \<Rightarrow> a)
          in Some (if ha_active a then a else fam)))"

text \<open>The family agent answers for everyone without an active agent of their own.\<close>

lemma resolve_default: "\<exists>a. resolve_agent DEFAULT_HOUSEHOLD_AGENTS p = Some a"
  by (simp add: resolve_agent_def by_person_def DEFAULT_HOUSEHOLD_AGENTS_def household_entry_def Let_def)

lemma assigned_default:
  "assigned DEFAULT_HOUSEHOLD_AGENTS p \<noteq> None \<longleftrightarrow>
    normalize_person_id p \<in> {''family'', ''joe'', ''beth'', ''liam'', ''jenna'', ''system''}"
  by (simp add: assigned_def by_person_def DEFAULT_HOUSEHOLD_AGENTS_def household_entry_def)

end
