(* ===== verification/Tool_Registry.thy ===== *)
theory Tool_Registry
  imports Py_Json Household Smith_Models
begin

section \<open>The tool registry\<close>

text \<open>
  \<open>ToolRegistry\<close> and \<open>DisabledToolRegistry\<close> of \<open>src/freyja/tools/registry.py\<close>, with the
  models of \<open>src/freyja/tools/models.py\<close>: registration, normalisation and validation of the
  arguments, authorization and execution. An implementation is a function of the request, the
  timeout and the world it acts on; it returns an output, times out, or raises. Arguments and
  metadata are JSON objects. Durations and the audit log are not modelled.
\<close>

subsection \<open>Definitions, requests and results\<close>

record prop_schema =
  ps_type :: "string option"
  ps_enum :: "json list option"

record arg_schema =
  as_required :: "string list"
  as_properties :: "(string \<times> prop_schema) list"

text \<open>\<open>td_schema = None\<close>: an empty \<open>input_schema\<close>.\<close>

record tool_def =
  td_name :: string
  td_schema :: "arg_schema option"
  td_risk :: risk_level
  td_host_service :: "string option"
  td_permission :: "string option"
  td_confirmation :: string
  td_enabled :: bool
  td_timeout :: int

record exec_request =
  er_tool :: string
  er_arguments :: json_obj
  er_request_id :: string
  er_actor :: "string option"
  er_conversation :: "string option"
  er_metadata :: json_obj

record exec_result =
  ex_success :: bool
  ex_tool :: string
  ex_output :: json_obj
  ex_error_code :: "string option"
  ex_public_error :: "string option"
  ex_request_id :: string

datatype impl_outcome = Impl_output "json_obj option" | Impl_timeout | Impl_raises string

type_synonym 'w tool_impl = "exec_request \<Rightarrow> int \<Rightarrow> 'w \<Rightarrow> impl_outcome \<times> 'w"

record auth_decision =
  au_allowed :: bool
  au_reason :: string
  au_permission :: "string option"

record 'w registry =
  reg_tools :: "(string \<times> tool_def) list"
  reg_impls :: "(string \<times> 'w tool_impl) list"
  reg_enabled :: bool
  reg_default_timeout :: int

datatype 'w tool_registry = Live "'w registry" | Disabled_registry

subsection \<open>Registration\<close>

definition register_tool ::
    "tool_def \<Rightarrow> 'w tool_impl \<Rightarrow> 'w tool_registry \<Rightarrow> string + 'w tool_registry" where
  "register_tool d f reg =
    (case reg of
       Disabled_registry \<Rightarrow> Inr Disabled_registry
     | Live r \<Rightarrow>
         if map_of (reg_tools r) (td_name d) \<noteq> None
         then Inl (''Tool '' @ quoted (td_name d) @ '' is already registered'')
         else Inr (Live (r\<lparr>reg_tools := reg_tools r @ [(td_name d, d)],
                            reg_impls := reg_impls r @ [(td_name d, f)]\<rparr>)))"

definition unregister_tool :: "string \<Rightarrow> 'w tool_registry \<Rightarrow> bool \<times> 'w tool_registry" where
  "unregister_tool n reg =
    (case reg of
       Disabled_registry \<Rightarrow> (False, Disabled_registry)
     | Live r \<Rightarrow>
         if map_of (reg_tools r) n = None then (False, reg)
         else (True, Live (r\<lparr>reg_tools := filter (\<lambda>(k, _). k \<noteq> n) (reg_tools r),
                             reg_impls := filter (\<lambda>(k, _). k \<noteq> n) (reg_impls r)\<rparr>)))"

definition list_tools :: "bool \<Rightarrow> 'w tool_registry \<Rightarrow> tool_def list" where
  "list_tools include_disabled reg =
    (case reg of
       Disabled_registry \<Rightarrow> []
     | Live r \<Rightarrow> filter (\<lambda>d. include_disabled \<or> td_enabled d) (map snd (reg_tools r)))"

definition get_tool :: "string \<Rightarrow> 'w tool_registry \<Rightarrow> tool_def option" where
  "get_tool n reg = (case reg of Disabled_registry \<Rightarrow> None | Live r \<Rightarrow> map_of (reg_tools r) n)"

definition set_tool_enabled :: "string \<Rightarrow> bool \<Rightarrow> 'w tool_registry \<Rightarrow> bool \<times> 'w tool_registry" where
  "set_tool_enabled n b reg =
    (case reg of
       Disabled_registry \<Rightarrow> (False, Disabled_registry)
     | Live r \<Rightarrow>
         if map_of (reg_tools r) n = None then (False, reg)
         else (True, Live (r\<lparr>reg_tools :=
           map (\<lambda>(k, d). (k, if k = n then d\<lparr>td_enabled := b\<rparr> else d)) (reg_tools r)\<rparr>)))"

subsection \<open>Arguments\<close>

definition type_matches :: "json \<Rightarrow> string \<Rightarrow> bool" where
  "type_matches v t =
    (if t = ''object'' then (case v of JObj _ \<Rightarrow> True | _ \<Rightarrow> False)
     else if t = ''array'' then (case v of JList _ \<Rightarrow> True | _ \<Rightarrow> False)
     else if t = ''string'' then (case v of JStr _ \<Rightarrow> True | _ \<Rightarrow> False)
     else if t = ''integer'' then (case v of JInt _ \<Rightarrow> True | _ \<Rightarrow> False)
     else if t = ''number'' then (case v of JInt _ \<Rightarrow> True | _ \<Rightarrow> False)
     else if t = ''boolean'' then (case v of JBool _ \<Rightarrow> True | _ \<Rightarrow> False)
     else if t = ''null'' then v = JNull
     else True)"

definition enum_texts :: "json list \<Rightarrow> string" where
  "enum_texts e = str_join '', '' (map json_str e)"

definition enum_message :: "string \<Rightarrow> json list \<Rightarrow> string" where
  "enum_message k e = ''Argument '' @ quoted k @ '' must be one of: '' @ enum_texts e"

definition check_property :: "prop_schema option \<Rightarrow> string \<Rightarrow> json \<Rightarrow> string list" where
  "check_property p k v =
    (case p of
       None \<Rightarrow> [''Unknown argument: '' @ k]
     | Some s \<Rightarrow>
         if \<not> (case ps_type s of None \<Rightarrow> True | Some t \<Rightarrow> type_matches v t)
         then [''Argument '' @ quoted k @ '' must be of type '' @ the (ps_type s)]
         else (case ps_enum s of
                 None \<Rightarrow> []
               | Some e \<Rightarrow> if py_in v e then [] else [enum_message k e]))"

text \<open>The missing arguments come in the order of a Python set; the model takes the order of the
  schema.\<close>

definition validate_against_schema :: "json_obj \<Rightarrow> arg_schema \<Rightarrow> string list" where
  "validate_against_schema args s =
     map (\<lambda>k. ''Missing required argument: '' @ k)
       (filter (\<lambda>k. k \<notin> fst ` set args) (remdups (as_required s)))
     @ concat (map (\<lambda>(k, v). check_property (map_of (as_properties s) k) k v) args)"

text \<open>The degree sign of two aliases is the character 176.\<close>

definition alias_targets :: "(string \<times> string) list" where
  "alias_targets =
     [(''f'', ''fahrenheit''), (''degf'', ''fahrenheit''), ([char_of (176::nat), CHR ''f''], ''fahrenheit''),
      (''c'', ''celsius''), (''degc'', ''celsius''), ([char_of (176::nat), CHR ''c''], ''celsius'')]"

definition normalize_enum_alias :: "string \<Rightarrow> string \<Rightarrow> json list \<Rightarrow> string + json" where
  "normalize_enum_alias k v e =
    (let lower_enum = map_of (rev (map (\<lambda>x. (str_lower (json_str x), x)) e));
         l = str_lower (str_strip v);
         prefixed = filter (\<lambda>x. prefix l (str_lower (json_str x))) e
     in case lower_enum l of
          Some x \<Rightarrow> Inr x
        | None \<Rightarrow>
            if length l = 1 \<and> 1 < length prefixed
            then Inl (''Argument '' @ quoted k @ '' is ambiguous for enum values: '' @ enum_texts prefixed)
            else (case map_of alias_targets l of
                    None \<Rightarrow> Inl (enum_message k e)
                  | Some t \<Rightarrow>
                      (case lower_enum t of
                         Some x \<Rightarrow> Inr x
                       | None \<Rightarrow> Inl (''Argument '' @ quoted k @ '' has unsupported enum alias: '' @ v))))"

text \<open>What the loop of \<open>_normalize_against_schema\<close> does with one argument: a new value, or an
  error, or nothing.\<close>

definition normalize_argument :: "arg_schema \<Rightarrow> string \<Rightarrow> json \<Rightarrow> string + json" where
  "normalize_argument s k v =
    (case map_of (as_properties s) k of
       None \<Rightarrow> Inr v
     | Some p \<Rightarrow>
         (case ps_enum p of
            None \<Rightarrow> Inr v
          | Some e \<Rightarrow>
              if py_in v e then Inr v
              else (case v of
                      JStr t \<Rightarrow>
                        (case normalize_enum_alias k t e of
                           Inl m \<Rightarrow> Inl m
                         | Inr x \<Rightarrow> Inr (if x = JNull then v else x))
                    | _ \<Rightarrow> Inr v)))"

definition normalize_against_schema :: "json_obj \<Rightarrow> arg_schema \<Rightarrow> json_obj \<times> string list" where
  "normalize_against_schema args s =
    (let new = map (\<lambda>(k, v). (k, case normalize_argument s k v of Inl _ \<Rightarrow> v | Inr x \<Rightarrow> x)) args;
         errors = concat (map (\<lambda>(k, v). case normalize_argument s k v of Inl e \<Rightarrow> [e] | Inr _ \<Rightarrow> []) args)
     in if errors \<noteq> [] then (new, errors) else (new, validate_against_schema new s))"

definition validate_arguments :: "string \<Rightarrow> json_obj \<Rightarrow> 'w tool_registry \<Rightarrow> string list" where
  "validate_arguments n args reg =
    (case reg of
       Disabled_registry \<Rightarrow> [''Tool execution is globally disabled'']
     | Live r \<Rightarrow>
         (case map_of (reg_tools r) n of
            None \<Rightarrow> [''Tool '' @ quoted n @ '' not found'']
          | Some d \<Rightarrow>
              if \<not> td_enabled d then [''Tool '' @ quoted n @ '' is disabled'']
              else (case td_schema d of None \<Rightarrow> [] | Some s \<Rightarrow> validate_against_schema args s)))"

definition normalize_arguments :: "string \<Rightarrow> json_obj \<Rightarrow> 'w tool_registry \<Rightarrow> json_obj \<times> string list" where
  "normalize_arguments n args reg =
    (case reg of
       Disabled_registry \<Rightarrow> (args, [''Tool execution is globally disabled''])
     | Live r \<Rightarrow>
         (case map_of (reg_tools r) n of
            None \<Rightarrow> (args, [''Tool '' @ quoted n @ '' not found''])
          | Some d \<Rightarrow>
              if \<not> td_enabled d then (args, [''Tool '' @ quoted n @ '' is disabled''])
              else (case td_schema d of None \<Rightarrow> (args, []) | Some s \<Rightarrow> normalize_against_schema args s)))"

subsection \<open>Authorization\<close>

definition canonical_principal :: "string \<Rightarrow> bool" where
  "canonical_principal p \<longleftrightarrow> p \<noteq> [] \<and> assigned DEFAULT_HOUSEHOLD_AGENTS (Some p) \<noteq> None"

definition auth_person :: "exec_request \<Rightarrow> string" where
  "auth_person q = str_lower (str_strip (str_or_empty (jget ''person_id'' (as_dict (jget ''person'' (er_metadata q))))))"

definition auth_principal :: "exec_request \<Rightarrow> bool" where
  "auth_principal q =
    (let p = as_dict (jget ''memory_principal'' (er_metadata q))
     in json_truthy (jget ''client_type'' p) \<and> json_truthy (jget ''client_subject'' p))"

definition director_authorized :: "exec_request \<Rightarrow> bool" where
  "director_authorized q \<longleftrightarrow> jget ''director_authorized'' (er_metadata q) = JBool True"

definition approval_granted :: "exec_request \<Rightarrow> bool" where
  "approval_granted q \<longleftrightarrow> jget ''approval_granted'' (er_metadata q) = JBool True"

definition allow :: "string \<Rightarrow> string \<Rightarrow> auth_decision" where
  "allow p why = \<lparr>au_allowed = True, au_reason = why, au_permission = Some p\<rparr>"

definition refuse :: "string \<Rightarrow> string \<Rightarrow> auth_decision" where
  "refuse p why = \<lparr>au_allowed = False, au_reason = why, au_permission = Some p\<rparr>"

text \<open>The three permissions that need a person, the Director and an approval share their checks.\<close>

definition authorize_approved :: "string \<Rightarrow> string \<Rightarrow> string \<Rightarrow> exec_request \<Rightarrow> auth_decision" where
  "authorize_approved p missing granted q =
    (if \<not> canonical_principal (auth_person q) then refuse p ''canonical household principal required''
     else if \<not> director_authorized q then refuse p ''Director authorization required''
     else if \<not> approval_granted q then refuse p missing
     else allow p (''principal '' @ auth_person q @ granted))"

definition authorize :: "tool_def \<Rightarrow> exec_request \<Rightarrow> auth_decision" where
  "authorize d q =
    (if \<not> truthy (td_permission d)
     then \<lparr>au_allowed = True, au_reason = ''no explicit permission required'', au_permission = None\<rparr>
     else
      (let p = the (td_permission d); person = auth_person q in
       if p \<in> {''household:home.read'', ''household:calendar.read''} then
         (let what = (if p = ''household:home.read'' then ''household state'' else ''household calendar'') in
          if canonical_principal person then allow p (''principal '' @ person @ '' may read '' @ what)
          else if person \<noteq> [] then refuse p ''canonical household principal required''
          else if auth_principal q \<and> director_authorized q
          then allow p (''Director-authorized connector principal may read '' @ what)
          else refuse p ''canonical household principal required'')
       else if p = ''household:home.control'' then
         authorize_approved p ''explicit approval required for household control''
           '' may control household state with approval'' q
       else if p = ''household:calendar.write'' then
         authorize_approved p ''explicit approval required for calendar write''
           '' may write household calendar with approval'' q
       else if p \<in> {''apple.messages.send'', ''apple.shortcuts.run'', ''apple.music.write''} then
         authorize_approved p
           (''explicit approval required for Apple '' @
             (if p = ''apple.messages.send'' then ''Messages send''
              else if p = ''apple.shortcuts.run'' then ''Shortcuts run'' else ''Music playback''))
           ('' may invoke '' @ p @ '' with approval'') q
       else if p = ''personal:memory.read'' then
         (if person \<noteq> [] \<and> \<not> canonical_principal person then refuse p ''canonical memory principal required''
          else if auth_principal q \<and> director_authorized q
          then allow p ''Director-authorized principal may read scoped memory''
          else refuse p ''trusted memory principal required'')
       else if director_authorized q then allow p ''Director authorization present''
       else refuse p ''Director authorization required''))"

subsection \<open>Execution\<close>

definition safe_public_error :: "string \<Rightarrow> string \<Rightarrow> string" where
  "safe_public_error code m =
    (if code = ''tool_not_found'' then ''Tool not found.''
     else if code = ''tool_disabled'' then ''Tool is currently disabled.''
     else if code = ''validation_error'' then (if m = [] then ''Invalid tool arguments.'' else m)
     else if code = ''tool_timeout'' then ''Tool execution timed out.''
     else if code = ''authorization_denied'' then ''Tool authorization denied.''
     else ''Tool execution failed.'')"

definition error_result :: "exec_request \<Rightarrow> string \<Rightarrow> string \<Rightarrow> exec_result" where
  "error_result q code m = \<lparr>ex_success = False, ex_tool = er_tool q, ex_output = [],
     ex_error_code = Some code, ex_public_error = Some (safe_public_error code m),
     ex_request_id = er_request_id q\<rparr>"

text \<open>The checks before the implementation runs, and the call itself.\<close>

definition run_implementation ::
    "'w registry \<Rightarrow> tool_def \<Rightarrow> 'w tool_impl \<Rightarrow> json_obj \<Rightarrow> exec_request \<Rightarrow> 'w \<Rightarrow> exec_result \<times> 'w" where
  "run_implementation r d f args q w =
    (let timeout = (if td_timeout d \<noteq> 0 then td_timeout d else reg_default_timeout r)
     in case f (q\<lparr>er_arguments := args\<rparr>) timeout w of
          (Impl_output out, w') \<Rightarrow>
            (\<lparr>ex_success = True, ex_tool = er_tool q, ex_output = (case out of None \<Rightarrow> [] | Some d \<Rightarrow> d),
              ex_error_code = None, ex_public_error = None, ex_request_id = er_request_id q\<rparr>, w')
        | (Impl_timeout, w') \<Rightarrow>
            (error_result q ''tool_timeout''
               (''Tool '' @ quoted (er_tool q) @ '' exceeded '' @ show_int timeout @ '' second timeout.''), w')
        | (Impl_raises m, w') \<Rightarrow> (error_result q ''tool_error'' m, w'))"

definition execute_tool :: "'w tool_registry \<Rightarrow> exec_request \<Rightarrow> 'w \<Rightarrow> exec_result \<times> 'w" where
  "execute_tool reg q w =
    (case reg of
       Disabled_registry \<Rightarrow>
         (\<lparr>ex_success = False, ex_tool = er_tool q, ex_output = [], ex_error_code = Some ''tool_disabled'',
           ex_public_error = Some ''Tool execution is globally disabled.'', ex_request_id = er_request_id q\<rparr>, w)
     | Live r \<Rightarrow>
         if \<not> reg_enabled r then (error_result q ''tool_disabled'' ''Tool execution is globally disabled.'', w)
         else (case map_of (reg_tools r) (er_tool q) of
            None \<Rightarrow> (error_result q ''tool_not_found'' (''Tool '' @ quoted (er_tool q) @ '' is not registered.''), w)
          | Some d \<Rightarrow>
              if \<not> td_enabled d
              then (error_result q ''tool_disabled'' (''Tool '' @ quoted (er_tool q) @ '' is disabled.''), w)
              else
               (let (args, e1) = normalize_arguments (er_tool q) (er_arguments q) reg;
                    errors = (if e1 \<noteq> [] then e1 else validate_arguments (er_tool q) args reg)
                in if errors \<noteq> [] then (error_result q ''validation_error'' (str_join ''; '' errors), w)
                   else if \<not> au_allowed (authorize d q)
                   then (error_result q ''authorization_denied'' (au_reason (authorize d q)), w)
                   else (case map_of (reg_impls r) (er_tool q) of
                      None \<Rightarrow> (error_result q ''tool_not_found''
                                (''Tool '' @ quoted (er_tool q) @ '' has no implementation.''), w)
                    | Some f \<Rightarrow> run_implementation r d f args q w))))"

subsection \<open>The audit record\<close>

definition AUDIT_TERMS :: "string list" where
  "AUDIT_TERMS = [''api key'', ''authorization'', ''bearer'', ''sk-'', ''token'', ''password'', ''secret'']"

fun sanitize_audit :: "json \<Rightarrow> json" where
  "sanitize_audit (JObj d) = JObj (map (\<lambda>(k, v). (k, sanitize_audit v)) d)"
| "sanitize_audit (JList xs) = JList (map sanitize_audit xs)"
| "sanitize_audit (JStr s) =
     (if \<exists>t \<in> set AUDIT_TERMS. sublist t (str_lower s) then JStr ''<redacted>'' else JStr s)"
| "sanitize_audit v = v"

subsection \<open>Services with guarded calls\<close>

text \<open>
  The contract a client of a tool service relies on: a call that is not allowed has no effect.
  Whatever sequence of requests a client sends, then only allowed ones act on the world.
\<close>

locale guarded_service =
  fixes call :: "'q \<Rightarrow> 'w \<Rightarrow> 'r \<times> 'w"
    and allowed :: "'q \<Rightarrow> bool"
  assumes denied: "\<not> allowed q \<Longrightarrow> snd (call q w) = w"
begin

lemma denied_run: "\<forall>q \<in> set qs. \<not> allowed q \<Longrightarrow> fold (\<lambda>q w. snd (call q w)) qs w = w"
  by (induction qs arbitrary: w) (simp_all add: denied)

lemma only_allowed:
  "fold (\<lambda>q w. snd (call q w)) qs w = fold (\<lambda>q w. snd (call q w)) (filter allowed qs) w"
  by (induction qs arbitrary: w) (simp_all add: denied)

end

definition tool_allowed :: "'w tool_registry \<Rightarrow> exec_request \<Rightarrow> bool" where
  "tool_allowed reg q \<longleftrightarrow> (\<exists>d. get_tool (er_tool q) reg = Some d \<and> td_enabled d \<and> au_allowed (authorize d q))"

text \<open>The ways an execution can go.\<close>

lemma execute_tool_cases:
  obtains (refused) "snd (execute_tool reg q w) = w" "\<not> ex_success (fst (execute_tool reg q w))"
  | (ran) r d f args where "reg = Live r" "reg_enabled r" "map_of (reg_tools r) (er_tool q) = Some d" "td_enabled d"
      "normalize_arguments (er_tool q) (er_arguments q) reg = (args, [])"
      "validate_arguments (er_tool q) args reg = []" "au_allowed (authorize d q)"
      "map_of (reg_impls r) (er_tool q) = Some f" "execute_tool reg q w = run_implementation r d f args q w"
proof (cases reg)
  case (Live r)
  show ?thesis
  proof (cases "map_of (reg_tools r) (er_tool q)")
    case None
    then show ?thesis using refused Live by (simp add: execute_tool_def error_result_def)
  next
    case (Some d)
    obtain args e1 where n: "normalize_arguments (er_tool q) (er_arguments q) reg = (args, e1)" by fastforce
    show ?thesis
    proof (cases "reg_enabled r \<and> td_enabled d \<and> e1 = [] \<and> validate_arguments (er_tool q) args reg = []
        \<and> au_allowed (authorize d q) \<and> map_of (reg_impls r) (er_tool q) \<noteq> None")
      case True
      then obtain f where f: "map_of (reg_impls r) (er_tool q) = Some f" by blast
      with True Some n Live have "execute_tool reg q w = run_implementation r d f args q w"
        by (simp add: execute_tool_def Let_def)
      with True Some n Live f show ?thesis by (intro ran [of r d args f]) simp_all
    next
      case False
      then consider "\<not> reg_enabled r" | "reg_enabled r" "\<not> td_enabled d"
        | "reg_enabled r" "td_enabled d" "e1 \<noteq> [] \<or> validate_arguments (er_tool q) args reg \<noteq> []"
        | "reg_enabled r" "td_enabled d" "e1 = []" "validate_arguments (er_tool q) args reg = []"
            "\<not> au_allowed (authorize d q)"
        | "reg_enabled r" "td_enabled d" "e1 = []" "validate_arguments (er_tool q) args reg = []"
            "au_allowed (authorize d q)" "map_of (reg_impls r) (er_tool q) = None"
        by blast
      then have "\<exists>code m. execute_tool reg q w = (error_result q code m, w)"
        using Some n Live by cases (simp_all add: execute_tool_def Let_def, auto)
      then show ?thesis using refused by (auto simp: error_result_def)
    qed
  qed
next
  case Disabled_registry
  then show ?thesis using refused by (simp add: execute_tool_def)
qed

interpretation tools: guarded_service "execute_tool reg" "tool_allowed reg" for reg
proof
  fix q w assume "\<not> tool_allowed reg q"
  then show "snd (execute_tool reg q w) = w"
    by (cases rule: execute_tool_cases [of reg q w]) (auto simp: tool_allowed_def get_tool_def)
qed

definition APPROVAL_PERMISSIONS :: "string list" where
  "APPROVAL_PERMISSIONS = [''household:home.control'', ''household:calendar.write'',
     ''apple.messages.send'', ''apple.shortcuts.run'', ''apple.music.write'']"

lemma authorize_approval_eq:
  "td_permission d = Some ''household:home.control'' \<Longrightarrow>
     authorize d q = authorize_approved ''household:home.control''
       ''explicit approval required for household control'' '' may control household state with approval'' q"
  "td_permission d = Some ''household:calendar.write'' \<Longrightarrow>
     authorize d q = authorize_approved ''household:calendar.write''
       ''explicit approval required for calendar write'' '' may write household calendar with approval'' q"
  "td_permission d = Some ''apple.messages.send'' \<Longrightarrow>
     authorize d q = authorize_approved ''apple.messages.send''
       ''explicit approval required for Apple Messages send'' '' may invoke apple.messages.send with approval'' q"
  "td_permission d = Some ''apple.shortcuts.run'' \<Longrightarrow>
     authorize d q = authorize_approved ''apple.shortcuts.run''
       ''explicit approval required for Apple Shortcuts run'' '' may invoke apple.shortcuts.run with approval'' q"
  "td_permission d = Some ''apple.music.write'' \<Longrightarrow>
     authorize d q = authorize_approved ''apple.music.write''
       ''explicit approval required for Apple Music playback'' '' may invoke apple.music.write with approval'' q"
  by (simp_all add: authorize_def truthy_def)

lemma authorize_approved_allowed:
  "au_allowed (authorize_approved p m g q) \<Longrightarrow>
    canonical_principal (auth_person q) \<and> director_authorized q \<and> approval_granted q"
  by (simp add: authorize_approved_def refuse_def split: if_splits)

lemma authorize_approval:
  assumes "au_allowed (authorize d q)" and "td_permission d = Some p" and "p \<in> set APPROVAL_PERMISSIONS"
  shows "canonical_principal (auth_person q) \<and> director_authorized q \<and> approval_granted q"
proof -
  have "p = ''household:home.control'' \<or> p = ''household:calendar.write'' \<or> p = ''apple.messages.send''
      \<or> p = ''apple.shortcuts.run'' \<or> p = ''apple.music.write''"
    using assms(3) by (simp only: APPROVAL_PERMISSIONS_def list.set insert_iff empty_iff simp_thms)
  then show ?thesis
    by (elim disjE) (rule authorize_approved_allowed, use assms(1,2) in \<open>simp only: authorize_approval_eq\<close>)+
qed

subsection \<open>Properties\<close>

text \<open>C14. A tool acts on the world, or succeeds, only in a live registry whose execution is
  enabled, when it is registered and enabled there and has an implementation, its normalised
  arguments satisfy its schema and the request is authorized; what happens is then the run of its
  implementation on the normalised arguments. A tool that controls the home, writes the calendar or
  acts through an Apple application needs a household person, the Director and an approval. In any
  sequence of requests those whose tool is not registered, enabled and authorized change nothing.\<close>

theorem execute_authorized:
  assumes "snd (execute_tool reg q w) \<noteq> w \<or> ex_success (fst (execute_tool reg q w))"
  shows "\<exists>r d f args. reg = Live r \<and> reg_enabled r
    \<and> get_tool (er_tool q) reg = Some d \<and> td_enabled d \<and> au_allowed (authorize d q)
    \<and> normalize_arguments (er_tool q) (er_arguments q) reg = (args, [])
    \<and> validate_arguments (er_tool q) args reg = []
    \<and> map_of (reg_impls r) (er_tool q) = Some f
    \<and> execute_tool reg q w = run_implementation r d f args q w
    \<and> (\<forall>p \<in> set APPROVAL_PERMISSIONS. td_permission d = Some p \<longrightarrow>
          canonical_principal (auth_person q) \<and> director_authorized q \<and> approval_granted q)
    \<and> fold (\<lambda>x v. snd (execute_tool reg x v)) qs w
        = fold (\<lambda>x v. snd (execute_tool reg x v)) (filter (tool_allowed reg) qs) w"
proof (cases rule: execute_tool_cases [of reg q w])
  case (ran r d f args)
  then show ?thesis
    using authorize_approval [of d q] tools.only_allowed [of reg qs w] by (auto simp: get_tool_def)
qed (use assms in auto)

definition sample_tool :: "string \<Rightarrow> string option \<Rightarrow> tool_def" where
  "sample_tool n p = \<lparr>td_name = n, td_schema = None, td_risk = Read_only, td_host_service = None,
     td_permission = p, td_confirmation = ''none'', td_enabled = True, td_timeout = 30\<rparr>"

definition sample_registry :: "nat tool_registry" where
  "sample_registry = Live \<lparr>reg_tools = [(''ping'', sample_tool ''ping'' None),
       (''lights'', sample_tool ''lights'' (Some ''household:home.control''))],
     reg_impls = [(''ping'', \<lambda>q t w. (Impl_output None, w + 1)), (''lights'', \<lambda>q t w. (Impl_output None, w + 1))],
     reg_enabled = True, reg_default_timeout = 30\<rparr>"

definition sample_exec :: "string \<Rightarrow> exec_request" where
  "sample_exec n = \<lparr>er_tool = n, er_arguments = [], er_request_id = ''r'', er_actor = None,
     er_conversation = None, er_metadata = []\<rparr>"

lemmas sample_tool_defs = sample_tool_def sample_registry_def sample_exec_def execute_tool_def get_tool_def
  normalize_arguments_def validate_arguments_def run_implementation_def authorize_def truthy_def

theorem execute_authorized_witness:
  "\<exists>d. get_tool ''ping'' sample_registry = Some d \<and> au_allowed (authorize d (sample_exec ''ping''))"
proof -
  have "snd (execute_tool sample_registry (sample_exec ''ping'') 0) \<noteq> 0"
    by (simp add: sample_tool_defs Let_def)
  with execute_authorized [of sample_registry "sample_exec ''ping''" 0 "[]"] show ?thesis
    by (auto simp: sample_exec_def)
qed

text \<open>Normalisation.\<close>

lemma normalize_enum_alias_member: "normalize_enum_alias k t e = Inr x \<Longrightarrow> x \<in> set e"
  by (auto simp: normalize_enum_alias_def Let_def dest!: map_of_SomeD split: option.splits if_splits)

lemma normalize_argument_cases:
  assumes "normalize_argument s k v = Inr x"
  shows "x = v \<or> (\<exists>t p e. v = JStr t \<and> map_of (as_properties s) k = Some p \<and> ps_enum p = Some e
    \<and> x \<in> set e \<and> \<not> py_in v e)"
  using assms normalize_enum_alias_member
  by (auto simp: normalize_argument_def split: option.splits if_splits json.splits sum.splits)

lemma normalize_argument_idem: "normalize_argument s k v = Inr x \<Longrightarrow> normalize_argument s k x = Inr x"
proof -
  assume a: "normalize_argument s k v = Inr x"
  from normalize_argument_cases [OF a] show ?thesis
  proof
    assume "\<exists>t p e. v = JStr t \<and> map_of (as_properties s) k = Some p \<and> ps_enum p = Some e
      \<and> x \<in> set e \<and> \<not> py_in v e"
    then show ?thesis by (auto simp: normalize_argument_def py_in_member)
  qed (use a in simp)
qed

text \<open>A normalisation without errors gives arguments that satisfy the schema, changes nothing
  but texts that are not in their enumeration, each into a member of it, and is idempotent: the
  second validation in \<open>execute\<close> never fails after it.\<close>

theorem normalize_conservative:
  assumes "normalize_arguments n args reg = (args', [])"
  shows "map fst args' = map fst args \<and> validate_arguments n args' reg = []
    \<and> normalize_arguments n args' reg = (args', [])
    \<and> (\<forall>i < length args. snd (args' ! i) \<noteq> snd (args ! i) \<longrightarrow>
        (\<exists>d s p e t. get_tool n reg = Some d \<and> td_schema d = Some s
          \<and> map_of (as_properties s) (fst (args ! i)) = Some p \<and> ps_enum p = Some e
          \<and> snd (args ! i) = JStr t \<and> \<not> py_in (JStr t) e \<and> snd (args' ! i) \<in> set e))"
proof -
  from assms obtain r d where reg: "reg = Live r" and d: "map_of (reg_tools r) n = Some d" and en: "td_enabled d"
    by (auto simp: normalize_arguments_def split: tool_registry.splits option.splits if_splits)
  show ?thesis
  proof (cases "td_schema d")
    case None
    with assms reg d en show ?thesis by (auto simp: normalize_arguments_def validate_arguments_def)
  next
    case (Some s)
    let ?f = "\<lambda>(k, v). (k, case normalize_argument s k v of Inl _ \<Rightarrow> v | Inr x \<Rightarrow> x)"
    let ?errs = "\<lambda>args. concat (map (\<lambda>(k, v). case normalize_argument s k v of Inl e \<Rightarrow> [e] | Inr _ \<Rightarrow> []) args)"
    have "normalize_against_schema args s = (args', [])"
      using assms reg d en Some by (simp add: normalize_arguments_def)
    then have e: "?errs args = []" and a': "args' = map ?f args" and ok: "validate_against_schema args' s = []"
      by (auto simp: normalize_against_schema_def Let_def split: if_splits)
    have ex: "\<exists>x. normalize_argument s k v = Inr x" if "(k, v) \<in> set args" for k v
      using e that by (cases "normalize_argument s k v") auto
    have idem: "normalize_argument s k v = Inr v" if "(k, v) \<in> set args'" for k v
      using that ex normalize_argument_idem [of s k] unfolding a' by fastforce
    have "?errs args' = []" using idem by auto
    moreover have "map ?f args' = args'" using idem by (intro map_idI) auto
    ultimately have "normalize_against_schema args' s = (args', [])"
      using ok by (simp add: normalize_against_schema_def Let_def)
    moreover have "\<exists>d s p e t. get_tool n reg = Some d \<and> td_schema d = Some s
          \<and> map_of (as_properties s) (fst (args ! i)) = Some p \<and> ps_enum p = Some e
          \<and> snd (args ! i) = JStr t \<and> \<not> py_in (JStr t) e \<and> snd (args' ! i) \<in> set e"
      if i: "i < length args" "snd (args' ! i) \<noteq> snd (args ! i)" for i
    proof -
      obtain k v where kv: "args ! i = (k, v)" by fastforce
      with i(1) ex [of k v] obtain x where x: "normalize_argument s k v = Inr x" by (metis nth_mem)
      with i kv have "args' ! i = (k, x)" "x \<noteq> v" by (auto simp: a')
      with normalize_argument_cases [OF x] kv reg d Some show ?thesis by (auto simp: get_tool_def)
    qed
    ultimately show ?thesis
      using reg d en Some ok by (auto simp: normalize_arguments_def validate_arguments_def a' comp_def split_beta)
  qed
qed

definition degrees_tool :: tool_def where
  "degrees_tool = (sample_tool ''weather'' None)\<lparr>td_schema := Some \<lparr>as_required = [''unit''],
     as_properties = [(''unit'', \<lparr>ps_type = Some ''string'', ps_enum = Some [JStr ''celsius'', JStr ''fahrenheit'']\<rparr>)]\<rparr>\<rparr>"

definition weather_registry :: "nat tool_registry" where
  "weather_registry = Live \<lparr>reg_tools = [(''weather'', degrees_tool)], reg_impls = [], reg_enabled = True,
     reg_default_timeout = 30\<rparr>"

theorem normalize_conservative_witness:
  "normalize_arguments ''weather'' [(''unit'', JStr ''F'')] weather_registry = ([(''unit'', JStr ''fahrenheit'')], [])
   \<and> validate_arguments ''weather'' [(''unit'', JStr ''fahrenheit'')] weather_registry = []"
proof -
  have n: "normalize_arguments ''weather'' [(''unit'', JStr ''F'')] weather_registry
      = ([(''unit'', JStr ''fahrenheit'')], [])"
    by code_simp
  from normalize_conservative [OF n] n show ?thesis by simp
qed

end
