(* ===== verification/Principal.thy ===== *)
theory Principal
  imports Prelude
begin

section \<open>Memory principals\<close>

text \<open>
  \<open>MemoryPrincipal\<close> (\<open>src/freyja/memory/models.py\<close>) and its validation
  (\<open>src/freyja/memory/principal.py\<close>): who a memory belongs to, and the key under which the
  store keeps it. The regular expressions of the patterns are written out as predicates.
\<close>

record memory_principal =
  mp_client_type :: string
  mp_client_subject :: string
  mp_account_owner :: "string option"
  mp_conversation :: "string option"

definition US :: char where "US = CHR 0x1F"

definition family_subject :: "string \<Rightarrow> bool" where
  "family_subject s \<longleftrightarrow> prefix ''family-member:'' s"

definition scope_key :: "memory_principal \<Rightarrow> string" where
  "scope_key p =
    (let own = or_else (mp_account_owner p) [] in
     if family_subject (mp_client_subject p)
     then str_join [US] [''person'', mp_client_subject p, own, []]
     else str_join [US] [mp_client_type p, mp_client_subject p, own, or_else (mp_conversation p) []])"

definition is_upper :: "char \<Rightarrow> bool" where "is_upper c \<longleftrightarrow> CHR ''A'' \<le> c \<and> c \<le> CHR ''Z''"
definition is_lower :: "char \<Rightarrow> bool" where "is_lower c \<longleftrightarrow> CHR ''a'' \<le> c \<and> c \<le> CHR ''z''"

definition identity_char :: "char \<Rightarrow> bool" where
  "identity_char c \<longleftrightarrow> is_upper c \<or> is_lower c \<or> is_digit_char c \<or> c \<in> set ''_.:@+-''"

text \<open>\<open>[first][rest]{0,n}\<close>, the whole text.\<close>

definition shaped :: "(char \<Rightarrow> bool) \<Rightarrow> (char \<Rightarrow> bool) \<Rightarrow> nat \<Rightarrow> string \<Rightarrow> bool" where
  "shaped first rest n s \<longleftrightarrow> s \<noteq> [] \<and> first (hd s) \<and> (\<forall>c \<in> set (tl s). rest c) \<and> length (tl s) \<le> n"

definition IDENTITY_PATTERN :: "string \<Rightarrow> bool" where
  "IDENTITY_PATTERN = shaped (\<lambda>c. is_upper c \<or> is_lower c \<or> is_digit_char c) identity_char 127"

definition CLIENT_TYPE_PATTERN :: "string \<Rightarrow> bool" where
  "CLIENT_TYPE_PATTERN = shaped is_lower (\<lambda>c. is_lower c \<or> is_digit_char c \<or> c \<in> set ''_-'') 31"

definition CONVERSATION_PATTERN :: "string \<Rightarrow> bool" where
  "CONVERSATION_PATTERN = shaped (\<lambda>c. is_upper c \<or> is_lower c \<or> is_digit_char c) identity_char 159"

definition validate_principal_value ::
    "string option \<Rightarrow> string \<Rightarrow> (string \<Rightarrow> bool) \<Rightarrow> bool \<Rightarrow> string + string option" where
  "validate_principal_value v name pattern required =
    (if \<not> truthy v then (if required then Inl (name @ '' is required'') else Inr None)
     else if 160 < length (the v) then Inl (name @ '' is too long'')
     else if \<not> pattern (the v) then Inl (name @ '' contains invalid characters'')
     else Inr v)"

definition build_memory_principal ::
    "string \<Rightarrow> string \<Rightarrow> string option \<Rightarrow> string option \<Rightarrow> string + memory_principal" where
  "build_memory_principal ctype subject own conv =
     bind_result (validate_principal_value (Some ctype) ''client_type'' CLIENT_TYPE_PATTERN True) (\<lambda>t.
     bind_result (validate_principal_value (Some subject) ''client_subject'' IDENTITY_PATTERN True) (\<lambda>s.
     bind_result (validate_principal_value own ''account_owner'' IDENTITY_PATTERN False) (\<lambda>ow.
     bind_result (validate_principal_value conv ''conversation_id'' CONVERSATION_PATTERN False) (\<lambda>c.
     Inr \<lparr>mp_client_type = or_else t [], mp_client_subject = or_else s [], mp_account_owner = ow,
          mp_conversation = c\<rparr>))))"

text \<open>Headers by their lower-case names.\<close>

definition principal_from_headers :: "(string \<rightharpoonup> string) \<Rightarrow> string + memory_principal option" where
  "principal_from_headers h =
    (let ctype = h ''x-freyja-client-type''; subject = h ''x-freyja-client-subject'' in
     if \<not> truthy ctype \<and> \<not> truthy subject then Inr None
     else if \<not> truthy ctype \<or> \<not> truthy subject then Inl ''complete memory principal headers are required''
     else (case build_memory_principal (the ctype) (the subject) (h ''x-freyja-account-owner'')
                  (h ''x-freyja-conversation-id'') of
             Inl e \<Rightarrow> Inl e | Inr p \<Rightarrow> Inr (Some p)))"

subsection \<open>Scopes are separate\<close>

text \<open>What validation guarantees of a value: no separator, and never the empty text.\<close>

lemma shaped_no_US:
  assumes "shaped f g n s" and "\<And>c. f c \<Longrightarrow> c \<noteq> US" and "\<And>c. g c \<Longrightarrow> c \<noteq> US"
  shows "US \<notin> set s"
  using assms by (cases s) (auto simp: shaped_def)

lemma char_not_US:
  "is_upper c \<Longrightarrow> c \<noteq> US" "is_lower c \<Longrightarrow> c \<noteq> US" "is_digit_char c \<Longrightarrow> c \<noteq> US" "US \<notin> set ''_.:@+-''" "US \<notin> set ''_-''"
  by (auto simp: is_upper_def is_lower_def is_digit_char_def US_def less_eq_char_def)

lemma patterns_no_US:
  "IDENTITY_PATTERN s \<Longrightarrow> US \<notin> set s" "CLIENT_TYPE_PATTERN s \<Longrightarrow> US \<notin> set s" "CONVERSATION_PATTERN s \<Longrightarrow> US \<notin> set s"
  unfolding IDENTITY_PATTERN_def CLIENT_TYPE_PATTERN_def CONVERSATION_PATTERN_def
  by (erule shaped_no_US; use char_not_US in \<open>auto simp: identity_char_def\<close>)+

definition clean :: "string option \<Rightarrow> bool" where
  "clean v \<longleftrightarrow> v \<noteq> Some [] \<and> US \<notin> set (or_else v [])"

lemma validated_clean:
  assumes "validate_principal_value v n P b = Inr w" and "\<And>s. P s \<Longrightarrow> US \<notin> set s"
  shows "clean w"
  using assms by (auto simp: validate_principal_value_def clean_def truthy_iff or_else_def split: if_splits option.splits)

lemma build_clean:
  assumes "build_memory_principal t s ow c = Inr p"
  shows "US \<notin> set (mp_client_type p) \<and> US \<notin> set (mp_client_subject p) \<and> clean (mp_account_owner p)
    \<and> clean (mp_conversation p)"
proof -
  from assms obtain a b d e where v: "validate_principal_value (Some t) ''client_type'' CLIENT_TYPE_PATTERN True = Inr a"
    "validate_principal_value (Some s) ''client_subject'' IDENTITY_PATTERN True = Inr b"
    "validate_principal_value ow ''account_owner'' IDENTITY_PATTERN False = Inr d"
    "validate_principal_value c ''conversation_id'' CONVERSATION_PATTERN False = Inr e"
    and p: "p = \<lparr>mp_client_type = or_else a [], mp_client_subject = or_else b [], mp_account_owner = d, mp_conversation = e\<rparr>"
    by (auto simp: build_memory_principal_def ok_iff)
  then show ?thesis
    using validated_clean [OF v(1)] validated_clean [OF v(2)] validated_clean [OF v(3)] validated_clean [OF v(4)]
      patterns_no_US
    by (auto simp: clean_def)
qed

text \<open>Joining texts without the separator is injective.\<close>

lemma append_sep_inj:
  "US \<notin> set a \<Longrightarrow> US \<notin> set b \<Longrightarrow> a @ US # x = b @ US # y \<longleftrightarrow> a = b \<and> x = y"
proof (induction a arbitrary: b)
  case Nil
  then show ?case by (cases b) auto
next
  case (Cons c a)
  then show ?case by (cases b) auto
qed

lemma join4_inj:
  assumes "US \<notin> set a" "US \<notin> set b" "US \<notin> set c" "US \<notin> set a'" "US \<notin> set b'" "US \<notin> set c'"
  shows "str_join [US] [a, b, c, d] = str_join [US] [a', b', c', d'] \<longleftrightarrow> a = a' \<and> b = b' \<and> c = c' \<and> d = d'"
  using assms by (simp add: append_sep_inj)

lemma or_else_clean_inj: "clean v \<Longrightarrow> clean w \<Longrightarrow> or_else v [] = or_else w [] \<longleftrightarrow> v = w"
  by (cases v; cases w) (auto simp: clean_def or_else_def)

text \<open>C30. Two validated principals have the same scope key exactly when they are the same family
  member of the same account, on whatever client and conversation, or agree in client, subject,
  account and conversation. Input that does not match the patterns never gets a principal.\<close>

theorem scope_key_separates:
  assumes "build_memory_principal t1 s1 o1 c1 = Inr p" and "build_memory_principal t2 s2 o2 c2 = Inr q"
  shows "scope_key p = scope_key q \<longleftrightarrow>
      mp_client_subject p = mp_client_subject q \<and> mp_account_owner p = mp_account_owner q
      \<and> (family_subject (mp_client_subject p) \<or> mp_client_type p = mp_client_type q \<and> mp_conversation p = mp_conversation q)"
proof -
  note p = build_clean [OF assms(1)] and q = build_clean [OF assms(2)]
  have per: "US \<notin> set ''person''" by (simp add: US_def)
  have own: "US \<notin> set (or_else (mp_account_owner p) [])" "US \<notin> set (or_else (mp_account_owner q) [])"
    using p q by (simp_all add: clean_def)
  show ?thesis
    using p q per own
    by (auto simp: scope_key_def Let_def join4_inj or_else_clean_inj simp del: str_join.simps)
qed

theorem scope_key_separates_witness:
  "\<exists>p q. build_memory_principal ''cli'' ''joe'' None (Some ''c1'') = Inr p
     \<and> build_memory_principal ''cli'' ''joe'' None (Some ''c2'') = Inr q \<and> scope_key p \<noteq> scope_key q"
proof -
  have b: "build_memory_principal ''cli'' ''joe'' None (Some ''c1'')
      = Inr \<lparr>mp_client_type = ''cli'', mp_client_subject = ''joe'', mp_account_owner = None, mp_conversation = Some ''c1''\<rparr>"
    "build_memory_principal ''cli'' ''joe'' None (Some ''c2'')
      = Inr \<lparr>mp_client_type = ''cli'', mp_client_subject = ''joe'', mp_account_owner = None, mp_conversation = Some ''c2''\<rparr>"
    by code_simp+
  from scope_key_separates [OF b] b show ?thesis by (simp add: family_subject_def)
qed

end
