(* ===== verification/Authority.thy ===== *)
theory Authority
  imports Principal
begin

section \<open>Authority and privacy between agents\<close>

text \<open>
  \<open>AgentHierarchy\<close> (\<open>src/freyja/agents/hierarchy.py\<close>): which agent serves which person, who
  may delegate maintenance and who receives its result; and \<open>PersonalDataAuthorization\<close>
  (\<open>src/freyja/agents/personal_data.py\<close>): which agent may do what with which account. A
  \<open>PermissionError\<close> is its message. The texts of the prompts are not kept.
\<close>

subsection \<open>The hierarchy\<close>

datatype agent_name =
    Freyja_agent | Cloyd_gibbler | Benedict | Agent_44 | Agent_47 | Jenna_agent | Jennacide | Maintenance_agent

fun agent_value :: "agent_name \<Rightarrow> string" where
  "agent_value Freyja_agent = ''freyja''"
| "agent_value Cloyd_gibbler = ''cloyd-gibbler''"
| "agent_value Benedict = ''benedict''"
| "agent_value Agent_44 = ''agent-44''"
| "agent_value Agent_47 = ''agent-47''"
| "agent_value Jenna_agent = ''jenna''"
| "agent_value Jennacide = ''jennacide''"
| "agent_value Maintenance_agent = ''maintenance''"

fun agent_display_name :: "agent_name \<Rightarrow> string" where
  "agent_display_name Freyja_agent = ''Freyja''"
| "agent_display_name Cloyd_gibbler = ''Cloyd Gibbler''"
| "agent_display_name Benedict = ''Benedict''"
| "agent_display_name Agent_44 = ''Agent 44''"
| "agent_display_name Agent_47 = ''Agent 47''"
| "agent_display_name Jenna_agent = ''JennaCide''"
| "agent_display_name Jennacide = ''JennaCide''"
| "agent_display_name Maintenance_agent = ''Agent Smith''"

datatype person_name = Family | Joe | Beth | Liam | Jenna

fun person_value :: "person_name \<Rightarrow> string" where
  "person_value Family = ''family''"
| "person_value Joe = ''joe''"
| "person_value Beth = ''beth''"
| "person_value Liam = ''liam''"
| "person_value Jenna = ''jenna''"

datatype maintenance_authority = Inspect | Safe_reversible | Consequential

datatype escalation_target = Escalate_none | Escalate_agent | Escalate_person

record maintenance_request =
  mr_id :: string
  mr_objective :: string
  mr_requested_by :: agent_name
  mr_owner :: person_name
  mr_authority :: maintenance_authority
  mr_recipient :: agent_name
  mr_principal :: memory_principal
  mr_escalation :: escalation_target

record personal_message =
  pm_person :: person_name
  pm_recipient :: agent_name
  pm_content :: string
  pm_principal :: memory_principal

record agent_profile =
  ap_agent :: agent_name
  ap_display_name :: string
  ap_owner :: person_name

record maintenance_result =
  ms_request_id :: string
  ms_owner :: person_name
  ms_requested_by :: agent_name
  ms_recipient :: agent_name
  ms_summary :: string

fun primary_agent :: "person_name \<Rightarrow> agent_name" where
  "primary_agent Family = Freyja_agent"
| "primary_agent Joe = Cloyd_gibbler"
| "primary_agent Beth = Benedict"
| "primary_agent Liam = Agent_47"
| "primary_agent Jenna = Jennacide"

definition people :: "person_name list" where "people = [Family, Joe, Beth, Liam, Jenna]"

definition primary_agents :: "agent_name set" where
  "primary_agents = primary_agent ` set people"

definition personal_owners :: "person_name list" where
  "personal_owners = filter (\<lambda>p. p \<noteq> Family) people"

definition profile_for_person :: "person_name \<Rightarrow> agent_profile" where
  "profile_for_person p = \<lparr>ap_agent = primary_agent p, ap_display_name = agent_display_name (primary_agent p), ap_owner = p\<rparr>"

definition person_for_member_id :: "string option \<Rightarrow> person_name option" where
  "person_for_member_id m =
    (if \<not> truthy m then None
     else (let n = str_strip (str_lower (the m)) in
       if n \<in> {''joe'', ''joseph''} then Some Joe
       else if n \<in> {''beth'', ''elizabeth''} then Some Beth
       else if n = ''liam'' then Some Liam
       else if n = ''jenna'' then Some Jenna
       else if n \<in> {''family'', ''freyja'', ''household'', ''home''} then Some Family
       else None))"

definition profile_for_member_id :: "string option \<Rightarrow> agent_profile option" where
  "profile_for_member_id m = map_option profile_for_person (person_for_member_id m)"

text \<open>The principal of an agent that acts for a person; its values match the patterns.\<close>

definition agent_principal :: "agent_name \<Rightarrow> person_name \<Rightarrow> string + memory_principal" where
  "agent_principal a p = build_memory_principal ''agent'' (''agent:'' @ agent_value a)
     (Some (''person:'' @ person_value p)) None"

definition route_person_message :: "person_name \<Rightarrow> string \<Rightarrow> string + personal_message" where
  "route_person_message p content =
     bind_result (agent_principal (primary_agent p) p) (\<lambda>pr.
       Inr \<lparr>pm_person = p, pm_recipient = primary_agent p, pm_content = content, pm_principal = pr\<rparr>)"

fun escalation_for :: "maintenance_authority \<Rightarrow> escalation_target" where
  "escalation_for Inspect = Escalate_none"
| "escalation_for Safe_reversible = Escalate_agent"
| "escalation_for Consequential = Escalate_person"

definition maintenance_request_for ::
    "string \<Rightarrow> agent_name \<Rightarrow> person_name \<Rightarrow> string \<Rightarrow> maintenance_authority \<Rightarrow> string + maintenance_request" where
  "maintenance_request_for new_id by owner objective authority =
    (if by \<noteq> primary_agent owner
     then Inl ''only a person's primary agent may delegate maintenance for that person''
     else bind_result (agent_principal by owner) (\<lambda>pr.
       Inr \<lparr>mr_id = new_id, mr_objective = objective, mr_requested_by = by, mr_owner = owner,
            mr_authority = authority, mr_recipient = by, mr_principal = pr, mr_escalation = escalation_for authority\<rparr>))"

text \<open>One request for each owner; the ids are drawn by the caller. No owners stand for the family.\<close>

fun family_issue_review :: "string list \<Rightarrow> string \<Rightarrow> person_name list \<Rightarrow> string + maintenance_request list" where
  "family_issue_review (i # is) objective (p # ps) =
     bind_result (maintenance_request_for i (primary_agent p) p objective Inspect) (\<lambda>r.
     bind_result (family_issue_review is objective ps) (\<lambda>rs. Inr (r # rs)))"
| "family_issue_review is objective ps = Inr []"

definition family_issue_review_requests :: "string list \<Rightarrow> string \<Rightarrow> person_name list \<Rightarrow> string + maintenance_request list" where
  "family_issue_review_requests is objective owners =
     family_issue_review is objective (if owners = [] then [Family] else owners)"

definition deliver_result ::
    "maintenance_request \<Rightarrow> maintenance_result \<Rightarrow> agent_name \<Rightarrow> person_name \<Rightarrow> string + string" where
  "deliver_result q res recipient owner =
    (if ms_request_id res \<noteq> mr_id q \<or> ms_owner res \<noteq> mr_owner q \<or> ms_requested_by res \<noteq> mr_requested_by q
        \<or> ms_recipient res \<noteq> mr_recipient q
     then Inl ''maintenance result does not match its request envelope''
     else if recipient \<noteq> ms_recipient res \<or> owner \<noteq> ms_owner res
     then Inl ''maintenance results are private to the requesting agent and owner''
     else if ms_requested_by res \<noteq> primary_agent (ms_owner res)
     then Inl ''maintenance result has an invalid authority chain''
     else Inr (ms_summary res))"

subsection \<open>Personal data\<close>

datatype data_resource = Calendar | Email
datatype data_scope = Scope_private | Scope_shared | Availability_only

datatype data_action =
    Calendar_availability | Calendar_read | Calendar_create | Calendar_modify | Calendar_delete | Calendar_respond
  | Email_search | Email_read | Email_draft | Email_send | Email_delete

datatype data_decision = Allow | Approval_required | Deny

record data_principal =
  dp_person :: person_name
  dp_agent :: agent_name
  dp_resource :: data_resource
  dp_account :: string
  dp_scope :: data_scope

fun owner_actions :: "data_resource \<Rightarrow> data_action list" where
  "owner_actions Calendar = [Calendar_availability, Calendar_read, Calendar_create, Calendar_modify]"
| "owner_actions Email = [Email_search, Email_read, Email_draft]"

definition approval_actions :: "data_action list" where
  "approval_actions = [Calendar_delete, Calendar_respond, Email_send, Email_delete]"

text \<open>\<open>action.value.startswith(resource.value + "_")\<close>.\<close>

fun action_resource :: "data_action \<Rightarrow> data_resource" where
  "action_resource Email_search = Email"
| "action_resource Email_read = Email"
| "action_resource Email_draft = Email"
| "action_resource Email_send = Email"
| "action_resource Email_delete = Email"
| "action_resource _ = Calendar"

definition private_account ::
    "person_name \<Rightarrow> agent_name \<Rightarrow> data_resource \<Rightarrow> string \<Rightarrow> string + data_principal" where
  "private_account p a r acc =
    (if p = Family then Inl ''private personal data requires an individual person''
     else if a \<noteq> primary_agent p then Inl ''private personal data is available only to the person's primary agent''
     else Inr \<lparr>dp_person = p, dp_agent = a, dp_resource = r, dp_account = acc, dp_scope = Scope_private\<rparr>)"

definition calendar_availability :: "person_name \<Rightarrow> agent_name \<Rightarrow> string \<Rightarrow> string + data_principal" where
  "calendar_availability p a acc =
    (if a \<notin> primary_agents then Inl ''only a personal agent may request shared availability''
     else Inr \<lparr>dp_person = p, dp_agent = a, dp_resource = Calendar, dp_account = acc, dp_scope = Availability_only\<rparr>)"

definition household_account ::
    "person_name \<Rightarrow> agent_name \<Rightarrow> data_resource \<Rightarrow> string \<Rightarrow> string + data_principal" where
  "household_account p a r acc =
    (if a \<noteq> primary_agent p then Inl ''household access must retain the requesting person's agent identity''
     else Inr \<lparr>dp_person = p, dp_agent = a, dp_resource = r, dp_account = acc, dp_scope = Scope_shared\<rparr>)"

definition valid_authority_chain :: "data_principal \<Rightarrow> bool" where
  "valid_authority_chain d \<longleftrightarrow>
    (if dp_agent d \<notin> primary_agents then False
     else if dp_scope d = Scope_private then dp_person d \<noteq> Family \<and> dp_agent d = primary_agent (dp_person d)
     else if dp_scope d = Scope_shared then dp_agent d = primary_agent (dp_person d)
     else dp_scope d = Availability_only)"

definition policy_actions :: "data_principal \<Rightarrow> data_action list" where
  "policy_actions d = (if dp_scope d = Availability_only then [Calendar_availability] else owner_actions (dp_resource d))"

definition authorize_data :: "data_principal \<Rightarrow> data_action \<Rightarrow> data_decision" where
  "authorize_data d act =
    (if action_resource act \<noteq> dp_resource d then Deny
     else if \<not> valid_authority_chain d then Deny
     else if act \<in> set (policy_actions d) then Allow
     else if dp_scope d \<noteq> Availability_only \<and> act \<in> set approval_actions then Approval_required
     else Deny)"

subsection \<open>Properties\<close>

lemma primary_agent_inj: "primary_agent p = primary_agent q \<Longrightarrow> p = q"
  by (cases p; cases q) simp_all

lemma primary_agents_eq [simp]: "primary_agents = {Freyja_agent, Cloyd_gibbler, Benedict, Agent_47, Jennacide}"
  by (auto simp: primary_agents_def people_def)

lemma primary_agent_in: "primary_agent p \<in> primary_agents"
  by (cases p) simp_all

lemma freyja_primary: "Freyja_agent \<in> primary_agents"
  by simp

lemma agent_principal_ok:
  "agent_principal a p = Inr \<lparr>mp_client_type = ''agent'', mp_client_subject = ''agent:'' @ agent_value a,
     mp_account_owner = Some (''person:'' @ person_value p), mp_conversation = None\<rparr>"
  by (induction a; induction p; code_simp)

text \<open>C29. Private data belongs to one agent. Whatever principal an agent presents, it reads or writes
  an account in private or household scope only as the primary agent of its person; an agent that
  is none can do nothing at all. With availability it learns availability and nothing else. Deleting,
  responding and sending are never allowed without approval, and each of the three constructors
  grants only principals that the authorization accepts.\<close>

theorem personal_data_private:
  "(authorize_data d act \<noteq> Deny \<longrightarrow>
      dp_agent d \<in> primary_agents
      \<and> (dp_scope d = Availability_only \<longrightarrow> act = Calendar_availability \<and> authorize_data d act = Allow)
      \<and> (dp_scope d \<noteq> Availability_only \<longrightarrow> (\<forall>p. dp_agent d = primary_agent p \<longleftrightarrow> p = dp_person d)))
   \<and> (dp_scope d = Scope_private \<and> dp_person d = Family \<longrightarrow> authorize_data d act = Deny)
   \<and> (act \<in> set approval_actions \<longrightarrow> authorize_data d act \<noteq> Allow)
   \<and> ((\<exists>p a r acc. private_account p a r acc = Inr d \<or> household_account p a r acc = Inr d
        \<or> calendar_availability p a acc = Inr d) \<longrightarrow> valid_authority_chain d)"
proof (intro conjI impI)
  assume a: "authorize_data d act \<noteq> Deny"
  then show "dp_agent d \<in> primary_agents"
    by (auto simp: authorize_data_def valid_authority_chain_def split: if_splits)
  show "act = Calendar_availability" and "authorize_data d act = Allow" if "dp_scope d = Availability_only"
    using a that by (auto simp: authorize_data_def policy_actions_def split: if_splits)
  show "\<forall>p. dp_agent d = primary_agent p \<longleftrightarrow> p = dp_person d" if "dp_scope d \<noteq> Availability_only"
    using a that primary_agent_inj
    by (cases "dp_scope d") (auto simp: authorize_data_def valid_authority_chain_def split: if_splits)
next
  assume "dp_scope d = Scope_private \<and> dp_person d = Family"
  then show "authorize_data d act = Deny" by (simp add: authorize_data_def valid_authority_chain_def)
next
  assume "act \<in> set approval_actions"
  then show "authorize_data d act \<noteq> Allow"
    by (cases "dp_resource d") (auto simp: authorize_data_def approval_actions_def policy_actions_def)
next
  assume "\<exists>p a r acc. private_account p a r acc = Inr d \<or> household_account p a r acc = Inr d
        \<or> calendar_availability p a acc = Inr d"
  then show "valid_authority_chain d"
    using primary_agent_in freyja_primary
    by (auto simp: private_account_def household_account_def calendar_availability_def valid_authority_chain_def
        simp del: primary_agents_eq split: if_splits)
qed

theorem personal_data_private_witness:
  "authorize_data \<lparr>dp_person = Beth, dp_agent = Cloyd_gibbler, dp_resource = Email, dp_account = ''b'',
     dp_scope = Scope_private\<rparr> Email_read = Deny"
proof (rule ccontr)
  let ?d = "\<lparr>dp_person = Beth, dp_agent = Cloyd_gibbler, dp_resource = Email, dp_account = ''b'', dp_scope = Scope_private\<rparr>"
  assume "authorize_data ?d Email_read \<noteq> Deny"
  then have "\<forall>p. dp_agent ?d = primary_agent p \<longleftrightarrow> p = dp_person ?d"
    using personal_data_private [of ?d Email_read] by simp
  from spec [OF this, of Joe] show False by simp
qed

text \<open>A maintenance request comes from the primary agent of its owner, its result returns to
  that agent, and nobody else ever receives it: a result is delivered exactly when it matches its
  request and is asked for by the agent and for the owner of the request.\<close>

theorem maintenance_result_private:
  assumes "maintenance_request_for i by own objective authority = Inr q"
  shows "mr_requested_by q = primary_agent own \<and> mr_owner q = own \<and> mr_recipient q = mr_requested_by q
    \<and> (mr_escalation q = Escalate_person \<longleftrightarrow> authority = Consequential)
    \<and> (deliver_result q res recipient owner = Inr text \<longleftrightarrow>
         text = ms_summary res \<and> ms_request_id res = mr_id q \<and> ms_owner res = own
         \<and> ms_requested_by res = primary_agent own \<and> ms_recipient res = primary_agent own
         \<and> recipient = primary_agent own \<and> owner = own)"
proof -
  from assms have q: "mr_id q = i" "mr_requested_by q = primary_agent own" "mr_owner q = own"
    "mr_recipient q = primary_agent own" "mr_escalation q = escalation_for authority"
    by (auto simp: maintenance_request_for_def ok_iff split: if_splits)
  have "escalation_for authority = Escalate_person \<longleftrightarrow> authority = Consequential" by (cases authority) simp_all
  with q show ?thesis by (auto simp: deliver_result_def)
qed

theorem maintenance_result_private_witness:
  "\<exists>q. maintenance_request_for ''i'' Benedict Beth ''check the mail'' Inspect = Inr q
     \<and> deliver_result q \<lparr>ms_request_id = ''i'', ms_owner = Beth, ms_requested_by = Benedict,
         ms_recipient = Benedict, ms_summary = ''ok''\<rparr> Cloyd_gibbler Beth \<noteq> Inr ''ok''"
proof -
  obtain q where q: "maintenance_request_for ''i'' Benedict Beth ''check the mail'' Inspect = Inr q"
    by (simp add: maintenance_request_for_def agent_principal_ok)
  from maintenance_result_private [OF q] q show ?thesis by auto
qed

end
