(* ===== verification/Smith_Objective.thy ===== *)
theory Smith_Objective
  imports Smith_Models Rx
begin

section \<open>Agent Smith: objectives\<close>

text \<open>
  How \<open>src/freyja/agents/runtime.py\<close> reads an objective before a read-only run: negated
  clauses are removed, \<open>run\<close>, \<open>execute\<close> and \<open>command\<close> are neutralised where they frame a
  reading action, and the rest is classified by its keywords. The regular expressions are terms
  of \<open>rx\<close>. The sources build two of them by joining a set, so the order of the alternatives is
  the iteration order of that set, which differs from process to process: it is an argument.
\<close>

definition PROHIBITED_WRITE :: "string list" where
  "PROHIBITED_WRITE = [''commit'', ''write'', ''modify'', ''edit'', ''overwrite'', ''patch'', ''delete'',
     ''remove'', ''stage'', ''add'']"

definition PROHIBITED_PRIVILEGED :: "string list" where
  "PROHIBITED_PRIVILEGED = [''restart'', ''reboot'', ''shutdown'', ''terminate'', ''kill'', ''systemctl'',
     ''launchctl'', ''install'', ''upgrade'', ''update'', ''deploy'', ''shell'', ''exec'', ''run '', ''command'',
     ''sudo'', ''chmod'', ''chown'', ''password'', ''secret'', ''credential'', ''token'', ''api key'',
     ''privilege'', ''elevated'']"

definition INSPECTION_KEYWORDS :: "string list" where
  "INSPECTION_KEYWORDS = [''check'', ''status'', ''inspect'', ''view'', ''show'', ''list'', ''diff'', ''summary'', ''what'']"

definition VALIDATION_KEYWORDS :: "string list" where
  "VALIDATION_KEYWORDS = [''test'', ''validate'', ''verify'', ''compile'', ''build'', ''lint'', ''format'', ''pytest'']"

definition DIAGNOSTICS_KEYWORDS :: "string list" where
  "DIAGNOSTICS_KEYWORDS = [''health'', ''diagnose'', ''debug'', ''trace'', ''error'', ''failure'', ''why is'', ''what is wrong'']"

definition DIAGNOSTICS_SERVICE_WORDS :: "string list" where
  "DIAGNOSTICS_SERVICE_WORDS = [''service'', ''process'', ''endpoint'', ''runtime'', ''director'']"

definition reading_keywords :: "string list" where
  "reading_keywords = INSPECTION_KEYWORDS @ VALIDATION_KEYWORDS @ DIAGNOSTICS_KEYWORDS"

text \<open>\<open>len(kw.split())\<close>.\<close>

definition one_word :: "string \<Rightarrow> bool" where
  "one_word k \<longleftrightarrow> length (str_words k) = 1"

definition privileged_stoppers :: "string list" where
  "privileged_stoppers = map str_strip (filter (\<lambda>k. one_word k \<and> str_strip k \<notin> {''run'', ''execute''}) PROHIBITED_PRIVILEGED)"

text \<open>The iteration orders of the two sets.\<close>

record keyword_order =
  stopper_order :: "string list"
  reading_order :: "string list"

definition keyword_order_ok :: "keyword_order \<Rightarrow> bool" where
  "keyword_order_ok O1 \<longleftrightarrow> set (stopper_order O1) = set privileged_stoppers \<and> set (reading_order O1) = set reading_keywords"

definition source_order :: keyword_order where
  "source_order = \<lparr>stopper_order = privileged_stoppers, reading_order = reading_keywords\<rparr>"

subsection \<open>Negated clauses\<close>

definition clause_end :: "(char \<times> char) list" where
  "clause_end = [(CHR ''.'', CHR ''.''), (CHR ''!'', CHR ''!''), (CHR ''?'', CHR ''?''), (CHR '';'', CHR '';'')]"

definition NEGATION :: rx where
  "NEGATION =
     Seq WordB
    (Seq (rx_alts [Seq (rx_lit ''do'') (Seq (rx_plus rx_space) (rx_lit ''not'')),
                   Seq (rx_lit ''don'') (Seq (rx_opt (rx_chr CHR 0x27)) (rx_lit ''t'')),
                   rx_lit ''never'', rx_lit ''no''])
    (Seq WordB
    (Seq (LazyStar (Cls True clause_end))
         (rx_alts [Seq (rx_opt (Seq (rx_chr CHR '','') (Star rx_space)))
                     (Seq (rx_alts [rx_lit ''but'', rx_lit ''however'', rx_lit ''then'',
                        Seq (rx_lit ''and'') (Seq (rx_plus rx_space) (rx_lit ''then''))]) WordB),
                   Ahead False (Cls False clause_end), Cls False clause_end, Eol]))))"

definition strip_negated :: "string \<Rightarrow> string" where
  "strip_negated obj = rx_sub NEGATION (\<lambda>_. []) (str_lower obj)"

definition has_negated_write :: "string \<Rightarrow> bool" where
  "has_negated_write obj \<longleftrightarrow> strip_negated (str_lower obj) \<noteq> str_lower obj"

subsection \<open>Reading verbs\<close>

text \<open>\<open>r{0,n}?\<close>.\<close>

fun rx_lazy_upto :: "nat \<Rightarrow> rx \<Rightarrow> rx" where
  "rx_lazy_upto 0 r = Eps"
| "rx_lazy_upto (Suc n) r = Alt Eps (Seq r (rx_lazy_upto n r))"

text \<open>\<open>(?!a|b|c\b)\<close>: the word boundary belongs to the last alternative only.\<close>

definition stopper_ahead :: "string list \<Rightarrow> rx" where
  "stopper_ahead ks = Ahead True (rx_alts (map rx_lit (butlast ks) @ [Seq (rx_lit (last ks)) WordB]))"

definition run_pattern :: "keyword_order \<Rightarrow> rx" where
  "run_pattern O1 =
     Seq WordB (Seq (rx_alts [rx_lit ''run'', rx_lit ''execute''])
    (Seq (rx_plus rx_space)
    (Seq (rx_lazy_upto 5 (Seq (stopper_ahead (stopper_order O1))
            (Seq WordB (Seq (rx_plus rx_word) (Seq WordB (rx_plus rx_space))))))
    (Seq WordB (Seq (rx_alts (map rx_lit (reading_order O1))) WordB)))))"

text \<open>\<open>\2\<close>: the keyword at the end of the match. A space stands before it, and no keyword is
  another one after a space, so it is the only one that fits.\<close>

definition group_2 :: "string list \<Rightarrow> string \<Rightarrow> string" where
  "group_2 ks m =
    (case List.find (\<lambda>k. suffix k m \<and> length k < length m \<and> is_space (m ! (length m - length k - 1))) ks of
       None \<Rightarrow> m | Some k \<Rightarrow> k)"

definition command_pattern :: "string \<Rightarrow> rx" where
  "command_pattern k =
     Seq WordB (Seq (rx_lit k) (Seq (rx_opt (Seq (rx_plus rx_space) (rx_lit ''check'')))
    (Seq (rx_plus rx_space) (Seq (rx_lit ''command'') WordB))))"

definition strip_reading_verbs :: "keyword_order \<Rightarrow> string \<Rightarrow> string" where
  "strip_reading_verbs O1 obj =
     fold (\<lambda>k s. rx_sub (command_pattern k) (\<lambda>_. k) s) (reading_order O1)
       (rx_sub (run_pattern O1) (group_2 (reading_order O1)) (str_lower obj))"

subsection \<open>Classification\<close>

definition whole_word :: "string \<Rightarrow> string \<Rightarrow> bool" where
  "whole_word k s \<longleftrightarrow> rx_found (Seq WordB (Seq (rx_lit k) WordB)) s"

definition mentions_keyword :: "string list \<Rightarrow> string \<Rightarrow> bool" where
  "mentions_keyword ks s \<longleftrightarrow>
     (\<exists>k \<in> set ks. if one_word k then whole_word k s else 1 < length (str_words k) \<and> sublist k s)"

definition keyword_count :: "string list \<Rightarrow> string \<Rightarrow> nat" where
  "keyword_count ks s = length (filter (\<lambda>k. whole_word k s) ks)"

text \<open>\<open>frozenset(re.findall(r"[a-z]+", s))\<close>.\<close>

definition letter_words :: "string \<Rightarrow> string list" where
  "letter_words s = remdups (filter (\<lambda>w. w \<noteq> []) (split_at (\<lambda>c. \<not> (CHR ''a'' \<le> c \<and> c \<le> CHR ''z'')) s))"

definition neutralized :: "keyword_order \<Rightarrow> string \<Rightarrow> string" where
  "neutralized O1 obj = strip_reading_verbs O1 (strip_negated (str_lower obj))"

text \<open>The density is \<open>total / len(words)\<close>, a division that fails when no word is left.\<close>

definition classify_objective :: "keyword_order \<Rightarrow> string \<Rightarrow> string + objective_class" where
  "classify_objective O1 obj =
    (let lowered = str_lower obj; s = neutralized O1 obj; words = letter_words s in
     if mentions_keyword PROHIBITED_WRITE s then Inr Prohibited_write
     else if mentions_keyword PROHIBITED_PRIVILEGED s then Inr Prohibited_privileged
     else
      (let inspection = keyword_count INSPECTION_KEYWORDS lowered;
           validation = keyword_count VALIDATION_KEYWORDS lowered;
           diagnostics0 = keyword_count DIAGNOSTICS_KEYWORDS lowered;
           service = (\<exists>k \<in> set DIAGNOSTICS_SERVICE_WORDS. whole_word k s);
           diagnostics = (if 0 < diagnostics0 \<and> service
             then diagnostics0 + keyword_count DIAGNOSTICS_SERVICE_WORDS lowered else diagnostics0);
           total = inspection + validation + diagnostics
       in if total = 0 then Inr Ambiguous
          else if words = [] then Inl ''ZeroDivisionError: division by zero''
          else if 3 * length words \<le> 20 * total \<or> (has_negated_write obj \<and> 2 \<le> total)
          then (if inspection \<le> diagnostics \<and> validation \<le> diagnostics then Inr Diagnostics
                else if inspection \<le> validation then Inr Validation
                else Inr Inspection)
          else Inr Ambiguous))"

subsection \<open>Properties\<close>

text \<open>A keyword that survives as a whole word is never read as a reading objective.\<close>

lemma classify_prohibited:
  assumes "classify_objective O1 obj = Inr c" and "c \<in> {Inspection, Validation, Diagnostics}"
  shows "\<not> mentions_keyword PROHIBITED_WRITE (neutralized O1 obj)
    \<and> \<not> mentions_keyword PROHIBITED_PRIVILEGED (neutralized O1 obj)"
  using assms unfolding classify_objective_def Let_def by (auto split: if_split_asm)

text \<open>Letters and keywords: a keyword that is found stands in the text.\<close>

lemma whole_word_chars:
  assumes "whole_word k s" shows "set k \<subseteq> set s"
proof -
  from assms obtain i where i: "rx_ends (Seq WordB (Seq (rx_lit k) WordB)) s i \<noteq> []"
    unfolding whole_word_def rx_found_iff by blast
  then have "rx_ends (rx_lit k) s i \<noteq> []" by (auto split: if_splits)
  then have "k = [] \<or> take (length k) (drop i s) = k" by (auto simp: rx_ends_lit split: if_splits)
  then show ?thesis by (metis empty_subsetI empty_set order_trans set_drop_subset set_take_subset)
qed

lemma letter_words_empty:
  assumes "letter_words s = []" and "c \<in> set s" shows "\<not> (CHR ''a'' \<le> c \<and> c \<le> CHR ''z'')"
proof
  let ?P = "\<lambda>c. \<not> (CHR ''a'' \<le> c \<and> c \<le> CHR ''z'')"
  assume l: "CHR ''a'' \<le> c \<and> c \<le> CHR ''z''"
  have "\<exists>w \<in> set (split_at ?P s). w \<noteq> []"
    using assms(2) l by (induction s) (auto split: list.splits)
  with assms(1) show False by (auto simp: letter_words_def filter_empty_conv)
qed

lemma no_letters_no_keyword:
  assumes "letter_words s = []" and "\<forall>k \<in> set ks. \<exists>c \<in> set k. CHR ''a'' \<le> c \<and> c \<le> CHR ''z''"
  shows "\<not> mentions_keyword ks s"
proof
  assume "mentions_keyword ks s"
  then obtain k where k: "k \<in> set ks" "whole_word k s \<or> sublist k s"
    by (auto simp: mentions_keyword_def split: if_splits)
  then have "set k \<subseteq> set s" using whole_word_chars set_mono_sublist by blast
  with assms k(1) letter_words_empty show False by blast
qed

lemma keywords_have_letters:
  "\<forall>k \<in> set PROHIBITED_WRITE. \<exists>c \<in> set k. CHR ''a'' \<le> c \<and> c \<le> CHR ''z''"
  "\<forall>k \<in> set PROHIBITED_PRIVILEGED. \<exists>c \<in> set k. CHR ''a'' \<le> c \<and> c \<le> CHR ''z''"
  by code_simp+

lemma keyword_count_pos: "k \<in> set ks \<Longrightarrow> whole_word k s \<Longrightarrow> 0 < keyword_count ks s"
  by (auto simp: keyword_count_def filter_empty_conv)

text \<open>An objective of which only negated text is left, but which names a reading keyword, makes the
  classification divide by zero.\<close>

lemma classify_crashes:
  assumes "letter_words (neutralized O1 obj) = []" and "k \<in> set reading_keywords" and "whole_word k (str_lower obj)"
  shows "classify_objective O1 obj = Inl ''ZeroDivisionError: division by zero''"
proof -
  note np = no_letters_no_keyword [OF assms(1) keywords_have_letters(1)] no_letters_no_keyword [OF assms(1) keywords_have_letters(2)]
  have "0 < keyword_count INSPECTION_KEYWORDS (str_lower obj) + keyword_count VALIDATION_KEYWORDS (str_lower obj)
      + keyword_count DIAGNOSTICS_KEYWORDS (str_lower obj)"
    using assms(2) keyword_count_pos [OF _ assms(3)] unfolding reading_keywords_def set_append
    by (metis UnE add_gr_0)
  with np assms(1) show ?thesis by (simp add: classify_objective_def Let_def)
qed

definition exec_last :: keyword_order where
  "exec_last = \<lparr>stopper_order = filter (\<lambda>k. k \<noteq> ''exec'') privileged_stoppers @ [''exec''], reading_order = reading_keywords\<rparr>"

text \<open>The class of an objective depends on the iteration order of two Python sets, which changes
  from process to process: in the alternation of the words that stop the neutralisation only the
  last one has a word boundary, so \<open>exec\<close> stops at \<open>executive\<close> unless it comes last. The same
  objective is refused as privileged in one process and run as an inspection in another.\<close>

theorem classification_unstable:
  "\<exists>O1 O2 obj. keyword_order_ok O1 \<and> keyword_order_ok O2 \<and> classify_objective O1 obj = Inr Prohibited_privileged
     \<and> classify_objective O2 obj = Inr Inspection"
proof -
  have "classify_objective source_order ''run the executive summary'' = Inr Prohibited_privileged" by code_simp
  moreover have "classify_objective exec_last ''run the executive summary'' = Inr Inspection" by code_simp
  moreover have "keyword_order_ok source_order" by (simp add: keyword_order_ok_def source_order_def)
  moreover have "keyword_order_ok exec_last"
  proof -
    have "''exec'' \<in> set privileged_stoppers" by code_simp
    then show ?thesis by (auto simp: keyword_order_ok_def exec_last_def)
  qed
  ultimately show ?thesis by blast
qed

end
