(* ===== verification/Smith_Runtime.thy ===== *)
theory Smith_Runtime
  imports Smith_Objective Tool_Registry Write_Pilot
begin

section \<open>Agent Smith: planning, orchestration and dry runs\<close>

text \<open>
  \<open>SmithOrchestrator\<close> (\<open>src/freyja/agents/smith.py\<close>): an objective becomes a plan, and \<open>run\<close>
  executes its tasks under the policy, with retries and approval callbacks. The read-only part of
  \<open>SmithRuntime\<close> (\<open>src/freyja/agents/runtime.py\<close>): \<open>run_dry\<close> and \<open>run_read_only\<close>, with loop
  detection, the summary and the audit log. A task is addressed by its place in the plan, as the
  sources mutate the object they took from the list. The registry never raises: it turns every
  exception into an error result, so the \<open>except\<close> branch of the dry run is not reached. Clock,
  fresh ids and durations are parameters or left out.
\<close>

record 'w smith_env =
  se_registry :: "'w tool_registry"
  se_policy :: agent_policy
  se_resolve :: "string \<Rightarrow> path"
  se_order :: keyword_order
  se_read_only :: "string list"
  se_max_steps :: int
  se_dry_retries :: int
  se_retries :: int
  se_callback :: "string \<Rightarrow> (string \<Rightarrow> 'w \<Rightarrow> bool) option"
  se_log_enabled :: bool
  se_ids :: "nat \<Rightarrow> string"
  se_now :: utc

text \<open>\<open>ss_log\<close>: the lines of the JSONL file.\<close>

record 'w smith_state =
  ss_world :: 'w
  ss_executed :: "exec_request list"
  ss_audit :: "audit_event list"
  ss_prints :: "string list"
  ss_log :: "audit_event list"
  ss_orch_audit :: "audit_event list"
  ss_orch_prints :: "string list"

record run_summary =
  sm_request_id :: string
  sm_objective :: string
  sm_total :: nat
  sm_completed :: nat
  sm_failed :: nat
  sm_escalated :: nat
  sm_approvals :: nat
  sm_loops :: nat
  sm_status :: string
  sm_message :: string
  sm_audit :: "audit_event list"
  sm_actor :: string
  sm_classification :: "objective_class option"
  sm_plan :: "smith_plan option"

definition DRY_RUN_READ_ONLY_TOOLS :: "string list" where
  "DRY_RUN_READ_ONLY_TOOLS = [''repository_status'', ''repository_diff_summary'', ''compile_project'',
     ''run_test_suite'', ''validate_diff'']"

definition READ_ONLY_ALLOWLIST :: "string list" where
  "READ_ONLY_ALLOWLIST = DRY_RUN_READ_ONLY_TOOLS @ [''system_health'']"

subsection \<open>Plans\<close>

text \<open>Description, tool, arguments and approval status of a task.\<close>

type_synonym task_spec = "string \<times> string \<times> json_obj option \<times> approval_status"

definition step_for :: "string \<Rightarrow> string \<Rightarrow> task_spec" where
  "step_for description tool = (description, tool, None, Not_required)"

definition final_summary :: task_spec where
  "final_summary = step_for ''Produce final summary'' ''no-op''"

definition unnegated_commit :: "string \<Rightarrow> bool" where
  "unnegated_commit t \<longleftrightarrow> sublist ''commit'' (rx_sub NEGATION (\<lambda>_. []) (str_lower t))"

definition any_in :: "string list \<Rightarrow> string \<Rightarrow> bool" where
  "any_in ks s \<longleftrightarrow> (\<exists>k \<in> set ks. sublist k s)"

definition when_in :: "string list \<Rightarrow> string \<Rightarrow> string \<Rightarrow> string \<Rightarrow> task_spec list" where
  "when_in ks s description tool = (if any_in ks s then [step_for description tool] else [])"

definition diagnostics_tasks :: "string \<Rightarrow> task_spec list" where
  "diagnostics_tasks s =
    (let ts = step_for ''Check system health'' ''system_health''
           # when_in [''status'', ''inspect'', ''repository'', ''repo'', ''report'', ''diff''] s ''Report repository status'' ''repository_status''
           @ when_in [''diff'', ''changes''] s ''Summarize repository diff'' ''repository_diff_summary''
           @ when_in [''compile'', ''build'', ''validate''] s ''Compile project sources'' ''compile_project''
           @ when_in [''test'', ''pytest''] s ''Run project test suite'' ''run_test_suite''
     in if 1 < length ts then ts @ [final_summary] else ts)"

definition general_tasks :: "string \<Rightarrow> string \<Rightarrow> task_spec list" where
  "general_tasks obj s =
    (let ts = when_in [''status'', ''inspect'', ''repository'', ''repo'', ''report''] s ''Report repository status'' ''repository_status''
           @ when_in [''diff'', ''changes''] s ''Summarize repository diff'' ''repository_diff_summary''
           @ when_in [''compile'', ''build'', ''validate''] s ''Compile project sources'' ''compile_project''
           @ when_in [''diff validation'', ''validate diff'', ''validate_diff''] s ''Validate working tree diff'' ''validate_diff''
           @ when_in [''test'', ''pytest''] s ''Run project test suite'' ''run_test_suite''
     in if length ts = 1 then ts
        else if ts \<noteq> [] then ts @ [final_summary]
        else [step_for (''Inspect objective: '' @ obj) ''repository_status'', final_summary])"

definition decompose :: "string \<Rightarrow> task_spec list" where
  "decompose obj =
    (let s = str_lower obj in
     if sublist ''commit'' s \<and> unnegated_commit obj then
       [step_for ''Review repository status'' ''repository_status'',
        (''Stage and commit changes'', ''git_commit'', Some [(''objective'', JStr obj)], Required)]
     else if any_in [''health'', ''diagnose'', ''system'', ''service'', ''process'', ''endpoint''] s
     then diagnostics_tasks s
     else general_tasks obj s)"

definition new_task :: "'w smith_env \<Rightarrow> nat \<Rightarrow> task_spec \<Rightarrow> smith_task" where
  "new_task E i sp = (case sp of (description, tool, args, approval) \<Rightarrow>
     \<lparr>task_id = se_ids E i, task_description = description, task_status = Task_pending, depends_on = [],
      task_approval = approval, task_request_id = None, task_created_at = se_now E, task_updated_at = se_now E,
      task_metadata = (''tool'', JStr tool) # (case args of None \<Rightarrow> [] | Some a \<Rightarrow> [(''arguments'', JObj a)])\<rparr>)"

definition plan_for :: "'w smith_env \<Rightarrow> string \<Rightarrow> string \<Rightarrow> smith_plan" where
  "plan_for E rid obj = \<lparr>plan_request_id = rid, plan_objective = obj,
     plan_tasks = map (\<lambda>(i, sp). new_task E i sp) (enumerate 0 (decompose obj)),
     plan_created_at = se_now E, plan_metadata = []\<rparr>"

definition orch_audit :: "string \<Rightarrow> string \<Rightarrow> string \<Rightarrow> json_obj \<Rightarrow> 'w smith_state \<Rightarrow> 'w smith_state" where
  "orch_audit rid action outcome details st =
     st\<lparr>ss_orch_audit := ss_orch_audit st @ [record_audit rid action outcome details]\<rparr>"

definition make_plan :: "'w smith_env \<Rightarrow> string \<Rightarrow> string \<Rightarrow> 'w smith_state \<Rightarrow> smith_plan \<times> 'w smith_state" where
  "make_plan E rid obj st =
    (let p = plan_for E rid obj
     in (p, orch_audit rid ''inspect'' ''planned'' [(''task_count'', JInt (int (length (plan_tasks p))))]
              (orch_audit rid ''inspect'' ''started'' [(''objective'', JStr obj)] st)))"

text \<open>The place of the task that \<open>next_runnable_task\<close> returns.\<close>

fun find_at :: "('a \<Rightarrow> bool) \<Rightarrow> 'a list \<Rightarrow> nat option" where
  "find_at P [] = None"
| "find_at P (x # xs) = (if P x then Some 0 else map_option Suc (find_at P xs))"

definition runnable_at :: "smith_plan \<Rightarrow> nat option" where
  "runnable_at p = find_at (\<lambda>t. task_status t = Task_pending \<and> (\<forall>d \<in> set (depends_on t). d \<in> set (completed_ids p)))
     (plan_tasks p)"

definition set_task :: "nat \<Rightarrow> smith_task \<Rightarrow> smith_plan \<Rightarrow> smith_plan" where
  "set_task i t p = p\<lparr>plan_tasks := (plan_tasks p)[i := t]\<rparr>"

definition task_tool :: "smith_task \<Rightarrow> string" where
  "task_tool t = (case jget ''tool'' (task_metadata t) of JStr s \<Rightarrow> s | _ \<Rightarrow> ''no-op'')"

definition task_arguments :: "smith_task \<Rightarrow> json_obj" where
  "task_arguments t = as_dict (jget ''arguments'' (task_metadata t))"

text \<open>\<open>arguments.get("path") or ...\<close>, where a path is a text.\<close>

definition path_argument :: "json_obj \<Rightarrow> string option" where
  "path_argument args =
    (case filter json_truthy (map (\<lambda>k. jget k args) [''path'', ''target_path'', ''file_path'']) of
       JStr s # _ \<Rightarrow> Some s | _ \<Rightarrow> None)"

definition run_request :: "'w smith_env \<Rightarrow> exec_request \<Rightarrow> 'w smith_state \<Rightarrow> exec_result \<times> 'w smith_state" where
  "run_request E q st =
    (let (res, w) = execute_tool (se_registry E) q (ss_world st)
     in (res, st\<lparr>ss_world := w, ss_executed := ss_executed st @ [q]\<rparr>))"

definition smith_request :: "string \<Rightarrow> json_obj \<Rightarrow> string \<Rightarrow> string \<Rightarrow> exec_request" where
  "smith_request tool args rid actor = \<lparr>er_tool = tool, er_arguments = args, er_request_id = rid,
     er_actor = Some actor, er_conversation = None, er_metadata = []\<rparr>"

definition or_none :: "string option \<Rightarrow> string" where
  "or_none v = (case v of None \<Rightarrow> ''None'' | Some s \<Rightarrow> s)"

definition fingerprint :: "smith_task \<Rightarrow> step_result \<Rightarrow> string" where
  "fingerprint t r = task_id t @ '':'' @ task_description t @ '':'' @ or_none (step_tool_name r) @ '':'' @ or_none (step_error r)"

subsection \<open>Dry runs\<close>

definition dry_audit ::
    "string \<Rightarrow> string \<Rightarrow> string \<Rightarrow> string \<Rightarrow> json_obj \<Rightarrow> 'w smith_state \<Rightarrow> 'w smith_state" where
  "dry_audit rid actor action outcome details st =
     st\<lparr>ss_audit := ss_audit st @ [\<lparr>audit_request_id = rid, audit_actor = actor, audit_action = action,
       audit_outcome = outcome, audit_details = map (\<lambda>(k, v). (k, sanitize_for_audit v)) details\<rparr>]\<rparr>"

definition step_audit ::
    "string \<Rightarrow> string \<Rightarrow> string \<Rightarrow> string \<Rightarrow> smith_task \<Rightarrow> json_obj \<Rightarrow> string option \<Rightarrow> int \<Rightarrow> bool
     \<Rightarrow> 'w smith_state \<Rightarrow> 'w smith_state" where
  "step_audit rid actor tool outcome t output err attempts approval st =
     dry_audit rid actor (''dry_run_step:'' @ or_else (Some tool) ''no-op'') outcome
       [(''actor'', JStr actor), (''task_id'', JStr (task_id t)), (''task_description'', JStr (task_description t)),
        (''tool_name'', JStr tool), (''success'', JBool (outcome = ''success'')), (''error'', jopt err),
        (''attempts'', JInt attempts), (''approval_required'', JBool approval), (''output'', JObj output)] st"

definition event_json :: "audit_event \<Rightarrow> json" where
  "event_json e = JObj [(''request_id'', JStr (audit_request_id e)), (''actor'', JStr (audit_actor e)),
     (''action'', JStr (audit_action e)), (''outcome'', JStr (audit_outcome e)), (''details'', JObj (audit_details e))]"

definition new_result ::
    "'w smith_env \<Rightarrow> smith_task \<Rightarrow> string \<Rightarrow> string \<Rightarrow> string \<Rightarrow> bool \<Rightarrow> bool \<Rightarrow> int \<Rightarrow> json_obj \<Rightarrow> string option \<Rightarrow> bool
     \<Rightarrow> audit_event \<Rightarrow> step_result" where
  "new_result E t rid actor tool ok retryable attempts output err approval e =
     \<lparr>step_id = se_ids E 0, step_task_id = task_id t, step_request_id = rid, step_tool_name = Some tool,
      step_success = ok, step_retryable = retryable, step_attempts = attempts, step_output = output,
      step_error = err, step_approval_required = approval, step_audit_record = Some (as_dict (event_json e)),
      step_duration_ms = None, step_actor = actor, step_created_at = se_now E\<rparr>"

text \<open>Audit a step and return its result.\<close>

definition close_step ::
    "'w smith_env \<Rightarrow> smith_task \<Rightarrow> string \<Rightarrow> string \<Rightarrow> string \<Rightarrow> string \<Rightarrow> bool \<Rightarrow> bool \<Rightarrow> int \<Rightarrow> json_obj \<Rightarrow> string option \<Rightarrow> bool
     \<Rightarrow> 'w smith_state \<Rightarrow> step_result \<times> 'w smith_state" where
  "close_step E t rid actor tool outcome ok retryable attempts output err approval st =
    (let st1 = step_audit rid actor tool outcome t output err attempts approval st
     in (new_result E t rid actor tool ok retryable attempts output err approval (last (ss_audit st1)), st1))"

definition can_invoke_dry :: "'w smith_env \<Rightarrow> string \<Rightarrow> json_obj \<Rightarrow> policy_result" where
  "can_invoke_dry E tool args =
    (let P = se_policy E in
     if tool = ''no-op'' then Agent_Policy.allow
     else (case get_tool tool (se_registry E) of
        None \<Rightarrow> check_tool_permitted P tool Read_only
      | Some d \<Rightarrow>
          if td_risk d \<noteq> Read_only then check_tool_permitted P tool (td_risk d)
          else if tool \<notin> set (se_read_only E) \<and> tool \<notin> set (smith_read_only_tools P)
          then deny_with (''Tool '' @ quoted tool @ '' is not in the dry-run read-only whitelist.'')
          else (case path_argument args of
                  None \<Rightarrow> Agent_Policy.allow
                | Some p \<Rightarrow> (let r = check_path P (se_resolve E) p
                            in if decision r = Deny then r else Agent_Policy.allow))))"

definition dry_error :: "exec_result \<Rightarrow> string" where
  "dry_error res = or_else (ex_public_error res) (or_else (ex_error_code res) ''unknown'')"

definition dry_retryable :: "exec_result \<Rightarrow> bool" where
  "dry_retryable res \<longleftrightarrow>
     ex_error_code res \<notin> {Some ''tool_not_found'', Some ''tool_disabled'', Some ''validation_error''}
     \<and> \<not> prefix ''policy violation'' (str_lower (dry_error res))"

text \<open>Attempt \<open>k\<close>, with \<open>n\<close> attempts left.\<close>

fun dry_attempts ::
    "'w smith_env \<Rightarrow> smith_task \<Rightarrow> string \<Rightarrow> string \<Rightarrow> string \<Rightarrow> json_obj \<Rightarrow> nat \<Rightarrow> int \<Rightarrow> 'w smith_state
     \<Rightarrow> step_result \<times> 'w smith_state" where
  "dry_attempts E t rid actor tool args 0 k st =
     close_step E t rid actor tool ''failure'' False False (se_dry_retries E) [] (Some ''Max retries exceeded'') False st"
| "dry_attempts E t rid actor tool args (Suc n) k st =
    (let (res, st1) = run_request E (smith_request tool args rid actor) st in
     if ex_success res then close_step E t rid actor tool ''success'' True False k (ex_output res) None False st1
     else if \<not> dry_retryable res \<or> n = 0
     then close_step E t rid actor tool ''failure'' False (dry_retryable res) k [] (Some (dry_error res)) False st1
     else dry_attempts E t rid actor tool args n (k + 1) st1)"

definition start_task :: "string \<Rightarrow> smith_task \<Rightarrow> smith_task" where
  "start_task rid t = t\<lparr>task_status := In_progress, task_request_id := Some rid\<rparr>"

definition execute_dry_step ::
    "'w smith_env \<Rightarrow> string \<Rightarrow> string \<Rightarrow> smith_task \<Rightarrow> 'w smith_state \<Rightarrow> step_result \<times> 'w smith_state" where
  "execute_dry_step E actor rid t st =
    (let tool = task_tool t; args = task_arguments t; p = can_invoke_dry E tool args in
     if decision p = Deny then close_step E t rid actor tool ''denied'' False False 1 [] (reason p) False st
     else if approval_required p \<or> decision p = Approve
     then close_step E t rid actor tool ''approval_required'' False False 1 [] (reason p) True st
     else if tool = ''no-op'' \<or> get_tool tool (se_registry E) = None
     then close_step E t rid actor tool ''success'' True False 1 [(''conceptual'', JBool True)] None False st
     else dry_attempts E t rid actor tool args (nat (se_dry_retries E)) 1 st)"

definition is_read_only_tool :: "'w smith_env \<Rightarrow> string \<Rightarrow> bool" where
  "is_read_only_tool E tool \<longleftrightarrow> tool = ''no-op'' \<or> tool \<in> set (se_read_only E) \<or> tool \<in> set READ_ONLY_ALLOWLIST"

definition deny_non_read_only ::
    "'w smith_env \<Rightarrow> string \<Rightarrow> string \<Rightarrow> string \<Rightarrow> smith_task \<Rightarrow> 'w smith_state \<Rightarrow> step_result \<times> 'w smith_state" where
  "deny_non_read_only E actor rid tool t st =
     close_step E t rid actor tool ''denied'' False False 1 []
       (Some (''Tool '' @ quoted tool @ '' is not in the read-only allowlist.'')) False st"

definition settled_status :: "step_result \<Rightarrow> task_status" where
  "settled_status r = (if step_approval_required r then Task_approval_required
     else if step_success r then Task_completed else Task_failed)"

definition terminal_statuses :: "task_status list" where
  "terminal_statuses = [Task_completed, Task_failed, Escalated, Task_approval_required, Loop_detected]"

definition plan_terminal :: "smith_plan \<Rightarrow> bool" where
  "plan_terminal p \<longleftrightarrow> (\<forall>t \<in> set (plan_tasks p). task_status t \<in> set terminal_statuses)"

text \<open>One step; \<open>ro\<close>: of \<open>run_read_only\<close>.\<close>

definition dry_step :: "'w smith_env \<Rightarrow> bool \<Rightarrow> string \<Rightarrow> string \<Rightarrow> smith_task \<Rightarrow> 'w smith_state \<Rightarrow> step_result \<times> 'w smith_state" where
  "dry_step E ro actor rid t st =
    (let tool = or_else (Some (task_tool t)) ''no-op'' in
     if ro \<and> \<not> is_read_only_tool E tool then deny_non_read_only E actor rid tool t st
     else execute_dry_step E actor rid t st)"

text \<open>The loop of both runs: \<open>n\<close> steps are left, \<open>k\<close> are taken.\<close>

fun dry_loop ::
    "'w smith_env \<Rightarrow> bool \<Rightarrow> string \<Rightarrow> nat \<Rightarrow> nat \<Rightarrow> smith_plan \<Rightarrow> 'w smith_state
     \<Rightarrow> (smith_plan \<times> bool \<times> nat) \<times> 'w smith_state" where
  "dry_loop E ro actor 0 k p st = ((p, False, k), st)"
| "dry_loop E ro actor (Suc n) k p st =
    (if plan_terminal p then ((p, False, k), st)
     else (case runnable_at p of
        None \<Rightarrow> ((p, False, k), st)
      | Some i \<Rightarrow>
          (let t = start_task (plan_request_id p) (plan_tasks p ! i);
               (r, st1) = dry_step E ro actor (plan_request_id p) t st;
               st2 = st1\<lparr>ss_prints := ss_prints st1 @ [fingerprint t r]\<rparr>
           in if detect_loop (ss_prints st2)
              then ((set_task i (t\<lparr>task_status := Loop_detected\<rparr>) p, True, Suc k),
                    dry_audit (plan_request_id p) actor ''loop_detected'' ''blocked'' [(''task_id'', JStr (task_id t))] st2)
              else dry_loop E ro actor n (Suc k) (set_task i (t\<lparr>task_status := settled_status r\<rparr>) p) st2)))"

definition status_count :: "task_status \<Rightarrow> smith_plan \<Rightarrow> nat" where
  "status_count s p = length (filter (\<lambda>t. task_status t = s) (plan_tasks p))"

definition summarize_dry :: "smith_plan \<Rightarrow> string \<Rightarrow> string \<Rightarrow> bool \<Rightarrow> 'w smith_state \<Rightarrow> run_summary" where
  "summarize_dry p rid actor loop st =
    (let completed = status_count Task_completed p; failed = status_count Task_failed p;
         escalated = status_count Escalated p; approvals = status_count Task_approval_required p;
         (status, message) =
           (if loop then (''loop_detected'', ''Dry-run terminated due to detected loop.'')
            else if 0 < escalated \<or> 0 < failed
            then (''needs_attention'', ''Dry-run completed with failures or blocked operations.'')
            else if 0 < approvals
            then (''approval_required'', ''Dry-run completed; approval would be required for one or more changes.'')
            else if completed = length (plan_tasks p) then (''complete'', ''All read-only tasks completed successfully.'')
            else (''incomplete'', ''Dry-run did not complete all tasks.''))
     in \<lparr>sm_request_id = rid, sm_objective = plan_objective p, sm_total = length (plan_tasks p),
         sm_completed = completed, sm_failed = failed, sm_escalated = escalated, sm_approvals = approvals,
         sm_loops = status_count Loop_detected p + (if loop then 1 else 0), sm_status = status,
         sm_message = message, sm_audit = ss_audit st, sm_actor = actor, sm_classification = None, sm_plan = None\<rparr>)"

text \<open>What the audit keeps of a summary.\<close>

definition summary_json :: "run_summary \<Rightarrow> json" where
  "summary_json s = JObj [(''request_id'', JStr (sm_request_id s)), (''objective'', JStr (sm_objective s)),
     (''total_tasks'', JInt (int (sm_total s))), (''completed_tasks'', JInt (int (sm_completed s))),
     (''failed_tasks'', JInt (int (sm_failed s))), (''escalated_tasks'', JInt (int (sm_escalated s))),
     (''approval_required_count'', JInt (int (sm_approvals s))), (''loop_detected_count'', JInt (int (sm_loops s))),
     (''status'', JStr (sm_status s)), (''message'', JStr (sm_message s)),
     (''audit_records'', JList (map event_json (sm_audit s))), (''actor'', JStr (sm_actor s))]"

definition persist_audit :: "'w smith_env \<Rightarrow> 'w smith_state \<Rightarrow> 'w smith_state" where
  "persist_audit E st = (if \<not> se_log_enabled E then st else st\<lparr>ss_log := ss_log st @ ss_audit st\<rparr>)"

definition finish_run :: "'w smith_env \<Rightarrow> string \<Rightarrow> string \<Rightarrow> string \<Rightarrow> run_summary \<Rightarrow> 'w smith_state \<Rightarrow> run_summary \<times> 'w smith_state" where
  "finish_run E action rid actor s st =
     (s, persist_audit E (dry_audit rid actor action (sm_status s) [(''summary'', summary_json s)] st))"

definition run_dry :: "'w smith_env \<Rightarrow> string \<Rightarrow> string \<Rightarrow> string \<Rightarrow> 'w smith_state \<Rightarrow> run_summary \<times> 'w smith_state" where
  "run_dry E obj actor rid st =
    (let st1 = dry_audit rid actor ''run_dry'' ''started'' [(''objective'', JStr obj)] st;
         (p, st2) = make_plan E rid obj st1;
         ((p1, loop, _), st3) = dry_loop E False actor (nat (se_max_steps E)) 0 p st2;
         s = (summarize_dry p1 rid actor loop st3)\<lparr>sm_plan := Some p1\<rparr>
     in finish_run E ''run_dry'' rid actor s st3)"

fun class_value :: "objective_class \<Rightarrow> string" where
  "class_value Inspection = ''inspection''"
| "class_value Validation = ''validation''"
| "class_value Diagnostics = ''diagnostics''"
| "class_value Prohibited_write = ''prohibited_write''"
| "class_value Prohibited_privileged = ''prohibited_privileged''"
| "class_value Ambiguous = ''ambiguous''"

definition refused_summary :: "string \<Rightarrow> string \<Rightarrow> string \<Rightarrow> objective_class \<Rightarrow> string \<Rightarrow> 'w smith_state \<Rightarrow> run_summary" where
  "refused_summary rid obj actor c message st =
     \<lparr>sm_request_id = rid, sm_objective = obj, sm_total = 0, sm_completed = 0, sm_failed = 0, sm_escalated = 0,
      sm_approvals = 0, sm_loops = 0, sm_status = (if c \<noteq> Ambiguous then ''blocked'' else ''ambiguous''),
      sm_message = message, sm_audit = ss_audit st, sm_actor = actor, sm_classification = Some c, sm_plan = None\<rparr>"

definition read_only_message :: "run_summary \<Rightarrow> objective_class \<Rightarrow> string" where
  "read_only_message s c =
    (if sm_status s = ''loop_detected'' then ''Read-only run terminated due to detected loop.''
     else if sm_status s = ''needs_attention'' \<or> sm_status s = ''incomplete''
     then ''Read-only '' @ class_value c @ '' run completed with blocked or failed operations.''
     else if sm_status s = ''complete'' then ''Read-only '' @ class_value c @ '' run completed successfully.''
     else sm_message s)"

definition run_read_only ::
    "'w smith_env \<Rightarrow> string \<Rightarrow> string \<Rightarrow> string \<Rightarrow> 'w smith_state \<Rightarrow> (string + run_summary) \<times> 'w smith_state" where
  "run_read_only E obj actor rid st =
    (case classify_objective (se_order E) obj of
       Inl e \<Rightarrow> (Inl e, st)
     | Inr c \<Rightarrow>
        (let st1 = dry_audit rid actor ''run_read_only'' ''started''
               [(''objective'', JStr obj), (''classification'', JStr (class_value c))] st;
             refuse = (\<lambda>m. let (s, st') = finish_run E ''run_read_only'' rid actor (refused_summary rid obj actor c m st1) st1
                           in (Inr s, st'))
         in if c = Ambiguous then refuse ''Objective is ambiguous and cannot be executed in read-only mode.''
            else if c \<in> {Prohibited_write, Prohibited_privileged}
            then refuse (''Objective classified as '' @ class_value c @ ''; read-only execution refused.'')
            else
             (let (p, st2) = make_plan E rid obj st1;
                  ((p1, loop, _), st3) = dry_loop E True actor (nat (se_max_steps E)) 0 p st2;
                  s0 = summarize_dry p1 rid actor loop st3;
                  s = s0\<lparr>sm_message := read_only_message s0 c, sm_classification := Some c, sm_plan := Some p1\<rparr>;
                  (s', st4) = finish_run E ''run_read_only'' rid actor s st3
              in (Inr s', st4))))"

subsection \<open>The orchestrator\<close>

definition can_invoke :: "'w smith_env \<Rightarrow> string \<Rightarrow> json_obj \<Rightarrow> policy_result" where
  "can_invoke E tool args =
    (let P = se_policy E in
     if tool = ''no-op'' then Agent_Policy.allow
     else (case get_tool tool (se_registry E) of
        None \<Rightarrow>
          (let r = check_operation P (se_resolve E) tool None
           in if decision r \<in> {Allow, Approve} then r
              else deny_with (''Tool '' @ quoted tool @ '' is not registered.''))
      | Some d \<Rightarrow>
          (let r = check_tool_permitted P tool (td_risk d) in
           if decision r = Deny then r
           else (case path_argument args of
                   None \<Rightarrow> r
                 | Some p \<Rightarrow> (let r' = check_path P (se_resolve E) p in if decision r' = Deny then r' else r)))))"

definition invoke_tool ::
    "'w smith_env \<Rightarrow> string \<Rightarrow> json_obj \<Rightarrow> string \<Rightarrow> 'w smith_state \<Rightarrow> (string + json_obj) \<times> 'w smith_state" where
  "invoke_tool E tool args rid st =
    (if tool = ''no-op'' then (Inr [(''noop'', JBool True)], st)
     else
      (let (res, st1) = run_request E (smith_request tool args rid ''agent_smith'') st
       in (if ex_success res then Inr (ex_output res) else Inl (dry_error res), st1)))"

definition orch_result ::
    "'w smith_env \<Rightarrow> smith_task \<Rightarrow> string \<Rightarrow> string \<Rightarrow> bool \<Rightarrow> int \<Rightarrow> json_obj \<Rightarrow> string option \<Rightarrow> bool \<Rightarrow> bool
     \<Rightarrow> 'w smith_state \<Rightarrow> step_result \<times> 'w smith_state" where
  "orch_result E t rid tool ok attempts output err retryable approval st =
    (let outcome = (if approval then ''approval_required'' else if ok then ''success'' else ''failure'');
         st1 = orch_audit rid (''execute_step:'' @ tool) outcome
           [(''task_id'', JStr (task_id t)), (''task_description'', JStr (task_description t)), (''tool_name'', JStr tool),
            (''success'', JBool ok), (''error'', jopt err), (''attempts'', JInt attempts),
            (''approval_required'', JBool approval)] st
     in (new_result E t rid ''agent_smith'' tool ok retryable attempts output err approval (last (ss_orch_audit st1)), st1))"

text \<open>A failing tool raises \<open>ToolInvocationError\<close>, which is always retryable.\<close>

fun orch_attempts ::
    "'w smith_env \<Rightarrow> smith_task \<Rightarrow> string \<Rightarrow> string \<Rightarrow> json_obj \<Rightarrow> nat \<Rightarrow> int \<Rightarrow> 'w smith_state
     \<Rightarrow> step_result \<times> 'w smith_state" where
  "orch_attempts E t rid tool args 0 k st =
     orch_result E t rid tool False 1 [] (Some ''Max retries exceeded'') False False st"
| "orch_attempts E t rid tool args (Suc n) k st =
    (let (out, st1) = invoke_tool E tool args rid st in
     case out of
       Inr output \<Rightarrow> orch_result E t rid tool True k output None False False st1
     | Inl e \<Rightarrow>
         if n = 0 then orch_result E t rid tool False k [] (Some e) True False st1
         else orch_attempts E t rid tool args n (k + 1) st1)"

definition callback_approves :: "'w smith_env \<Rightarrow> string \<Rightarrow> string \<Rightarrow> 'w \<Rightarrow> bool" where
  "callback_approves E tool description w =
    (case se_callback E tool of None \<Rightarrow> False | Some f \<Rightarrow> f description w)"

definition execute_tool_step ::
    "'w smith_env \<Rightarrow> smith_task \<Rightarrow> string \<Rightarrow> string \<Rightarrow> json_obj \<Rightarrow> 'w smith_state \<Rightarrow> step_result \<times> 'w smith_state" where
  "execute_tool_step E t rid tool args st =
    (let p = can_invoke E tool args; attempts = orch_attempts E t rid tool args (nat (se_retries E)) 1 in
     if decision p = Deny then orch_result E t rid tool False 1 [] (reason p) False False st
     else if decision p = Approve then
       (if \<not> callback_approves E tool (task_description t) (ss_world st)
        then orch_result E t rid tool False 1 [] (reason p) False True st
        else if get_tool tool (se_registry E) = None
        then orch_result E t rid tool True 1 [(''approved'', JBool True), (''conceptual'', JBool True)] None False False st
        else attempts st)
     else attempts st)"

definition settle_task :: "'w smith_env \<Rightarrow> step_result \<Rightarrow> smith_task \<Rightarrow> smith_task" where
  "settle_task E r t =
    (if step_approval_required r then t\<lparr>task_status := Task_approval_required, task_approval := Required\<rparr>
     else if step_success r then t\<lparr>task_status := Task_completed, task_approval := Not_required\<rparr>
     else if se_retries E \<le> step_attempts r then t\<lparr>task_status := Escalated\<rparr>
     else t\<lparr>task_status := Task_failed\<rparr>)"

definition execute_step :: "'w smith_env \<Rightarrow> smith_task \<Rightarrow> string \<Rightarrow> 'w smith_state \<Rightarrow> smith_task \<times> 'w smith_state" where
  "execute_step E t0 rid st =
    (let t = (start_task rid t0)\<lparr>task_updated_at := se_now E\<rparr>;
         (r, st1) = execute_tool_step E t rid (task_tool t) (task_arguments t) st
     in (settle_task E r t, st1\<lparr>ss_orch_prints := ss_orch_prints st1 @ [fingerprint t r]\<rparr>))"

lemma find_at_Some: "find_at P xs = Some i \<Longrightarrow> i < length xs \<and> P (xs ! i) \<and> (\<forall>j < i. \<not> P (xs ! j))"
proof (induction xs arbitrary: i)
  case (Cons x xs)
  then show ?case by (auto split: if_splits simp: less_Suc_eq_0_disj nth_Cons')
qed simp

lemma find_at_None: "find_at P xs = None \<longleftrightarrow> (\<forall>x \<in> set xs. \<not> P x)"
  by (induction xs) auto

lemma find_at_find: "map_option (\<lambda>i. xs ! i) (find_at P xs) = List.find P xs"
  by (induction xs) (auto simp: option.map_comp comp_def)

text \<open>\<open>runnable_at\<close> is the place of \<open>next_runnable_task\<close>.\<close>

lemma runnable_at_next: "map_option (\<lambda>i. plan_tasks p ! i) (runnable_at p) = next_runnable_task p"
  by (simp add: runnable_at_def next_runnable_task_def find_at_find Let_def)

lemma settle_not_pending: "task_status (settle_task E r t) \<noteq> Task_pending"
  by (simp add: settle_task_def)

lemma set_task_pending:
  assumes "runnable_at p = Some i" and "task_status t \<noteq> Task_pending"
  shows "length (pending_tasks (set_task i t p)) < length (pending_tasks p)"
proof -
  from find_at_Some [OF assms(1) [unfolded runnable_at_def]]
  have i: "i < length (plan_tasks p)" "task_status (plan_tasks p ! i) = Task_pending" by auto
  let ?P = "\<lambda>t. task_status t = Task_pending"
  have "length (filter ?P (plan_tasks p)) = Suc (length (filter ?P (take i (plan_tasks p) @ drop (Suc i) (plan_tasks p))))"
    using i by (subst id_take_nth_drop [OF i(1)]) simp
  moreover have "length (filter ?P ((plan_tasks p)[i := t])) = length (filter ?P (take i (plan_tasks p) @ drop (Suc i) (plan_tasks p)))"
    using i assms(2) by (simp add: upd_conv_take_nth_drop)
  ultimately show ?thesis by (simp add: pending_tasks_def set_task_def)
qed

lemma execute_step_not_pending: "(t', st') = execute_step E t rid st \<Longrightarrow> task_status t' \<noteq> Task_pending"
  by (auto simp: execute_step_def Let_def settle_not_pending split: prod.splits)

text \<open>The loop of \<open>run\<close> ends: every round takes a task out of the pending ones.\<close>

function orch_loop :: "'w smith_env \<Rightarrow> smith_plan \<Rightarrow> 'w smith_state \<Rightarrow> smith_plan \<times> 'w smith_state" where
  "orch_loop E p st =
    (if is_complete p then (p, st)
     else (case runnable_at p of
        None \<Rightarrow> (p, st)
      | Some i \<Rightarrow> (case execute_step E (plan_tasks p ! i) (plan_request_id p) st of
           (t, st1) \<Rightarrow> orch_loop E (set_task i t p) st1)))"
  by pat_completeness auto
termination
  by (relation "measure (\<lambda>(E, p, st). length (pending_tasks p))")
    (auto intro!: set_task_pending dest: execute_step_not_pending)

declare orch_loop.simps [simp del]

definition summarize :: "smith_plan \<Rightarrow> 'w smith_state \<Rightarrow> run_summary" where
  "summarize p st =
    (let completed = status_count Task_completed p; failed = status_count Task_failed p;
         escalated = status_count Escalated p;
         approvals = status_count Task_approval_required p
           + length (filter (\<lambda>t. task_approval t \<in> {Required, Requested}) (plan_tasks p));
         (status, message) =
           (if 0 < escalated \<or> 0 < failed then (''needs_attention'', ''Run completed with failures or escalations.'')
            else if 0 < approvals
            then (''approval_required'', ''Run completed; approval is required for one or more changes.'')
            else if completed = length (plan_tasks p) then (''complete'', ''All tasks completed successfully.'')
            else (''incomplete'', ''Run did not complete all tasks.''))
     in \<lparr>sm_request_id = plan_request_id p, sm_objective = plan_objective p, sm_total = length (plan_tasks p),
         sm_completed = completed, sm_failed = failed, sm_escalated = escalated, sm_approvals = approvals,
         sm_loops = 0, sm_status = status, sm_message = message, sm_audit = ss_orch_audit st,
         sm_actor = ''agent_smith'', sm_classification = None, sm_plan = None\<rparr>)"

definition run_objective :: "'w smith_env \<Rightarrow> string \<Rightarrow> string \<Rightarrow> 'w smith_state \<Rightarrow> run_summary \<times> 'w smith_state" where
  "run_objective E obj rid st =
    (let (p, st1) = make_plan E rid obj st; (p1, st2) = orch_loop E p st1; s = summarize p1 st2
     in (s, orch_audit (plan_request_id p1) ''summarize'' (sm_status s) [(''summary'', summary_json s)] st2))"

subsection \<open>What a run executes\<close>

text \<open>
  \<open>ran E Q n st st'\<close>: between two states at most \<open>n\<close> requests went to the registry, all of
  them satisfy \<open>Q\<close>, and the world changed by them only.
\<close>

definition run_world :: "'w smith_env \<Rightarrow> exec_request list \<Rightarrow> 'w \<Rightarrow> 'w" where
  "run_world E qs w = fold (\<lambda>q w. snd (execute_tool (se_registry E) q w)) qs w"

definition ran :: "'w smith_env \<Rightarrow> (exec_request \<Rightarrow> bool) \<Rightarrow> nat \<Rightarrow> 'w smith_state \<Rightarrow> 'w smith_state \<Rightarrow> bool" where
  "ran E Q n st st' \<longleftrightarrow> (\<exists>qs. ss_executed st' = ss_executed st @ qs \<and> length qs \<le> n
     \<and> ss_world st' = run_world E qs (ss_world st) \<and> (\<forall>q \<in> set qs. Q q))"

lemma ran_quiet:
  "ss_executed st' = ss_executed st \<Longrightarrow> ss_world st' = ss_world st \<Longrightarrow> ran E Q n st st'"
  unfolding ran_def run_world_def by (rule exI [of _ "[]"]) simp

lemma ran_trans: "ran E Q m st st1 \<Longrightarrow> ran E Q n st1 st2 \<Longrightarrow> ran E Q (m + n) st st2"
proof -
  assume "ran E Q m st st1" "ran E Q n st1 st2"
  then obtain q1 q2 where "ss_executed st1 = ss_executed st @ q1" "length q1 \<le> m"
    "ss_world st1 = run_world E q1 (ss_world st)" "\<forall>q \<in> set q1. Q q"
    "ss_executed st2 = ss_executed st1 @ q2" "length q2 \<le> n"
    "ss_world st2 = run_world E q2 (ss_world st1)" "\<forall>q \<in> set q2. Q q"
    unfolding ran_def by blast
  then show ?thesis unfolding ran_def run_world_def by (intro exI [of _ "q1 @ q2"]) auto
qed

lemma ran_mono: "ran E Q m st st' \<Longrightarrow> m \<le> n \<Longrightarrow> ran E Q n st st'"
  unfolding ran_def by (meson order_trans)

lemma ran_request: "run_request E q st = (res, st') \<Longrightarrow> Q q \<Longrightarrow> ran E Q 1 st st'"
  unfolding ran_def run_world_def run_request_def
  by (intro exI [of _ "[q]"]) (auto split: prod.splits)

lemma audit_simps [simp]:
  "ss_executed (dry_audit rid actor a ou d st) = ss_executed st" "ss_world (dry_audit rid actor a ou d st) = ss_world st"
  "ss_prints (dry_audit rid actor a ou d st) = ss_prints st" "ss_log (dry_audit rid actor a ou d st) = ss_log st"
  "ss_executed (orch_audit rid a ou d st) = ss_executed st" "ss_world (orch_audit rid a ou d st) = ss_world st"
  "ss_prints (orch_audit rid a ou d st) = ss_prints st" "ss_log (orch_audit rid a ou d st) = ss_log st"
  "ss_audit (orch_audit rid a ou d st) = ss_audit st"
  by (simp_all add: dry_audit_def orch_audit_def)

lemma close_step_simps [simp]:
  "ss_executed (snd (close_step E t rid actor tool ou ok re k out err ap st)) = ss_executed st"
  "ss_world (snd (close_step E t rid actor tool ou ok re k out err ap st)) = ss_world st"
  "ss_prints (snd (close_step E t rid actor tool ou ok re k out err ap st)) = ss_prints st"
  "step_tool_name (fst (close_step E t rid actor tool ou ok re k out err ap st)) = Some tool"
  by (simp_all add: close_step_def step_audit_def Let_def new_result_def)

lemma close_step_ran: "ran E Q n st (snd (close_step E' t rid actor tool ou ok re k out err ap st))"
  by (rule ran_quiet) simp_all

lemma orch_result_simps [simp]:
  "ss_executed (snd (orch_result E t rid tool ok k out err re ap st)) = ss_executed st"
  "ss_world (snd (orch_result E t rid tool ok k out err re ap st)) = ss_world st"
  by (simp_all add: orch_result_def Let_def)

lemma dry_attempts_ran:
  assumes "Q (smith_request tool args rid actor)"
  shows "ran E Q n st (snd (dry_attempts E t rid actor tool args n k st))"
proof (induction n arbitrary: k st)
  case 0
  then show ?case by (simp add: close_step_ran)
next
  case (Suc n)
  obtain res st1 where r: "run_request E (smith_request tool args rid actor) st = (res, st1)"
    by (cases "run_request E (smith_request tool args rid actor) st")
  note r1 = ran_request [of E _ st res st1 Q, OF r assms]
  show ?case
    using ran_trans [OF r1 Suc, of "k + 1"] ran_trans [OF r1 close_step_ran]
    by (auto simp: r)
qed

text \<open>A request the dry run may make.\<close>

definition reads_only :: "'w smith_env \<Rightarrow> exec_request \<Rightarrow> bool" where
  "reads_only E q \<longleftrightarrow> (\<exists>d. get_tool (er_tool q) (se_registry E) = Some d \<and> td_risk d = Read_only)
     \<and> (er_tool q \<in> set (se_read_only E) \<or> er_tool q \<in> set (smith_read_only_tools (se_policy E)))"

lemma can_invoke_dry_reads:
  assumes "decision (can_invoke_dry E tool args) \<noteq> Deny" "decision (can_invoke_dry E tool args) \<noteq> Approve"
    and "tool \<noteq> ''no-op''" and "get_tool tool (se_registry E) \<noteq> None"
  shows "reads_only E (smith_request tool args' rid actor)"
proof -
  from assms(4) obtain d where d: "get_tool tool (se_registry E) = Some d" by blast
  have "td_risk d = Read_only"
  proof (rule ccontr)
    assume "td_risk d \<noteq> Read_only"
    then have "can_invoke_dry E tool args = check_tool_permitted (se_policy E) tool (td_risk d)"
      using d assms(3) by (simp add: can_invoke_dry_def)
    with assms(1,2) \<open>td_risk d \<noteq> Read_only\<close> show False
      by (simp add: check_tool_permitted_def split: if_splits)
  qed
  with d assms(1,3) show ?thesis
    by (auto simp: reads_only_def smith_request_def can_invoke_dry_def split: if_splits)
qed

lemma execute_dry_step_ran:
  assumes "\<And>args' rid'. tool_ok \<Longrightarrow> reads_only E (smith_request (task_tool t) args' rid' actor)
      \<Longrightarrow> Q (smith_request (task_tool t) args' rid' actor)" and tool_ok
  shows "ran E Q (nat (se_dry_retries E)) st (snd (execute_dry_step E actor rid t st))"
proof -
  let ?c = "can_invoke_dry E (task_tool t) (task_arguments t)"
  consider "decision ?c = Deny" | "decision ?c \<noteq> Deny" "approval_required ?c \<or> decision ?c = Approve"
    | "decision ?c \<noteq> Deny" "\<not> (approval_required ?c \<or> decision ?c = Approve)" "task_tool t = ''no-op'' \<or> get_tool (task_tool t) (se_registry E) = None"
    | "decision ?c \<noteq> Deny" "\<not> (approval_required ?c \<or> decision ?c = Approve)" "task_tool t \<noteq> ''no-op''" "get_tool (task_tool t) (se_registry E) \<noteq> None"
    by blast
  then show ?thesis
  proof cases
    case 4
    then have "Q (smith_request (task_tool t) (task_arguments t) rid actor)"
      using assms can_invoke_dry_reads by blast
    from dry_attempts_ran [of Q, OF this] 4 show ?thesis
      unfolding execute_dry_step_def Let_def by (simp del: not_None_eq)
  qed (simp_all add: execute_dry_step_def Let_def close_step_ran)
qed

definition dry_request :: "'w smith_env \<Rightarrow> bool \<Rightarrow> exec_request \<Rightarrow> bool" where
  "dry_request E ro q \<longleftrightarrow> reads_only E q \<and> (ro \<longrightarrow> is_read_only_tool E (er_tool q))"

lemma set_task_all:
  "\<forall>t \<in> set (plan_tasks p). P t \<Longrightarrow> P t' \<Longrightarrow> \<forall>t \<in> set (plan_tasks (set_task i t' p)). P t"
  by (auto simp: set_task_def dest!: set_update_subset_insert [THEN subsetD])

lemma runnable_in: "runnable_at p = Some i \<Longrightarrow> plan_tasks p ! i \<in> set (plan_tasks p)"
  using find_at_Some unfolding runnable_at_def by fastforce

lemma task_tool_simps [simp]:
  "task_tool (start_task rid t) = task_tool t" "task_tool (t\<lparr>task_status := s\<rparr>) = task_tool t"
  "task_arguments (start_task rid t) = task_arguments t"
  by (simp_all add: task_tool_def task_arguments_def start_task_def)

lemma dry_step_ran:
  assumes ne: "task_tool t \<noteq> []"
  shows "ran E (dry_request E ro) (nat (se_dry_retries E)) st (snd (dry_step E ro actor rid t st))"
proof (cases "ro \<and> \<not> is_read_only_tool E (task_tool t)")
  case True
  with ne show ?thesis by (simp add: dry_step_def deny_non_read_only_def close_step_ran Let_def)
next
  case False
  have "ran E (dry_request E ro) (nat (se_dry_retries E)) st (snd (execute_dry_step E actor rid t st))"
    by (rule execute_dry_step_ran [where tool_ok = "ro \<longrightarrow> is_read_only_tool E (task_tool t)"])
      (use False in \<open>auto simp: dry_request_def smith_request_def\<close>)
  with False ne show ?thesis by (auto simp: dry_step_def Let_def)
qed

lemma dry_loop_step:
  assumes "\<not> plan_terminal p" and "runnable_at p = Some i" and "t = start_task (plan_request_id p) (plan_tasks p ! i)"
    and "dry_step E ro actor (plan_request_id p) t st = (r, st1)"
  shows "dry_loop E ro actor (Suc n) k p st =
    (let st2 = st1\<lparr>ss_prints := ss_prints st1 @ [fingerprint t r]\<rparr> in
     if detect_loop (ss_prints st2)
     then ((set_task i (t\<lparr>task_status := Loop_detected\<rparr>) p, True, Suc k),
           dry_audit (plan_request_id p) actor ''loop_detected'' ''blocked'' [(''task_id'', JStr (task_id t))] st2)
     else dry_loop E ro actor n (Suc k) (set_task i (t\<lparr>task_status := settled_status r\<rparr>) p) st2)"
  using assms by (simp add: Let_def)

lemma dry_loop_ran:
  assumes "\<forall>t \<in> set (plan_tasks p). task_tool t \<noteq> []"
  shows "ran E (dry_request E ro) (n * nat (se_dry_retries E)) st (snd (dry_loop E ro actor n k p st))"
  using assms
proof (induction n arbitrary: k p st)
  case 0
  then show ?case by (simp add: ran_quiet)
next
  case (Suc n)
  let ?m = "nat (se_dry_retries E)"
  show ?case
  proof (cases "plan_terminal p \<or> runnable_at p = None")
    case True
    then show ?thesis by (auto simp: ran_quiet)
  next
    case False
    then obtain i where i: "runnable_at p = Some i" and np: "\<not> plan_terminal p" by auto
    define t where "t = start_task (plan_request_id p) (plan_tasks p ! i)"
    have ne: "task_tool t \<noteq> []" using Suc.prems runnable_in [OF i] by (simp add: t_def)
    obtain r st1 where r: "dry_step E ro actor (plan_request_id p) t st = (r, st1)"
      by (cases "dry_step E ro actor (plan_request_id p) t st")
    define st2 where "st2 = st1\<lparr>ss_prints := ss_prints st1 @ [fingerprint t r]\<rparr>"
    have "ran E (dry_request E ro) ?m st st1" using dry_step_ran [OF ne, of E ro st actor "plan_request_id p"] r by simp
    moreover have "ran E (dry_request E ro) 0 st1 st2" by (rule ran_quiet) (simp_all add: st2_def)
    ultimately have s2: "ran E (dry_request E ro) ?m st st2" using ran_trans by fastforce
    show ?thesis
      using s2 Suc.IH [OF set_task_all [OF Suc.prems, of "t\<lparr>task_status := settled_status r\<rparr>" i], of st2 "Suc k"] ne
      unfolding dry_loop_step [OF np i t_def r]
      by (auto simp: Let_def st2_def [symmetric] intro: ran_trans ran_mono [OF ran_trans [OF s2 ran_quiet]])
  qed
qed

definition spec_tool :: "task_spec \<Rightarrow> string" where
  "spec_tool sp = fst (snd sp)"

lemma spec_tool_simps [simp]:
  "spec_tool (step_for d tool) = tool" "spec_tool (d, tool, a, ap) = tool" "spec_tool final_summary = ''no-op''"
  by (simp_all add: spec_tool_def step_for_def final_summary_def)

lemma when_in_tools: "sp \<in> set (when_in ks s d tool) \<Longrightarrow> spec_tool sp = tool"
  by (simp add: when_in_def split: if_splits)

lemma diagnostics_tools: "sp \<in> set (diagnostics_tasks s) \<Longrightarrow> spec_tool sp \<noteq> []"
  unfolding diagnostics_tasks_def Let_def by (auto dest!: when_in_tools split: if_splits)

lemma general_tools: "sp \<in> set (general_tasks obj s) \<Longrightarrow> spec_tool sp \<noteq> []"
  unfolding general_tasks_def Let_def by (auto dest!: when_in_tools split: if_splits)

lemma decompose_tools: "sp \<in> set (decompose obj) \<Longrightarrow> spec_tool sp \<noteq> []"
  unfolding decompose_def Let_def using diagnostics_tools general_tools by (auto split: if_splits)

lemma new_task_simps [simp]:
  "task_id (new_task E i sp) = se_ids E i" "task_status (new_task E i sp) = Task_pending"
  "depends_on (new_task E i sp) = []" "task_tool (new_task E i sp) = spec_tool sp"
  by (simp_all add: new_task_def task_tool_def jget_def spec_tool_def split: prod.splits)

lemma plan_for_simps [simp]:
  "plan_request_id (plan_for E rid obj) = rid" "plan_objective (plan_for E rid obj) = obj"
  "length (plan_tasks (plan_for E rid obj)) = length (decompose obj)"
  "i < length (decompose obj) \<Longrightarrow> plan_tasks (plan_for E rid obj) ! i = new_task E i (decompose obj ! i)"
  by (simp_all add: plan_for_def nth_enumerate_eq)

lemma plan_for_tools: "t \<in> set (plan_tasks (plan_for E rid obj)) \<Longrightarrow> task_tool t \<noteq> []"
proof -
  assume "t \<in> set (plan_tasks (plan_for E rid obj))"
  then obtain i where "i < length (decompose obj)" "t = plan_tasks (plan_for E rid obj) ! i"
    by (auto simp: in_set_conv_nth)
  then show ?thesis using decompose_tools [OF nth_mem] by simp
qed

text \<open>C16. A read-only run leaves its mark on the world only through tools that are registered as
  read-only and allowed for reading, at most \<open>max_steps * max_retries\<close> times, and only when the
  objective was classified as a reading one: no prohibited keyword is left in it once negated
  clauses and reading verbs are taken away. A refused objective executes nothing.\<close>

theorem read_only_runs_safe:
  assumes "run_read_only E obj actor rid st = (out, st')"
  shows "\<exists>qs. ss_executed st' = ss_executed st @ qs \<and> ss_world st' = run_world E qs (ss_world st)
    \<and> length qs \<le> nat (se_max_steps E) * nat (se_dry_retries E)
    \<and> (\<forall>q \<in> set qs. reads_only E q \<and> is_read_only_tool E (er_tool q))
    \<and> (qs \<noteq> [] \<longrightarrow> \<not> mentions_keyword PROHIBITED_WRITE (neutralized (se_order E) obj)
         \<and> \<not> mentions_keyword PROHIBITED_PRIVILEGED (neutralized (se_order E) obj))"
proof -
  have quiet: ?thesis if "ss_executed st' = ss_executed st" "ss_world st' = ss_world st"
    using that by (intro exI [of _ "[]"]) (simp add: run_world_def)
  have fin: "ss_executed (snd (finish_run E a rid actor s st2)) = ss_executed st2"
    "ss_world (snd (finish_run E a rid actor s st2)) = ss_world st2" for a s and st2 :: "'a smith_state"
    by (simp_all add: finish_run_def persist_audit_def)
  show ?thesis
  proof (cases "\<exists>c \<in> {Inspection, Validation, Diagnostics}. classify_objective (se_order E) obj = Inr c")
    case False
    have "ss_executed st' = ss_executed st \<and> ss_world st' = ss_world st"
    proof (cases "classify_objective (se_order E) obj")
      case (Inr c)
      with False have "c \<in> {Ambiguous, Prohibited_write, Prohibited_privileged}" by (cases c) auto
      with assms Inr show ?thesis
        by (auto simp: run_read_only_def Let_def finish_run_def persist_audit_def split: if_splits)
    qed (use assms in \<open>simp add: run_read_only_def\<close>)
    with quiet show ?thesis by blast
  next
    case True
    then obtain c where c: "c \<in> {Inspection, Validation, Diagnostics}" "classify_objective (se_order E) obj = Inr c" by blast
    define st1 where "st1 = dry_audit rid actor ''run_read_only'' ''started''
       [(''objective'', JStr obj), (''classification'', JStr (class_value c))] st"
    define st2 where "st2 = snd (make_plan E rid obj st1)"
    define st3 where "st3 = snd (dry_loop E True actor (nat (se_max_steps E)) 0 (plan_for E rid obj) st2)"
    have "ss_executed st' = ss_executed st3 \<and> ss_world st' = ss_world st3"
      using assms c
      by (auto simp: run_read_only_def make_plan_def st1_def st2_def st3_def Let_def finish_run_def persist_audit_def
          split: prod.splits)
    moreover have "ran E (dry_request E True) (nat (se_max_steps E) * nat (se_dry_retries E)) st2 st3"
      unfolding st3_def using plan_for_tools by (intro dry_loop_ran) blast
    moreover have "ss_executed st2 = ss_executed st \<and> ss_world st2 = ss_world st"
      by (simp add: st2_def st1_def make_plan_def Let_def)
    ultimately show ?thesis
      using classify_prohibited [OF c(2,1)] unfolding ran_def dry_request_def by auto
  qed
qed

subsection \<open>Every task is settled\<close>

lemma count_list_distinct: "distinct xs \<Longrightarrow> count_list xs x \<le> 1"
  by (induction xs) (auto simp: count_list_0_iff)

lemma count_zip_tl:
  assumes "distinct xs" shows "distinct (zip xs (tl xs))"
  using assms by (auto intro: distinct_zipI1)

lemma no_loop_distinct:
  assumes "distinct xs" shows "\<not> detect_loop xs"
proof -
  let ?r = "last_n 6 xs"
  have d: "distinct ?r" using assms by (simp add: last_n_def)
  have "\<not> third_time (\<lambda>_. 0) ?r"
    using count_list_distinct [OF d] by (subst third_time_iff) (auto simp: not_le intro: le_less_trans [of _ "Suc 0"])
  moreover have "\<not> 2 \<le> count_list (zip ?r (tl ?r)) (last (zip ?r (tl ?r)))"
    using count_list_distinct [OF count_zip_tl [OF d], of "last (zip ?r (tl ?r))"] by linarith
  moreover have "length (remdups ?r) \<noteq> 1" if "\<not> length xs < 4"
    using d that by (simp add: distinct_remdups_id)
  ultimately show ?thesis
    unfolding detect_loop_def Let_def by presburger
qed

text \<open>The first \<open>k\<close> tasks are settled, the others wait and depend on nothing.\<close>

definition progress :: "nat \<Rightarrow> smith_plan \<Rightarrow> bool" where
  "progress k p \<longleftrightarrow> k \<le> length (plan_tasks p)
     \<and> (\<forall>j < k. task_status (plan_tasks p ! j) \<in> {Task_completed, Task_failed, Task_approval_required})
     \<and> (\<forall>j < length (plan_tasks p). k \<le> j \<longrightarrow> task_status (plan_tasks p ! j) = Task_pending \<and> depends_on (plan_tasks p ! j) = [])"

definition print_id :: "string \<Rightarrow> string" where
  "print_id s = takeWhile (\<lambda>c. c \<noteq> CHR '':'') s"

lemma print_id_fingerprint: "CHR '':'' \<notin> set (task_id t) \<Longrightarrow> print_id (fingerprint t r) = task_id t"
  unfolding print_id_def fingerprint_def by (subst takeWhile_append2) auto

lemma runnable_progress:
  assumes "progress k p" and "k < length (plan_tasks p)"
  shows "runnable_at p = Some k"
proof (cases "runnable_at p")
  case None
  then show ?thesis using assms by (auto simp: runnable_at_def find_at_None progress_def)
next
  case (Some i)
  from find_at_Some [OF this [unfolded runnable_at_def]] assms have "i = k"
    by (cases i k rule: linorder_cases) (auto simp: progress_def)
  with Some show ?thesis by simp
qed

lemma settled_cases: "settled_status r \<in> {Task_completed, Task_failed, Task_approval_required}"
  by (simp add: settled_status_def)

lemma progress_step:
  assumes "progress k p" and "k < length (plan_tasks p)" and "task_status t \<in> {Task_completed, Task_failed, Task_approval_required}"
  shows "progress (Suc k) (set_task k t p)"
  using assms by (auto simp: progress_def set_task_def nth_list_update less_Suc_eq)

lemma progress_terminal:
  assumes "progress k p"
  shows "plan_terminal p \<longleftrightarrow> k = length (plan_tasks p)"
proof
  assume t: "plan_terminal p"
  show "k = length (plan_tasks p)"
  proof (rule ccontr)
    assume "k \<noteq> length (plan_tasks p)"
    with assms have k: "k < length (plan_tasks p)" by (simp add: progress_def)
    with assms have "task_status (plan_tasks p ! k) = Task_pending" by (simp add: progress_def)
    moreover from t k have "task_status (plan_tasks p ! k) \<in> set terminal_statuses" by (simp add: plan_terminal_def)
    ultimately show False by (simp add: terminal_statuses_def)
  qed
qed (use assms in \<open>auto simp: progress_def plan_terminal_def terminal_statuses_def in_set_conv_nth\<close>)

lemma dry_attempts_prints [simp]: "ss_prints (snd (dry_attempts E t rid actor tool args n k st)) = ss_prints st"
proof (induction n arbitrary: k st)
  case (Suc n)
  then show ?case by (auto simp: run_request_def split: prod.splits)
qed simp

lemma dry_step_prints: "ss_prints (snd (dry_step E ro actor rid t st)) = ss_prints st"
  by (simp add: dry_step_def execute_dry_step_def deny_non_read_only_def Let_def)

lemma dry_loop_settles:
  assumes "progress k p" and "length (plan_tasks p) - k \<le> n"
    and "map print_id (ss_prints st) = map task_id (take k (plan_tasks p))"
    and "distinct (map task_id (plan_tasks p))" and "\<forall>t \<in> set (plan_tasks p). CHR '':'' \<notin> set (task_id t)"
  shows "\<exists>p' st'. dry_loop E ro actor n k p st = ((p', False, length (plan_tasks p)), st')
    \<and> progress (length (plan_tasks p)) p' \<and> length (plan_tasks p') = length (plan_tasks p)
    \<and> map task_id (plan_tasks p') = map task_id (plan_tasks p)"
  using assms
proof (induction n arbitrary: k p st)
  case 0
  then have "k = length (plan_tasks p)" by (simp add: progress_def)
  with 0 show ?case by simp
next
  case (Suc n)
  show ?case
  proof (cases "k = length (plan_tasks p)")
    case True
    with Suc.prems show ?thesis by (simp add: progress_terminal)
  next
    case False
    with Suc.prems(1) have k: "k < length (plan_tasks p)" by (simp add: progress_def)
    define t where "t = start_task (plan_request_id p) (plan_tasks p ! k)"
    obtain r st1 where r: "dry_step E ro actor (plan_request_id p) t st = (r, st1)"
      by (cases "dry_step E ro actor (plan_request_id p) t st")
    define st2 where "st2 = st1\<lparr>ss_prints := ss_prints st1 @ [fingerprint t r]\<rparr>"
    define t' where "t' = t\<lparr>task_status := settled_status r\<rparr>"
    have id: "task_id t = task_id (plan_tasks p ! k)" by (simp add: t_def start_task_def)
    have "ss_prints st1 = ss_prints st"
      using dry_step_prints [of E ro actor "plan_request_id p" t st] r by simp
    then have "map print_id (ss_prints st2) = map task_id (take k (plan_tasks p)) @ [task_id (plan_tasks p ! k)]"
      using Suc.prems(3,5) k by (simp add: st2_def print_id_fingerprint id)
    then have prints: "map print_id (ss_prints st2) = map task_id (take (Suc k) (plan_tasks p))"
      using k by (simp add: take_Suc_conv_app_nth)
    then have "distinct (map print_id (ss_prints st2))"
      using Suc.prems(4) by (simp add: take_map [symmetric])
    then have nl: "\<not> detect_loop (ss_prints st2)" by (simp add: no_loop_distinct distinct_map)
    have np: "\<not> plan_terminal p" using progress_terminal [OF Suc.prems(1)] False by simp
    have step: "dry_loop E ro actor (Suc n) k p st = dry_loop E ro actor n (Suc k) (set_task k t' p) st2"
      unfolding dry_loop_step [OF np runnable_progress [OF Suc.prems(1) k] t_def r]
      using nl by (simp add: Let_def st2_def t'_def)
    have ids: "map task_id (plan_tasks (set_task k t' p)) = map task_id (plan_tasks p)"
      using k by (simp add: set_task_def map_update t'_def id list_update_same_conv)
    have len: "length (plan_tasks (set_task k t' p)) = length (plan_tasks p)" by (simp add: set_task_def)
    have i1: "progress (Suc k) (set_task k t' p)"
      by (rule progress_step [OF Suc.prems(1) k]) (simp add: t'_def settled_cases [simplified])
    have i2: "length (plan_tasks (set_task k t' p)) - Suc k \<le> n" using Suc.prems(2) len k by linarith
    have i3: "map print_id (ss_prints st2) = map task_id (take (Suc k) (plan_tasks (set_task k t' p)))"
      unfolding prints take_map [symmetric] ids ..
    have i4: "distinct (map task_id (plan_tasks (set_task k t' p)))" unfolding ids by (rule Suc.prems(4))
    have i5: "\<forall>t \<in> set (plan_tasks (set_task k t' p)). CHR '':'' \<notin> set (task_id t)"
      by (rule set_task_all [OF Suc.prems(5)]) (use Suc.prems(5) k in \<open>simp add: t'_def id\<close>)
    show ?thesis unfolding step using Suc.IH [OF i1 i2 i3 i4 i5] unfolding len ids .
  qed
qed

lemma when_in_length: "length (when_in ks s d tool) \<le> 1"
  by (simp add: when_in_def)

lemma decompose_length: "1 \<le> length (decompose obj) \<and> length (decompose obj) \<le> 6"
proof -
  have "1 \<le> length (diagnostics_tasks s) \<and> length (diagnostics_tasks s) \<le> 6" for s
    using when_in_length [of "[''status'', ''inspect'', ''repository'', ''repo'', ''report'', ''diff'']" s "''Report repository status''" "''repository_status''"]
      when_in_length [of "[''diff'', ''changes'']" s "''Summarize repository diff''" "''repository_diff_summary''"]
      when_in_length [of "[''compile'', ''build'', ''validate'']" s "''Compile project sources''" "''compile_project''"]
      when_in_length [of "[''test'', ''pytest'']" s "''Run project test suite''" "''run_test_suite''"]
    unfolding diagnostics_tasks_def Let_def by (simp split: if_split)
  moreover have "1 \<le> length (general_tasks obj s) \<and> length (general_tasks obj s) \<le> 6" for s
    using when_in_length [of "[''status'', ''inspect'', ''repository'', ''repo'', ''report'']" s "''Report repository status''" "''repository_status''"]
      when_in_length [of "[''diff'', ''changes'']" s "''Summarize repository diff''" "''repository_diff_summary''"]
      when_in_length [of "[''compile'', ''build'', ''validate'']" s "''Compile project sources''" "''compile_project''"]
      when_in_length [of "[''diff validation'', ''validate diff'', ''validate_diff'']" s "''Validate working tree diff''" "''validate_diff''"]
      when_in_length [of "[''test'', ''pytest'']" s "''Run project test suite''" "''run_test_suite''"]
    unfolding general_tasks_def Let_def by (simp add: Suc_le_eq split: if_split)
  ultimately show ?thesis unfolding decompose_def Let_def by simp
qed

lemma status_counts:
  assumes "\<forall>t \<in> set ts. task_status t \<in> {Task_completed, Task_failed, Task_approval_required}"
  shows "length (filter (\<lambda>t. task_status t = Task_completed) ts) + length (filter (\<lambda>t. task_status t = Task_failed) ts)
    + length (filter (\<lambda>t. task_status t = Task_approval_required) ts) = length ts"
    and "filter (\<lambda>t. task_status t = Escalated) ts = []" and "filter (\<lambda>t. task_status t = Loop_detected) ts = []"
  using assms by (induction ts) auto

text \<open>C31. A dry run finishes. With fresh task ids and no fingerprints of earlier runs, six steps are
  enough for every objective: each task of its plan ends completed, failed or waiting for an
  approval, the loop detector stays silent, the counts of the summary add up, and the status is
  complete exactly when every task is.\<close>

theorem dry_run_completes:
  assumes "inj (se_ids E)" and "\<forall>i. CHR '':'' \<notin> set (se_ids E i)" and "ss_prints st = []" and "6 \<le> se_max_steps E"
  shows "\<exists>s p st'. run_dry E obj actor rid st = (s, st') \<and> sm_plan s = Some p
    \<and> length (plan_tasks p) = length (decompose obj) \<and> plan_terminal p
    \<and> sm_loops s = 0 \<and> 1 \<le> sm_total s \<and> sm_completed s + sm_failed s + sm_approvals s = sm_total s
    \<and> (sm_status s = ''complete'' \<longleftrightarrow> sm_completed s = sm_total s)"
proof -
  define st1 where "st1 = dry_audit rid actor ''run_dry'' ''started'' [(''objective'', JStr obj)] st"
  define st2 where "st2 = snd (make_plan E rid obj st1)"
  let ?p = "plan_for E rid obj" and ?n = "length (decompose obj)"
  have "ss_prints st2 = []" using assms(3) by (simp add: st2_def st1_def make_plan_def Let_def)
  moreover have "progress 0 ?p" by (simp add: progress_def new_task_simps)
  moreover have ids: "map task_id (plan_tasks ?p) = map (se_ids E) [0..<?n]"
    by (rule nth_equalityI) simp_all
  moreover have "distinct (map task_id (plan_tasks ?p))"
    unfolding ids using inj_on_subset [OF assms(1)] by (simp add: distinct_map)
  moreover have "\<forall>t \<in> set (plan_tasks ?p). CHR '':'' \<notin> set (task_id t)"
    using assms(2) by (auto simp: in_set_conv_nth)
  moreover have "?n \<le> nat (se_max_steps E)" using decompose_length [of obj] assms(4) by linarith
  ultimately obtain p st3 where l: "dry_loop E False actor (nat (se_max_steps E)) 0 ?p st2 = ((p, False, ?n), st3)"
    and p: "progress ?n p" "length (plan_tasks p) = ?n"
    using dry_loop_settles [of 0 ?p "nat (se_max_steps E)" st2 E False actor] by auto
  have all: "\<forall>t \<in> set (plan_tasks p). task_status t \<in> {Task_completed, Task_failed, Task_approval_required}"
    using p by (auto simp: progress_def in_set_conv_nth)
  let ?s = "(summarize_dry p rid actor False st3)\<lparr>sm_plan := Some p\<rparr>"
  have "run_dry E obj actor rid st = finish_run E ''run_dry'' rid actor ?s st3"
    using l by (simp add: run_dry_def make_plan_def st1_def [symmetric] st2_def Let_def)
  moreover have "sm_loops ?s = 0 \<and> sm_total ?s = ?n \<and> sm_completed ?s + sm_failed ?s + sm_approvals ?s = sm_total ?s
      \<and> (sm_status ?s = ''complete'' \<longleftrightarrow> sm_completed ?s = sm_total ?s)"
    using status_counts [OF all] p(2)
    by (auto simp: summarize_dry_def status_count_def Let_def simp del: length_greater_0_conv length_0_conv
        split: if_splits)
  ultimately show ?thesis
    using p progress_terminal [OF p(1)] decompose_length [of obj]
    by (intro exI [of _ ?s] exI [of _ p] exI conjI) (auto simp: finish_run_def)
qed

subsection \<open>The orchestrator runs what is approved\<close>

text \<open>What allows a task to run its tool in a world: the tool is registered as read-only; or it is
  a controlled write that the policy lists as needing approval, and its callback, asked for this
  task in this world, agrees. A tool on the automatic list that is not registered is asked for
  without approval, and the registry refuses it.\<close>

definition task_approved :: "'w smith_env \<Rightarrow> smith_task \<Rightarrow> 'w \<Rightarrow> bool" where
  "task_approved E t w \<longleftrightarrow>
    (case get_tool (task_tool t) (se_registry E) of
       None \<Rightarrow> task_tool t \<in> set (auto_allowed (se_policy E))
     | Some d \<Rightarrow> td_risk d = Read_only
         \<or> td_risk d = Controlled_write \<and> task_tool t \<in> set (approval_required_ops (se_policy E))
           \<and> callback_approves E (task_tool t) (task_description t) w)"

text \<open>The requests of a run, task by task: the place of each task in the plan and the requests made
  for it, starting from a world.\<close>

fun runs_tasks :: "'w smith_env \<Rightarrow> string \<Rightarrow> smith_task list \<Rightarrow> (nat \<times> exec_request list) list \<Rightarrow> 'w \<Rightarrow> bool" where
  "runs_tasks E rid ts [] w \<longleftrightarrow> True"
| "runs_tasks E rid ts ((i, qs) # ss) w \<longleftrightarrow>
     i < length ts \<and> length qs \<le> nat (se_retries E)
     \<and> (\<forall>q \<in> set qs. q = smith_request (task_tool (ts ! i)) (task_arguments (ts ! i)) rid ''agent_smith'')
     \<and> (qs \<noteq> [] \<longrightarrow> task_approved E (ts ! i) w)
     \<and> runs_tasks E rid ts ss (run_world E qs w)"

lemma orch_attempts_ran:
  assumes "tool \<noteq> ''no-op'' \<Longrightarrow> Q (smith_request tool args rid ''agent_smith'')"
  shows "ran E Q n st (snd (orch_attempts E t rid tool args n k st))"
proof (induction n arbitrary: k st)
  case 0
  then show ?case by (simp add: ran_quiet)
next
  case (Suc n)
  obtain out st1 where r: "invoke_tool E tool args rid st = (out, st1)" by (cases "invoke_tool E tool args rid st")
  have r1: "ran E Q 1 st st1"
  proof (cases "tool = ''no-op''")
    case True
    with r show ?thesis by (simp add: invoke_tool_def ran_quiet)
  next
    case False
    with r obtain res where "run_request E (smith_request tool args rid ''agent_smith'') st = (res, st1)"
      by (auto simp: invoke_tool_def split: prod.splits)
    from ran_request [of E _ st res st1 Q, OF this assms [OF False]] show ?thesis .
  qed
  have "ran E Q n st1 (snd (orch_result E t rid tool ok k' res err re ap st1))" for ok k' res err re ap
    by (rule ran_quiet) simp_all
  with Suc [of st1 "k + 1"] show ?case
    using ran_trans [OF r1, of n] by (cases "n = 0") (simp_all add: r split: sum.split)
qed

definition task_request :: "smith_task \<Rightarrow> string \<Rightarrow> exec_request" where
  "task_request t rid = smith_request (task_tool t) (task_arguments t) rid ''agent_smith''"

lemma execute_step_ran:
  "ran E (\<lambda>q. q = task_request t0 rid \<and> task_approved E t0 (ss_world st)) (nat (se_retries E)) st
    (snd (execute_step E t0 rid st))"
proof -
  define t where "t = (start_task rid t0)\<lparr>task_updated_at := se_now E\<rparr>"
  have same: "task_tool t = task_tool t0" "task_arguments t = task_arguments t0" "task_description t = task_description t0"
    by (simp_all add: t_def start_task_def task_tool_def task_arguments_def)
  let ?p = "can_invoke E (task_tool t) (task_arguments t)"
  let ?Q = "\<lambda>q. q = task_request t0 rid \<and> task_approved E t0 (ss_world st)"
  let ?q = "smith_request (task_tool t) (task_arguments t) rid ''agent_smith''"
  have ok: "?Q ?q"
    if "task_tool t \<noteq> ''no-op''" "decision ?p = Allow \<or> decision ?p = Approve \<and> get_tool (task_tool t) (se_registry E) \<noteq> None
        \<and> callback_approves E (task_tool t) (task_description t) (ss_world st)"
    using that
    by (auto simp: task_approved_def task_request_def same can_invoke_def check_tool_permitted_def check_operation_def Let_def
        split: option.splits if_splits)
  have "ran E ?Q (nat (se_retries E)) st (snd (execute_tool_step E t rid (task_tool t) (task_arguments t) st))"
  proof (cases "decision ?p")
    case Allow
    with ok show ?thesis by (simp add: execute_tool_step_def Let_def orch_attempts_ran)
  next
    case Approve
    with ok show ?thesis
      by (auto simp: execute_tool_step_def Let_def ran_quiet intro: orch_attempts_ran)
  next
    case Deny
    then show ?thesis by (simp add: execute_tool_step_def Let_def ran_quiet)
  qed
  then show ?thesis
    unfolding execute_step_def t_def [symmetric] Let_def ran_def
    by (cases "execute_tool_step E t rid (task_tool t) (task_arguments t) st") simp
qed

lemma orch_loop_unfold:
  "\<not> is_complete p \<Longrightarrow> runnable_at p = Some i \<Longrightarrow> execute_step E (plan_tasks p ! i) (plan_request_id p) st = (t, st1)
    \<Longrightarrow> orch_loop E p st = orch_loop E (set_task i t p) st1"
  by (subst orch_loop.simps) simp

lemma orch_loop_stop: "is_complete p \<or> runnable_at p = None \<Longrightarrow> orch_loop E p st = (p, st)"
  by (subst orch_loop.simps) auto

text \<open>The tasks that are still pending are those of the plan as it was made.\<close>

definition same_task :: "smith_task \<Rightarrow> smith_task \<Rightarrow> bool" where
  "same_task t u \<longleftrightarrow> task_tool t = task_tool u \<and> task_arguments t = task_arguments u
     \<and> task_description t = task_description u"

lemma task_approved_same: "same_task t u \<Longrightarrow> task_approved E t w = task_approved E u w"
  by (simp add: same_task_def task_approved_def cong: option.case_cong)

definition pending_at :: "smith_plan \<Rightarrow> nat set" where
  "pending_at p = {i. i < length (plan_tasks p) \<and> task_status (plan_tasks p ! i) = Task_pending}"

lemma runnable_pending: "runnable_at p = Some i \<Longrightarrow> i \<in> pending_at p"
  using find_at_Some [of _ "plan_tasks p" i] by (auto simp: runnable_at_def pending_at_def)

lemma pending_at_set_task:
  "task_status t \<noteq> Task_pending \<Longrightarrow> pending_at (set_task i t p) = pending_at p - {i}"
proof -
  assume "task_status t \<noteq> Task_pending"
  then have "task_status ((plan_tasks p)[i := t] ! j) = Task_pending \<longleftrightarrow>
      j \<noteq> i \<and> task_status (plan_tasks p ! j) = Task_pending" if "j < length (plan_tasks p)" for j
    using that by (cases "j = i") auto
  then show ?thesis by (auto simp: pending_at_def set_task_def)
qed

lemma orch_loop_runs:
  assumes "length ts = length (plan_tasks p)" and "\<forall>i \<in> pending_at p. same_task (plan_tasks p ! i) (ts ! i)"
  shows "\<exists>ss. ss_executed (snd (orch_loop E p st)) = ss_executed st @ concat (map snd ss)
    \<and> ss_world (snd (orch_loop E p st)) = run_world E (concat (map snd ss)) (ss_world st)
    \<and> runs_tasks E (plan_request_id p) ts ss (ss_world st)
    \<and> distinct (map fst ss) \<and> fst ` set ss \<subseteq> pending_at p"
  using assms
proof (induction E p st rule: orch_loop.induct)
  case (1 E p st)
  show ?case
  proof (cases "is_complete p \<or> runnable_at p = None")
    case True
    then show ?thesis by (intro exI [of _ "[]"]) (simp add: orch_loop_stop run_world_def)
  next
    case False
    then obtain i where i: "runnable_at p = Some i" and nc: "\<not> is_complete p" by auto
    obtain t st1 where e: "execute_step E (plan_tasks p ! i) (plan_request_id p) st = (t, st1)"
      by (cases "execute_step E (plan_tasks p ! i) (plan_request_id p) st")
    note pi = runnable_pending [OF i]
    let ?p = "set_task i t p"
    have rest: "pending_at ?p = pending_at p - {i}"
      by (rule pending_at_set_task [OF execute_step_not_pending [OF e [symmetric]]])
    have p: "plan_request_id ?p = plan_request_id p" "length (plan_tasks ?p) = length (plan_tasks p)"
      "\<And>j. j \<noteq> i \<Longrightarrow> plan_tasks ?p ! j = plan_tasks p ! j"
      by (simp_all add: set_task_def)
    from execute_step_ran [of E "plan_tasks p ! i" "plan_request_id p" st] e obtain qs
      where qs: "ss_executed st1 = ss_executed st @ qs" "ss_world st1 = run_world E qs (ss_world st)"
        "length qs \<le> nat (se_retries E)"
        "\<forall>q \<in> set qs. q = task_request (plan_tasks p ! i) (plan_request_id p)
           \<and> task_approved E (plan_tasks p ! i) (ss_world st)"
      by (auto simp: ran_def)
    have "\<forall>j \<in> pending_at ?p. same_task (plan_tasks ?p ! j) (ts ! j)"
      using "1.prems"(2) by (simp add: rest p(3))
    with "1.IH" [OF nc i e [symmetric]] "1.prems"(1) p(1,2) obtain ss where
      ss: "ss_executed (snd (orch_loop E ?p st1)) = ss_executed st1 @ concat (map snd ss)"
        "ss_world (snd (orch_loop E ?p st1)) = run_world E (concat (map snd ss)) (ss_world st1)"
        "runs_tasks E (plan_request_id p) ts ss (ss_world st1)"
        "distinct (map fst ss)" "fst ` set ss \<subseteq> pending_at p - {i}"
      by (auto simp: rest)
    have same: "same_task (plan_tasks p ! i) (ts ! i)" "i < length ts"
      using "1.prems" pi by (auto simp: pending_at_def)
    have "task_approved E (plan_tasks p ! i) (ss_world st)" if "qs \<noteq> []"
      using that qs(4) by (cases qs) auto
    then have "qs \<noteq> [] \<longrightarrow> task_approved E (ts ! i) (ss_world st)"
      using task_approved_same [OF same(1), of E "ss_world st"] by simp
    moreover have "\<forall>q \<in> set qs. q = smith_request (task_tool (ts ! i)) (task_arguments (ts ! i)) (plan_request_id p) ''agent_smith''"
      using same(1) qs(4) by (simp add: same_task_def task_request_def)
    ultimately have "runs_tasks E (plan_request_id p) ts ((i, qs) # ss) (ss_world st)"
      using qs(2,3) ss(3) same(2) by simp
    moreover have "distinct (map fst ((i, qs) # ss))" "fst ` set ((i, qs) # ss) \<subseteq> pending_at p"
      using ss(4,5) pi by auto
    moreover have "snd (orch_loop E p st) = snd (orch_loop E ?p st1)" by (simp add: orch_loop_unfold [OF nc i e])
    ultimately show ?thesis
      using ss(1,2) qs(1,2) by (intro exI [of _ "(i, qs) # ss"]) (simp add: run_world_def)
  qed
qed

lemma runs_tasks_length:
  "runs_tasks E rid ts ss w \<Longrightarrow> length (concat (map snd ss)) \<le> length ss * nat (se_retries E)"
  by (induction E rid ts ss w rule: runs_tasks.induct) auto

lemma runs_tasks_places: "runs_tasks E rid ts ss w \<Longrightarrow> fst ` set ss \<subseteq> {..< length ts}"
  by (induction E rid ts ss w rule: runs_tasks.induct) auto

text \<open>C17. The orchestrator goes through the tasks of its plan, each at most once. For a task it
  sends the registry nothing but that task's own request, at most as many times as there are
  retries, and only when the task may run in the world it then meets: its tool is registered as
  read-only, or it is a controlled write that the policy lists as needing approval and the callback,
  asked for that tool with the description of that very task, agrees at that moment (an
  unregistered tool on the automatic list is merely looked up and refused). Nothing else is
  executed, and nothing else changes the world; in all there are at most as many requests as tasks
  times retries.\<close>

theorem orchestrator_runs_approved:
  "\<exists>s st' ss. run_objective E obj rid st = (s, st')
    \<and> ss_executed st' = ss_executed st @ concat (map snd ss)
    \<and> ss_world st' = run_world E (concat (map snd ss)) (ss_world st)
    \<and> runs_tasks E rid (plan_tasks (plan_for E rid obj)) ss (ss_world st)
    \<and> distinct (map fst ss)
    \<and> length (concat (map snd ss)) \<le> length (decompose obj) * nat (se_retries E)"
proof -
  let ?p = "plan_for E rid obj"
  define st1 where "st1 = snd (make_plan E rid obj st)"
  obtain p st2 where l: "orch_loop E ?p st1 = (p, st2)" by (cases "orch_loop E ?p st1")
  have st1: "ss_executed st1 = ss_executed st" "ss_world st1 = ss_world st"
    by (simp_all add: st1_def make_plan_def Let_def)
  from orch_loop_runs [of "plan_tasks ?p" ?p E st1] l st1 obtain ss where
    ss: "ss_executed st2 = ss_executed st @ concat (map snd ss)"
      "ss_world st2 = run_world E (concat (map snd ss)) (ss_world st)"
      "runs_tasks E rid (plan_tasks ?p) ss (ss_world st)" "distinct (map fst ss)"
    by (auto simp: same_task_def)
  have "length ss = card (fst ` set ss)" using distinct_card [OF ss(4)] by simp
  also have "\<dots> \<le> length (plan_tasks ?p)"
    using card_mono [OF _ runs_tasks_places [OF ss(3)]] by simp
  also have "\<dots> = length (decompose obj)" by simp
  finally have "length (concat (map snd ss)) \<le> length (decompose obj) * nat (se_retries E)"
    using runs_tasks_length [OF ss(3)] mult_le_mono1 by (blast intro: le_trans)
  moreover have "run_objective E obj rid st = (summarize p st2, orch_audit (plan_request_id p) ''summarize''
      (sm_status (summarize p st2)) [(''summary'', summary_json (summarize p st2))] st2)"
    using l by (simp add: run_objective_def make_plan_def st1_def Let_def)
  ultimately show ?thesis
    using ss by (intro exI [of _ "summarize p st2"] exI [of _ ss] exI conjI)
      (assumption | simp)+
qed

text \<open>Every task of a plan is settled when the run ends.\<close>

definition task_shape :: "smith_task \<Rightarrow> bool" where
  "task_shape t \<longleftrightarrow> depends_on t = []
     \<and> task_status t \<in> {Task_pending, Task_completed, Task_failed, Escalated, Task_approval_required}
     \<and> (task_status t = Task_approval_required \<longrightarrow> task_approval t = Required)"

lemma execute_step_shape:
  assumes "(t', st') = execute_step E t rid st" and "depends_on t = []"
  shows "task_shape t'"
  using assms
  by (auto simp: execute_step_def Let_def settle_task_def task_shape_def start_task_def split: prod.splits)

lemma orch_loop_settles:
  "\<forall>t \<in> set (plan_tasks p). task_shape t \<Longrightarrow>
     (\<forall>t \<in> set (plan_tasks (fst (orch_loop E p st))). task_shape t \<and> task_status t \<noteq> Task_pending)
     \<and> length (plan_tasks (fst (orch_loop E p st))) = length (plan_tasks p)"
proof (induction E p st rule: orch_loop.induct)
  case (1 E p st)
  show ?case
  proof (cases "is_complete p \<or> runnable_at p = None")
    case True
    moreover have "task_status t \<noteq> Task_pending" if "t \<in> set (plan_tasks p)" for t
      using True 1(2) that by (auto simp: is_complete_def runnable_at_def find_at_None task_shape_def)
    ultimately show ?thesis using 1(2) by (simp add: orch_loop_stop)
  next
    case False
    then obtain i where i: "runnable_at p = Some i" and nc: "\<not> is_complete p" by auto
    obtain t st1 where e: "execute_step E (plan_tasks p ! i) (plan_request_id p) st = (t, st1)"
      by (cases "execute_step E (plan_tasks p ! i) (plan_request_id p) st")
    have "task_shape t"
      using execute_step_shape [OF e [symmetric]] 1(2) runnable_in [OF i] by (auto simp: task_shape_def)
    from "1.IH" [OF nc i e [symmetric] set_task_all [OF 1(2) this]] show ?thesis
      by (simp add: orch_loop_unfold [OF nc i e] set_task_def)
  qed
qed

lemma settled_counts:
  assumes "\<forall>t \<in> set ts. task_status t \<notin> {Task_pending, In_progress, Loop_detected}"
  shows "length (filter (\<lambda>t. task_status t = Task_completed) ts) + length (filter (\<lambda>t. task_status t = Task_failed) ts)
    + length (filter (\<lambda>t. task_status t = Escalated) ts) + length (filter (\<lambda>t. task_status t = Task_approval_required) ts) = length ts"
  using assms
proof (induction ts)
  case (Cons t ts)
  then show ?case by (cases "task_status t") simp_all
qed simp

lemma waiting_counts:
  assumes "\<forall>t \<in> set ts. task_shape t"
  shows "length (filter (\<lambda>t. task_status t = Task_approval_required) ts)
      \<le> length (filter (\<lambda>t. task_approval t \<in> {Required, Requested}) ts)"
  using assms
proof (induction ts)
  case (Cons t ts)
  then show ?case by (cases "task_status t = Task_approval_required") (simp_all add: task_shape_def le_SucI)
qed simp

lemma summarize_simps:
  "sm_total (summarize p st) = length (plan_tasks p)" "sm_completed (summarize p st) = status_count Task_completed p"
  "sm_failed (summarize p st) = status_count Task_failed p" "sm_escalated (summarize p st) = status_count Escalated p"
  "sm_approvals (summarize p st) = status_count Task_approval_required p
     + length (filter (\<lambda>t. task_approval t \<in> {Required, Requested}) (plan_tasks p))"
  by (simp_all add: summarize_def Let_def split: prod.split)

lemma summarize_incomplete:
  "sm_status (summarize p st) = ''incomplete'' \<Longrightarrow> sm_failed (summarize p st) = 0 \<and> sm_escalated (summarize p st) = 0
     \<and> sm_approvals (summarize p st) = 0 \<and> sm_completed (summarize p st) \<noteq> sm_total (summarize p st)"
  unfolding summarize_simps by (simp add: summarize_def Let_def split: if_split_asm)

text \<open>The run of the orchestrator ends with every task of the plan settled: completed, failed,
  escalated or waiting for an approval, and never reports an incomplete run. But it counts each
  task that waits for an approval at least twice.\<close>

theorem run_settles_tasks:
  "sm_total (fst (run_objective E obj rid st)) = length (decompose obj)
   \<and> sm_status (fst (run_objective E obj rid st)) \<noteq> ''incomplete''
   \<and> (\<exists>waiting. sm_completed (fst (run_objective E obj rid st)) + sm_failed (fst (run_objective E obj rid st))
          + sm_escalated (fst (run_objective E obj rid st)) + waiting = sm_total (fst (run_objective E obj rid st))
        \<and> 2 * waiting \<le> sm_approvals (fst (run_objective E obj rid st)))"
proof -
  let ?p = "plan_for E rid obj"
  define st1 where "st1 = snd (make_plan E rid obj st)"
  obtain p st2 where l: "orch_loop E ?p st1 = (p, st2)" by (cases "orch_loop E ?p st1")
  have "\<forall>t \<in> set (plan_tasks ?p). task_shape t" by (auto simp: in_set_conv_nth task_shape_def)
  from orch_loop_settles [OF this, of E st1] l
  have p: "\<forall>t \<in> set (plan_tasks p). task_shape t \<and> task_status t \<noteq> Task_pending"
    "length (plan_tasks p) = length (decompose obj)" by auto
  have s: "fst (run_objective E obj rid st) = summarize p st2"
    using l by (simp add: run_objective_def make_plan_def st1_def Let_def)
  have waits: "\<forall>t \<in> set (plan_tasks p). task_shape t" using p(1) by blast
  have done4: "\<forall>t \<in> set (plan_tasks p). task_status t \<notin> {Task_pending, In_progress, Loop_detected}"
    using p(1) by (auto simp: task_shape_def)
  note counts = settled_counts [OF done4, folded status_count_def] waiting_counts [OF waits, folded status_count_def]
  have "sm_status (summarize p st2) \<noteq> ''incomplete''"
  proof
    assume "sm_status (summarize p st2) = ''incomplete''"
    from summarize_incomplete [OF this, unfolded summarize_simps] counts show False by linarith
  qed
  moreover have "2 * status_count Task_approval_required p \<le> sm_approvals (summarize p st2)"
    using counts(2) unfolding summarize_simps by linarith
  ultimately show ?thesis
    unfolding s using counts(1) p(2) by (auto simp: summarize_simps(1-4))
qed

subsection \<open>The audit log holds no secrets\<close>

fun clean_json :: "json \<Rightarrow> bool" where
  "clean_json (JObj d) = (\<forall>kv \<in> set d. clean_json (snd kv))"
| "clean_json (JList xs) = (\<forall>x \<in> set xs. clean_json x)"
| "clean_json (JStr s) = (\<forall>t \<in> set SANITIZED_TERMS. \<not> sublist t (str_lower s))"
| "clean_json _ = True"

lemma clean_sanitized: "clean_json (sanitize_for_audit j)"
proof (induction j rule: sanitize_for_audit.induct)
  case (3 s)
  have "\<forall>t \<in> set SANITIZED_TERMS. \<not> sublist t (str_lower ''<redacted>'')" by code_simp
  then show ?case by auto
qed auto

definition clean_event :: "audit_event \<Rightarrow> bool" where
  "clean_event e \<longleftrightarrow> (\<forall>kv \<in> set (audit_details e). clean_json (snd kv))"

text \<open>Only clean events are added to the audit, and nothing to the log.\<close>

definition audits :: "'w smith_state \<Rightarrow> 'w smith_state \<Rightarrow> bool" where
  "audits st st' \<longleftrightarrow> ss_log st' = ss_log st
     \<and> (\<exists>es. ss_audit st' = ss_audit st @ es \<and> (\<forall>e \<in> set es. clean_event e))"

lemma audits_refl: "ss_log st' = ss_log st \<Longrightarrow> ss_audit st' = ss_audit st \<Longrightarrow> audits st st'"
  by (simp add: audits_def)

lemma audits_trans: "audits st st1 \<Longrightarrow> audits st1 st2 \<Longrightarrow> audits st st2"
  unfolding audits_def by (metis append.assoc in_set_conv_decomp_last Un_iff set_append)

lemma audits_dry: "audits st (dry_audit rid actor a ou d st)"
  unfolding audits_def dry_audit_def by (auto simp: clean_event_def clean_sanitized)

lemma audits_close: "audits st (snd (close_step E t rid actor tool ou ok re k res err ap st))"
  by (simp add: close_step_def step_audit_def Let_def audits_dry)

lemma audits_attempts: "audits st (snd (dry_attempts E t rid actor tool args n k st))"
proof (induction n arbitrary: k st)
  case 0
  then show ?case by (simp add: audits_close)
next
  case (Suc n)
  obtain res st1 where r: "run_request E (smith_request tool args rid actor) st = (res, st1)"
    by (cases "run_request E (smith_request tool args rid actor) st")
  then have a: "audits st st1" by (auto simp: run_request_def audits_refl split: prod.splits)
  show ?case
    by (auto simp: r intro: audits_trans [OF a Suc] audits_trans [OF a audits_close])
qed

lemma audits_step: "audits st (snd (dry_step E ro actor rid t st))"
  by (simp add: dry_step_def execute_dry_step_def deny_non_read_only_def Let_def audits_close audits_attempts)

lemma audits_loop: "audits st (snd (dry_loop E ro actor n k p st))"
proof (induction n arbitrary: k p st)
  case 0
  then show ?case by (simp add: audits_refl)
next
  case (Suc n)
  show ?case
  proof (cases "plan_terminal p \<or> runnable_at p = None")
    case True
    then show ?thesis by (auto simp: audits_refl)
  next
    case False
    then obtain i where i: "runnable_at p = Some i" and np: "\<not> plan_terminal p" by auto
    define t where "t = start_task (plan_request_id p) (plan_tasks p ! i)"
    obtain r st1 where r: "dry_step E ro actor (plan_request_id p) t st = (r, st1)"
      by (cases "dry_step E ro actor (plan_request_id p) t st")
    define st2 where "st2 = st1\<lparr>ss_prints := ss_prints st1 @ [fingerprint t r]\<rparr>"
    have "audits st st1" using audits_step [of st E ro actor "plan_request_id p" t] r by simp
    then have s2: "audits st st2" using audits_trans audits_refl [of st2 st1] by (simp add: st2_def)
    show ?thesis
      unfolding dry_loop_step [OF np i t_def r]
      using audits_trans [OF s2 Suc] audits_trans [OF s2 audits_dry] by (simp add: Let_def st2_def [symmetric])
  qed
qed

lemma audits_plan: "audits st (snd (make_plan E rid obj st))"
  by (simp add: make_plan_def Let_def audits_refl)

lemma log_after_finish:
  assumes "\<forall>e \<in> set (ss_audit st). clean_event e" and "audits st st1"
  shows "\<exists>es. ss_log (persist_audit E (dry_audit rid actor a ou d st1)) = ss_log st @ es \<and> (\<forall>e \<in> set es. clean_event e)"
proof -
  have "audits st (dry_audit rid actor a ou d st1)"
    using audits_trans [OF assms(2) audits_dry] .
  with assms(1) show ?thesis by (auto simp: persist_audit_def audits_def)
qed

text \<open>Whatever the objective, the tools' output and their errors are, no text in the details of
  the lines that a run appends to the audit log contains one of the sensitive terms.\<close>

theorem audit_log_clean:
  assumes "\<forall>e \<in> set (ss_audit st). clean_event e"
  shows "(\<exists>es. ss_log (snd (run_dry E obj actor rid st)) = ss_log st @ es \<and> (\<forall>e \<in> set es. clean_event e))
    \<and> (\<exists>es. ss_log (snd (run_read_only E obj actor rid st)) = ss_log st @ es \<and> (\<forall>e \<in> set es. clean_event e))"
proof
  define st1 where "st1 = dry_audit rid actor ''run_dry'' ''started'' [(''objective'', JStr obj)] st"
  obtain p st2 where p: "make_plan E rid obj st1 = (p, st2)" by (cases "make_plan E rid obj st1")
  obtain p1 lo k st3 where l: "dry_loop E False actor (nat (se_max_steps E)) 0 p st2 = ((p1, lo, k), st3)"
    by (cases "dry_loop E False actor (nat (se_max_steps E)) 0 p st2") auto
  have "audits st1 st2" using audits_plan [of st1 E rid obj] p by simp
  moreover have "audits st2 st3" using audits_loop [of st2 E False actor "nat (se_max_steps E)" 0 p] l by simp
  ultimately have "audits st st3" using audits_trans audits_dry unfolding st1_def by blast
  from log_after_finish [OF assms this]
  show "\<exists>es. ss_log (snd (run_dry E obj actor rid st)) = ss_log st @ es \<and> (\<forall>e \<in> set es. clean_event e)"
    using p l by (simp add: run_dry_def st1_def [symmetric] finish_run_def Let_def)
next
  show "\<exists>es. ss_log (snd (run_read_only E obj actor rid st)) = ss_log st @ es \<and> (\<forall>e \<in> set es. clean_event e)"
  proof (cases "classify_objective (se_order E) obj")
    case (Inl e)
    then show ?thesis by (simp add: run_read_only_def)
  next
    case (Inr c)
    define st1 where "st1 = dry_audit rid actor ''run_read_only'' ''started''
       [(''objective'', JStr obj), (''classification'', JStr (class_value c))] st"
    have st1: "audits st st1" unfolding st1_def by (rule audits_dry)
    obtain p st2 where p: "make_plan E rid obj st1 = (p, st2)" by (cases "make_plan E rid obj st1")
    obtain p1 lo k st3 where l: "dry_loop E True actor (nat (se_max_steps E)) 0 p st2 = ((p1, lo, k), st3)"
      by (cases "dry_loop E True actor (nat (se_max_steps E)) 0 p st2") auto
    have "audits st1 st2" using audits_plan [of st1 E rid obj] p by simp
    moreover have "audits st2 st3" using audits_loop [of st2 E True actor "nat (se_max_steps E)" 0 p] l by simp
    ultimately have "audits st st3" using audits_trans st1 by blast
    note logs = log_after_finish [OF assms this] log_after_finish [OF assms st1]
    show ?thesis
      using logs by (simp add: run_read_only_def Inr st1_def [symmetric] finish_run_def Let_def p l)
  qed
qed

subsection \<open>Concrete runs\<close>

definition sample_smith_env :: "nat smith_env" where
  "sample_smith_env = \<lparr>
     se_registry = Live \<lparr>reg_tools = [(''repository_status'', sample_tool ''repository_status'' None)],
       reg_impls = [(''repository_status'', \<lambda>q t w. (Impl_output (Some [(''branch'', JStr ''token=1'')]), w + 1))],
       reg_enabled = True, reg_default_timeout = 30\<rparr>,
     se_policy = shipped_policy [''repo''], se_resolve = path_parts, se_order = source_order,
     se_read_only = READ_ONLY_ALLOWLIST, se_max_steps = 10, se_dry_retries = 2, se_retries = 3,
     se_callback = (\<lambda>_. None), se_log_enabled = True, se_ids = (\<lambda>i. replicate i CHR ''a''), se_now = 0\<rparr>"

definition sample_smith_state :: "nat smith_state" where
  "sample_smith_state = \<lparr>ss_world = 0, ss_executed = [], ss_audit = [], ss_prints = [], ss_log = [],
     ss_orch_audit = [], ss_orch_prints = []\<rparr>"

lemmas smith_sample_defs = sample_smith_env_def sample_smith_state_def sample_tool_def

text \<open>What the run of \<open>check status\<close> does.\<close>

lemma sample_classified: "classify_objective (se_order sample_smith_env) ''check status'' = Inr Inspection"
proof -
  have "classify_objective source_order ''check status'' = Inr Inspection" by code_simp
  then show ?thesis by (simp add: sample_smith_env_def)
qed

lemma sample_decompose: "decompose ''check status'' = [step_for ''Report repository status'' ''repository_status'']"
  by code_simp

lemma sample_executes: "ss_executed (snd (run_read_only sample_smith_env ''check status'' ''joe'' ''r'' sample_smith_state)) \<noteq> []"
proof -
  define st1 where "st1 = dry_audit ''r'' ''joe'' ''run_read_only'' ''started''
     [(''objective'', JStr ''check status''), (''classification'', JStr (class_value Inspection))] sample_smith_state"
  obtain p st2 where p: "make_plan sample_smith_env ''r'' ''check status'' st1 = (p, st2)"
    by (cases "make_plan sample_smith_env ''r'' ''check status'' st1")
  then have p2: "p = plan_for sample_smith_env ''r'' ''check status''" "ss_executed st2 = []" "ss_world st2 = 0"
    by (auto simp: make_plan_def Let_def st1_def sample_smith_state_def)
  have tasks: "plan_tasks p = [new_task sample_smith_env 0 (step_for ''Report repository status'' ''repository_status'')]"
    by (simp add: p2 plan_for_def sample_decompose)
  have np: "\<not> plan_terminal p" by (simp add: plan_terminal_def tasks terminal_statuses_def)
  have i: "runnable_at p = Some 0" by (simp add: runnable_at_def tasks)
  define t where "t = start_task (plan_request_id p) (plan_tasks p ! 0)"
  have tool: "task_tool t = ''repository_status''" by (simp add: t_def tasks)
  obtain r st3 where r: "dry_step sample_smith_env True ''joe'' (plan_request_id p) t st2 = (r, st3)"
    by (cases "dry_step sample_smith_env True ''joe'' (plan_request_id p) t st2")
  have "task_arguments t = []"
    by (simp add: t_def tasks task_arguments_def start_task_def new_task_def step_for_def jget_def as_dict_def)
  then have "ss_executed (snd (dry_step sample_smith_env True ''joe'' (plan_request_id p) t st2)) \<noteq> []"
    by (simp add: dry_step_def Let_def tool is_read_only_tool_def READ_ONLY_ALLOWLIST_def DRY_RUN_READ_ONLY_TOOLS_def
        execute_dry_step_def can_invoke_dry_def smith_sample_defs get_tool_def path_argument_def jget_def
        run_request_def smith_request_def execute_tool_def normalize_arguments_def validate_arguments_def
        run_implementation_def authorize_def truthy_def eval_nat_numeral split: prod.split)
  with r have e: "ss_executed st3 \<noteq> []" by simp
  have "ss_executed (snd (dry_loop sample_smith_env True ''joe'' (nat (se_max_steps sample_smith_env)) 0 p st2)) \<noteq> []"
  proof -
    have ten: "nat (se_max_steps sample_smith_env) = Suc 9" by (simp add: sample_smith_env_def)
    define st4 where "st4 = st3\<lparr>ss_prints := ss_prints st3 @ [fingerprint t r]\<rparr>"
    obtain qs where "ss_executed (snd (dry_loop sample_smith_env True ''joe'' 9 (Suc 0)
        (set_task 0 (t\<lparr>task_status := settled_status r\<rparr>) p) st4)) = ss_executed st4 @ qs"
      using dry_loop_ran [of "set_task 0 (t\<lparr>task_status := settled_status r\<rparr>) p" sample_smith_env True 9 st4 "''joe''" "Suc 0"]
      by (auto simp: ran_def set_task_def tasks tool)
    then show ?thesis
      unfolding ten dry_loop_step [OF np i t_def r] using e by (auto simp: Let_def st4_def [symmetric]) (simp_all add: st4_def)
  qed
  moreover obtain p1 lo k st5 where l: "dry_loop sample_smith_env True ''joe'' (nat (se_max_steps sample_smith_env)) 0 p st2 = ((p1, lo, k), st5)"
    by (cases "dry_loop sample_smith_env True ''joe'' (nat (se_max_steps sample_smith_env)) 0 p st2") auto
  ultimately show ?thesis
    unfolding run_read_only_def sample_classified
    by (simp add: p [unfolded st1_def, simplified] l Let_def finish_run_def persist_audit_def)
qed

theorem read_only_runs_safe_witness:
  "\<exists>qs. qs \<noteq> [] \<and> ss_executed (snd (run_read_only sample_smith_env ''check status'' ''joe'' ''r'' sample_smith_state)) = qs
     \<and> length qs \<le> 20"
proof -
  obtain out st' where o: "run_read_only sample_smith_env ''check status'' ''joe'' ''r'' sample_smith_state = (out, st')"
    by (cases "run_read_only sample_smith_env ''check status'' ''joe'' ''r'' sample_smith_state")
  from read_only_runs_safe [OF this] have "length (ss_executed st') \<le> 20"
    by (auto simp: sample_smith_env_def sample_smith_state_def)
  with o sample_executes show ?thesis by simp
qed

theorem dry_run_completes_witness:
  "\<exists>s st'. run_dry sample_smith_env ''check status'' ''joe'' ''r'' sample_smith_state = (s, st') \<and> sm_loops s = 0
     \<and> sm_completed s + sm_failed s + sm_approvals s = sm_total s"
proof -
  have "inj (\<lambda>i. replicate i CHR ''a'')" by (rule injI) (metis length_replicate)
  with dry_run_completes [of sample_smith_env sample_smith_state "''check status''" "''joe''" "''r''"]
  show ?thesis by (auto simp: sample_smith_env_def sample_smith_state_def)
qed

theorem orchestrator_runs_approved_witness:
  "length (ss_executed (snd (run_objective sample_smith_env ''check status'' ''r'' sample_smith_state))) \<le> 3"
proof -
  obtain s st' and ss :: "(nat \<times> exec_request list) list"
    where "run_objective sample_smith_env ''check status'' ''r'' sample_smith_state = (s, st')"
    "ss_executed st' = ss_executed sample_smith_state @ concat (map snd ss)"
    "length (concat (map snd ss)) \<le> length (decompose ''check status'') * nat (se_retries sample_smith_env)"
    using orchestrator_runs_approved [of sample_smith_env "''check status''" "''r''" sample_smith_state]
    by blast
  then show ?thesis by (simp add: sample_decompose) (simp add: sample_smith_env_def sample_smith_state_def)
qed

theorem audit_log_clean_witness:
  "\<exists>es. ss_log (snd (run_dry sample_smith_env ''what is the token'' ''joe'' ''r'' sample_smith_state)) = es
     \<and> length (filter (\<lambda>e. \<not> clean_event e) es) = 0"
proof -
  have "\<forall>e \<in> set (ss_audit sample_smith_state). clean_event e" by (simp add: sample_smith_state_def)
  from audit_log_clean [OF this, of sample_smith_env "''what is the token''" "''joe''" "''r''"]
  show ?thesis by (auto simp: sample_smith_state_def filter_empty_conv)
qed

text \<open>An objective that names a reading keyword only in a negated clause leaves no word to divide
  by: the run does not refuse it but ends with a \<open>ZeroDivisionError\<close>, before its first audit
  record, and nothing is executed or logged.\<close>

theorem read_only_run_crashes:
  assumes "letter_words (neutralized (se_order E) obj) = []"
    and "k \<in> set reading_keywords" and "whole_word k (str_lower obj)"
  shows "run_read_only E obj actor rid st = (Inl ''ZeroDivisionError: division by zero'', st)"
  using classify_crashes [OF assms] by (simp add: run_read_only_def)

theorem read_only_run_crashes_witness:
  "run_read_only sample_smith_env ''no test'' ''joe'' ''r'' sample_smith_state
     = (Inl ''ZeroDivisionError: division by zero'', sample_smith_state)"
proof (rule read_only_run_crashes)
  have "letter_words (neutralized source_order ''no test'') = []" by code_simp
  then show "letter_words (neutralized (se_order sample_smith_env) ''no test'') = []"
    by (simp add: sample_smith_env_def)
  show "''test'' \<in> set reading_keywords" by code_simp
  show "whole_word ''test'' (str_lower ''no test'')" by code_simp
qed

end
