(* ===== verification/Memory_Store.thy ===== *)
theory Memory_Store
  imports Principal Rx Py_Datetime "HOL-Library.Multiset"
begin

section \<open>Conversations and shared memories\<close>

text \<open>
  \<open>MemoryStore\<close> of \<open>src/freyja/memory/store.py\<close> with the models of \<open>src/freyja/memory/models.py\<close>:
  conversations with their messages, and the memories a principal shares between clients. The
  state holds the three tables. A time column holds the ISO text of its time and is ordered and
  compared as text; \<open>metadata\<close>, a JSON column, is kept as its value. New ids and the clock are
  parameters, and so are pydantic's \<open>model_dump\<close> and \<open>model_validate\<close> of a provenance.
  \<open>confidence\<close> is the float's integer ratio.
\<close>

datatype memory_kind = Kind_fact | Kind_preference | Kind_project_state | Kind_summary

fun memory_kind_value :: "memory_kind \<Rightarrow> string" where
  "memory_kind_value Kind_fact = ''fact''"
| "memory_kind_value Kind_preference = ''preference''"
| "memory_kind_value Kind_project_state = ''project_state''"
| "memory_kind_value Kind_summary = ''summary''"

datatype memory_sensitivity = Sens_routine | Sens_private | Sens_sensitive

datatype memory_trust = Trusted_internal | Trusted_connector | User_confirmed | Untrusted_external_content | Inferred

datatype provenance_kind = Observation | User_confirmed_fact | Trusted_system_fact | Derived_fact

record memory_provenance =
  pv_source :: string
  pv_source_id :: "string option"
  pv_source_type :: string
  pv_trust :: memory_trust
  pv_kind :: provenance_kind
  pv_authoritative :: bool
  pv_observed_at :: utc
  pv_observation_id :: "string option"
  pv_worker_id :: "string option"
  pv_derivation :: "string list"
  pv_evidence :: json_obj

record conversation_row =
  cv_id :: string
  cv_created :: utc
  cv_updated :: utc

record message_row =
  mg_id :: string
  mg_conversation :: string
  mg_role :: string
  mg_content :: string
  mg_timestamp :: utc
  mg_provider :: "string option"
  mg_model :: "string option"
  mg_request :: "string option"
  mg_metadata :: json_obj

record append_request =
  ar_conversation :: string
  ar_role :: string
  ar_content :: string
  ar_provider :: "string option"
  ar_model :: "string option"
  ar_request :: "string option"
  ar_metadata :: "json_obj option"

record shared_row =
  sr_row_id :: string
  sr_scope :: string
  sr_client_type :: string
  sr_subject :: string
  sr_owner :: "string option"
  sr_conversation :: "string option"
  sr_memory :: string
  sr_kind :: memory_kind
  sr_content :: string
  sr_source :: string
  sr_confidence :: "int \<times> int"
  sr_sensitivity :: memory_sensitivity
  sr_created :: utc
  sr_updated :: utc
  sr_expires :: "datetime option"
  sr_metadata :: json_obj

record shared_memory =
  sh_memory :: string
  sh_client_type :: string
  sh_subject :: string
  sh_owner :: "string option"
  sh_conversation :: "string option"
  sh_kind :: memory_kind
  sh_content :: string
  sh_source :: string
  sh_confidence :: "int \<times> int"
  sh_sensitivity :: memory_sensitivity
  sh_created :: utc
  sh_updated :: utc
  sh_expires :: "datetime option"
  sh_provenance :: memory_provenance
  sh_metadata :: json_obj

record put_request =
  pr_memory :: "string option"
  pr_kind :: memory_kind
  pr_content :: string
  pr_source :: "string option"
  pr_confidence :: "int \<times> int"
  pr_sensitivity :: memory_sensitivity
  pr_expires :: "datetime option"
  pr_provenance :: "memory_provenance option"
  pr_metadata :: "json_obj option"

record memory_db =
  db_conversations :: "conversation_row list"
  db_messages :: "message_row list"
  db_shared :: "shared_row list"

datatype memory_error = Mem_denied string | Mem_storage string | Mem_value string | Mem_integrity | Mem_overflow

text \<open>The values \<open>MemoryStore.__init__\<close> reads, and what it keeps of them.\<close>

record memory_config =
  mc_max_messages :: int
  mc_retention_days :: int
  mc_items :: int
  mc_global :: int
  mc_chars :: int
  mc_enabled :: bool
  mc_dump :: "memory_provenance \<Rightarrow> json_obj"
  mc_validate :: "json_obj \<Rightarrow> memory_provenance option"

definition store_config ::
    "int \<Rightarrow> int \<Rightarrow> int \<Rightarrow> int \<Rightarrow> int \<Rightarrow> bool \<Rightarrow> (memory_provenance \<Rightarrow> json_obj)
     \<Rightarrow> (json_obj \<Rightarrow> memory_provenance option) \<Rightarrow> memory_config" where
  "store_config max_messages retention items overall chars enabled dump validate =
    (let item_limit = max 1 items in
     \<lparr>mc_max_messages = max_messages, mc_retention_days = retention, mc_items = item_limit,
      mc_global = max item_limit overall, mc_chars = max 1 chars, mc_enabled = enabled,
      mc_dump = dump, mc_validate = validate\<rparr>)"

definition config_ok :: "memory_config \<Rightarrow> bool" where
  "config_ok C \<longleftrightarrow> 1 \<le> mc_items C \<and> mc_items C \<le> mc_global C \<and> 1 \<le> mc_chars C"

lemma store_config_ok: "config_ok (store_config m r i g c e d v)"
  by (simp add: config_ok_def store_config_def Let_def)

subsection \<open>Redaction\<close>

definition token_char :: rx where
  "token_char = Cls False [(CHR ''a'', CHR ''z''), (CHR ''A'', CHR ''Z''), (CHR ''0'', CHR ''9''),
     (CHR ''_'', CHR ''_''), (CHR ''-'', CHR ''-''), (CHR ''.'', CHR ''.''), (CHR ''+'', CHR ''+''),
     (CHR ''/'', CHR ''/''), (CHR ''='', CHR ''='')]"

definition assigned_value :: rx where
  "assigned_value = Seq (Star rx_space) (Seq (Cls False [(CHR '':'', CHR '':''), (CHR ''='', CHR ''='')])
     (Seq (Star rx_space) (rx_plus (Cls True (space_ranges @ [(CHR ''&'', CHR ''&'')])))))"

definition bearer_value :: rx where
  "bearer_value = Seq (rx_ci ''bearer'') (Seq (rx_plus rx_space) (rx_plus token_char))"

definition SECRET_PATTERNS :: "rx list" where
  "SECRET_PATTERNS =
    [Seq (rx_ci ''api'') (Seq (rx_opt (Cls False [(CHR ''_'', CHR ''_''), (CHR ''-'', CHR ''-'')]))
       (Seq (rx_ci ''key'') assigned_value)),
     Seq (rx_ci ''authorization'') (Seq (Star rx_space) (Seq (rx_chr CHR '':'') (Seq (Star rx_space) bearer_value))),
     bearer_value,
     Seq (rx_ci ''sk-'') (rx_plus (Cls False [(CHR ''a'', CHR ''z''), (CHR ''A'', CHR ''Z''), (CHR ''0'', CHR ''9'')])),
     Seq (rx_ci ''token'') assigned_value]"

definition redact_match :: "string \<Rightarrow> string" where
  "redact_match m =
    (if CHR ''='' \<in> set m then takeWhile (\<lambda>c. c \<noteq> CHR ''='') m @ ''=<redacted>''
     else if CHR '':'' \<in> set m then takeWhile (\<lambda>c. c \<noteq> CHR '':'') m @ '': <redacted>''
     else ''<redacted>'')"

definition provider_error_prefix :: "string \<Rightarrow> bool" where
  "provider_error_prefix s \<longleftrightarrow> prefix ''error:'' (str_lower s) \<or> prefix ''provider error:'' (str_lower s)"

definition redact_content :: "string \<Rightarrow> string" where
  "redact_content s =
    (if s = [] then s
     else if provider_error_prefix s then ''<provider error redacted>''
     else fold (\<lambda>r t. rx_sub r redact_match t) SECRET_PATTERNS s)"

subsection \<open>Conversations\<close>

definition touch_conversation :: "utc \<Rightarrow> string \<Rightarrow> conversation_row list \<Rightarrow> conversation_row list" where
  "touch_conversation now c t =
    (if row_of cv_id c t = None then t @ [\<lparr>cv_id = c, cv_created = now, cv_updated = now\<rparr>]
     else sql_update (\<lambda>r. cv_id r = c) (\<lambda>r. r\<lparr>cv_updated := now\<rparr>) t)"

text \<open>\<open>INSERT OR IGNORE\<close>; \<open>fresh\<close> is the \<open>uuid4\<close> of the call.\<close>

definition create_conversation :: "utc \<Rightarrow> string \<Rightarrow> string option \<Rightarrow> memory_db \<Rightarrow> string \<times> memory_db" where
  "create_conversation now fresh req db =
    (let c = or_else req fresh in
     (c, db\<lparr>db_conversations :=
        (if row_of cv_id c (db_conversations db) = None
         then db_conversations db @ [\<lparr>cv_id = c, cv_created = now, cv_updated = now\<rparr>]
         else db_conversations db)\<rparr>))"

definition message_of :: "utc \<Rightarrow> string \<Rightarrow> append_request \<Rightarrow> message_row" where
  "message_of now mid q = \<lparr>mg_id = mid, mg_conversation = ar_conversation q, mg_role = ar_role q,
     mg_content = ar_content q, mg_timestamp = now, mg_provider = ar_provider q, mg_model = ar_model q,
     mg_request = ar_request q, mg_metadata = (case ar_metadata q of None \<Rightarrow> [] | Some d \<Rightarrow> d)\<rparr>"

definition time_order :: "message_row list \<Rightarrow> message_row list" where
  "time_order t = sort_key (\<lambda>m. iso_utc (mg_timestamp m)) t"

definition enforce_message_limit :: "memory_config \<Rightarrow> string \<Rightarrow> message_row list \<Rightarrow> message_row list" where
  "enforce_message_limit C c t =
    (if mc_max_messages C \<le> 0 then t
     else
      (let ids = map mg_id (time_order (filter (\<lambda>m. mg_conversation m = c) t));
           excess = int (length ids) - mc_max_messages C
       in if 0 < excess then sql_delete (\<lambda>m. mg_id m \<in> set (take (nat excess) ids)) t else t))"

text \<open>The method of the store; a message id that is taken violates the primary key.\<close>

definition append_message ::
    "memory_config \<Rightarrow> utc \<Rightarrow> string \<Rightarrow> append_request \<Rightarrow> memory_db \<Rightarrow> (memory_error + message_row) \<times> memory_db" where
  "append_message C now mid q db =
    (let safe = q\<lparr>ar_content := redact_content (ar_content q)\<rparr>; m = message_of now mid safe in
     if row_of mg_id mid (db_messages db) \<noteq> None then (Inl Mem_integrity, db)
     else (Inr m, db\<lparr>db_conversations := touch_conversation now (ar_conversation q) (db_conversations db),
                     db_messages := enforce_message_limit C (ar_conversation q) (db_messages db @ [m])\<rparr>))"

text \<open>The function of the module redacts before the store does.\<close>

definition append_message_safely ::
    "memory_config \<Rightarrow> utc \<Rightarrow> string \<Rightarrow> append_request \<Rightarrow> memory_db \<Rightarrow> (memory_error + message_row) \<times> memory_db" where
  "append_message_safely C now mid q db =
     append_message C now mid (q\<lparr>ar_content := redact_content (ar_content q)\<rparr>) db"

definition get_messages ::
    "string \<Rightarrow> int \<Rightarrow> datetime option \<Rightarrow> datetime option \<Rightarrow> memory_db \<Rightarrow> message_row list" where
  "get_messages c limit before after db =
     sql_limit limit (time_order (filter (\<lambda>m. mg_conversation m = c
        \<and> (case before of None \<Rightarrow> True | Some b \<Rightarrow> iso_utc (mg_timestamp m) < isoformat b)
        \<and> (case after of None \<Rightarrow> True | Some a \<Rightarrow> isoformat a < iso_utc (mg_timestamp m))) (db_messages db)))"

text \<open>Rows of equal \<open>updated_at\<close> come in some order.\<close>

definition list_conversations :: "memory_db \<Rightarrow> (conversation_row \<times> nat) list" where
  "list_conversations db =
     map (\<lambda>r. (r, sql_rowcount (\<lambda>m. mg_conversation m = cv_id r) (db_messages db)))
       (order_desc (\<lambda>r. iso_utc (cv_updated r)) (db_conversations db))"

text \<open>\<open>ON DELETE CASCADE\<close>.\<close>

definition drop_conversations :: "(conversation_row \<Rightarrow> bool) \<Rightarrow> memory_db \<Rightarrow> memory_db" where
  "drop_conversations P db =
    (let gone = map cv_id (filter P (db_conversations db)) in
     db\<lparr>db_conversations := sql_delete P (db_conversations db),
        db_messages := sql_delete (\<lambda>m. mg_conversation m \<in> set gone) (db_messages db)\<rparr>)"

definition delete_conversation :: "string \<Rightarrow> memory_db \<Rightarrow> bool \<times> memory_db" where
  "delete_conversation c db =
     (0 < sql_rowcount (\<lambda>r. cv_id r = c) (db_conversations db), drop_conversations (\<lambda>r. cv_id r = c) db)"

text \<open>\<open>empty_deleted\<close> is read from the cursor of the first statement.\<close>

definition prune :: "memory_config \<Rightarrow> utc \<Rightarrow> int option \<Rightarrow> memory_db \<Rightarrow> (memory_error + nat) \<times> memory_db" where
  "prune C now older db =
    (let days = (case older of None \<Rightarrow> mc_retention_days C | Some d \<Rightarrow> d); cutoff = now - days * usec_day in
     if \<not> valid_utc cutoff then (Inl Mem_overflow, db)
     else
      (let old = (\<lambda>m. iso_utc (mg_timestamp m) < iso_utc cutoff);
           messages_deleted = sql_rowcount old (db_messages db);
           kept = sql_delete old (db_messages db);
           db1 = drop_conversations (\<lambda>r. cv_id r \<notin> mg_conversation ` set kept) (db\<lparr>db_messages := kept\<rparr>);
           empty_deleted = messages_deleted
       in (Inr (messages_deleted + empty_deleted), db1)))"

subsection \<open>Shared memories\<close>

definition MEMORY_ID_PATTERN :: "string \<Rightarrow> bool" where
  "MEMORY_ID_PATTERN =
     shaped (\<lambda>c. is_upper c \<or> is_lower c \<or> is_digit_char c)
       (\<lambda>c. is_upper c \<or> is_lower c \<or> is_digit_char c \<or> c \<in> set ''_.:-'') 127"

definition safe_memory_id :: "string \<Rightarrow> string option \<Rightarrow> memory_error + string" where
  "safe_memory_id fresh v =
    (let i = or_else v fresh in
     if \<not> MEMORY_ID_PATTERN i then Inl (Mem_value ''memory_id contains invalid characters'') else Inr i)"

definition plain_provenance :: "utc \<Rightarrow> string \<Rightarrow> memory_provenance" where
  "plain_provenance now source = \<lparr>pv_source = source, pv_source_id = None, pv_source_type = ''client'',
     pv_trust = Trusted_connector, pv_kind = Trusted_system_fact, pv_authoritative = True, pv_observed_at = now,
     pv_observation_id = None, pv_worker_id = None, pv_derivation = [], pv_evidence = []\<rparr>"

definition not_authoritative :: "memory_provenance \<Rightarrow> memory_provenance" where
  "not_authoritative v =
    (if pv_trust v = Untrusted_external_content \<and> pv_authoritative v then v\<lparr>pv_authoritative := False\<rparr> else v)"

definition stated_provenance :: "memory_config \<Rightarrow> utc \<Rightarrow> string \<Rightarrow> json_obj \<Rightarrow> memory_provenance" where
  "stated_provenance C now source d =
    (case jget ''provenance'' d of
       JObj raw \<Rightarrow> (case mc_validate C raw of None \<Rightarrow> plain_provenance now source | Some v \<Rightarrow> v)
     | _ \<Rightarrow> plain_provenance now source)"

definition provenance_for_request ::
    "memory_config \<Rightarrow> utc \<Rightarrow> memory_principal \<Rightarrow> put_request \<Rightarrow> json_obj \<Rightarrow> memory_provenance" where
  "provenance_for_request C now p q d =
    (let source = or_else (pr_source q) (mp_client_type p);
         v = not_authoritative (case pr_provenance q of Some v \<Rightarrow> v | None \<Rightarrow> stated_provenance C now source d)
     in if truthy (pr_source q) \<and> Some (pv_source v) \<noteq> pr_source q then v\<lparr>pv_source := the (pr_source q)\<rparr> else v)"

definition provenance_from_metadata :: "memory_config \<Rightarrow> utc \<Rightarrow> string \<Rightarrow> json_obj \<Rightarrow> memory_provenance" where
  "provenance_from_metadata C now source d = not_authoritative (stated_provenance C now source d)"

text \<open>\<open>UNIQUE(principal_scope, memory_id)\<close>.\<close>

definition sr_key :: "shared_row \<Rightarrow> string \<times> string" where
  "sr_key r = (sr_scope r, sr_memory r)"

definition expired_at :: "utc \<Rightarrow> shared_row \<Rightarrow> bool" where
  "expired_at now r \<longleftrightarrow> (case sr_expires r of None \<Rightarrow> False | Some e \<Rightarrow> isoformat e \<le> iso_utc now)"

definition cleanup_expired_shared :: "utc \<Rightarrow> shared_row list \<Rightarrow> nat \<times> shared_row list" where
  "cleanup_expired_shared now t = (sql_rowcount (expired_at now) t, sql_delete (expired_at now) t)"

text \<open>Keep the \<open>n\<close> rows of the selection that were updated last.\<close>

definition newest_first :: "shared_row list \<Rightarrow> shared_row list" where
  "newest_first t = order_desc (\<lambda>r. iso_utc (sr_updated r)) t"

definition enforce_quota :: "(shared_row \<Rightarrow> bool) \<Rightarrow> int \<Rightarrow> shared_row list \<Rightarrow> shared_row list" where
  "enforce_quota sel n t =
    (let ids = map sr_row_id (newest_first (filter sel t)); excess = int (length ids) - n in
     if 0 < excess then sql_delete (\<lambda>r. sr_row_id r \<in> set (drop (length ids - nat excess) ids)) t else t)"

definition enforce_principal_quota :: "memory_config \<Rightarrow> string \<Rightarrow> shared_row list \<Rightarrow> shared_row list" where
  "enforce_principal_quota C sc = enforce_quota (\<lambda>r. sr_scope r = sc) (mc_items C)"

definition enforce_global_quota :: "memory_config \<Rightarrow> shared_row list \<Rightarrow> shared_row list" where
  "enforce_global_quota C = enforce_quota (\<lambda>r. True) (mc_global C)"

definition enforce_shared_quotas :: "memory_config \<Rightarrow> string \<Rightarrow> shared_row list \<Rightarrow> shared_row list" where
  "enforce_shared_quotas C sc t = enforce_global_quota C (enforce_principal_quota C sc t)"

text \<open>The row of a put. The sources pass \<open>provenance.source\<close> for the column \<open>client_type\<close> and
  \<open>principal.client_type\<close> for the column \<open>source\<close>.\<close>

definition shared_row_of ::
    "utc \<Rightarrow> string \<Rightarrow> string \<Rightarrow> memory_principal \<Rightarrow> put_request \<Rightarrow> string \<Rightarrow> memory_provenance \<Rightarrow> json_obj \<Rightarrow> shared_row" where
  "shared_row_of now rid mid p q text v d =
     \<lparr>sr_row_id = rid, sr_scope = scope_key p, sr_client_type = pv_source v, sr_subject = mp_client_subject p,
      sr_owner = mp_account_owner p, sr_conversation = mp_conversation p, sr_memory = mid, sr_kind = pr_kind q,
      sr_content = text, sr_source = mp_client_type p, sr_confidence = pr_confidence q,
      sr_sensitivity = pr_sensitivity q, sr_created = now, sr_updated = now, sr_expires = pr_expires q,
      sr_metadata = d\<rparr>"

definition upsert_shared :: "shared_row \<Rightarrow> shared_row list \<Rightarrow> shared_row list" where
  "upsert_shared n t =
    (if row_of sr_key (sr_key n) t = None then t @ [n]
     else sql_update (\<lambda>r. sr_key r = sr_key n)
       (\<lambda>r. r\<lparr>sr_kind := sr_kind n, sr_content := sr_content n, sr_source := sr_source n,
          sr_confidence := sr_confidence n, sr_sensitivity := sr_sensitivity n, sr_updated := sr_updated n,
          sr_expires := sr_expires n, sr_metadata := sr_metadata n\<rparr>) t)"

definition put_result ::
    "utc \<Rightarrow> utc \<Rightarrow> string \<Rightarrow> memory_principal \<Rightarrow> put_request \<Rightarrow> string \<Rightarrow> memory_provenance \<Rightarrow> json_obj \<Rightarrow> shared_memory" where
  "put_result created now mid p q text v d =
     \<lparr>sh_memory = mid, sh_client_type = mp_client_type p, sh_subject = mp_client_subject p,
      sh_owner = mp_account_owner p, sh_conversation = mp_conversation p, sh_kind = pr_kind q, sh_content = text,
      sh_source = pv_source v, sh_confidence = pr_confidence q, sh_sensitivity = pr_sensitivity q,
      sh_created = created, sh_updated = now, sh_expires = pr_expires q, sh_provenance = v, sh_metadata = d\<rparr>"

text \<open>\<open>rid\<close> and \<open>fresh\<close>: the new row id and memory id. A row id that is taken is a \<open>sqlite3.Error\<close>.\<close>

definition stored_content :: "memory_config \<Rightarrow> put_request \<Rightarrow> string" where
  "stored_content C q = take (nat (mc_chars C)) (redact_content (pr_content q))"

definition request_metadata :: "put_request \<Rightarrow> json_obj" where
  "request_metadata q = (case pr_metadata q of None \<Rightarrow> [] | Some d \<Rightarrow> d)"

definition put_rows ::
    "memory_config \<Rightarrow> utc \<Rightarrow> string \<Rightarrow> string \<Rightarrow> memory_principal \<Rightarrow> put_request \<Rightarrow> shared_row list
     \<Rightarrow> (memory_error + shared_memory) \<times> shared_row list" where
  "put_rows C now rid mid p q t =
    (let text = stored_content C q; v = provenance_for_request C now p q (request_metadata q);
         d = jput ''provenance'' (JObj (mc_dump C v)) (request_metadata q);
         t1 = snd (cleanup_expired_shared now t);
         existing = row_of sr_key (scope_key p, mid) t1;
         created = (case existing of None \<Rightarrow> now | Some r \<Rightarrow> sr_created r)
     in if existing = None \<and> row_of sr_row_id rid t1 \<noteq> None
        then (Inl (Mem_storage ''Shared memory storage failed''), t)
        else (Inr (put_result created now mid p q text v d),
              enforce_shared_quotas C (scope_key p) (upsert_shared (shared_row_of now rid mid p q text v d) t1)))"

definition put_shared_memory ::
    "memory_config \<Rightarrow> utc \<Rightarrow> string \<Rightarrow> string \<Rightarrow> memory_principal \<Rightarrow> put_request \<Rightarrow> memory_db
     \<Rightarrow> (memory_error + shared_memory) \<times> memory_db" where
  "put_shared_memory C now rid fresh p q db =
    (if \<not> mc_enabled C then (Inl (Mem_denied ''Shared memory is disabled''), db)
     else (case safe_memory_id fresh (pr_memory q) of
       Inl e \<Rightarrow> (Inl e, db)
     | Inr mid \<Rightarrow> (case put_rows C now rid mid p q (db_shared db) of (res, t) \<Rightarrow> (res, db\<lparr>db_shared := t\<rparr>))))"

definition row_to_shared :: "memory_config \<Rightarrow> utc \<Rightarrow> shared_row \<Rightarrow> shared_memory" where
  "row_to_shared C now r =
     \<lparr>sh_memory = sr_memory r, sh_client_type = sr_client_type r, sh_subject = sr_subject r, sh_owner = sr_owner r,
      sh_conversation = sr_conversation r, sh_kind = sr_kind r, sh_content = sr_content r, sh_source = sr_source r,
      sh_confidence = sr_confidence r, sh_sensitivity = sr_sensitivity r, sh_created = sr_created r,
      sh_updated = sr_updated r, sh_expires = sr_expires r,
      sh_provenance = provenance_from_metadata C now (sr_source r) (sr_metadata r), sh_metadata = sr_metadata r\<rparr>"

definition get_shared_memory ::
    "memory_config \<Rightarrow> utc \<Rightarrow> string \<Rightarrow> memory_principal \<Rightarrow> string \<Rightarrow> memory_db \<Rightarrow> memory_error + shared_memory option" where
  "get_shared_memory C now fresh p i db =
     bind_result (safe_memory_id fresh (Some i)) (\<lambda>mid. Inr (map_option (row_to_shared C now)
       (List.find (\<lambda>r. sr_scope r = scope_key p \<and> sr_memory r = mid \<and> \<not> expired_at now r) (db_shared db))))"

definition list_shared_memories ::
    "memory_config \<Rightarrow> utc \<Rightarrow> memory_principal \<Rightarrow> string list \<Rightarrow> int \<Rightarrow> memory_db \<Rightarrow> shared_memory list" where
  "list_shared_memories C now p kinds limit db =
    (if \<not> mc_enabled C then []
     else map (row_to_shared C now) (sql_limit (min (max 1 limit) 200)
       (newest_first (filter (\<lambda>r. sr_scope r = scope_key p \<and> \<not> expired_at now r
          \<and> (kinds = [] \<or> memory_kind_value (sr_kind r) \<in> set kinds)) (db_shared db)))))"

definition delete_shared_memory :: "string \<Rightarrow> memory_principal \<Rightarrow> string \<Rightarrow> memory_db \<Rightarrow> (memory_error + bool) \<times> memory_db" where
  "delete_shared_memory fresh p i db =
    (case safe_memory_id fresh (Some i) of
       Inl e \<Rightarrow> (Inl e, db)
     | Inr mid \<Rightarrow>
        (let hit = (\<lambda>r. sr_scope r = scope_key p \<and> sr_memory r = mid)
         in (Inr (0 < sql_rowcount hit (db_shared db)), db\<lparr>db_shared := sql_delete hit (db_shared db)\<rparr>)))"

definition prune_shared_memories :: "memory_config \<Rightarrow> utc \<Rightarrow> memory_db \<Rightarrow> nat \<times> memory_db" where
  "prune_shared_memories C now db =
    (case cleanup_expired_shared now (db_shared db) of
       (n, t) \<Rightarrow> (n, db\<lparr>db_shared := enforce_global_quota C t\<rparr>))"

subsection \<open>The store of a disabled memory\<close>

definition disabled_append :: "utc \<Rightarrow> string \<Rightarrow> append_request \<Rightarrow> message_row" where
  "disabled_append now mid q = message_of now mid (q\<lparr>ar_content := redact_content (ar_content q)\<rparr>)"

definition disabled_put ::
    "memory_config \<Rightarrow> utc \<Rightarrow> string \<Rightarrow> memory_principal \<Rightarrow> put_request \<Rightarrow> memory_error + shared_memory" where
  "disabled_put C now fresh p q =
     bind_result (safe_memory_id fresh (pr_memory q)) (\<lambda>mid.
       let v = provenance_for_request C now p q (request_metadata q)
       in Inr (put_result now now mid p q (stored_content C q) v
            (jput ''provenance'' (JObj (mc_dump C v)) (request_metadata q))))"

subsection \<open>Searching a table\<close>

lemma find_sql_delete: "\<forall>r \<in> set t. D r \<longrightarrow> \<not> P r \<Longrightarrow> List.find P (sql_delete D t) = List.find P t"
  by (induction t) (auto simp: sql_delete_def)

lemma find_sql_update: "\<forall>r \<in> set t. U r \<longrightarrow> \<not> P r \<and> \<not> P (f r) \<Longrightarrow> List.find P (sql_update U f t) = List.find P t"
  by (induction t) auto

lemma find_append: "List.find P (t @ u) = (case List.find P t of None \<Rightarrow> List.find P u | Some r \<Rightarrow> Some r)"
  by (induction t) auto

lemma find_None: "\<forall>r \<in> set t. \<not> P r \<Longrightarrow> List.find P t = None"
  by (simp add: find_None_iff)

lemma find_unique:
  assumes "r \<in> set t" and "P r" and "\<And>s. s \<in> set t \<Longrightarrow> P s \<Longrightarrow> s = r"
  shows "List.find P t = Some r"
proof (cases "List.find P t")
  case None
  with assms(1,2) show ?thesis by (auto simp: find_None_iff)
next
  case (Some s)
  then have "s \<in> set t" "P s" by (auto simp: find_Some_iff)
  with assms(3) Some show ?thesis by simp
qed

text \<open>Where at most one row is looked for, deleting rows keeps or loses it.\<close>

lemma find_delete_one:
  assumes "\<And>r s. r \<in> set t \<Longrightarrow> s \<in> set t \<Longrightarrow> P r \<Longrightarrow> P s \<Longrightarrow> r = s"
  shows "List.find P (sql_delete D t) = List.find P t \<or> List.find P (sql_delete D t) = None"
proof (cases "List.find P (sql_delete D t)")
  case (Some r)
  then have r: "r \<in> set t" "P r" by (auto dest!: find_SomeD simp: sql_delete_def)
  have "List.find P t = Some r" by (rule find_unique) (use assms r in blast)+
  with Some show ?thesis by simp
qed simp

subsection \<open>Quotas\<close>

lemma set_newest_first [simp]: "set (newest_first t) = set t"
  by (simp add: newest_first_def)

lemma length_newest_first [simp]: "length (newest_first t) = length t"
  by (simp add: newest_first_def)

lemma mset_newest_first [simp]: "mset (newest_first t) = mset t"
  by (simp add: newest_first_def order_desc_def)

lemma enforce_quota_deletes: "\<exists>D. enforce_quota sel n t = sql_delete D t \<and> (\<forall>r \<in> set t. D r \<longrightarrow> (\<exists>s \<in> set t. sel s \<and> sr_row_id s = sr_row_id r))"
proof -
  let ?ids = "map sr_row_id (newest_first (filter sel t))"
  let ?D = "\<lambda>r. sr_row_id r \<in> set (drop (length ?ids - nat (int (length ?ids) - n)) ?ids)"
  have "\<exists>s \<in> set t. sel s \<and> sr_row_id s = sr_row_id r" if "?D r" for r
  proof -
    from in_set_dropD [OF that] have "sr_row_id r \<in> sr_row_id ` {s \<in> set t. sel s}" by simp
    then show ?thesis by auto
  qed
  then show ?thesis
  proof (cases "0 < int (length ?ids) - n")
    case True
    then have "enforce_quota sel n t = sql_delete ?D t" unfolding enforce_quota_def Let_def by (simp only: if_True)
    with \<open>\<And>r. ?D r \<Longrightarrow> _\<close> show ?thesis by blast
  next
    case False
    then have "enforce_quota sel n t = sql_delete (\<lambda>_. False) t"
      unfolding enforce_quota_def Let_def by (simp only: if_False) (simp add: sql_delete_def)
    then show ?thesis by blast
  qed
qed

lemma set_enforce_quota: "set (enforce_quota sel n t) \<subseteq> set t"
  using enforce_quota_deletes [of sel n t] by (auto simp: sql_delete_def)

lemma length_filter_drop: "length (filter (\<lambda>i. i \<notin> set (drop m ids)) ids) \<le> m"
proof -
  have "filter (\<lambda>i. i \<notin> set (drop m ids)) ids
    = filter (\<lambda>i. i \<notin> set (drop m ids)) (take m ids) @ filter (\<lambda>i. i \<notin> set (drop m ids)) (drop m ids)"
    by (metis append_take_drop_id filter_append)
  moreover have "filter (\<lambda>i. i \<notin> set (drop m ids)) (drop m ids) = []" by (simp add: filter_empty_conv)
  ultimately have "length (filter (\<lambda>i. i \<notin> set (drop m ids)) ids) \<le> length (take m ids)"
    by (simp del: length_take)
  also have "\<dots> \<le> m" by simp
  finally show ?thesis .
qed

lemma count_newest_first: "length (filter P (newest_first t)) = length (filter P t)"
  by (metis mset_filter mset_newest_first size_mset)

lemma enforce_quota_count:
  assumes "0 \<le> n"
  shows "int (sql_rowcount sel (enforce_quota sel n t)) \<le> n"
proof -
  let ?ids = "map sr_row_id (newest_first (filter sel t))"
  define m where "m = length ?ids - nat (int (length ?ids) - n)"
  show ?thesis
  proof (cases "0 < int (length ?ids) - n")
    case True
    then have "enforce_quota sel n t = sql_delete (\<lambda>r. sr_row_id r \<in> set (drop m ?ids)) t"
      unfolding enforce_quota_def Let_def m_def by (simp only: if_True)
    then have "sql_rowcount sel (enforce_quota sel n t)
        = length (filter (\<lambda>r. sr_row_id r \<notin> set (drop m ?ids)) (filter sel t))"
      by (simp add: sql_rowcount_def sql_delete_def conj_commute)
    also have "\<dots> = length (filter (\<lambda>r. sr_row_id r \<notin> set (drop m ?ids)) (newest_first (filter sel t)))"
      by (rule count_newest_first [symmetric])
    also have "\<dots> = length (filter (\<lambda>i. i \<notin> set (drop m ?ids)) ?ids)"
      by (simp add: filter_map comp_def)
    also have "\<dots> \<le> m" by (rule length_filter_drop)
    finally show ?thesis using True assms by (simp add: m_def)
  next
    case False
    then have "enforce_quota sel n t = t" unfolding enforce_quota_def Let_def by (simp only: if_False)
    with False show ?thesis by (simp add: sql_rowcount_def)
  qed
qed

lemma enforce_quota_id:
  assumes "int (length t) \<le> n" shows "enforce_quota sel n t = t"
proof -
  have "int (length (map sr_row_id (newest_first (filter sel t)))) \<le> n"
    using assms length_filter_le [of sel t] by (simp del: length_filter_le)
  then show ?thesis unfolding enforce_quota_def Let_def by (simp only: not_less [symmetric] diff_gt_0_iff_gt if_False)
qed

text \<open>The row that was updated last survives.\<close>

lemma order_desc_hd:
  assumes "x \<in> set t" and "\<And>y. y \<in> set t \<Longrightarrow> y \<noteq> x \<Longrightarrow> k y < k x"
  shows "\<exists>ys. order_desc k t = x # ys"
proof (cases "order_desc k t")
  case Nil
  with assms(1) show ?thesis using set_order_desc [of k t] by simp
next
  case (Cons y ys)
  have "y \<in> set t" using Cons set_order_desc [of k t] by auto
  moreover have "k x \<le> k y" using sorted_order_desc [of k t] assms(1) Cons set_order_desc [of k t] by auto
  ultimately have "y = x" using assms(2) [of y] by force
  with Cons show ?thesis by blast
qed

lemma enforce_quota_newest:
  assumes "distinct (map sr_row_id t)" and "x \<in> set t" and "1 \<le> n"
    and "\<And>y. y \<in> set t \<Longrightarrow> y \<noteq> x \<Longrightarrow> iso_utc (sr_updated y) < iso_utc (sr_updated x)"
  shows "x \<in> set (enforce_quota sel n t)"
proof (cases "sel x")
  case True
  let ?f = "filter sel t"
  from order_desc_hd [of x ?f "\<lambda>r. iso_utc (sr_updated r)"] True assms(2,4)
  obtain ys where ys: "newest_first ?f = x # ys" by (auto simp: newest_first_def)
  have "distinct (map sr_row_id ?f)" by (simp add: assms(1) distinct_map_filter)
  moreover have "mset (map sr_row_id (newest_first ?f)) = mset (map sr_row_id ?f)" by simp
  ultimately have "distinct (map sr_row_id (newest_first ?f))" by (metis mset_eq_imp_distinct_iff)
  with ys have d: "distinct (map sr_row_id (x # ys))" by simp
  let ?ids = "map sr_row_id (newest_first ?f)"
  have "sr_row_id x \<notin> set (drop (length ?ids - nat (int (length ?ids) - n)) ?ids)" if "0 < int (length ?ids) - n"
  proof -
    have "0 < length ?ids - nat (int (length ?ids) - n)" using that assms(3) by linarith
    then obtain m where "length ?ids - nat (int (length ?ids) - n) = Suc m" using gr0_conv_Suc by blast
    with ys d show ?thesis by (auto dest: in_set_dropD)
  qed
  then show ?thesis using assms(2) by (simp add: enforce_quota_def Let_def sql_delete_def)
next
  case False
  obtain D where D: "enforce_quota sel n t = sql_delete D t"
    "\<forall>r \<in> set t. D r \<longrightarrow> (\<exists>s \<in> set t. sel s \<and> sr_row_id s = sr_row_id r)"
    using enforce_quota_deletes by blast
  have "\<not> D x"
  proof
    assume "D x"
    with D(2) assms(2) obtain s where "s \<in> set t" "sel s" "sr_row_id s = sr_row_id x" by blast
    with assms(1,2) have "s = x" by (auto simp: distinct_map inj_on_def)
    with \<open>sel s\<close> False show False by simp
  qed
  with D(1) assms(2) show ?thesis by (simp add: sql_delete_def)
qed

subsection \<open>Histories of the shared table\<close>

text \<open>The calls that change it; each carries its clock and its new ids.\<close>

datatype shared_op =
    Op_put utc string string memory_principal put_request
  | Op_delete utc string memory_principal string
  | Op_prune utc

fun shared_step :: "memory_config \<Rightarrow> shared_op \<Rightarrow> memory_db \<Rightarrow> memory_db" where
  "shared_step C (Op_put now rid fresh p q) db = snd (put_shared_memory C now rid fresh p q db)"
| "shared_step C (Op_delete now fresh p i) db = snd (delete_shared_memory fresh p i db)"
| "shared_step C (Op_prune now) db = snd (prune_shared_memories C now db)"

fun op_scope :: "shared_op \<Rightarrow> string option" where
  "op_scope (Op_put now rid fresh p q) = Some (scope_key p)"
| "op_scope (Op_delete now fresh p i) = Some (scope_key p)"
| "op_scope (Op_prune now) = None"

fun op_time :: "shared_op \<Rightarrow> utc" where
  "op_time (Op_put now rid fresh p q) = now"
| "op_time (Op_delete now fresh p i) = now"
| "op_time (Op_prune now) = now"

definition shared_ok :: "memory_db \<Rightarrow> bool" where
  "shared_ok db \<longleftrightarrow> distinct (map sr_row_id (db_shared db)) \<and> distinct (map sr_key (db_shared db))"

definition live_row :: "utc \<Rightarrow> string \<Rightarrow> string \<Rightarrow> memory_db \<Rightarrow> shared_row option" where
  "live_row now k i db = List.find (\<lambda>r. sr_scope r = k \<and> sr_memory r = i \<and> \<not> expired_at now r) (db_shared db)"

text \<open>The contract of a store that several principals share: what one of them sees is its own.
  Calls of others leave it alone or lose it, and lose it only when the store is full.\<close>

locale scoped_store =
  fixes step :: "'op \<Rightarrow> 's \<Rightarrow> 's"
    and actor :: "'op \<Rightarrow> 'k option"
    and time :: "'op \<Rightarrow> int"
    and look :: "int \<Rightarrow> 'k \<Rightarrow> 'i \<Rightarrow> 's \<Rightarrow> 'r option"
    and good :: "'s \<Rightarrow> bool"
    and usage :: "'s \<Rightarrow> nat"
    and capacity :: int
    and clock_ok :: "int \<Rightarrow> bool"
  assumes step_good: "good s \<Longrightarrow> good (step x s)"
    and step_usage: "good s \<Longrightarrow> usage (step x s) \<le> Suc (usage s)"
    and foreign: "\<lbrakk>good s; actor x \<noteq> Some k; time x \<le> now; clock_ok (time x); clock_ok now\<rbrakk> \<Longrightarrow>
      look now k i (step x s) = look now k i s \<or> look now k i (step x s) = None"
    and foreign_room: "\<lbrakk>good s; actor x \<noteq> Some k; time x \<le> now; clock_ok (time x); clock_ok now;
      int (usage s) < capacity\<rbrakk> \<Longrightarrow> look now k i (step x s) = look now k i s"
begin

lemma run_good: "good s \<Longrightarrow> good (fold step xs s)"
  by (induction xs arbitrary: s) (auto intro: step_good)

lemma run_foreign:
  assumes "good s" and "\<forall>x \<in> set xs. actor x \<noteq> Some k \<and> time x \<le> now \<and> clock_ok (time x)" and "clock_ok now"
  shows "look now k i (fold step xs s) = look now k i s \<or> look now k i (fold step xs s) = None"
  using assms(1,2)
proof (induction xs arbitrary: s)
  case (Cons x xs)
  have "look now k i (step x s) = look now k i s \<or> look now k i (step x s) = None"
    using foreign [of s x k now i] Cons.prems assms(3) by simp
  moreover have "look now k i (fold step xs (step x s)) = look now k i (step x s)
      \<or> look now k i (fold step xs (step x s)) = None"
    using Cons.IH [of "step x s"] Cons.prems step_good by simp
  ultimately show ?case by auto
qed simp

lemma run_foreign_room:
  assumes "good s" and "\<forall>x \<in> set xs. actor x \<noteq> Some k \<and> time x \<le> now \<and> clock_ok (time x)" and "clock_ok now"
    and "int (usage s) + int (length xs) \<le> capacity"
  shows "look now k i (fold step xs s) = look now k i s"
  using assms(1,2,4)
proof (induction xs arbitrary: s)
  case (Cons x xs)
  have "look now k i (step x s) = look now k i s"
    using foreign_room [of s x k now i] Cons.prems assms(3) by simp
  moreover have "look now k i (fold step xs (step x s)) = look now k i (step x s)"
    using Cons.IH [of "step x s"] Cons.prems step_good step_usage [of s x] by simp
  ultimately show ?case by simp
qed simp

end

text \<open>The pieces of a step.\<close>

lemma shared_ok_delete: "shared_ok db \<Longrightarrow> shared_ok (db\<lparr>db_shared := sql_delete D (db_shared db)\<rparr>)"
  by (simp add: shared_ok_def distinct_keys_sql_delete)

lemma expired_later: "\<lbrakk>expired_at u r; u \<le> now; valid_utc u; valid_utc now\<rbrakk> \<Longrightarrow> expired_at now r"
  by (auto simp: expired_at_def split: option.splits intro: order_trans)

lemma upsert_keys:
  "map sr_key (upsert_shared n t) = (if row_of sr_key (sr_key n) t = None then map sr_key t @ [sr_key n] else map sr_key t)"
  "map sr_row_id (upsert_shared n t)
     = (if row_of sr_key (sr_key n) t = None then map sr_row_id t @ [sr_row_id n] else map sr_row_id t)"
  by (simp_all add: upsert_shared_def sql_update_def sr_key_def)

lemma upsert_distinct:
  assumes "distinct (map sr_row_id t)" and "distinct (map sr_key t)"
    and "row_of sr_key (sr_key n) t = None \<Longrightarrow> row_of sr_row_id (sr_row_id n) t = None"
  shows "distinct (map sr_row_id (upsert_shared n t)) \<and> distinct (map sr_key (upsert_shared n t))"
  using assms by (auto simp: upsert_keys row_of_None_iff)

lemma upsert_find:
  assumes "\<And>r. sr_key r = sr_key n \<Longrightarrow> \<not> P r"
  shows "List.find P (upsert_shared n t) = List.find P t"
proof (cases "row_of sr_key (sr_key n) t = None")
  case True
  have "\<not> P n" using assms by simp
  with True show ?thesis by (simp add: upsert_shared_def find_append split: option.splits)
next
  case False
  then show ?thesis by (auto simp: upsert_shared_def sr_key_def intro!: find_sql_update assms)
qed

lemma length_upsert: "length (upsert_shared n t) \<le> Suc (length t)"
  by (simp add: upsert_shared_def)

lemma put_shared_cases:
  obtains "snd (put_shared_memory C now rid fresh p q db) = db"
  | n t1 where "t1 = sql_delete (expired_at now) (db_shared db)" and "sr_scope n = scope_key p"
      and "row_of sr_key (sr_key n) t1 = None \<Longrightarrow> row_of sr_row_id (sr_row_id n) t1 = None"
      and "snd (put_shared_memory C now rid fresh p q db)
        = db\<lparr>db_shared := enforce_shared_quotas C (scope_key p) (upsert_shared n t1)\<rparr>"
proof (cases "mc_enabled C")
  case True
  show ?thesis
  proof (cases "safe_memory_id fresh (pr_memory q)")
    case (Inl e)
    with True that(1) show ?thesis by (simp add: put_shared_memory_def)
  next
    case (Inr mid)
    let ?v = "provenance_for_request C now p q (request_metadata q)"
    let ?n = "shared_row_of now rid mid p q (stored_content C q) ?v (jput ''provenance'' (JObj (mc_dump C ?v)) (request_metadata q))"
    let ?t1 = "sql_delete (expired_at now) (db_shared db)"
    have k: "sr_key ?n = (scope_key p, mid)" "sr_row_id ?n = rid" "sr_scope ?n = scope_key p"
      by (simp_all add: shared_row_of_def sr_key_def)
    show ?thesis
    proof (cases "row_of sr_key (scope_key p, mid) ?t1 = None \<and> row_of sr_row_id rid ?t1 \<noteq> None")
      case True
      then have "snd (put_shared_memory C now rid fresh p q db) = db"
        using \<open>mc_enabled C\<close> Inr by (simp add: put_shared_memory_def put_rows_def Let_def cleanup_expired_shared_def)
      with that(1) show ?thesis .
    next
      case False
      then have "snd (put_shared_memory C now rid fresh p q db)
          = db\<lparr>db_shared := enforce_shared_quotas C (scope_key p) (upsert_shared ?n ?t1)\<rparr>"
        using \<open>mc_enabled C\<close> Inr by (auto simp: put_shared_memory_def put_rows_def Let_def cleanup_expired_shared_def)
      moreover have "row_of sr_row_id (sr_row_id ?n) ?t1 = None" if "row_of sr_key (sr_key ?n) ?t1 = None"
        using False that by (simp add: k)
      ultimately show ?thesis by (intro that(2) [OF refl k(3)])
    qed
  qed
qed (use that(1) in \<open>simp add: put_shared_memory_def\<close>)

lemma enforce_quota_ok:
  "distinct (map sr_row_id t) \<and> distinct (map sr_key t) \<Longrightarrow>
    distinct (map sr_row_id (enforce_quota sel n t)) \<and> distinct (map sr_key (enforce_quota sel n t))"
  using enforce_quota_deletes [of sel n t] by (auto simp: distinct_keys_sql_delete)

lemma length_enforce_quota: "length (enforce_quota sel n t) \<le> length t"
  using enforce_quota_deletes [of sel n t] by (auto simp: sql_delete_def)

lemma shared_step_ok: "shared_ok db \<Longrightarrow> shared_ok (shared_step C x db)"
proof (cases x)
  case (Op_put now rid fresh p q)
  assume ok: "shared_ok db"
  show ?thesis
  proof (cases rule: put_shared_cases [of C now rid fresh p q db])
    case 1
    with ok Op_put show ?thesis by simp
  next
    case (2 n t1)
    have "distinct (map sr_row_id t1) \<and> distinct (map sr_key t1)"
      using ok by (simp add: 2(1) shared_ok_def distinct_keys_sql_delete)
    with upsert_distinct [of t1 n] 2(3) Op_put show ?thesis
      by (simp add: 2(4) shared_ok_def enforce_shared_quotas_def enforce_global_quota_def
          enforce_principal_quota_def enforce_quota_ok)
  qed
next
  case (Op_delete now fresh p i)
  assume "shared_ok db"
  then show ?thesis
    by (cases "safe_memory_id fresh (Some i)") (simp_all add: Op_delete delete_shared_memory_def shared_ok_delete Let_def)
next
  case (Op_prune now)
  assume "shared_ok db"
  then show ?thesis
    by (simp add: Op_prune prune_shared_memories_def cleanup_expired_shared_def shared_ok_def
        enforce_global_quota_def enforce_quota_ok distinct_keys_sql_delete)
qed

lemma length_sql_delete_le: "length (sql_delete D t) \<le> length t"
  by (simp add: sql_delete_def)

lemma shared_step_usage: "length (db_shared (shared_step C x db)) \<le> Suc (length (db_shared db))"
proof (cases x)
  case (Op_put now rid fresh p q)
  show ?thesis
  proof (cases rule: put_shared_cases [of C now rid fresh p q db])
    case (2 n t1)
    have "length (enforce_shared_quotas C (scope_key p) (upsert_shared n t1)) \<le> length (upsert_shared n t1)"
      unfolding enforce_shared_quotas_def enforce_global_quota_def enforce_principal_quota_def
      by (meson length_enforce_quota order_trans)
    also have "\<dots> \<le> Suc (length t1)" by (rule length_upsert)
    also have "\<dots> \<le> Suc (length (db_shared db))" by (simp add: 2(1) length_sql_delete_le)
    finally show ?thesis by (simp add: Op_put 2(4))
  qed (simp add: Op_put)
next
  case (Op_delete now fresh p i)
  then show ?thesis
    by (cases "safe_memory_id fresh (Some i)") (simp_all add: delete_shared_memory_def length_sql_delete_le le_SucI Let_def)
next
  case (Op_prune now)
  have "length (enforce_global_quota C (sql_delete (expired_at now) (db_shared db))) \<le> length (db_shared db)"
    unfolding enforce_global_quota_def by (meson length_enforce_quota length_sql_delete_le order_trans)
  with Op_prune show ?thesis
    by (simp add: prune_shared_memories_def cleanup_expired_shared_def)
qed

text \<open>The rows another principal is looking for, and the pieces of a step.\<close>

lemma live_row_cleanup:
  assumes "u \<le> now" "valid_utc u" "valid_utc now"
  shows "List.find (\<lambda>r. sr_scope r = k \<and> sr_memory r = i \<and> \<not> expired_at now r) (sql_delete (expired_at u) t)
    = List.find (\<lambda>r. sr_scope r = k \<and> sr_memory r = i \<and> \<not> expired_at now r) t"
  by (rule find_sql_delete) (use expired_later [OF _ assms] in blast)

lemma live_row_quota:
  assumes "distinct (map sr_row_id t)" and "sc \<noteq> k"
  shows "List.find (\<lambda>r. sr_scope r = k \<and> P r) (enforce_principal_quota C sc t) = List.find (\<lambda>r. sr_scope r = k \<and> P r) t"
proof -
  obtain D where D: "enforce_principal_quota C sc t = sql_delete D t"
    "\<forall>r \<in> set t. D r \<longrightarrow> (\<exists>s \<in> set t. sr_scope s = sc \<and> sr_row_id s = sr_row_id r)"
    using enforce_quota_deletes [of "\<lambda>r. sr_scope r = sc" "mc_items C" t] unfolding enforce_principal_quota_def by blast
  have "sr_scope r = sc" if "r \<in> set t" "D r" for r
    using D(2) that assms(1) by (auto simp: distinct_map inj_on_def)
  with D(1) assms(2) show ?thesis by (auto intro!: find_sql_delete)
qed

lemma live_row_global:
  assumes "distinct (map sr_key t)"
  shows "List.find (\<lambda>r. sr_scope r = k \<and> sr_memory r = i \<and> P r) (enforce_global_quota C t)
      = List.find (\<lambda>r. sr_scope r = k \<and> sr_memory r = i \<and> P r) t
    \<or> List.find (\<lambda>r. sr_scope r = k \<and> sr_memory r = i \<and> P r) (enforce_global_quota C t) = None"
proof -
  obtain D where D: "enforce_global_quota C t = sql_delete D t"
    using enforce_quota_deletes [of "\<lambda>r. True" "mc_global C" t] unfolding enforce_global_quota_def by blast
  show ?thesis unfolding D
    by (rule find_delete_one) (use assms in \<open>auto simp: distinct_map inj_on_def sr_key_def\<close>)
qed

lemma live_row_put:
  assumes "shared_ok db" and "scope_key p \<noteq> k" and "u \<le> now" "valid_utc u" "valid_utc now"
  shows "live_row now k i (snd (put_shared_memory C u rid fresh p q db)) = live_row now k i db
      \<or> live_row now k i (snd (put_shared_memory C u rid fresh p q db)) = None"
    and "int (length (db_shared db)) < mc_global C \<Longrightarrow>
      live_row now k i (snd (put_shared_memory C u rid fresh p q db)) = live_row now k i db"
proof -
  let ?P = "\<lambda>r. sr_scope r = k \<and> sr_memory r = i \<and> \<not> expired_at now r"
  let ?db' = "snd (put_shared_memory C u rid fresh p q db)"
  have "(live_row now k i ?db' = live_row now k i db \<or> live_row now k i ?db' = None)
    \<and> (int (length (db_shared db)) < mc_global C \<longrightarrow> live_row now k i ?db' = live_row now k i db)"
  proof (cases rule: put_shared_cases [of C u rid fresh p q db])
    case (2 n t1)
    let ?t2 = "upsert_shared n t1" and ?t3 = "enforce_principal_quota C (scope_key p) (upsert_shared n t1)"
    have d1: "distinct (map sr_row_id t1)" "distinct (map sr_key t1)"
      using assms(1) by (simp_all add: 2(1) shared_ok_def distinct_keys_sql_delete)
    have d2: "distinct (map sr_row_id ?t2)" "distinct (map sr_key ?t2)" using upsert_distinct [OF d1 2(3)] by auto
    have d3: "distinct (map sr_key ?t3)" unfolding enforce_principal_quota_def using enforce_quota_ok d2 by blast
    have "List.find ?P ?t3 = List.find ?P ?t2" by (rule live_row_quota [OF d2(1) assms(2)])
    also have "\<dots> = List.find ?P t1" by (rule upsert_find) (use 2(2) assms(2) in \<open>auto simp: sr_key_def\<close>)
    also have "\<dots> = live_row now k i db" by (simp only: 2(1) live_row_def live_row_cleanup [OF assms(3-5)])
    finally have f3: "List.find ?P ?t3 = live_row now k i db" .
    have l: "live_row now k i ?db' = List.find ?P (enforce_global_quota C ?t3)"
      by (simp add: 2(4) live_row_def enforce_shared_quotas_def)
    have "length ?t3 \<le> Suc (length (db_shared db))"
      unfolding enforce_principal_quota_def 2(1)
      by (meson length_enforce_quota length_upsert length_sql_delete_le order_trans Suc_le_mono)
    then have "int (length (db_shared db)) < mc_global C \<Longrightarrow> enforce_global_quota C ?t3 = ?t3"
      unfolding enforce_global_quota_def by (intro enforce_quota_id) linarith
    with live_row_global [OF d3, of k i "\<lambda>r. \<not> expired_at now r" C] l f3 show ?thesis by auto
  qed simp
  then show "live_row now k i ?db' = live_row now k i db \<or> live_row now k i ?db' = None"
    and "int (length (db_shared db)) < mc_global C \<Longrightarrow> live_row now k i ?db' = live_row now k i db" by simp_all
qed

lemma live_row_delete:
  assumes "scope_key p \<noteq> k"
  shows "live_row now k i (snd (delete_shared_memory fresh p j db)) = live_row now k i db"
proof (cases "safe_memory_id fresh (Some j)")
  case (Inr mid)
  have "List.find (\<lambda>r. sr_scope r = k \<and> sr_memory r = i \<and> \<not> expired_at now r)
      (sql_delete (\<lambda>r. sr_scope r = scope_key p \<and> sr_memory r = mid) (db_shared db))
    = List.find (\<lambda>r. sr_scope r = k \<and> sr_memory r = i \<and> \<not> expired_at now r) (db_shared db)"
    by (rule find_sql_delete) (use assms in auto)
  with Inr show ?thesis by (simp add: delete_shared_memory_def live_row_def Let_def)
qed (simp add: delete_shared_memory_def)

lemma live_row_prune:
  assumes "shared_ok db" and "u \<le> now" "valid_utc u" "valid_utc now"
  shows "live_row now k i (snd (prune_shared_memories C u db)) = live_row now k i db
      \<or> live_row now k i (snd (prune_shared_memories C u db)) = None"
    and "int (length (db_shared db)) < mc_global C \<Longrightarrow>
      live_row now k i (snd (prune_shared_memories C u db)) = live_row now k i db"
proof -
  let ?t1 = "sql_delete (expired_at u) (db_shared db)"
  have d: "distinct (map sr_key ?t1)" using assms(1) by (simp add: shared_ok_def distinct_keys_sql_delete)
  have "int (length (db_shared db)) < mc_global C \<Longrightarrow> enforce_global_quota C ?t1 = ?t1"
    unfolding enforce_global_quota_def using length_sql_delete_le [of "expired_at u" "db_shared db"]
    by (intro enforce_quota_id) linarith
  then show "int (length (db_shared db)) < mc_global C \<Longrightarrow>
      live_row now k i (snd (prune_shared_memories C u db)) = live_row now k i db"
    using live_row_cleanup [OF assms(2-4), of k i]
    by (simp add: prune_shared_memories_def cleanup_expired_shared_def live_row_def)
  show "live_row now k i (snd (prune_shared_memories C u db)) = live_row now k i db
      \<or> live_row now k i (snd (prune_shared_memories C u db)) = None"
    using live_row_global [OF d, of k i "\<lambda>r. \<not> expired_at now r" C] live_row_cleanup [OF assms(2-4), of k i]
    by (simp add: prune_shared_memories_def cleanup_expired_shared_def live_row_def)
qed

interpretation shared: scoped_store "shared_step C" op_scope op_time live_row shared_ok
    "\<lambda>db. length (db_shared db)" "mc_global C" valid_utc for C
proof
  fix db x k now i
  show "shared_ok db \<Longrightarrow> shared_ok (shared_step C x db)" by (rule shared_step_ok)
  show "length (db_shared (shared_step C x db)) \<le> Suc (length (db_shared db))" by (rule shared_step_usage)
  assume a: "shared_ok db" "op_scope x \<noteq> Some k" "op_time x \<le> now" "valid_utc (op_time x)" "valid_utc now"
  show "live_row now k i (shared_step C x db) = live_row now k i db \<or> live_row now k i (shared_step C x db) = None"
    using a by (cases x) (simp_all add: live_row_put(1) live_row_delete live_row_prune(1))
  assume "int (length (db_shared db)) < mc_global C"
  then show "live_row now k i (shared_step C x db) = live_row now k i db"
    using a by (cases x) (simp_all add: live_row_put(2) live_row_delete live_row_prune(2))
qed

subsection \<open>Properties of the shared memories\<close>

lemma get_shared_live:
  "get_shared_memory C now fresh p i db =
    bind_result (safe_memory_id fresh (Some i)) (\<lambda>mid. Inr (map_option (row_to_shared C now) (live_row now (scope_key p) mid db)))"
  by (simp add: get_shared_memory_def live_row_def)

text \<open>C12. A shared memory is private to the scope key of its principal: whatever puts, deletes and
  prunings of other scopes run before the time of the call, \<open>get\<close> answers as before them or finds
  nothing, and it answers as before as long as the global limit is not reached.\<close>

theorem shared_memories_isolated:
  assumes "shared_ok db" and "\<forall>x \<in> set xs. op_scope x \<noteq> Some (scope_key p) \<and> op_time x \<le> now \<and> valid_utc (op_time x)"
    and "valid_utc now"
  shows "get_shared_memory C now fresh p i (fold (shared_step C) xs db)
      \<in> {get_shared_memory C now fresh p i db, Inr None}
    \<and> (int (length (db_shared db)) + int (length xs) \<le> mc_global C \<longrightarrow>
      get_shared_memory C now fresh p i (fold (shared_step C) xs db) = get_shared_memory C now fresh p i db)"
proof (intro conjI impI)
  show "get_shared_memory C now fresh p i (fold (shared_step C) xs db)
      \<in> {get_shared_memory C now fresh p i db, Inr None}"
  proof (cases "safe_memory_id fresh (Some i)")
    case (Inr mid)
    from shared.run_foreign [OF assms, of mid C] Inr show ?thesis by (auto simp: get_shared_live)
  qed (simp add: get_shared_live)
  assume "int (length (db_shared db)) + int (length xs) \<le> mc_global C"
  then show "get_shared_memory C now fresh p i (fold (shared_step C) xs db) = get_shared_memory C now fresh p i db"
    using shared.run_foreign_room [OF assms, of C] by (simp add: get_shared_live)
qed

lemma rowcount_delete_le: "sql_rowcount P (sql_delete D t) \<le> sql_rowcount P t"
  by (induction t) (auto simp: sql_rowcount_def sql_delete_def)

lemma rowcount_upsert_other: "sr_scope n \<noteq> k \<Longrightarrow> sql_rowcount (\<lambda>r. sr_scope r = k) (upsert_shared n t) = sql_rowcount (\<lambda>r. sr_scope r = k) t"
proof (cases "row_of sr_key (sr_key n) t = None")
  case False
  assume "sr_scope n \<noteq> k"
  have "length (filter (\<lambda>r. sr_scope r = k) (sql_update U f t)) = length (filter (\<lambda>r. sr_scope r = k) t)"
    if "\<And>r. sr_scope (f r) = sr_scope r" for U f
    by (induction t) (auto simp: that)
  then show ?thesis using False by (simp add: upsert_shared_def sql_rowcount_def)
qed (simp add: upsert_shared_def sql_rowcount_def)

lemma rowcount_quota_le: "sql_rowcount P (enforce_quota sel n t) \<le> sql_rowcount P t"
  using enforce_quota_deletes [of sel n t] by (auto simp: rowcount_delete_le)

definition within_quotas :: "memory_config \<Rightarrow> memory_db \<Rightarrow> bool" where
  "within_quotas C db \<longleftrightarrow> (\<forall>k. int (sql_rowcount (\<lambda>r. sr_scope r = k) (db_shared db)) \<le> mc_items C)
     \<and> int (length (db_shared db)) \<le> mc_global C"

lemma within_quotas_delete: "within_quotas C db \<Longrightarrow> within_quotas C (db\<lparr>db_shared := sql_delete D (db_shared db)\<rparr>)"
  unfolding within_quotas_def
  by (auto intro: order_trans [OF of_nat_mono [OF rowcount_delete_le]] order_trans [OF of_nat_mono [OF length_sql_delete_le]])

lemma length_global_quota: "0 \<le> mc_global C \<Longrightarrow> int (length (enforce_global_quota C t)) \<le> mc_global C"
  using enforce_quota_count [of "mc_global C" "\<lambda>r. True" t] by (simp add: enforce_global_quota_def sql_rowcount_def)

lemma within_quotas_put:
  assumes "config_ok C" and "within_quotas C db"
  shows "within_quotas C (snd (put_shared_memory C now rid fresh p q db))"
proof (cases rule: put_shared_cases [of C now rid fresh p q db])
  case (2 n t1)
  let ?t2 = "upsert_shared n t1" and ?t3 = "enforce_principal_quota C (scope_key p) (upsert_shared n t1)"
  have "int (sql_rowcount (\<lambda>r. sr_scope r = k) ?t3) \<le> mc_items C" for k
  proof (cases "k = scope_key p")
    case True
    then show ?thesis
      using enforce_quota_count [of "mc_items C" "\<lambda>r. sr_scope r = scope_key p" ?t2] assms(1)
      by (simp add: enforce_principal_quota_def config_ok_def)
  next
    case False
    have "sql_rowcount (\<lambda>r. sr_scope r = k) ?t3 \<le> sql_rowcount (\<lambda>r. sr_scope r = k) ?t2"
      unfolding enforce_principal_quota_def by (rule rowcount_quota_le)
    also have "\<dots> = sql_rowcount (\<lambda>r. sr_scope r = k) t1" using rowcount_upsert_other [of n k t1] 2(2) False by simp
    also have "\<dots> \<le> sql_rowcount (\<lambda>r. sr_scope r = k) (db_shared db)" unfolding 2(1) by (rule rowcount_delete_le)
    finally show ?thesis using assms(2) unfolding within_quotas_def by (meson of_nat_mono order_trans)
  qed
  moreover have "sql_rowcount (\<lambda>r. sr_scope r = k) (enforce_global_quota C ?t3) \<le> sql_rowcount (\<lambda>r. sr_scope r = k) ?t3" for k
    unfolding enforce_global_quota_def by (rule rowcount_quota_le)
  moreover have "int (length (enforce_global_quota C ?t3)) \<le> mc_global C"
    using assms(1) by (intro length_global_quota) (simp add: config_ok_def)
  ultimately show ?thesis
    unfolding 2(4) within_quotas_def enforce_shared_quotas_def
    by (auto intro: order_trans [OF of_nat_mono])
qed (simp add: assms(2))

lemma within_quotas_step: "config_ok C \<Longrightarrow> within_quotas C db \<Longrightarrow> within_quotas C (shared_step C x db)"
proof (cases x)
  case (Op_delete now fresh p i)
  assume "within_quotas C db"
  then show ?thesis
    by (cases "safe_memory_id fresh (Some i)") (simp_all add: Op_delete delete_shared_memory_def Let_def within_quotas_delete)
next
  case (Op_prune now)
  assume "config_ok C" and w: "within_quotas C db"
  then have g: "0 \<le> mc_global C" by (simp add: config_ok_def)
  let ?t1 = "sql_delete (expired_at now) (db_shared db)"
  have "sql_rowcount (\<lambda>r. sr_scope r = k) (enforce_global_quota C ?t1) \<le> sql_rowcount (\<lambda>r. sr_scope r = k) (db_shared db)" for k
    unfolding enforce_global_quota_def by (meson rowcount_quota_le rowcount_delete_le order_trans)
  with w length_global_quota [OF g, of ?t1] show ?thesis
    by (auto simp: Op_prune prune_shared_memories_def cleanup_expired_shared_def within_quotas_def
        intro: order_trans [OF of_nat_mono])
qed (simp add: within_quotas_put)

definition empty_db :: memory_db where
  "empty_db = \<lparr>db_conversations = [], db_messages = [], db_shared = []\<rparr>"

text \<open>C33. The quotas hold after any history from an empty store: at most \<open>mc_items\<close> memories for each
  scope key, and at most \<open>mc_global\<close> in all, for every configuration the constructor can build.\<close>

theorem shared_quotas:
  "let C = store_config m r i g c e d v; db = fold (shared_step C) xs empty_db
   in (\<forall>k. int (sql_rowcount (\<lambda>r. sr_scope r = k) (db_shared db)) \<le> max 1 i)
      \<and> int (length (db_shared db)) \<le> max (max 1 i) g"
proof -
  let ?C = "store_config m r i g c e d v"
  have "within_quotas ?C db \<Longrightarrow> within_quotas ?C (fold (shared_step ?C) xs db)" for db
    by (induction xs arbitrary: db) (auto intro: within_quotas_step [OF store_config_ok])
  moreover have "within_quotas ?C empty_db"
    using store_config_ok [of m r i g c e d v] by (auto simp: within_quotas_def empty_db_def config_ok_def sql_rowcount_def)
  ultimately have "within_quotas ?C (fold (shared_step ?C) xs empty_db)" by blast
  then show ?thesis by (simp add: within_quotas_def Let_def store_config_def)
qed

text \<open>The row a put leaves behind.\<close>

definition put_row :: "shared_row \<Rightarrow> shared_row option \<Rightarrow> shared_row" where
  "put_row n ex = (case ex of None \<Rightarrow> n
     | Some r \<Rightarrow> n\<lparr>sr_row_id := sr_row_id r, sr_client_type := sr_client_type r, sr_subject := sr_subject r,
         sr_owner := sr_owner r, sr_conversation := sr_conversation r, sr_created := sr_created r\<rparr>)"

lemma put_row_upsert:
  assumes "distinct (map sr_key t)"
  shows "put_row n (row_of sr_key (sr_key n) t) \<in> set (upsert_shared n t)"
    and "y \<in> set (upsert_shared n t) \<Longrightarrow> y \<noteq> put_row n (row_of sr_key (sr_key n) t) \<Longrightarrow> y \<in> set t"
proof -
  let ?f = "\<lambda>r. r\<lparr>sr_kind := sr_kind n, sr_content := sr_content n, sr_source := sr_source n,
    sr_confidence := sr_confidence n, sr_sensitivity := sr_sensitivity n, sr_updated := sr_updated n,
    sr_expires := sr_expires n, sr_metadata := sr_metadata n\<rparr>"
  have "put_row n (row_of sr_key (sr_key n) t) \<in> set (upsert_shared n t)
    \<and> (y \<in> set (upsert_shared n t) \<longrightarrow> y \<noteq> put_row n (row_of sr_key (sr_key n) t) \<longrightarrow> y \<in> set t)"
  proof (cases "row_of sr_key (sr_key n) t")
    case None
    then show ?thesis by (auto simp: put_row_def upsert_shared_def)
  next
    case (Some r)
    then have r: "r \<in> set t" "sr_key r = sr_key n" by (auto dest: row_of_SomeD)
    have p: "put_row n (Some r) = ?f r" using r(2) by (simp add: put_row_def sr_key_def)
    have u: "upsert_shared n t = sql_update (\<lambda>x. x = r) ?f t"
      using Some sql_update_key [OF assms Some] by (simp add: upsert_shared_def)
    show ?thesis using r(1) unfolding Some p u by (auto simp: set_sql_update)
  qed
  then show "put_row n (row_of sr_key (sr_key n) t) \<in> set (upsert_shared n t)"
    and "y \<in> set (upsert_shared n t) \<Longrightarrow> y \<noteq> put_row n (row_of sr_key (sr_key n) t) \<Longrightarrow> y \<in> set t" by blast+
qed

lemma put_row_fields:
  "sr_key (put_row n ex) = sr_key n" "sr_updated (put_row n ex) = sr_updated n" "sr_expires (put_row n ex) = sr_expires n"
  by (cases ex; simp add: put_row_def sr_key_def)+

lemma quotas_keep_newest:
  assumes "config_ok C" and "distinct (map sr_row_id t)" and "x \<in> set t"
    and "\<And>y. y \<in> set t \<Longrightarrow> y \<noteq> x \<Longrightarrow> iso_utc (sr_updated y) < iso_utc (sr_updated x)"
  shows "x \<in> set (enforce_shared_quotas C sc t)"
proof -
  let ?t' = "enforce_principal_quota C sc t"
  have c: "1 \<le> mc_items C" "1 \<le> mc_global C" using assms(1) by (simp_all add: config_ok_def)
  have x: "x \<in> set ?t'" unfolding enforce_principal_quota_def by (rule enforce_quota_newest [OF assms(2,3) c(1) assms(4)])
  have d: "distinct (map sr_row_id ?t')"
    unfolding enforce_principal_quota_def
    using enforce_quota_deletes [of "\<lambda>r. sr_scope r = sc" "mc_items C" t] assms(2)
    by (auto simp: distinct_keys_sql_delete)
  have s: "set ?t' \<subseteq> set t" unfolding enforce_principal_quota_def by (rule set_enforce_quota)
  show ?thesis unfolding enforce_shared_quotas_def enforce_global_quota_def
    by (rule enforce_quota_newest [OF d x c(2)]) (use s assms(4) in auto)
qed

lemma provenance_settled: "not_authoritative (provenance_for_request C now p q d) = provenance_for_request C now p q d"
proof -
  have "not_authoritative (v\<lparr>pv_source := s\<rparr>) = (not_authoritative v)\<lparr>pv_source := s\<rparr>" for v s
    by (simp add: not_authoritative_def)
  moreover have "not_authoritative (not_authoritative v) = not_authoritative v" for v
    by (simp add: not_authoritative_def)
  ultimately show ?thesis by (simp add: provenance_for_request_def Let_def)
qed

text \<open>C32. A put is read back under three conditions: every other row is strictly older than the
  put, so that the quotas, which remove the oldest rows, leave the new one; the memory has not
  expired, by the comparison of the texts of the two times that the store makes; and its provenance
  survives being stored, which leaves fields without a value out, and validated again. Then \<open>get\<close>
  finds it at once, with what the put returned, except that the columns \<open>client_type\<close> and
  \<open>source\<close> come back swapped, and that an overwritten memory keeps client type, subject, owner and
  conversation of its first put.\<close>

theorem put_then_get:
  assumes "config_ok C" and "shared_ok db" and "put_shared_memory C now rid fresh p q db = (Inr m, db')"
    and "\<forall>r \<in> set (db_shared db). sr_updated r < now \<and> valid_utc (sr_updated r)"
    and "valid_utc now" and "\<forall>e. pr_expires q = Some e \<longrightarrow> iso_utc later < isoformat e"
    and "mc_validate C (mc_dump C (sh_provenance m)) = Some (sh_provenance m)"
  shows "get_shared_memory C later fresh' p (sh_memory m) db' = Inr (Some
    (case row_of sr_key (scope_key p, sh_memory m) (snd (cleanup_expired_shared now (db_shared db))) of
       None \<Rightarrow> m\<lparr>sh_client_type := sh_source m, sh_source := sh_client_type m\<rparr>
     | Some r \<Rightarrow> m\<lparr>sh_client_type := sr_client_type r, sh_source := sh_client_type m, sh_subject := sr_subject r,
         sh_owner := sr_owner r, sh_conversation := sr_conversation r\<rparr>))"
proof -
  let ?v = "provenance_for_request C now p q (request_metadata q)"
  let ?d = "jput ''provenance'' (JObj (mc_dump C ?v)) (request_metadata q)"
  let ?t1 = "snd (cleanup_expired_shared now (db_shared db))"
  obtain mid where mid: "safe_memory_id fresh (pr_memory q) = Inr mid" "mc_enabled C"
    using assms(3) by (cases "mc_enabled C"; cases "safe_memory_id fresh (pr_memory q)") (simp_all add: put_shared_memory_def)
  let ?n = "shared_row_of now rid mid p q (stored_content C q) ?v ?d"
  let ?ex = "row_of sr_key (scope_key p, mid) ?t1"
  have k: "sr_key ?n = (scope_key p, mid)" by (simp add: shared_row_of_def sr_key_def)
  have free: "\<not> (?ex = None \<and> row_of sr_row_id rid ?t1 \<noteq> None)"
    using assms(3) mid by (auto simp: put_shared_memory_def put_rows_def Let_def split: if_splits)
  then have m: "m = put_result (case ?ex of None \<Rightarrow> now | Some r \<Rightarrow> sr_created r) now mid p q (stored_content C q) ?v ?d"
    and db': "db_shared db' = enforce_shared_quotas C (scope_key p) (upsert_shared ?n ?t1)"
    using assms(3) mid by (auto simp: put_shared_memory_def put_rows_def Let_def)
  have t1: "distinct (map sr_row_id ?t1)" "distinct (map sr_key ?t1)" "set ?t1 \<subseteq> set (db_shared db)"
    using assms(2) by (auto simp: cleanup_expired_shared_def shared_ok_def distinct_map_filter sql_delete_def)
  let ?x = "put_row ?n ?ex" and ?t2 = "upsert_shared ?n ?t1"
  have t2: "distinct (map sr_row_id ?t2)" "distinct (map sr_key ?t2)"
    using upsert_distinct [OF t1(1,2), of ?n] free by (auto simp: k) (simp_all add: shared_row_of_def)
  have x: "?x \<in> set ?t2" using put_row_upsert(1) [OF t1(2), of ?n] by (simp add: k)
  have old: "iso_utc (sr_updated y) < iso_utc (sr_updated ?x)" if "y \<in> set ?t2" "y \<noteq> ?x" for y
  proof -
    have "y \<in> set ?t1" using put_row_upsert(2) [OF t1(2), of y ?n] that by (simp add: k)
    with t1(3) assms(4) have "sr_updated y < now" "valid_utc (sr_updated y)" by auto
    then show ?thesis using assms(5) by (simp add: put_row_fields shared_row_of_def iso_utc_mono)
  qed
  have xin: "?x \<in> set (db_shared db')" unfolding db' by (rule quotas_keep_newest [OF assms(1) t2(1) x old])
  have sub: "set (db_shared db') \<subseteq> set ?t2"
    unfolding db' enforce_shared_quotas_def enforce_global_quota_def enforce_principal_quota_def
    using set_enforce_quota by (meson order_trans)
  have kx: "sr_key ?x = (scope_key p, mid)" by (simp only: put_row_fields k)
  have live: "\<not> expired_at later ?x"
    using assms(6) by (auto simp: expired_at_def put_row_fields shared_row_of_def split: option.splits)
  have only: "y = ?x" if "y \<in> set (db_shared db')" "sr_scope y = scope_key p" "sr_memory y = mid" for y
  proof -
    have "sr_key y = sr_key ?x" using that(2,3) kx by (simp only: sr_key_def)
    moreover have "y \<in> set ?t2" using that(1) sub by blast
    moreover have "inj_on sr_key (set ?t2)" using t2(2) by (simp only: distinct_map)
    ultimately show ?thesis using x by (simp only: inj_on_eq_iff)
  qed
  have "live_row later (scope_key p) mid db' = Some ?x"
    unfolding live_row_def
  proof (rule find_unique [OF xin])
    show "sr_scope ?x = scope_key p \<and> sr_memory ?x = mid \<and> \<not> expired_at later ?x"
      using kx live by (simp only: sr_key_def prod.inject) simp
  qed (use only in blast)
  moreover have "safe_memory_id fresh' (Some mid) = Inr mid"
    using mid(1) by (auto simp: safe_memory_id_def Let_def MEMORY_ID_PATTERN_def shaped_def split: if_splits)
  moreover have "provenance_from_metadata C later (mp_client_type p) ?d = ?v"
    using assms(7) by (simp add: m put_result_def provenance_from_metadata_def stated_provenance_def provenance_settled)
  ultimately show ?thesis
    by (cases ?ex)
      (simp_all add: get_shared_live m put_result_def row_to_shared_def put_row_def shared_row_of_def)
qed

subsection \<open>Conversations as bounded logs\<close>

text \<open>The abstract store: a log of messages for every conversation.\<close>

type_synonym logs = "string \<Rightarrow> message_row list"

definition logs_of :: "memory_db \<Rightarrow> logs" where
  "logs_of db = (\<lambda>c. get_messages c (-1) None None db)"

definition last_of :: "int \<Rightarrow> 'a list \<Rightarrow> 'a list" where
  "last_of n xs = (if n \<le> 0 then xs else drop (length xs - nat n) xs)"

definition log_append :: "int \<Rightarrow> string \<Rightarrow> message_row \<Rightarrow> logs \<Rightarrow> logs" where
  "log_append n c m L = L(c := last_of n (L c @ [m]))"

datatype conv_op =
    Conv_create utc string "string option"
  | Conv_append utc string append_request
  | Conv_delete utc string
  | Conv_prune utc "int option"

fun conv_step :: "memory_config \<Rightarrow> conv_op \<Rightarrow> memory_db \<Rightarrow> memory_db" where
  "conv_step C (Conv_create now fresh req) db = snd (create_conversation now fresh req db)"
| "conv_step C (Conv_append now mid q) db = snd (append_message C now mid q db)"
| "conv_step C (Conv_delete now c) db = snd (delete_conversation c db)"
| "conv_step C (Conv_prune now older) db = snd (prune C now older db)"

fun log_step :: "memory_config \<Rightarrow> conv_op \<Rightarrow> logs \<Rightarrow> logs" where
  "log_step C (Conv_create now fresh req) L = L"
| "log_step C (Conv_append now mid q) L =
     log_append (mc_max_messages C) (ar_conversation q)
       (message_of now mid (q\<lparr>ar_content := redact_content (ar_content q)\<rparr>)) L"
| "log_step C (Conv_delete now c) L = L(c := [])"
| "log_step C (Conv_prune now older) L =
    (let cutoff = now - (case older of None \<Rightarrow> mc_retention_days C | Some d \<Rightarrow> d) * usec_day in
     if \<not> valid_utc cutoff then L else (\<lambda>c. filter (\<lambda>m. cutoff \<le> mg_timestamp m) (L c)))"

fun conv_time :: "conv_op \<Rightarrow> utc" where
  "conv_time (Conv_create now fresh req) = now"
| "conv_time (Conv_append now mid q) = now"
| "conv_time (Conv_delete now c) = now"
| "conv_time (Conv_prune now older) = now"

fun conv_fresh :: "conv_op \<Rightarrow> string list" where
  "conv_fresh (Conv_append now mid q) = [mid]"
| "conv_fresh _ = []"

definition conv_ok :: "utc \<Rightarrow> memory_db \<Rightarrow> bool" where
  "conv_ok now db \<longleftrightarrow> distinct (map mg_id (db_messages db))
     \<and> (\<forall>m \<in> set (db_messages db). row_of cv_id (mg_conversation m) (db_conversations db) \<noteq> None)
     \<and> (\<forall>m \<in> set (db_messages db). valid_utc (mg_timestamp m) \<and> mg_timestamp m \<le> now)"

lemma logs_of_filter: "logs_of db c = time_order (filter (\<lambda>m. mg_conversation m = c) (db_messages db))"
  by (simp add: logs_of_def get_messages_def sql_limit_def)

lemma time_order_filter: "time_order (filter P t) = filter P (time_order t)"
  by (simp add: time_order_def filter_sort)

lemma set_time_order [simp]: "set (time_order t) = set t"
  by (simp add: time_order_def)

lemma insort_key_snoc: "k x \<le> k m \<Longrightarrow> insort_key k x (xs @ [m]) = insort_key k x xs @ [m]" for k :: "'a \<Rightarrow> 'b::linorder"
  by (induction xs) auto

lemma time_order_snoc:
  "\<forall>x \<in> set t. iso_utc (mg_timestamp x) \<le> iso_utc (mg_timestamp m) \<Longrightarrow> time_order (t @ [m]) = time_order t @ [m]"
  unfolding time_order_def
proof (induction t)
  case (Cons x t)
  then have i: "sort_key (\<lambda>m. iso_utc (mg_timestamp m)) (t @ [m]) = sort_key (\<lambda>m. iso_utc (mg_timestamp m)) t @ [m]"
    by simp
  show ?case
    using Cons.prems by (simp only: append_Cons sort_key_simps i) (intro insort_key_snoc, simp)
qed simp

lemma filter_drop_taken:
  assumes "distinct (map f S)"
  shows "filter (\<lambda>x. f x \<notin> set (take e (map f S))) S = drop e S"
proof -
  let ?P = "\<lambda>x. f x \<notin> set (take e (map f S))"
  have d: "set (take e (map f S)) \<inter> set (drop e (map f S)) = {}"
    using assms by (metis append_take_drop_id distinct_append)
  have "filter ?P (take e S) = []" by (auto simp: filter_empty_conv take_map)
  moreover have "filter ?P (drop e S) = drop e S"
    using d by (auto simp: filter_id_conv drop_map)
  ultimately have "filter ?P (take e S @ drop e S) = drop e S" by (simp only: filter_append append_Nil)
  then show ?thesis by (simp only: append_take_drop_id)
qed

lemma enforce_limit_log:
  assumes "distinct (map mg_id t)"
  shows "time_order (filter (\<lambda>m. mg_conversation m = c') (enforce_message_limit C c t))
    = (if c' = c then last_of (mc_max_messages C) (time_order (filter (\<lambda>m. mg_conversation m = c) t))
       else time_order (filter (\<lambda>m. mg_conversation m = c') t))"
proof -
  let ?S = "time_order (filter (\<lambda>m. mg_conversation m = c) t)"
  let ?e = "nat (int (length ?S) - mc_max_messages C)"
  have dS: "distinct (map mg_id ?S)"
  proof -
    have "mset (map mg_id ?S) = mset (map mg_id (filter (\<lambda>m. mg_conversation m = c) t))" by (simp add: time_order_def)
    then show ?thesis using assms by (metis distinct_map_filter mset_eq_imp_distinct_iff)
  qed
  show ?thesis
  proof (cases "0 < mc_max_messages C \<and> 0 < int (length ?S) - mc_max_messages C")
    case True
    have cut: "enforce_message_limit C c t = filter (\<lambda>m. mg_id m \<notin> set (take ?e (map mg_id ?S))) t"
      using True by (simp add: enforce_message_limit_def Let_def sql_delete_def)
    show ?thesis
    proof (cases "c' = c")
      case True
      have "time_order (filter (\<lambda>m. mg_conversation m = c) (enforce_message_limit C c t))
          = filter (\<lambda>m. mg_id m \<notin> set (take ?e (map mg_id ?S))) ?S"
        by (simp only: cut time_order_filter filter_filter conj_commute)
      also have "\<dots> = drop ?e ?S" by (rule filter_drop_taken [OF dS])
      also have "\<dots> = last_of (mc_max_messages C) ?S"
        using \<open>0 < mc_max_messages C \<and> _\<close> by (simp add: last_of_def nat_diff_distrib)
      finally show ?thesis using True by simp
    next
      case False
      have "mg_id m \<notin> set (map mg_id ?S)" if "m \<in> set t" "mg_conversation m = c'" for m
        using that False assms by (auto simp: distinct_map inj_on_def)
      then have "filter (\<lambda>m. mg_conversation m = c') (enforce_message_limit C c t) = filter (\<lambda>m. mg_conversation m = c') t"
        unfolding cut filter_filter by (intro filter_cong) (auto dest: in_set_takeD)
      with False show ?thesis by simp
    qed
  next
    case False
    then have "enforce_message_limit C c t = t"
      by (auto simp: enforce_message_limit_def Let_def)
    moreover have "last_of (mc_max_messages C) ?S = ?S" using False by (auto simp: last_of_def)
    ultimately show ?thesis by simp
  qed
qed

lemma set_enforce_limit: "set (enforce_message_limit C c t) \<subseteq> set t"
  by (auto simp: enforce_message_limit_def Let_def sql_delete_def split: if_splits)

lemma distinct_enforce_limit: "distinct (map mg_id t) \<Longrightarrow> distinct (map mg_id (enforce_message_limit C c t))"
  by (simp add: enforce_message_limit_def Let_def distinct_keys_sql_delete)

text \<open>One step, with a fresh message id and a clock that does not go back.\<close>

lemma touch_present: "row_of cv_id c (touch_conversation now c t) \<noteq> None"
  "row_of cv_id d t \<noteq> None \<Longrightarrow> row_of cv_id d (touch_conversation now c t) \<noteq> None"
  by (auto simp: touch_conversation_def row_of_append row_of_sql_update split: option.splits)

lemma drop_orphans:
  "db_messages (drop_conversations (\<lambda>r. cv_id r \<notin> mg_conversation ` set kept) (db\<lparr>db_messages := kept\<rparr>)) = kept"
  "db_conversations (drop_conversations (\<lambda>r. cv_id r \<notin> mg_conversation ` set kept) (db\<lparr>db_messages := kept\<rparr>))
     = sql_delete (\<lambda>r. cv_id r \<notin> mg_conversation ` set kept) (db_conversations db)"
  unfolding drop_conversations_def Let_def sql_delete_def by (auto simp: filter_id_conv) (metis imageI)

lemma row_kept: "c \<in> S \<Longrightarrow> row_of cv_id c (sql_delete (\<lambda>r. cv_id r \<notin> S) t) = row_of cv_id c t"
  by (rule row_of_sql_delete_other) auto

lemma prune_result:
  assumes "prune C now older db = (Inr n, db')"
  defines "cutoff \<equiv> now - (case older of None \<Rightarrow> mc_retention_days C | Some d \<Rightarrow> d) * usec_day"
  shows "valid_utc cutoff" and "n = 2 * sql_rowcount (\<lambda>m. iso_utc (mg_timestamp m) < iso_utc cutoff) (db_messages db)"
    and "db_messages db' = sql_delete (\<lambda>m. iso_utc (mg_timestamp m) < iso_utc cutoff) (db_messages db)"
    and "db_conversations db' = sql_delete (\<lambda>r. cv_id r \<notin> mg_conversation ` set (db_messages db')) (db_conversations db)"
  using assms(1) unfolding prune_def Let_def cutoff_def by (auto simp: drop_orphans split: if_splits)

lemma conv_step_refines:
  assumes "conv_ok u db" and "u \<le> conv_time x" and "valid_utc (conv_time x)"
    and "\<forall>i \<in> set (conv_fresh x). row_of mg_id i (db_messages db) = None"
  shows "logs_of (conv_step C x db) = log_step C x (logs_of db) \<and> conv_ok (conv_time x) (conv_step C x db)"
proof -
  have ok: "distinct (map mg_id (db_messages db))"
    and fk: "\<And>m. m \<in> set (db_messages db) \<Longrightarrow> row_of cv_id (mg_conversation m) (db_conversations db) \<noteq> None"
    and time: "\<And>m. m \<in> set (db_messages db) \<Longrightarrow> valid_utc (mg_timestamp m) \<and> mg_timestamp m \<le> conv_time x"
    using assms(1,2) by (auto simp: conv_ok_def intro: order_trans)
  show ?thesis
  proof (cases x)
    case (Conv_create now fresh req)
    then show ?thesis
      using ok fk time
      by (auto simp: create_conversation_def Let_def conv_ok_def logs_of_filter fun_eq_iff row_of_append split: option.splits)
  next
    case (Conv_append now mid q)
    let ?m = "message_of now mid (q\<lparr>ar_content := redact_content (ar_content q)\<rparr>)"
    let ?t = "db_messages db @ [?m]" and ?c = "ar_conversation q"
    have free: "row_of mg_id mid (db_messages db) = None" using assms(4) Conv_append by simp
    have m: "mg_id ?m = mid" "mg_conversation ?m = ?c" "mg_timestamp ?m = now" by (simp_all add: message_of_def)
    have d: "distinct (map mg_id ?t)" using ok free by (simp add: m row_of_None_iff)
    have st: "snd (append_message C now mid q db) = db\<lparr>db_conversations := touch_conversation now ?c (db_conversations db),
        db_messages := enforce_message_limit C ?c ?t\<rparr>"
      using free Conv_append by (simp add: append_message_def Let_def)
    have snoc: "time_order (filter (\<lambda>m. mg_conversation m = ?c) ?t) = time_order (filter (\<lambda>m. mg_conversation m = ?c) (db_messages db)) @ [?m]"
      using time assms(3) Conv_append by (simp add: m) (intro time_order_snoc, auto simp: m)
    have "logs_of (snd (append_message C now mid q db)) c = log_step C x (logs_of db) c" for c
      using enforce_limit_log [OF d, of c C ?c] snoc
      by (auto simp: st logs_of_filter Conv_append log_append_def m)
    moreover have "conv_ok (conv_time x) (snd (append_message C now mid q db))"
      unfolding st conv_ok_def
    proof (intro conjI ballI)
      show "distinct (map mg_id (db_messages (db\<lparr>db_conversations := touch_conversation now ?c (db_conversations db),
          db_messages := enforce_message_limit C ?c ?t\<rparr>)))"
        using distinct_enforce_limit [OF d] by simp
      fix y assume "y \<in> set (db_messages (db\<lparr>db_conversations := touch_conversation now ?c (db_conversations db),
          db_messages := enforce_message_limit C ?c ?t\<rparr>))"
      then have y: "y \<in> set (db_messages db) \<or> y = ?m" using set_enforce_limit [of C ?c ?t] by auto
      then show "row_of cv_id (mg_conversation y) (db_conversations (db\<lparr>db_conversations := touch_conversation now ?c (db_conversations db),
          db_messages := enforce_message_limit C ?c ?t\<rparr>)) \<noteq> None"
        by (elim disjE) (simp_all add: m touch_present fk del: not_None_eq)
      from y show "valid_utc (mg_timestamp y)" "mg_timestamp y \<le> conv_time x"
        using time assms(3) Conv_append m(3) by auto
    qed
    ultimately show ?thesis using Conv_append by (simp add: fun_eq_iff)
  next
    case (Conv_delete now c)
    have "mg_conversation m \<in> set (map cv_id (filter (\<lambda>r. cv_id r = c) (db_conversations db))) \<longleftrightarrow> mg_conversation m = c"
      if "m \<in> set (db_messages db)" for m
      using fk [OF that] by (auto simp: row_of_None_iff)
    then have st: "db_messages (snd (delete_conversation c db)) = filter (\<lambda>m. mg_conversation m \<noteq> c) (db_messages db)"
      "db_conversations (snd (delete_conversation c db)) = sql_delete (\<lambda>r. cv_id r = c) (db_conversations db)"
      by (auto simp: delete_conversation_def drop_conversations_def Let_def sql_delete_def intro!: filter_cong)
    have "logs_of (snd (delete_conversation c db)) c' = log_step C x (logs_of db) c'" for c'
      by (cases "c' = c") (auto simp: logs_of_filter st Conv_delete time_order_def intro!: arg_cong [of _ _ "sort_key _"] filter_cong)
    moreover have "conv_ok (conv_time x) (snd (delete_conversation c db))"
      using ok fk time by (auto simp: conv_ok_def st distinct_map_filter row_of_sql_delete_other)
    ultimately show ?thesis using Conv_delete by (simp add: fun_eq_iff)
  next
    case (Conv_prune now older)
    let ?cut = "now - (case older of None \<Rightarrow> mc_retention_days C | Some d \<Rightarrow> d) * usec_day"
    show ?thesis
    proof (cases "valid_utc ?cut")
      case True
      let ?kept = "filter (\<lambda>m. ?cut \<le> mg_timestamp m) (db_messages db)"
      have kept: "sql_delete (\<lambda>m. iso_utc (mg_timestamp m) < iso_utc ?cut) (db_messages db) = ?kept"
        using time True by (auto simp: sql_delete_def not_less intro!: filter_cong)
      obtain n db' where pr: "prune C now older db = (Inr n, db')" using True by (simp add: prune_def Let_def)
      have st: "db_messages (snd (prune C now older db)) = ?kept"
        "db_conversations (snd (prune C now older db)) = sql_delete (\<lambda>r. cv_id r \<notin> mg_conversation ` set ?kept) (db_conversations db)"
        using prune_result(3,4) [OF pr] kept by (simp_all add: pr)
      have "logs_of (snd (prune C now older db)) c = log_step C x (logs_of db) c" for c
        using True by (simp add: logs_of_filter st Conv_prune Let_def time_order_filter conj_commute)
      moreover have "conv_ok (conv_time x) (snd (prune C now older db))"
        using ok fk time by (simp add: conv_ok_def st distinct_map_filter row_kept del: not_None_eq)
      ultimately show ?thesis using Conv_prune by (simp add: fun_eq_iff)
    next
      case False
      then show ?thesis using assms(1-3) Conv_prune ok fk time by (simp add: prune_def Let_def conv_ok_def)
    qed
  qed
qed

subsection \<open>Properties of the conversations\<close>

text \<open>The messages of a history carry new ids and clocks that do not go back.\<close>

fun conv_history :: "utc \<Rightarrow> string set \<Rightarrow> conv_op list \<Rightarrow> bool" where
  "conv_history u used [] = True"
| "conv_history u used (x # xs) = (u \<le> conv_time x \<and> valid_utc (conv_time x)
     \<and> set (conv_fresh x) \<inter> used = {} \<and> conv_history (conv_time x) (used \<union> set (conv_fresh x)) xs)"

lemma conv_step_ids: "mg_id ` set (db_messages (conv_step C x db)) \<subseteq> mg_id ` set (db_messages db) \<union> set (conv_fresh x)"
proof (cases x)
  case (Conv_append now mid q)
  then show ?thesis
    using set_enforce_limit [of C "ar_conversation q" "db_messages db @ [message_of now mid (q\<lparr>ar_content := redact_content (ar_content q)\<rparr>)]"]
    by (auto simp: append_message_def Let_def message_of_def)
qed (auto simp: create_conversation_def delete_conversation_def drop_conversations_def prune_def Let_def sql_delete_def)

text \<open>C13. The store refines a bounded log for every conversation: after any history of creating,
  appending, deleting and pruning, what \<open>get_messages\<close> returns of each conversation is its log, where an append
  adds the redacted message at the end and keeps the last \<open>mc_max_messages\<close>.\<close>

theorem conversations_refine_logs:
  assumes "conv_history 0 {} xs"
  shows "logs_of (fold (conv_step C) xs empty_db) = fold (log_step C) xs (\<lambda>c. [])"
proof -
  have "logs_of (fold (conv_step C) xs db) = fold (log_step C) xs (logs_of db)"
    if "conv_history u used xs" "conv_ok u db" "mg_id ` set (db_messages db) \<subseteq> used" for u used db
    using that
  proof (induction xs arbitrary: u used db)
    case (Cons x xs)
    have "\<forall>i \<in> set (conv_fresh x). row_of mg_id i (db_messages db) = None"
      using Cons.prems(1,3) by (auto simp: row_of_None_iff simp del: not_None_eq)
    with conv_step_refines [OF Cons.prems(2), of x C] Cons.prems(1)
    have s: "logs_of (conv_step C x db) = log_step C x (logs_of db)" "conv_ok (conv_time x) (conv_step C x db)" by auto
    have "mg_id ` set (db_messages (conv_step C x db)) \<subseteq> used \<union> set (conv_fresh x)"
      using conv_step_ids [of C x db] Cons.prems(3) by blast
    with Cons.IH [OF _ s(2), of "used \<union> set (conv_fresh x)"] Cons.prems(1) s(1) show ?case by simp
  qed simp
  moreover have "conv_ok 0 empty_db" by (simp add: conv_ok_def empty_db_def)
  moreover have "logs_of empty_db = (\<lambda>c. [])" by (simp add: logs_of_filter empty_db_def fun_eq_iff time_order_def)
  ultimately show ?thesis using assms by (metis empty_db_def empty_subsetI image_is_empty list.set(1) memory_db.simps(2))
qed

text \<open>\<open>prune\<close> reports twice the number of messages it deleted, whatever number of conversations it
  deleted: it reads the count of the second statement from the cursor of the first. A conversation that was just created is
  deleted with the empty ones.\<close>

theorem prune_miscounts:
  assumes "prune C now older db = (Inr n, db')"
  shows "n = 2 * (length (db_messages db) - length (db_messages db'))
    \<and> (\<forall>r \<in> set (db_conversations db'). \<exists>m \<in> set (db_messages db'). mg_conversation m = cv_id r)"
proof -
  let ?old = "\<lambda>m. iso_utc (mg_timestamp m) < iso_utc (now - (case older of None \<Rightarrow> mc_retention_days C | Some d \<Rightarrow> d) * usec_day)"
  note n = prune_result(2) [OF assms] and m = prune_result(3) [OF assms] and c = prune_result(4) [OF assms]
  have "n = 2 * (length (db_messages db) - length (db_messages db'))"
    using length_sql_delete [of ?old "db_messages db"] by (simp add: n m)
  moreover have "\<forall>r \<in> set (db_conversations db'). \<exists>m \<in> set (db_messages db'). mg_conversation m = cv_id r"
    by (auto simp: c sql_delete_def)
  ultimately show ?thesis by blast
qed

text \<open>Redaction leaves secrets in the text: a bearer token that ends with padding is kept, because the match is cut
  at its last character, and of a key with a dash only the part before the second dash is removed.\<close>

theorem redaction_leaks:
  "redact_content ''Bearer q7Zp=='' = ''Bearer q7Zp=<redacted>''
   \<and> redact_content ''use sk-or-v1-q7Zp'' = ''use <redacted>-v1-q7Zp''
   \<and> redact_content ''Authorization: Bearer q7Zp='' = ''Authorization: Bearer q7Zp=<redacted><redacted>''"
  by code_simp

subsection \<open>The properties at concrete inputs\<close>

definition sample_memory_config :: memory_config where
  "sample_memory_config = store_config 2 90 3 5 20 True
     (\<lambda>v. [(''source'', JStr (pv_source v)), (''observed_at'', JInt (pv_observed_at v))])
     (\<lambda>d. case jget ''observed_at'' d of JInt t \<Rightarrow> Some (plain_provenance t (case jget ''source'' d of JStr s \<Rightarrow> s | _ \<Rightarrow> [])) | _ \<Rightarrow> None)"

definition sample_joe :: memory_principal where
  "sample_joe = \<lparr>mp_client_type = ''cli'', mp_client_subject = ''joe'', mp_account_owner = None, mp_conversation = None\<rparr>"

definition sample_ann :: memory_principal where
  "sample_ann = \<lparr>mp_client_type = ''cli'', mp_client_subject = ''ann'', mp_account_owner = None, mp_conversation = None\<rparr>"

definition sample_put :: put_request where
  "sample_put = \<lparr>pr_memory = Some ''m1'', pr_kind = Kind_fact, pr_content = ''tea'', pr_source = Some ''notes'',
     pr_confidence = (1, 1), pr_sensitivity = Sens_private, pr_expires = None, pr_provenance = None, pr_metadata = None\<rparr>"

definition sample_message :: "string \<Rightarrow> append_request" where
  "sample_message c = \<lparr>ar_conversation = c, ar_role = ''user'', ar_content = ''hello'', ar_provider = None, ar_model = None,
     ar_request = None, ar_metadata = None\<rparr>"

lemma valid_small: "0 \<le> t \<Longrightarrow> t < 1000 \<Longrightarrow> valid_utc t"
  by (simp add: valid_utc_def max_wall_def usec_day_def)

definition sample_row :: "utc \<Rightarrow> string \<Rightarrow> memory_principal \<Rightarrow> shared_row" where
  "sample_row now rid p = shared_row_of now rid ''m1'' p sample_put ''tea'' (plain_provenance now ''notes'')
     [(''provenance'', JObj [(''source'', JStr ''notes''), (''observed_at'', JInt now)])]"

definition sample_result :: "utc \<Rightarrow> memory_principal \<Rightarrow> shared_memory" where
  "sample_result now p = put_result now now ''m1'' p sample_put ''tea'' (plain_provenance now ''notes'')
     [(''provenance'', JObj [(''source'', JStr ''notes''), (''observed_at'', JInt now)])]"

lemma sample_stored: "stored_content sample_memory_config sample_put = ''tea''"
  by code_simp

lemma sample_id: "safe_memory_id f (Some ''m1'') = Inr ''m1''"
  by (simp add: safe_memory_id_def) code_simp

lemma sample_put_new:
  assumes "\<forall>r \<in> set t. sr_scope r \<noteq> scope_key p \<and> sr_row_id r \<noteq> rid \<and> sr_expires r = None" and "length t < 3"
  shows "put_shared_memory sample_memory_config now rid f p sample_put (empty_db\<lparr>db_shared := t\<rparr>)
    = (Inr (sample_result now p), empty_db\<lparr>db_shared := t @ [sample_row now rid p]\<rparr>)"
proof -
  have n: "row_of sr_key (scope_key p, ''m1'') t = None" "row_of sr_row_id rid t = None"
    using assms(1) by (auto simp: row_of_None_iff sr_key_def)
  have e: "sql_delete (expired_at now) t = t"
    using assms(1) by (auto simp: sql_delete_def filter_id_conv expired_at_def)
  have cfg: "mc_enabled sample_memory_config" "mc_items sample_memory_config = 3" "mc_global sample_memory_config = 5"
    "\<And>v. mc_dump sample_memory_config v = [(''source'', JStr (pv_source v)), (''observed_at'', JInt (pv_observed_at v))]"
    by (simp_all add: sample_memory_config_def store_config_def)
  have putf: "pr_memory sample_put = Some ''m1''" "pr_source sample_put = Some ''notes''" "pr_provenance sample_put = None"
    "pr_metadata sample_put = None"
    by (simp_all add: sample_put_def)
  have q: "enforce_quota sel 3 u = u" "enforce_quota sel 5 u = u" if "length u \<le> 3" for sel u
    using that by (simp_all add: enforce_quota_id)
  show ?thesis
    using n assms(2) cfg putf
    by (simp add: put_shared_memory_def put_rows_def Let_def e cleanup_expired_shared_def sample_stored sample_id
        provenance_for_request_def stated_provenance_def not_authoritative_def plain_provenance_def request_metadata_def
        sample_result_def sample_row_def upsert_shared_def enforce_shared_quotas_def enforce_principal_quota_def
        enforce_global_quota_def q jget_def
        shared_row_of_def sr_key_def)
qed

definition sample_shared_db :: memory_db where
  "sample_shared_db = empty_db\<lparr>db_shared := [sample_row 1 ''r1'' sample_joe]\<rparr>"

lemma sample_scopes: "scope_key sample_joe \<noteq> scope_key sample_ann"
  by code_simp

lemma sample_fields: "sr_scope (sample_row now rid p) = scope_key p" "sr_row_id (sample_row now rid p) = rid"
  "sr_memory (sample_row now rid p) = ''m1''" "sr_expires (sample_row now rid p) = None" "sr_updated (sample_row now rid p) = now"
  "sr_content (sample_row now rid p) = ''tea''"
  by (simp_all add: sample_row_def shared_row_of_def sample_put_def)

lemma sample_ok: "shared_ok sample_shared_db"
  by (simp add: shared_ok_def sample_shared_db_def empty_db_def)

theorem shared_memories_isolated_witness:
  "\<exists>m. get_shared_memory sample_memory_config 3 ''f'' sample_joe ''m1''
      (fold (shared_step sample_memory_config) [Op_put 2 ''r2'' ''f2'' sample_ann sample_put] sample_shared_db) = Inr (Some m)
    \<and> sh_content m = ''tea''"
proof -
  let ?xs = "[Op_put 2 ''r2'' ''f2'' sample_ann sample_put]"
  note ok = sample_ok
  have xs: "\<forall>x \<in> set ?xs. op_scope x \<noteq> Some (scope_key sample_joe) \<and> op_time x \<le> 3 \<and> valid_utc (op_time x)"
    using sample_scopes by (simp add: valid_small)
  have room: "int (length (db_shared sample_shared_db)) + int (length ?xs) \<le> mc_global sample_memory_config"
    by (simp add: sample_shared_db_def sample_memory_config_def store_config_def empty_db_def)
  have v: "valid_utc 3" by (simp add: valid_small)
  from shared_memories_isolated [OF ok xs v, of sample_memory_config "''f''" "''m1''"] room
  have "get_shared_memory sample_memory_config 3 ''f'' sample_joe ''m1'' (fold (shared_step sample_memory_config) ?xs sample_shared_db)
    = get_shared_memory sample_memory_config 3 ''f'' sample_joe ''m1'' sample_shared_db" by blast
  moreover have "get_shared_memory sample_memory_config 3 ''f'' sample_joe ''m1'' sample_shared_db
      = Inr (Some (row_to_shared sample_memory_config 3 (sample_row 1 ''r1'' sample_joe)))"
    by (simp add: get_shared_live sample_id live_row_def sample_shared_db_def empty_db_def sample_fields expired_at_def)
  ultimately show ?thesis by (simp add: row_to_shared_def sample_fields)
qed

theorem put_then_get_witness:
  "\<exists>m db'. put_shared_memory sample_memory_config 2 ''r2'' ''f2'' sample_ann sample_put sample_shared_db = (Inr m, db')
     \<and> sh_source m = ''notes'' \<and> sh_client_type m = ''cli''
     \<and> get_shared_memory sample_memory_config 3 ''f'' sample_ann (sh_memory m) db'
         = Inr (Some (m\<lparr>sh_client_type := ''notes'', sh_source := ''cli''\<rparr>))"
proof -
  let ?m = "sample_result 2 sample_ann" and ?db' = "empty_db\<lparr>db_shared := [sample_row 1 ''r1'' sample_joe] @ [sample_row 2 ''r2'' sample_ann]\<rparr>"
  have put: "put_shared_memory sample_memory_config 2 ''r2'' ''f2'' sample_ann sample_put sample_shared_db = (Inr ?m, ?db')"
    unfolding sample_shared_db_def by (rule sample_put_new) (simp_all add: sample_fields sample_scopes)
  have c: "config_ok sample_memory_config" unfolding sample_memory_config_def by (rule store_config_ok)
  have old: "\<forall>r \<in> set (db_shared sample_shared_db). sr_updated r < 2 \<and> valid_utc (sr_updated r)"
    by (simp add: sample_shared_db_def empty_db_def sample_fields valid_small)
  have new: "row_of sr_key (scope_key sample_ann, ''m1'') (snd (cleanup_expired_shared 2 (db_shared sample_shared_db))) = None"
    using sample_scopes
    by (simp add: sample_shared_db_def empty_db_def cleanup_expired_shared_def sql_delete_def expired_at_def sample_fields sr_key_def)
  have val: "mc_validate sample_memory_config (mc_dump sample_memory_config (sh_provenance ?m)) = Some (sh_provenance ?m)"
    by (simp add: sample_memory_config_def store_config_def Let_def sample_result_def put_result_def plain_provenance_def jget_def)
  have m: "sh_memory ?m = ''m1''" "sh_source ?m = ''notes''" "sh_client_type ?m = ''cli''"
    by (simp_all add: sample_result_def put_result_def plain_provenance_def sample_ann_def)
  have "get_shared_memory sample_memory_config 3 ''f'' sample_ann (sh_memory ?m) ?db'
      = Inr (Some (?m\<lparr>sh_client_type := sh_source ?m, sh_source := sh_client_type ?m\<rparr>))"
    using put_then_get [where later = 3 and fresh' = "''f''", OF c sample_ok put old _ _ val] new
    by (simp add: m valid_small) (simp add: sample_put_def)
  with put show ?thesis by (intro exI [of _ ?m] exI [of _ ?db']) (simp add: m)
qed

theorem conversations_refine_logs_witness:
  "map mg_id (get_messages ''c'' (-1) None None (fold (conv_step sample_memory_config)
     [Conv_append 1 ''a'' (sample_message ''c''), Conv_append 2 ''b'' (sample_message ''c''),
      Conv_append 3 ''d'' (sample_message ''e''), Conv_append 3 ''f'' (sample_message ''c'')] empty_db)) = [''b'', ''f'']"
proof -
  let ?xs = "[Conv_append 1 ''a'' (sample_message ''c''), Conv_append 2 ''b'' (sample_message ''c''),
    Conv_append 3 ''d'' (sample_message ''e''), Conv_append 3 ''f'' (sample_message ''c'')]"
  have "conv_history 0 {} ?xs" by (simp add: valid_small)
  from fun_cong [OF conversations_refine_logs [OF this, of sample_memory_config], of "''c''"]
  have "get_messages ''c'' (-1) None None (fold (conv_step sample_memory_config) ?xs empty_db)
      = fold (log_step sample_memory_config) ?xs (\<lambda>c. []) ''c''" by (simp add: logs_of_def)
  moreover have "map mg_id (fold (log_step sample_memory_config) ?xs (\<lambda>c. []) ''c'') = [''b'', ''f'']" by code_simp
  ultimately show ?thesis by simp
qed

theorem prune_miscounts_witness:
  "\<exists>n db'. prune sample_memory_config (200 * usec_day) None
      (empty_db\<lparr>db_messages := [message_of 1 ''a'' (sample_message ''c''), message_of 2 ''b'' (sample_message ''c'')]\<rparr>)
        = (Inr n, db') \<and> n = 4 \<and> length (db_messages db') = 0"
proof -
  let ?db = "empty_db\<lparr>db_messages := [message_of 1 ''a'' (sample_message ''c''), message_of 2 ''b'' (sample_message ''c'')]\<rparr>"
  have d: "db_messages ?db = [message_of 1 ''a'' (sample_message ''c''), message_of 2 ''b'' (sample_message ''c'')]" by simp
  obtain n db' where p: "prune sample_memory_config (200 * usec_day) None ?db = (Inr n, db')"
    by (simp add: prune_def Let_def sample_memory_config_def store_config_def valid_utc_def max_wall_def usec_day_def)
  have "iso_utc 1 < iso_utc (110 * usec_day)" "iso_utc 2 < iso_utc (110 * usec_day)"
    by (simp_all add: iso_utc_mono valid_utc_def max_wall_def usec_day_def)
  then have "length (db_messages db') = 0"
    using prune_result(3) [OF p] d
    by (simp add: sample_memory_config_def store_config_def Let_def usec_day_def sql_delete_def message_of_def)
  with prune_miscounts [OF p] p d show ?thesis by auto
qed

end
