(* ===== verification/Agent_Models.thy ===== *)
theory Agent_Models
  imports Foundation_Models
begin

section \<open>Agents, domains and endpoints\<close>

text \<open>
  The rest of \<open>src/freyja/foundation_models.py\<close> that the agent stack uses, and the seed data of
  \<open>src/freyja/foundation_seed.py\<close>: the security domains with the domains each may reach, the
  persistent agents with their grants, the tool capabilities, the inference endpoints and the
  machines. Ids and times that the models draw themselves (\<open>uuid4\<close>, \<open>now\<close>) are left out of the
  records that nothing looks up by them.
\<close>

record security_domain_info =
  sd_id :: security_domain
  sd_name :: string
  sd_parent :: "security_domain option"
  sd_allowed :: "security_domain set"
  sd_floor :: memory_classification

definition allows_domain :: "security_domain_info \<Rightarrow> security_domain \<Rightarrow> bool" where
  "allows_domain d target \<longleftrightarrow> target = sd_id d \<or> target \<in> sd_allowed d"

record machine =
  mc_id :: string
  mc_name :: string
  mc_role :: string
  mc_domain :: security_domain
  mc_capabilities :: "string set"
  mc_active :: bool

record persistent_agent =
  pa_id :: string
  pa_name :: string
  pa_logical :: "string option"
  pa_owner :: string
  pa_domain :: security_domain
  pa_home :: "string option"
  pa_aliases :: "string set"
  pa_capabilities :: "string set"
  pa_grants :: "string set"
  pa_private :: "string option"
  pa_shared :: "string set"
  pa_inference :: "string list"
  pa_egress :: string
  pa_active :: bool

definition normalize_agent_key :: "string \<Rightarrow> string" where
  "normalize_agent_key s =
    map (\<lambda>c. if c = CHR ''_'' \<or> c = CHR '' '' then CHR ''-'' else c) (str_lower (str_strip s))"

definition agent_matches :: "persistent_agent \<Rightarrow> string \<Rightarrow> bool" where
  "agent_matches a v \<longleftrightarrow> normalize_agent_key v = normalize_agent_key (pa_id a)
     \<or> normalize_agent_key v \<in> pa_aliases a"

record inference_endpoint =
  ie_id :: string
  ie_name :: string
  ie_provider :: string
  ie_machine :: "string option"
  ie_url :: string
  ie_model :: string
  ie_capabilities :: "string set"
  ie_domain :: security_domain
  ie_priority :: int
  ie_enabled :: bool

record gateway_sender =
  gs_id :: string
  gs_name :: string
  gs_domain :: security_domain
  gs_authenticated :: bool

record handoff =
  gh_id :: string
  gh_sender :: string
  gh_target :: string
  gh_conversation :: string
  gh_source :: security_domain
  gh_target_domain :: security_domain
  gh_prompt :: string
  gh_channel :: string
  gh_message :: "string option"
  gh_attachments :: "json_obj list"
  gh_reply :: json_obj
  gh_permissions :: "string set"
  gh_tools :: "string set"
  gh_scopes :: "string set"
  gh_actor :: "string option"
  gh_subject :: "string option"
  gh_document :: "string option"
  gh_tool_policy :: "string option"
  gh_privacy_policy :: "string option"
  gh_parent_visibility :: "string option"
  gh_audit_reason :: "string option"
  gh_egress :: string

record tool_capability =
  tc_id :: string
  tc_category :: string
  tc_name :: string
  tc_permission :: string
  tc_protocol :: string
  tc_mutation :: bool
  tc_machine :: "string option"
  tc_domain :: security_domain

record agent_step =
  sp_kind :: string
  sp_detail :: string
  sp_tool :: "string option"
  sp_endpoint :: "string option"
  sp_success :: "bool option"

datatype audit_type =
    Handoff_created | Handoff_denied | Run_started | Tool_selected | Tool_executed
  | Inference_selected | Inference_completed | Memory_recalled | Memory_written
  | Candidate_proposed | Candidate_reviewed | Follow_up_requested
  | Job_created | Job_claimed | Job_completed | Egress_allowed | Egress_denied

fun audit_type_value :: "audit_type \<Rightarrow> string" where
  "audit_type_value Handoff_created = ''gateway_handoff_created''"
| "audit_type_value Handoff_denied = ''gateway_handoff_denied''"
| "audit_type_value Run_started = ''agent_run_started''"
| "audit_type_value Tool_selected = ''agent_tool_selected''"
| "audit_type_value Tool_executed = ''agent_tool_executed''"
| "audit_type_value Inference_selected = ''agent_inference_selected''"
| "audit_type_value Inference_completed = ''agent_inference_completed''"
| "audit_type_value Memory_recalled = ''agent_memory_recalled''"
| "audit_type_value Memory_written = ''agent_memory_written''"
| "audit_type_value Candidate_proposed = ''agent_memory_candidate_proposed''"
| "audit_type_value Candidate_reviewed = ''agent_memory_candidate_reviewed''"
| "audit_type_value Follow_up_requested = ''agent_follow_up_requested''"
| "audit_type_value Job_created = ''worker_job_created''"
| "audit_type_value Job_claimed = ''worker_job_claimed''"
| "audit_type_value Job_completed = ''worker_job_completed''"
| "audit_type_value Egress_allowed = ''privacy_egress_allowed''"
| "audit_type_value Egress_denied = ''privacy_egress_denied''"

record agent_event =
  av_type :: audit_type
  av_actor :: string
  av_domain :: security_domain
  av_target :: "string option"
  av_allowed :: bool
  av_reason :: string
  av_metadata :: json_obj

subsection \<open>Seed data\<close>

definition FREYJA_HOUSEHOLD_DOMAIN :: security_domain_info where
  "FREYJA_HOUSEHOLD_DOMAIN = \<lparr>sd_id = Household, sd_name = ''Freyja household domain'',
     sd_parent = None, sd_allowed = {Freyja_household, Person_joe, Person_beth, Person_liam, Person_jenna, System},
     sd_floor = Private\<rparr>"

definition LEGACY_FREYJA_HOUSEHOLD_DOMAIN :: security_domain_info where
  "LEGACY_FREYJA_HOUSEHOLD_DOMAIN = \<lparr>sd_id = Freyja_household, sd_name = ''Legacy Freyja household compatibility domain'',
     sd_parent = None, sd_allowed = {Household},
     sd_floor = Private\<rparr>"

definition JOE_DOMAIN :: security_domain_info where
  "JOE_DOMAIN = \<lparr>sd_id = Person_joe, sd_name = ''Joe private domain'',
     sd_parent = Some Household, sd_allowed = {Household, System},
     sd_floor = Private\<rparr>"

definition BETH_DOMAIN :: security_domain_info where
  "BETH_DOMAIN = \<lparr>sd_id = Person_beth, sd_name = ''Beth private domain'',
     sd_parent = Some Household, sd_allowed = {Household, System},
     sd_floor = Private\<rparr>"

definition LIAM_DOMAIN :: security_domain_info where
  "LIAM_DOMAIN = \<lparr>sd_id = Person_liam, sd_name = ''Liam private domain'',
     sd_parent = Some Household, sd_allowed = {Household, System},
     sd_floor = Private\<rparr>"

definition JENNA_DOMAIN :: security_domain_info where
  "JENNA_DOMAIN = \<lparr>sd_id = Person_jenna, sd_name = ''JennaCide private domain'',
     sd_parent = Some Household, sd_allowed = {Household, System},
     sd_floor = Private\<rparr>"

definition SYSTEM_DOMAIN :: security_domain_info where
  "SYSTEM_DOMAIN = \<lparr>sd_id = System, sd_name = ''Infrastructure system domain'',
     sd_parent = None, sd_allowed = {Household},
     sd_floor = Routine\<rparr>"

definition PARALEGAL_ENCLAVE_DOMAIN :: security_domain_info where
  "PARALEGAL_ENCLAVE_DOMAIN = \<lparr>sd_id = Paralegal, sd_name = ''Paralegal enclave'',
     sd_parent = None, sd_allowed = {},
     sd_floor = Restricted\<rparr>"

definition LEGACY_PARALEGAL_ENCLAVE_DOMAIN :: security_domain_info where
  "LEGACY_PARALEGAL_ENCLAVE_DOMAIN = \<lparr>sd_id = Paralegal_enclave, sd_name = ''Legacy paralegal enclave compatibility domain'',
     sd_parent = None, sd_allowed = {Paralegal},
     sd_floor = Restricted\<rparr>"

definition SECURITY_DOMAINS :: "security_domain_info list" where
  "SECURITY_DOMAINS = [FREYJA_HOUSEHOLD_DOMAIN,
     LEGACY_FREYJA_HOUSEHOLD_DOMAIN,
     JOE_DOMAIN,
     BETH_DOMAIN,
     LIAM_DOMAIN,
     JENNA_DOMAIN,
     SYSTEM_DOMAIN,
     PARALEGAL_ENCLAVE_DOMAIN,
     LEGACY_PARALEGAL_ENCLAVE_DOMAIN]"

definition AGENT_FREYJA :: persistent_agent where
  "AGENT_FREYJA = \<lparr>pa_id = ''freyja'', pa_name = ''Freyja'', pa_logical = None,
     pa_owner = ''household'', pa_domain = Household, pa_home = Some ''atlas'',
     pa_aliases = {''household'', ''family'', ''home''}, pa_capabilities = {},
     pa_grants = {''web.search'', ''weather.current'', ''browser.control'', ''calendar.read'',
       ''calendar.write'', ''email.read'', ''messaging.send'', ''home-assistant.read'',
       ''home-assistant.control'', ''macagent.apple'', ''coding.execute'',
       ''documents.process'', ''vision.inspect'', ''music.control'', ''scheduling.create'',
       ''memory.shared'', ''system.health''},
     pa_private = Some ''agent:freyja'', pa_shared = {''family'', ''system''},
     pa_inference = [''general.large'', ''general.local''], pa_egress = ''household-default'', pa_active = True\<rparr>"

definition AGENT_CLOYD_GIBBLER :: persistent_agent where
  "AGENT_CLOYD_GIBBLER = \<lparr>pa_id = ''cloyd-gibbler'', pa_name = ''Cloyd Gibbler'', pa_logical = None,
     pa_owner = ''person:joe'', pa_domain = Person_joe, pa_home = Some ''atlas'',
     pa_aliases = {''cloyd'', ''joe''}, pa_capabilities = {''code.inspect'', ''code.edit'',
       ''code.test''},
     pa_grants = {''web.search'', ''weather.current'', ''browser.control'', ''calendar.read'',
       ''calendar.write'', ''email.read'', ''messaging.send'', ''macagent.apple'',
       ''shell.run'', ''filesystem.read'', ''filesystem.write'', ''git.inspect'', ''git.write'',
       ''opencode.status'', ''coding.execute'', ''documents.process'', ''vision.inspect'',
       ''music.control'', ''memory.private'', ''memory.shared'', ''system.health''},
     pa_private = Some ''person:joe'', pa_shared = {''family'', ''system''},
     pa_inference = [''general.large'', ''general.local''], pa_egress = ''household-default'', pa_active = True\<rparr>"

definition AGENT_SMITH :: persistent_agent where
  "AGENT_SMITH = \<lparr>pa_id = ''smith'', pa_name = ''Agent Smith'', pa_logical = None,
     pa_owner = ''person:joe'', pa_domain = Person_joe, pa_home = Some ''atlas'',
     pa_aliases = {''smith'', ''agent smith'', ''coder'', ''freyja-coder''}, pa_capabilities =
       {''code.inspect'', ''code.edit'', ''code.test''},
     pa_grants = {''shell.run'', ''filesystem.read'', ''filesystem.write'', ''git.inspect'',
       ''git.write'', ''coding.execute'', ''memory.private'', ''memory.shared'',
       ''system.health''},
     pa_private = Some ''person:joe'', pa_shared = {''system''},
     pa_inference = [''general.large'', ''general.local''], pa_egress = ''household-default'', pa_active = True\<rparr>"

definition AGENT_BENEDICT :: persistent_agent where
  "AGENT_BENEDICT = \<lparr>pa_id = ''benedict'', pa_name = ''Benedict'', pa_logical = None,
     pa_owner = ''person:beth'', pa_domain = Person_beth, pa_home = Some ''atlas'',
     pa_aliases = {''beth''}, pa_capabilities = {},
     pa_grants = {''web.search'', ''weather.current'', ''browser.control'', ''calendar.read'',
       ''calendar.write'', ''email.read'', ''messaging.send'', ''documents.process'',
       ''vision.inspect'', ''music.control'', ''memory.private'', ''memory.shared'',
       ''system.health''},
     pa_private = Some ''person:beth'', pa_shared = {''family'', ''system''},
     pa_inference = [''general.large'', ''general.local''], pa_egress = ''household-default'', pa_active = True\<rparr>"

definition AGENT_BENEDICT_PARALEGAL :: persistent_agent where
  "AGENT_BENEDICT_PARALEGAL = \<lparr>pa_id = ''benedict-paralegal'', pa_name = ''Benedict Paralegal'', pa_logical = None,
     pa_owner = ''enclave:paralegal'', pa_domain = Paralegal, pa_home = Some ''atlas'',
     pa_aliases = {''legal-benedict'', ''paralegal-benedict'', ''paralegal''}, pa_capabilities = {},
     pa_grants = {''web.search'', ''browser.control'', ''documents.process'', ''vision.inspect'',
       ''memory.private'', ''system.health''},
     pa_private = Some ''enclave:paralegal'', pa_shared = {''system''},
     pa_inference = [''legal_research'', ''document_review'', ''embeddings.local''], pa_egress = ''paralegal-local-only'', pa_active = True\<rparr>"

definition AGENT_AGENT_47 :: persistent_agent where
  "AGENT_AGENT_47 = \<lparr>pa_id = ''agent-47'', pa_name = ''Agent 47'', pa_logical = Some ''Agent 44'',
     pa_owner = ''person:liam'', pa_domain = Person_liam, pa_home = Some ''atlas'',
     pa_aliases = {''agent 44'', ''agent_44'', ''agent 47'', ''agent_47'', ''liam''}, pa_capabilities
       = {},
     pa_grants = {''web.search'', ''weather.current'', ''browser.control'', ''calendar.read'',
       ''calendar.write'', ''email.read'', ''messaging.send'', ''opencode.status'',
       ''vision.inspect'', ''music.control'', ''memory.private'', ''memory.shared'',
       ''system.health''},
     pa_private = Some ''person:liam'', pa_shared = {''family'', ''system''},
     pa_inference = [''general.large'', ''general.local''], pa_egress = ''household-default'', pa_active = True\<rparr>"

definition AGENT_JENNACIDE :: persistent_agent where
  "AGENT_JENNACIDE = \<lparr>pa_id = ''jennacide'', pa_name = ''JennaCide'', pa_logical = Some ''Jenna agent'',
     pa_owner = ''person:jenna'', pa_domain = Person_jenna, pa_home = Some ''atlas'',
     pa_aliases = {''jenna'', ''jenna-agent''}, pa_capabilities = {},
     pa_grants = {''web.search'', ''weather.current'', ''browser.control'', ''calendar.read'',
       ''calendar.write'', ''email.read'', ''messaging.send'', ''vision.inspect'',
       ''music.control'', ''memory.private'', ''memory.shared'', ''system.health''},
     pa_private = Some ''person:jenna'', pa_shared = {''family'', ''system''},
     pa_inference = [''general.large'', ''general.local''], pa_egress = ''household-default'', pa_active = True\<rparr>"

definition PERSISTENT_AGENTS :: "persistent_agent list" where
  "PERSISTENT_AGENTS = [AGENT_FREYJA, AGENT_CLOYD_GIBBLER, AGENT_SMITH, AGENT_BENEDICT,
     AGENT_BENEDICT_PARALEGAL, AGENT_AGENT_47, AGENT_JENNACIDE]"

text \<open>One row of \<open>TOOL_CAPABILITIES\<close>: protocol, mutation and machine affinity default to
  \<open>internal\<close>, \<open>False\<close> and none; every row is in the household domain.\<close>

definition capability :: "string \<Rightarrow> string \<Rightarrow> string \<Rightarrow> string \<Rightarrow> string \<Rightarrow> bool \<Rightarrow> string option \<Rightarrow> tool_capability" where
  "capability i c n p proto m aff = \<lparr>tc_id = i, tc_category = c, tc_name = n, tc_permission = p,
     tc_protocol = proto, tc_mutation = m, tc_machine = aff, tc_domain = Household\<rparr>"

definition TOOL_CAPABILITIES :: "tool_capability list" where
  "TOOL_CAPABILITIES =
    [capability ''web.search'' ''web'' ''Web search'' ''tool:web.search'' ''internal'' False None,
     capability ''weather.current'' ''weather'' ''Weather'' ''tool:weather.read'' ''internal'' False None,
     capability ''browser.control'' ''browser'' ''Browser'' ''tool:browser.control'' ''mcp'' False (Some ''iris''),
     capability ''calendar.read'' ''calendar'' ''Calendar read'' ''tool:calendar.read'' ''mcp'' False (Some ''iris''),
     capability ''calendar.write'' ''calendar'' ''Calendar write'' ''tool:calendar.write'' ''mcp'' True (Some ''iris''),
     capability ''email.read'' ''email'' ''Email read'' ''tool:email.read'' ''mcp'' False (Some ''iris''),
     capability ''messaging.send'' ''messaging'' ''Messaging'' ''tool:messaging.send'' ''mcp'' True (Some ''iris''),
     capability ''home-assistant.read'' ''home_assistant'' ''Home Assistant read'' ''tool:home_assistant.read'' ''mcp'' False (Some ''atlas''),
     capability ''home-assistant.control'' ''home_assistant'' ''Home Assistant control'' ''tool:home_assistant.control'' ''mcp'' True (Some ''atlas''),
     capability ''macagent.apple'' ''macagent'' ''Mac Agent'' ''tool:macagent.apple'' ''mcp'' False (Some ''iris''),
     capability ''shell.run'' ''shell'' ''Shell'' ''tool:shell.run'' ''internal'' True None,
     capability ''filesystem.read'' ''filesystem'' ''Filesystem read'' ''tool:filesystem.read'' ''internal'' False None,
     capability ''filesystem.write'' ''filesystem'' ''Filesystem write'' ''tool:filesystem.write'' ''internal'' True None,
     capability ''git.inspect'' ''git'' ''Git inspect'' ''tool:git.inspect'' ''internal'' False None,
     capability ''git.write'' ''git'' ''Git write'' ''tool:git.write'' ''internal'' True None,
     capability ''opencode.status'' ''coding'' ''OpenCode status'' ''tool:opencode.status'' ''mcp'' False (Some ''iris''),
     capability ''coding.execute'' ''coding'' ''Coding'' ''tool:coding.execute'' ''internal'' False None,
     capability ''documents.process'' ''documents'' ''Documents/PDF'' ''tool:documents.process'' ''mcp'' False None,
     capability ''vision.inspect'' ''vision'' ''Vision'' ''tool:vision.inspect'' ''mcp'' False None,
     capability ''music.control'' ''music'' ''Music'' ''tool:music.control'' ''mcp'' True (Some ''iris''),
     capability ''scheduling.create'' ''scheduling'' ''Scheduling'' ''tool:scheduling.create'' ''mcp'' True (Some ''atlas''),
     capability ''memory.private'' ''memory'' ''Private memory'' ''tool:memory.private'' ''internal'' False None,
     capability ''memory.shared'' ''memory'' ''Shared memory'' ''tool:memory.shared'' ''internal'' False None,
     capability ''system.health'' ''system'' ''System health'' ''tool:system.health'' ''internal'' False None]"

definition EP_VULCAN_NEXUS_FAST :: inference_endpoint where
  "EP_VULCAN_NEXUS_FAST = \<lparr>ie_id = ''vulcan-nexus-fast'', ie_name = ''Vulcan Nexus fast local preset'',
     ie_provider = ''nexus'', ie_machine = Some ''vulcan'', ie_url = ''http://100.94.80.21:3939'', ie_model = ''@preset/freyja-fast-local'',
     ie_capabilities = {''route.fast'', ''general.local'', ''chat'', ''summarization''},
     ie_domain = Household, ie_priority = 8, ie_enabled = True\<rparr>"

definition EP_VULCAN_NEXUS_STRONG :: inference_endpoint where
  "EP_VULCAN_NEXUS_STRONG = \<lparr>ie_id = ''vulcan-nexus-strong'', ie_name = ''Vulcan Nexus strong local preset'',
     ie_provider = ''nexus'', ie_machine = Some ''vulcan'', ie_url = ''http://100.94.80.21:3939'', ie_model = ''@preset/freyja-strong-local'',
     ie_capabilities = {''route.general'', ''general.large'', ''reasoning''},
     ie_domain = Household, ie_priority = 8, ie_enabled = True\<rparr>"

definition EP_VULCAN_NEXUS_CODER :: inference_endpoint where
  "EP_VULCAN_NEXUS_CODER = \<lparr>ie_id = ''vulcan-nexus-coder'', ie_name = ''Vulcan Nexus coder preset'',
     ie_provider = ''nexus'', ie_machine = Some ''vulcan'', ie_url = ''http://100.94.80.21:3939'', ie_model = ''@preset/freyja-coder'',
     ie_capabilities = {''route.code'', ''code.large'', ''coding''},
     ie_domain = Household, ie_priority = 8, ie_enabled = True\<rparr>"

definition EP_VULCAN_NEXUS_VISION_DOCS :: inference_endpoint where
  "EP_VULCAN_NEXUS_VISION_DOCS = \<lparr>ie_id = ''vulcan-nexus-vision-docs'', ie_name = ''Vulcan Nexus vision and documents preset'',
     ie_provider = ''nexus'', ie_machine = Some ''vulcan'', ie_url = ''http://100.94.80.21:3939'', ie_model = ''@preset/freyja-vision-docs'',
     ie_capabilities = {''route.vision'', ''vision.large'', ''document_review''},
     ie_domain = Household, ie_priority = 8, ie_enabled = True\<rparr>"

definition EP_IRIS_FAST :: inference_endpoint where
  "EP_IRIS_FAST = \<lparr>ie_id = ''iris-fast'', ie_name = ''Iris fast local endpoint'',
     ie_provider = ''ollama'', ie_machine = Some ''iris'', ie_url = ''http://100.115.228.56:11434'', ie_model = ''qwen2.5:7b'',
     ie_capabilities = {''route.fast'', ''general.local'', ''chat'', ''summarization''},
     ie_domain = Household, ie_priority = 20, ie_enabled = True\<rparr>"

definition EP_VULCAN_REASON :: inference_endpoint where
  "EP_VULCAN_REASON = \<lparr>ie_id = ''vulcan-reason'', ie_name = ''Vulcan 32B general reasoning endpoint'',
     ie_provider = ''ollama'', ie_machine = Some ''vulcan'', ie_url = ''http://100.94.80.21:11434'', ie_model = ''qwen2.5:32b-instruct'',
     ie_capabilities = {''route.general'', ''general.large'', ''chat'', ''reasoning''},
     ie_domain = Household, ie_priority = 20, ie_enabled = True\<rparr>"

definition EP_VULCAN_DEEP :: inference_endpoint where
  "EP_VULCAN_DEEP = \<lparr>ie_id = ''vulcan-deep'', ie_name = ''Vulcan sleep-on-it deep reasoning endpoint'',
     ie_provider = ''ollama'', ie_machine = Some ''vulcan'', ie_url = ''http://100.94.80.21:11434'', ie_model = ''qwen2.5vl:72b'',
     ie_capabilities = {''route.deep'', ''general.deep'', ''reasoning.deep'', ''long_context''},
     ie_domain = Household, ie_priority = 30, ie_enabled = True\<rparr>"

definition EP_VULCAN_CODE :: inference_endpoint where
  "EP_VULCAN_CODE = \<lparr>ie_id = ''vulcan-code'', ie_name = ''Vulcan code endpoint'',
     ie_provider = ''ollama'', ie_machine = Some ''vulcan'', ie_url = ''http://100.94.80.21:11434'', ie_model = ''qwen3-coder-next:q4_K_M'',
     ie_capabilities = {''route.code'', ''code.large'', ''coding''},
     ie_domain = Household, ie_priority = 20, ie_enabled = True\<rparr>"

definition EP_VULCAN_VISION :: inference_endpoint where
  "EP_VULCAN_VISION = \<lparr>ie_id = ''vulcan-vision'', ie_name = ''Vulcan vision endpoint'',
     ie_provider = ''ollama'', ie_machine = Some ''vulcan'', ie_url = ''http://100.94.80.21:11434'', ie_model = ''qwen2.5vl:72b'',
     ie_capabilities = {''route.vision'', ''vision.large''},
     ie_domain = Household, ie_priority = 20, ie_enabled = True\<rparr>"

definition EP_VULCAN_EMBEDDINGS :: inference_endpoint where
  "EP_VULCAN_EMBEDDINGS = \<lparr>ie_id = ''vulcan-embeddings'', ie_name = ''Vulcan embeddings endpoint'',
     ie_provider = ''ollama'', ie_machine = Some ''vulcan'', ie_url = ''http://100.94.80.21:11434'', ie_model = ''nomic-embed-text'',
     ie_capabilities = {''route.embedding'', ''embeddings.local''},
     ie_domain = Household, ie_priority = 10, ie_enabled = True\<rparr>"

definition EP_APPROVED_CLOUD_PREMIUM :: inference_endpoint where
  "EP_APPROVED_CLOUD_PREMIUM = \<lparr>ie_id = ''approved-cloud-premium'', ie_name = ''Approved cloud provider behind Privacy/Egress Gate'',
     ie_provider = ''openrouter'', ie_machine = None, ie_url = [], ie_model = ''openai/gpt-4o-mini'',
     ie_capabilities = {''premium'', ''vision.cloud'', ''general.cloud''},
     ie_domain = System, ie_priority = 50, ie_enabled = True\<rparr>"

definition EP_BENEDICT_PARALEGAL_NEXUS :: inference_endpoint where
  "EP_BENEDICT_PARALEGAL_NEXUS = \<lparr>ie_id = ''benedict-paralegal-nexus'', ie_name = ''Benedict paralegal Nexus local preset'',
     ie_provider = ''nexus'', ie_machine = Some ''vulcan'', ie_url = ''http://100.94.80.21:3939'', ie_model = ''@preset/benedict-paralegal-local'',
     ie_capabilities = {''route.private'', ''route.vision'', ''route.embedding'', ''chat'',
       ''document_review'', ''legal_research'', ''embeddings.local''},
     ie_domain = Paralegal, ie_priority = 8, ie_enabled = True\<rparr>"

definition EP_PARALEGAL_LOCAL :: inference_endpoint where
  "EP_PARALEGAL_LOCAL = \<lparr>ie_id = ''paralegal-local'', ie_name = ''Paralegal enclave endpoint'',
     ie_provider = ''ollama'', ie_machine = Some ''vulcan'', ie_url = ''http://100.94.80.21:11434'', ie_model = [],
     ie_capabilities = {''route.private'', ''route.vision'', ''route.embedding'', ''chat'',
       ''document_review'', ''legal_research'', ''embeddings.local''},
     ie_domain = Paralegal, ie_priority = 20, ie_enabled = True\<rparr>"

definition INFERENCE_ENDPOINTS :: "inference_endpoint list" where
  "INFERENCE_ENDPOINTS = [EP_VULCAN_NEXUS_FAST, EP_VULCAN_NEXUS_STRONG, EP_VULCAN_NEXUS_CODER,
     EP_VULCAN_NEXUS_VISION_DOCS, EP_IRIS_FAST, EP_VULCAN_REASON, EP_VULCAN_DEEP,
     EP_VULCAN_CODE, EP_VULCAN_VISION, EP_VULCAN_EMBEDDINGS, EP_APPROVED_CLOUD_PREMIUM,
     EP_BENEDICT_PARALEGAL_NEXUS, EP_PARALEGAL_LOCAL]"

definition MACHINES :: "machine list" where
  "MACHINES =
    [\<lparr>mc_id = ''iris'', mc_name = ''Iris'', mc_role = ''apple-runtime-hot-reflex'', mc_domain = Household,
       mc_capabilities = {''agent.runtime'', ''apple.messages'', ''apple.calendar'', ''apple.mail'',
         ''apple.music'', ''macagent'', ''home-assistant.client'', ''vulcan.client'',
         ''general.local''},
       mc_active = True\<rparr>,
     \<lparr>mc_id = ''atlas'', mc_name = ''Atlas'', mc_role = ''persistent-infrastructure'', mc_domain = Household,
       mc_capabilities = {''agent.gateway'', ''agent.hosting'', ''home-assistant'', ''memory'',
         ''events'', ''scheduler'', ''messaging'', ''audit'', ''observability''},
       mc_active = True\<rparr>,
     \<lparr>mc_id = ''vulcan'', mc_name = ''Vulcan'', mc_role = ''primary-inference-appliance'', mc_domain = Household,
       mc_capabilities = {''ollama'', ''lm-studio'', ''msty-nexus'', ''openai-compatible'',
         ''general.large'', ''code.large'', ''vision.large'', ''embeddings.local''},
       mc_active = True\<rparr>,
     \<lparr>mc_id = ''hera'', mc_name = ''Hera'', mc_role = ''avatar-perception-edge'', mc_domain = Household,
       mc_capabilities = {''avatar'', ''voice'', ''camera'', ''audio'', ''presence'', ''occupancy'',
         ''semantic.events'', ''vision.edge''},
       mc_active = True\<rparr>,
     \<lparr>mc_id = ''mars'', mc_name = ''Mars'', mc_role = ''worker-ingestion-monitoring'', mc_domain = Household,
       mc_capabilities = {''monitoring'', ''testing'', ''fallback''},
       mc_active = True\<rparr>]"

subsection \<open>Indexes\<close>

text \<open>The dictionaries that the constructors build. A later row overrides an earlier one with
  the same key; the rows of an agent are its id, its display name and its aliases.\<close>

fun domain_index :: "security_domain_info list \<Rightarrow> security_domain \<Rightarrow> security_domain_info option" where
  "domain_index [] i = None"
| "domain_index (d # ds) i =
    (case domain_index ds i of None \<Rightarrow> if sd_id d = i then Some d else None | Some e \<Rightarrow> Some e)"

definition agent_keys :: "persistent_agent \<Rightarrow> string set" where
  "agent_keys a = insert (normalize_agent_key (pa_id a)) (insert (normalize_agent_key (pa_name a))
     (normalize_agent_key ` pa_aliases a))"

fun agent_index :: "persistent_agent list \<Rightarrow> string \<Rightarrow> persistent_agent option" where
  "agent_index [] k = None"
| "agent_index (a # as) k =
    (case agent_index as k of None \<Rightarrow> if k \<in> agent_keys a then Some a else None | Some b \<Rightarrow> Some b)"

fun capability_index :: "tool_capability list \<Rightarrow> string \<Rightarrow> tool_capability option" where
  "capability_index [] i = None"
| "capability_index (t # ts) i =
    (case capability_index ts i of None \<Rightarrow> if tc_id t = i then Some t else None | Some u \<Rightarrow> Some u)"

lemma domain_index_Some: "domain_index ds i = Some d \<Longrightarrow> d \<in> set ds \<and> sd_id d = i"
  by (induction ds) (auto split: option.splits if_splits)

lemma agent_index_Some: "agent_index as k = Some a \<Longrightarrow> a \<in> set as \<and> k \<in> agent_keys a"
  by (induction as) (auto split: option.splits if_splits)

lemma domain_index_known: "domain_index SECURITY_DOMAINS i \<noteq> None"
  by (cases i) (simp_all add: SECURITY_DOMAINS_def FREYJA_HOUSEHOLD_DOMAIN_def
      LEGACY_FREYJA_HOUSEHOLD_DOMAIN_def JOE_DOMAIN_def BETH_DOMAIN_def LIAM_DOMAIN_def
      JENNA_DOMAIN_def SYSTEM_DOMAIN_def PARALEGAL_ENCLAVE_DOMAIN_def LEGACY_PARALEGAL_ENCLAVE_DOMAIN_def)

end
