(* ===== verification/Inference_Registry.thy ===== *)
theory Inference_Registry
  imports Agent_Models Rx Py_Json
begin

section \<open>Semantic routes and inference endpoints\<close>

text \<open>
  \<open>src/freyja/semantic_routes.py\<close> (which route an objective takes) and \<open>InferenceRegistryV3\<close> of
  \<open>src/freyja/inference_registry_v3.py\<close> (the endpoints a domain may use for a capability).
  pydantic's \<open>InferenceEndpoint.model_validate\<close> is a parameter of the configured endpoints.
\<close>

subsection \<open>Routes\<close>

datatype semantic_route =
    Route_fast | Route_general | Route_deep | Route_code | Route_vision | Route_embedding | Route_private

fun route_value :: "semantic_route \<Rightarrow> string" where
  "route_value Route_fast = ''fast''"
| "route_value Route_general = ''general''"
| "route_value Route_deep = ''deep''"
| "route_value Route_code = ''code''"
| "route_value Route_vision = ''vision''"
| "route_value Route_embedding = ''embedding''"
| "route_value Route_private = ''private''"

definition route_capability :: "semantic_route \<Rightarrow> string" where
  "route_capability r = ''route.'' @ route_value r"

definition ALL_ROUTES :: "semantic_route list" where
  "ALL_ROUTES = [Route_fast, Route_general, Route_deep, Route_code, Route_vision, Route_embedding, Route_private]"

definition route_for_capability :: "string \<Rightarrow> semantic_route option" where
  "route_for_capability c = map_of (map (\<lambda>r. (route_capability r, r)) ALL_ROUTES) c"

definition rx_whole :: "rx \<Rightarrow> rx" where
  "rx_whole r = Seq WordB (Seq r WordB)"

definition CODE_PATTERNS :: "rx list" where
  "CODE_PATTERNS = map rx_whole
    (map rx_lit [''code'', ''coding'', ''programming'', ''software'', ''script'', ''debug'', ''bug'', ''build'',
       ''website'', ''site'', ''app'', ''repo'', ''repository'', ''git'', ''pytest'']
     @ [Seq (rx_lit ''unit test'') (rx_opt (rx_chr CHR ''s'')),
        Seq (rx_lit ''integration test'') (rx_opt (rx_chr CHR ''s'')), rx_lit ''test suite'',
        Seq (rx_lit ''run test'') (rx_opt (rx_chr CHR ''s''))])"

definition is_code_route :: "string \<Rightarrow> bool" where
  "is_code_route s \<longleftrightarrow> list_ex (\<lambda>r. rx_found r s) CODE_PATTERNS"

definition is_fast_route :: "string \<Rightarrow> bool" where
  "is_fast_route s \<longleftrightarrow> (let t = str_strip s in length t \<le> 160
     \<and> (t \<in> {''ok'', ''okay'', ''thanks'', ''thank you'', ''got it'', ''roger'', ''ack'', ''acknowledged'',
            ''working it'', ''ready''}
        \<or> list_ex (\<lambda>p. prefix p t) [''are you there'', ''ping'', ''status'', ''hello'', ''hi'', ''hey'']
        \<or> list_ex (\<lambda>p. prefix p t) [''say '', ''reply with '']))"

definition semantic_route_for_objective :: "string \<Rightarrow> bool \<Rightarrow> bool \<Rightarrow> semantic_route" where
  "semantic_route_for_objective objective has_attachments private =
    (let s = str_lower objective in
     if private then Route_private
     else if has_attachments \<or> mentions s [''photo'', ''image'', ''picture'', ''pdf'', ''document''] then Route_vision
     else if mentions s [''embed'', ''embedding'', ''semantic search'', ''vector''] then Route_embedding
     else if is_code_route s then Route_code
     else if mentions s [''deep'', ''sleep on it'', ''thorough'', ''complex'', ''research plan''] then Route_deep
     else if is_fast_route s then Route_fast
     else Route_general)"

lemma route_for_capability_inverse: "route_for_capability (route_capability r) = Some r"
  by (cases r) (simp_all add: route_for_capability_def ALL_ROUTES_def route_capability_def)

lemma route_for_capability_Some: "route_for_capability c = Some r \<Longrightarrow> c = route_capability r"
  by (auto simp: route_for_capability_def dest!: map_of_SomeD)

lemma private_route_iff: "semantic_route_for_objective s att p = Route_private \<longleftrightarrow> p"
  by (simp add: semantic_route_for_objective_def Let_def)

subsection \<open>Endpoints\<close>

definition configured_endpoints ::
    "(json_obj \<Rightarrow> inference_endpoint option) \<Rightarrow> string \<Rightarrow> inference_endpoint list" where
  "configured_endpoints validate text =
    (let raw = str_strip text in
     if raw = [] then []
     else (case json_loads raw of
        Some (JList es) \<Rightarrow> List.map_filter (\<lambda>e. case e of JObj d \<Rightarrow> validate d | _ \<Rightarrow> None) es
      | _ \<Rightarrow> []))"

text \<open>Assignment into the dictionary by id: an id that is present keeps its place.\<close>

fun endpoint_put :: "inference_endpoint \<Rightarrow> inference_endpoint list \<Rightarrow> inference_endpoint list" where
  "endpoint_put e [] = [e]"
| "endpoint_put e (f # fs) = (if ie_id f = ie_id e then e # fs else f # endpoint_put e fs)"

definition merge_configured :: "inference_endpoint list \<Rightarrow> inference_endpoint list \<Rightarrow> inference_endpoint list" where
  "merge_configured defaults configured =
    (if configured = [] then defaults
     else fold endpoint_put configured (fold endpoint_put defaults []))"

record inference_registry =
  ir_endpoints :: "inference_endpoint list"
  ir_domains :: "security_domain \<Rightarrow> security_domain_info option"

definition registry_of ::
    "inference_endpoint list \<Rightarrow> security_domain_info list \<Rightarrow> bool \<Rightarrow> inference_endpoint list \<Rightarrow> inference_registry" where
  "registry_of endpoints domains include_configured configured =
    \<lparr>ir_endpoints = (if include_configured \<and> endpoints = INFERENCE_ENDPOINTS
       then merge_configured endpoints configured else endpoints),
     ir_domains = domain_index domains\<rparr>"

definition by_priority :: "inference_endpoint list \<Rightarrow> inference_endpoint list" where
  "by_priority es = sort_key (\<lambda>e. (ie_priority e, ie_id e)) es"

text \<open>An unknown domain is a \<open>KeyError\<close>, here \<open>None\<close>.\<close>

definition all_endpoints :: "inference_registry \<Rightarrow> security_domain option \<Rightarrow> inference_endpoint list option" where
  "all_endpoints reg d =
    (case d of
       None \<Rightarrow> Some (by_priority (filter ie_enabled (ir_endpoints reg)))
     | Some i \<Rightarrow> map_option (\<lambda>source.
         by_priority (filter (\<lambda>e. ie_enabled e \<and> allows_domain source (ie_domain e)) (ir_endpoints reg)))
         (ir_domains reg i))"

definition endpoints_for :: "inference_registry \<Rightarrow> string \<Rightarrow> security_domain \<Rightarrow> inference_endpoint list option" where
  "endpoints_for reg c i =
    map_option (\<lambda>source.
      by_priority (filter (\<lambda>e. ie_enabled e \<and> c \<in> ie_capabilities e \<and> allows_domain source (ie_domain e))
        (ir_endpoints reg)))
      (ir_domains reg i)"

text \<open>The first endpoint of a listing that is not marked unhealthy: the smallest one.\<close>

definition first_healthy :: "string set \<Rightarrow> inference_endpoint list \<Rightarrow> inference_endpoint option" where
  "first_healthy bad es = List.find (\<lambda>e. ie_id e \<notin> bad) es"

lemma set_by_priority [simp]: "set (by_priority es) = set es"
  by (simp add: by_priority_def)

lemma find_sorted_least:
  assumes "sorted (map k es)" and "List.find P es = Some e" and "f \<in> set es" and "P f"
  shows "k e \<le> k f"
proof -
  from assms(2) obtain i where i: "i < length es" "es ! i = e" "\<forall>j < i. \<not> P (es ! j)"
    by (auto simp: List.find_Some_iff)
  from assms(3) obtain j where j: "j < length es" "es ! j = f" by (auto simp: in_set_conv_nth)
  with i assms(4) have "i \<le> j" by (metis not_less)
  with assms(1) i j show ?thesis by (auto simp: sorted_iff_nth_mono)
qed

lemma first_healthy_best:
  assumes "first_healthy bad (by_priority es) = Some e"
  shows "e \<in> set es \<and> ie_id e \<notin> bad
    \<and> (\<forall>f \<in> set es. ie_id f \<notin> bad \<longrightarrow> (ie_priority e, ie_id e) \<le> (ie_priority f, ie_id f))"
proof -
  have s: "sorted (map (\<lambda>e. (ie_priority e, ie_id e)) (by_priority es))" by (simp add: by_priority_def)
  from find_SomeD [OF assms [unfolded first_healthy_def]] find_sorted_least [OF s assms [unfolded first_healthy_def]]
  show ?thesis by simp
qed

lemma first_healthy_None: "first_healthy bad es = None \<longleftrightarrow> (\<forall>e \<in> set es. ie_id e \<in> bad)"
  by (auto simp: first_healthy_def List.find_None_iff)

lemma endpoints_for_member:
  assumes "endpoints_for reg c i = Some es" and "e \<in> set es"
  shows "\<exists>d. ir_domains reg i = Some d \<and> e \<in> set (ir_endpoints reg) \<and> ie_enabled e
    \<and> c \<in> ie_capabilities e \<and> allows_domain d (ie_domain e)"
  using assms by (auto simp: endpoints_for_def)

lemma set_endpoint_put: "set (endpoint_put e es) \<subseteq> insert e (set es)"
  by (induction es) auto

lemma distinct_endpoint_put: "distinct (map ie_id es) \<Longrightarrow>
    distinct (map ie_id (endpoint_put e es)) \<and> ie_id ` set (endpoint_put e es) = insert (ie_id e) (ie_id ` set es)"
  by (induction es) auto

lemma endpoint_put_lookup: "row_of ie_id i (endpoint_put e es) = (if ie_id e = i then Some e else row_of ie_id i es)"
  by (induction es) auto

text \<open>The shipped domains: the paralegal enclave is closed in both directions.\<close>

lemma seed_allows_paralegal:
  assumes "domain_index SECURITY_DOMAINS i = Some d"
  shows "i = Paralegal \<Longrightarrow> allows_domain d x \<Longrightarrow> x = Paralegal"
    and "allows_domain d Paralegal \<Longrightarrow> i = Paralegal \<or> i = Paralegal_enclave"
  using agent_index.simps domain_index_Some [OF assms] unfolding allows_domain_def
  by (auto simp: SECURITY_DOMAINS_def FREYJA_HOUSEHOLD_DOMAIN_def
      LEGACY_FREYJA_HOUSEHOLD_DOMAIN_def JOE_DOMAIN_def BETH_DOMAIN_def LIAM_DOMAIN_def
      JENNA_DOMAIN_def SYSTEM_DOMAIN_def PARALEGAL_ENCLAVE_DOMAIN_def LEGACY_PARALEGAL_ENCLAVE_DOMAIN_def)

text \<open>The configured endpoints override the shipped ones by id, and among equal ids the last one
  wins.\<close>

lemma merge_put_lookup: "row_of ie_id i (fold endpoint_put cs es)
    = (case row_of ie_id i (rev cs) of None \<Rightarrow> row_of ie_id i es | Some e \<Rightarrow> Some e)"
  by (induction cs arbitrary: es) (auto simp: endpoint_put_lookup row_of_append split: option.splits)

end
