(* ===== verification/Privacy_Egress.thy ===== *)
theory Privacy_Egress
  imports Agent_Models Rx
begin

section \<open>The privacy and egress gate\<close>

text \<open>
  \<open>PrivacyEgressGate\<close> of \<open>src/freyja/privacy_egress.py\<close>: the classification of a prompt, its
  redaction, and the decision whether it may go to a cloud provider. The ids and times of the
  decision are left out.
\<close>

definition digit :: rx where
  "digit = Cls False [(CHR ''0'', CHR ''9'')]"

fun rx_times :: "nat \<Rightarrow> rx \<Rightarrow> rx" where
  "rx_times 0 r = Eps"
| "rx_times (Suc n) r = Seq r (rx_times n r)"

definition key_character :: rx where
  "key_character = Cls False [(CHR ''A'', CHR ''Z''), (CHR ''a'', CHR ''z''), (CHR ''0'', CHR ''9''),
     (CHR ''_'', CHR ''_''), (CHR ''-'', CHR ''-'')]"

definition SECRET_EGRESS_PATTERNS :: "rx list" where
  "SECRET_EGRESS_PATTERNS =
    [Seq WordB (Seq
       (rx_alts
         [Seq (rx_ci ''api'') (Seq (rx_opt (Cls False [(CHR ''_'', CHR ''_''), (CHR ''-'', CHR ''-'')])) (rx_ci ''key'')),
          rx_ci ''token'', rx_ci ''password'', rx_ci ''secret''])
       (Seq (Star rx_space) (Seq (Cls False [(CHR '':'', CHR '':''), (CHR ''='', CHR ''='')])
         (Seq (Star rx_space)
           (rx_plus (Cls True ([(CHR '','', CHR '',''), (CHR '';'', CHR '';'')] @ space_ranges))))))),
     Seq WordB (Seq (rx_lit ''sk-'') (Seq (rx_times 12 key_character) (Seq (Star key_character) WordB)))]"

definition PII_PATTERNS :: "rx list" where
  "PII_PATTERNS =
    [Seq WordB (Seq (rx_times 3 digit) (Seq (rx_chr CHR ''-'') (Seq (rx_times 2 digit)
       (Seq (rx_chr CHR ''-'') (Seq (rx_times 4 digit) WordB))))),
     Seq WordB (Seq (rx_times 16 digit) WordB)]"

definition sensitive_terms :: "string list" where
  "sensitive_terms = [''ssn'', ''social security'', ''medical'', ''legal case'']"

definition classify_prompt :: "string \<Rightarrow> memory_classification" where
  "classify_prompt s =
    (if list_ex (\<lambda>r. rx_found r s) SECRET_EGRESS_PATTERNS then Restricted
     else if mentions (str_lower s) sensitive_terms then Sensitive
     else if list_ex (\<lambda>r. rx_found r s) PII_PATTERNS then Private
     else Routine)"

definition redact_prompt :: "string \<Rightarrow> string" where
  "redact_prompt s =
    fold (\<lambda>r t. rx_sub r (\<lambda>_. ''[REDACTED_PII]'') t) PII_PATTERNS
      (fold (\<lambda>r t. rx_sub r (\<lambda>_. ''[REDACTED_SECRET]'') t) SECRET_EGRESS_PATTERNS s)"

fun classification_value :: "memory_classification \<Rightarrow> string" where
  "classification_value Routine = ''routine''"
| "classification_value Private = ''private''"
| "classification_value Sensitive = ''sensitive''"
| "classification_value Restricted = ''restricted''"

record egress_decision =
  eg_allowed :: bool
  eg_classification :: memory_classification
  eg_destination :: string
  eg_redacted :: string
  eg_reason :: string
  eg_event :: agent_event

definition egress_decision_of ::
    "persistent_agent \<Rightarrow> bool \<Rightarrow> memory_classification \<Rightarrow> string \<Rightarrow> string \<Rightarrow> string \<Rightarrow> egress_decision" where
  "egress_decision_of a ok c dest red why = \<lparr>eg_allowed = ok, eg_classification = c, eg_destination = dest,
     eg_redacted = red, eg_reason = why,
     eg_event = \<lparr>av_type = (if ok then Egress_allowed else Egress_denied), av_actor = ''agent:'' @ pa_id a,
       av_domain = pa_domain a, av_target = Some dest, av_allowed = ok, av_reason = why,
       av_metadata = [(''classification'', JStr (classification_value c)),
         (''destination_provider'', JStr dest), (''redacted'', JBool (sublist ''[REDACTED_'' red)),
         (''redacted_prompt_preview'', JStr (take 256 red))]\<rparr>\<rparr>"

definition evaluate_egress ::
    "persistent_agent \<Rightarrow> string \<Rightarrow> string \<Rightarrow> memory_classification option \<Rightarrow> bool \<Rightarrow> egress_decision" where
  "evaluate_egress a prompt dest requested override =
    (let c = (case requested of None \<Rightarrow> classify_prompt prompt | Some c \<Rightarrow> c);
         red = redact_prompt prompt
     in if c \<in> {Restricted, Sensitive} \<and> \<not> override
        then egress_decision_of a False c dest red
          (classification_value c @ '' data cannot leave trusted local machines without override'')
        else if c = Private \<and> \<not> override
        then egress_decision_of a False c dest red ''private data defaults to local inference''
        else egress_decision_of a True c dest red ''cloud egress allowed by policy after minimization'')"

subsection \<open>What the gate lets out\<close>

lemma egress_decision_simps [simp]:
  "eg_allowed (egress_decision_of a ok c dest red why) = ok"
  "eg_classification (egress_decision_of a ok c dest red why) = c"
  "eg_redacted (egress_decision_of a ok c dest red why) = red"
  "eg_reason (egress_decision_of a ok c dest red why) = why"
  "av_allowed (eg_event (egress_decision_of a ok c dest red why)) = ok"
  "av_type (eg_event (egress_decision_of a ok c dest red why)) = (if ok then Egress_allowed else Egress_denied)"
  by (simp_all add: egress_decision_of_def)

lemma evaluate_allowed:
  "eg_allowed (evaluate_egress a s dest requested override) \<longleftrightarrow>
    override \<or> (case requested of None \<Rightarrow> classify_prompt s | Some c \<Rightarrow> c) = Routine"
  by (cases "case requested of None \<Rightarrow> classify_prompt s | Some c \<Rightarrow> c")
    (auto simp: evaluate_egress_def Let_def)

lemma evaluate_redacted: "eg_redacted (evaluate_egress a s dest requested override) = redact_prompt s"
  by (simp add: evaluate_egress_def Let_def)

lemma evaluate_audit: "av_allowed (eg_event (evaluate_egress a s dest requested override))
    = eg_allowed (evaluate_egress a s dest requested override)"
  by (simp add: evaluate_egress_def Let_def)

lemma classify_routine:
  "classify_prompt s = Routine \<longleftrightarrow>
    (\<forall>r \<in> set SECRET_EGRESS_PATTERNS \<union> set PII_PATTERNS. \<not> rx_found r s) \<and> \<not> mentions (str_lower s) sensitive_terms"
  by (auto simp: classify_prompt_def list_ex_iff)

lemma fold_sub_no_match: "\<forall>r \<in> set rs. \<not> rx_found r s \<Longrightarrow> fold (\<lambda>r t. rx_sub r f t) rs s = s"
  by (induction rs) (simp_all add: rx_sub_no_match)

lemma redact_routine: "classify_prompt s = Routine \<Longrightarrow> redact_prompt s = s"
  by (simp add: classify_routine redact_prompt_def fold_sub_no_match)

lemma evaluate_classification:
  "eg_classification (evaluate_egress a s dest requested override)
    = (case requested of None \<Rightarrow> classify_prompt s | Some c \<Rightarrow> c)"
  by (simp add: evaluate_egress_def Let_def egress_decision_of_def)

lemma decision_event:
  "d = egress_decision_of a ok c dest red why \<Longrightarrow> eg_destination d = dest
     \<and> av_type (eg_event d) = (if eg_allowed d then Egress_allowed else Egress_denied)
     \<and> av_allowed (eg_event d) = eg_allowed d \<and> av_reason (eg_event d) = eg_reason d
     \<and> av_actor (eg_event d) = ''agent:'' @ pa_id a \<and> av_domain (eg_event d) = pa_domain a
     \<and> av_target (eg_event d) = Some dest
     \<and> map_of (av_metadata (eg_event d)) ''classification''
         = Some (JStr (classification_value (eg_classification d)))"
  by (simp add: egress_decision_of_def)

lemma evaluate_decision:
  "\<exists>ok c red why. evaluate_egress a s dest requested override = egress_decision_of a ok c dest red why"
  unfolding evaluate_egress_def Let_def by (split if_split, intro conjI impI, blast)+ blast

text \<open>C35. A prompt that the gate lets out on its own classification, without an override, matches none of
  its secret and personal-data patterns and none of its sensitive terms, so its redacted text is
  the prompt itself; every other prompt is refused. A classification that the caller states
  replaces the gate's own, whatever the prompt holds: stated as \<open>routine\<close> the prompt is allowed,
  stated as private, sensitive or restricted it is refused unless the request overrides the gate;
  an override allows every prompt. The text that is kept with the decision is the redacted one in
  each case, and the audit event is of the type that belongs to the decision and repeats its
  agent, destination, classification, reason and outcome.\<close>

theorem egress_minimal:
  "(eg_allowed (evaluate_egress a s dest None False) \<longleftrightarrow>
      (\<forall>r \<in> set SECRET_EGRESS_PATTERNS \<union> set PII_PATTERNS. \<not> rx_found r s)
      \<and> \<not> mentions (str_lower s) sensitive_terms)
   \<and> (eg_allowed (evaluate_egress a s dest None False) \<longrightarrow>
        eg_redacted (evaluate_egress a s dest None False) = s)
   \<and> (\<forall>c. eg_classification (evaluate_egress a s dest (Some c) override) = c
        \<and> (eg_allowed (evaluate_egress a s dest (Some c) override) \<longleftrightarrow> c = Routine \<or> override))
   \<and> eg_allowed (evaluate_egress a s dest requested True)
   \<and> (let d = evaluate_egress a s dest requested override; ev = eg_event d
      in eg_redacted d = redact_prompt s \<and> eg_destination d = dest
       \<and> av_type ev = (if eg_allowed d then Egress_allowed else Egress_denied)
       \<and> av_allowed ev = eg_allowed d \<and> av_reason ev = eg_reason d
       \<and> av_actor ev = ''agent:'' @ pa_id a \<and> av_domain ev = pa_domain a \<and> av_target ev = Some dest
       \<and> map_of (av_metadata ev) ''classification''
           = Some (JStr (classification_value (eg_classification d))))"
proof -
  from evaluate_decision [of a s dest requested override] decision_event
  have "let d = evaluate_egress a s dest requested override; ev = eg_event d
      in eg_destination d = dest \<and> av_type ev = (if eg_allowed d then Egress_allowed else Egress_denied)
       \<and> av_allowed ev = eg_allowed d \<and> av_reason ev = eg_reason d
       \<and> av_actor ev = ''agent:'' @ pa_id a \<and> av_domain ev = pa_domain a \<and> av_target ev = Some dest
       \<and> map_of (av_metadata ev) ''classification''
           = Some (JStr (classification_value (eg_classification d)))"
    unfolding Let_def by metis
  then show ?thesis
    by (auto simp: evaluate_allowed evaluate_redacted evaluate_classification
        classify_routine [symmetric] redact_routine Let_def)
qed

theorem egress_minimal_witness:
  "eg_redacted (evaluate_egress AGENT_FREYJA ''plan a trip'' ''cloud-frontier'' None False) = ''plan a trip''
   \<and> \<not> eg_allowed (evaluate_egress AGENT_FREYJA ''my token: abc'' ''cloud-frontier'' None False)"
proof -
  have "classify_prompt ''plan a trip'' = Routine" "classify_prompt ''my token: abc'' = Restricted"
    by code_simp+
  then have "eg_allowed (evaluate_egress AGENT_FREYJA ''plan a trip'' ''cloud-frontier'' None False)"
    and "\<not> eg_allowed (evaluate_egress AGENT_FREYJA ''my token: abc'' ''cloud-frontier'' None False)"
    by (simp_all add: evaluate_allowed)
  with egress_minimal [of AGENT_FREYJA "''plan a trip''" "''cloud-frontier''"] show ?thesis by blast
qed

text \<open>The redaction of an assignment takes one word: the credential that follows a scheme stays.\<close>

lemma redaction_keeps_bearer:
  "redact_prompt ''token: Bearer s3cr3t'' = ''[REDACTED_SECRET] s3cr3t''"
  by code_simp

end
