(* ===== verification/Media.thy ===== *)
theory Media
  imports Prelude
begin

section \<open>Attachments, images and document text\<close>

text \<open>
  \<open>src/freyja/media.py\<close>: which attachments are images or documents, how an image is encoded for a
  model, and how much text is taken from a document. Bytes are texts of 8-bit characters. Reading
  files, base64, the HEIC converters, pypdf (the text of each page) and the XML of a docx (the text
  of each paragraph) are parameters; \<open>None\<close> says that they raise.
\<close>

record media_env =
  md_read :: "string \<Rightarrow> string option"
  md_decode :: "string \<Rightarrow> string option"
  md_encode :: "string \<Rightarrow> string"
  md_heic_path :: "string \<Rightarrow> string option"
  md_heic_bytes :: "string \<Rightarrow> string option"
  md_pdf :: "string \<Rightarrow> string option list option"
  md_docx :: "string \<Rightarrow> string list option"

record image_input =
  im_mime :: string
  im_data :: "string option"
  im_path :: "string option"
  im_filename :: "string option"

record attachment_input =
  ai_filename :: "string option"
  ai_mime :: "string option"
  ai_path :: "string option"
  ai_data :: "string option"
  ai_size :: "int option"

record document_text =
  dt_filename :: string
  dt_mime :: string
  dt_text :: string
  dt_pages :: int
  dt_error :: "string option"

definition ends_with :: "string \<Rightarrow> string list \<Rightarrow> bool" where
  "ends_with s ts \<longleftrightarrow> list_ex (\<lambda>t. suffix t s) ts"

definition str_rstrip :: "string \<Rightarrow> string" where
  "str_rstrip s = rev (dropWhile is_space (rev s))"

text \<open>\<open>Path(p).name\<close>.\<close>

definition file_name :: "string \<Rightarrow> string" where
  "file_name p =
    (let ps = filter (\<lambda>x. x \<noteq> [] \<and> x \<noteq> ''.'') (split_at (\<lambda>c. c = CHR ''/'') p)
     in if ps = [] then [] else last ps)"

subsection \<open>Attachments\<close>

definition attachment_name :: "attachment_input \<Rightarrow> string" where
  "attachment_name a = str_lower (or_else (ai_filename a) (or_else (ai_path a) []))"

definition attachment_mime :: "attachment_input \<Rightarrow> string" where
  "attachment_mime a = str_lower (or_else (ai_mime a) [])"

definition is_image :: "attachment_input \<Rightarrow> bool" where
  "is_image a \<longleftrightarrow> prefix ''image/'' (attachment_mime a)
     \<or> ends_with (attachment_name a) [''.jpg'', ''.jpeg'', ''.png'', ''.gif'', ''.webp'', ''.heic'']"

definition is_pdf :: "attachment_input \<Rightarrow> bool" where
  "is_pdf a \<longleftrightarrow> attachment_mime a = ''application/pdf'' \<or> suffix ''.pdf'' (attachment_name a)"

definition DOCX_MIME :: string where
  "DOCX_MIME = ''application/vnd.openxmlformats-officedocument.wordprocessingml.document''"

definition is_docx :: "attachment_input \<Rightarrow> bool" where
  "is_docx a \<longleftrightarrow> attachment_mime a = DOCX_MIME \<or> suffix ''.docx'' (attachment_name a)"

definition is_document :: "attachment_input \<Rightarrow> bool" where
  "is_document a \<longleftrightarrow> is_pdf a \<or> is_docx a"

definition has_payload :: "attachment_input \<Rightarrow> bool" where
  "has_payload a \<longleftrightarrow> truthy (ai_data a) \<or> truthy (ai_path a)"

definition mime_from_name :: "string \<Rightarrow> string option" where
  "mime_from_name name =
    (let s = str_lower name in
     if ends_with s [''.jpg'', ''.jpeg''] then Some ''image/jpeg''
     else if suffix ''.png'' s then Some ''image/png''
     else if suffix ''.gif'' s then Some ''image/gif''
     else if suffix ''.webp'' s then Some ''image/webp''
     else if suffix ''.heic'' s then Some ''image/heic''
     else None)"

definition to_image_input :: "attachment_input \<Rightarrow> image_input option" where
  "to_image_input a =
    (if \<not> is_image a \<or> \<not> has_payload a then None
     else Some \<lparr>im_mime = or_else (ai_mime a)
         (or_else (mime_from_name (or_else (ai_filename a) (or_else (ai_path a) []))) ''image/jpeg''),
       im_data = ai_data a, im_path = ai_path a, im_filename = ai_filename a\<rparr>)"

definition images_from_attachments :: "attachment_input list \<Rightarrow> image_input list" where
  "images_from_attachments as = List.map_filter to_image_input as"

subsection \<open>Images for a model\<close>

definition is_heic :: "string \<Rightarrow> string option \<Rightarrow> bool" where
  "is_heic mime name \<longleftrightarrow> str_lower mime \<in> {''image/heic'', ''image/heif''}
     \<or> ends_with (str_lower (or_else name [])) [''.heic'', ''.heif'']"

definition first_text :: "string option \<Rightarrow> string option \<Rightarrow> string option" where
  "first_text a b = (if truthy a then a else b)"

text \<open>\<open>None\<close>: the decoding of the data or the reading of the file raises.\<close>

definition image_base64 :: "media_env \<Rightarrow> image_input \<Rightarrow> string option" where
  "image_base64 M i =
    (if truthy (im_data i) then
       (let d = the (im_data i) in
        if is_heic (im_mime i) (im_filename i)
        then map_option (\<lambda>b. case md_heic_bytes M b of Some j \<Rightarrow> md_encode M j | None \<Rightarrow> d) (md_decode M d)
        else Some d)
     else
       (let p = or_else (im_path i) ''None'';
            converted = (if is_heic (im_mime i) (first_text (im_filename i) (Some (file_name p)))
                         then md_heic_path M p else None)
        in case converted of Some j \<Rightarrow> Some (md_encode M j) | None \<Rightarrow> map_option (md_encode M) (md_read M p)))"

definition provider_mime :: "image_input \<Rightarrow> string" where
  "provider_mime i =
    (if is_heic (im_mime i) (first_text (im_filename i) (im_path i)) then ''image/jpeg'' else im_mime i)"

definition data_url :: "media_env \<Rightarrow> image_input \<Rightarrow> string option" where
  "data_url M i = map_option (\<lambda>b. ''data:'' @ provider_mime i @ '';base64,'' @ b) (image_base64 M i)"

subsection \<open>Text of documents\<close>

text \<open>The loops over pages and paragraphs stop once enough characters are collected. A page whose
  extraction raises ends the whole document (\<open>None\<close>).\<close>

fun pdf_parts :: "nat \<Rightarrow> nat \<Rightarrow> string option list \<Rightarrow> string list \<Rightarrow> string list option" where
  "pdf_parts lim i [] parts = Some parts"
| "pdf_parts lim i (p # ps) parts =
    (case p of
       None \<Rightarrow> None
     | Some t \<Rightarrow>
         (let t' = str_strip t;
              parts' = (if t' = [] then parts
                else parts @ [''[page '' @ show_int (int i) @ '']'' @ [CHR 0x0A] @ t'])
          in if lim \<le> sum_list (map length parts') then Some parts' else pdf_parts lim (Suc i) ps parts'))"

fun docx_parts :: "nat \<Rightarrow> string list \<Rightarrow> string list \<Rightarrow> string list" where
  "docx_parts lim [] parts = parts"
| "docx_parts lim (p # ps) parts =
    (let t = str_strip p; parts' = (if t = [] then parts else parts @ [t])
     in if lim \<le> sum_list (map length parts') then parts' else docx_parts lim ps parts')"

definition cut_text :: "nat \<Rightarrow> string \<Rightarrow> string" where
  "cut_text lim t = (if lim < length t then str_rstrip (take lim t) else t)"

definition extract_pdf_text :: "media_env \<Rightarrow> nat \<Rightarrow> nat \<Rightarrow> string \<Rightarrow> string \<Rightarrow> string \<Rightarrow> document_text option" where
  "extract_pdf_text M lim max_pages name mime payload =
    (case md_pdf M payload of
       None \<Rightarrow> None
     | Some pages \<Rightarrow>
         map_option (\<lambda>parts. let t = cut_text lim (str_strip (str_join [CHR 0x0A, CHR 0x0A] parts)) in
           \<lparr>dt_filename = name, dt_mime = mime, dt_text = t, dt_pages = int (length pages),
            dt_error = (if t = [] then Some ''pdf contains no extractable text'' else None)\<rparr>)
           (pdf_parts lim 1 (take max_pages pages) []))"

definition extract_docx_text :: "media_env \<Rightarrow> nat \<Rightarrow> string \<Rightarrow> string \<Rightarrow> string \<Rightarrow> document_text option" where
  "extract_docx_text M lim name mime payload =
    map_option (\<lambda>paragraphs.
      let t = cut_text lim (str_strip (str_join [CHR 0x0A] (docx_parts lim paragraphs []))) in
      \<lparr>dt_filename = name, dt_mime = mime, dt_text = t, dt_pages = 0,
       dt_error = (if t = [] then Some ''docx contains no extractable text'' else None)\<rparr>)
      (md_docx M payload)"

definition attachment_bytes :: "media_env \<Rightarrow> attachment_input \<Rightarrow> string option" where
  "attachment_bytes M a =
    (if truthy (ai_data a) then md_decode M (the (ai_data a)) else md_read M (or_else (ai_path a) []))"

definition failed_document :: "string \<Rightarrow> string \<Rightarrow> string \<Rightarrow> document_text" where
  "failed_document name mime why =
    \<lparr>dt_filename = name, dt_mime = mime, dt_text = [], dt_pages = 0, dt_error = Some why\<rparr>"

definition document_text_of :: "media_env \<Rightarrow> nat \<Rightarrow> nat \<Rightarrow> attachment_input \<Rightarrow> document_text" where
  "document_text_of M lim max_pages a =
    (let name = or_else (ai_filename a) (if truthy (ai_path a) then file_name (the (ai_path a)) else ''document'');
         mime = or_else (ai_mime a) (if is_pdf a then ''application/pdf'' else DOCX_MIME)
     in if \<not> has_payload a then failed_document name mime ''document payload unavailable''
        else (case Option.bind (attachment_bytes M a)
                (\<lambda>b. if is_pdf a then extract_pdf_text M lim max_pages name mime b
                     else extract_docx_text M lim name mime b) of
                Some d \<Rightarrow> d
              | None \<Rightarrow> failed_document name mime ''document text extraction failed''))"

definition document_texts :: "media_env \<Rightarrow> nat \<Rightarrow> nat \<Rightarrow> attachment_input list \<Rightarrow> document_text list" where
  "document_texts M lim max_pages as = map (document_text_of M lim max_pages) (filter is_document as)"

definition document_ok :: "document_text \<Rightarrow> bool" where
  "document_ok d \<longleftrightarrow> str_strip (dt_text d) \<noteq> [] \<and> dt_error d = None"

lemma length_str_rstrip: "length (str_rstrip s) \<le> length s"
  using length_dropWhile_le [of is_space "rev s"] by (simp add: str_rstrip_def)

lemma length_cut_text: "length (cut_text lim t) \<le> lim"
  using length_str_rstrip [of "take lim t"] by (simp add: cut_text_def)

lemma document_text_of_cases:
  "length (dt_text (document_text_of M lim pages a)) \<le> lim
   \<and> (dt_error (document_text_of M lim pages a) = None \<longrightarrow> dt_text (document_text_of M lim pages a) \<noteq> [])"
  by (auto simp: document_text_of_def extract_pdf_text_def extract_docx_text_def failed_document_def
      Let_def length_cut_text split: option.splits bind_splits if_splits)

text \<open>However large an attachment is, and whatever the libraries return or raise, every document
  gives one bounded text or one error, in the order of the attachments.\<close>

lemma document_texts_bounded:
  "length (document_texts M lim pages as) = length (filter is_document as)
   \<and> sum_list (map (\<lambda>d. length (dt_text d)) (document_texts M lim pages as)) \<le> lim * length (filter is_document as)"
proof -
  let ?f = "\<lambda>a. length (dt_text (document_text_of M lim pages a))"
  have "sum_list (map ?f xs) \<le> lim * length xs" for xs :: "attachment_input list"
    by (induction xs) (use document_text_of_cases in \<open>auto simp: add_mono\<close>)
  then show ?thesis by (simp add: document_texts_def comp_def)
qed

end
