(* ===== verification/Agent_Choice.thy ===== *)
theory Agent_Choice
  imports Inference_Registry Privacy_Egress Media Domain_Memory Tool_Registry
begin

section \<open>What an agent decides on its own\<close>

text \<open>
  The decisions of \<open>src/freyja/agent_runtime_v3.py\<close> that depend on the objective and the grants
  only: the home focus of a question, the choice of tools, the questions asked before a mutation,
  the arguments of the tools, the answers made without a model, and what is worth remembering.
  Parameters are \<open>zoneinfo\<close> (the offset of a wall-clock time in a zone), the YAML reader of the
  focus overlay (its parsed value) and the weather classifier of \<open>tools/weather.py\<close>. Sets of
  texts whose order matters nowhere are lists.
\<close>

subsection \<open>Dates\<close>

definition ordinal_of :: "int \<Rightarrow> int \<Rightarrow> int \<Rightarrow> int option" where
  "ordinal_of y m d =
    (if 1 \<le> y \<and> y \<le> 9999 \<and> 1 \<le> m \<and> m \<le> 12 \<and> 1 \<le> d
        \<and> d \<le> (if m = 12 then 31 else days_before_month y (m + 1) - days_before_month y m)
     then Some (days_before_year y + days_before_month y m + d) else None)"

text \<open>The Monday of week 1 of an ISO year.\<close>

definition iso_week_one :: "int \<Rightarrow> int" where
  "iso_week_one y =
    (let f = days_before_year y + 1; w = (f + 6) mod 7; monday = f - w in if 3 < w then monday + 7 else monday)"

definition ordinal_of_week :: "int \<Rightarrow> int \<Rightarrow> int \<Rightarrow> int option" where
  "ordinal_of_week y w d =
    (let f = (days_before_year y + 1) mod 7; n = iso_week_one y + (w - 1) * 7 + (d - 1)
     in if 1 \<le> y \<and> y \<le> 9999 \<and> 1 \<le> d \<and> d \<le> 7 \<and> 1 \<le> n \<and> n \<le> 3652059
           \<and> 1 \<le> w \<and> (w \<le> 52 \<or> (w = 53 \<and> (f = 4 \<or> (f = 3 \<and> is_leap y)))) then Some n else None)"

definition number_at :: "string \<Rightarrow> nat \<Rightarrow> nat \<Rightarrow> int option" where
  "number_at s i n =
    (let t = take n (drop i s) in if length t = n \<and> list_all is_digit_char t then Some (digits_int t) else None)"

text \<open>\<open>date.fromisoformat\<close>: the ordinal, or \<open>None\<close> for a \<open>ValueError\<close>.\<close>

definition date_fromisoformat :: "string \<Rightarrow> int option" where
  "date_fromisoformat s =
    (let at = (\<lambda>i c. i < length s \<and> s ! i = c); n = length s;
         ymd = (\<lambda>i j. Option.bind (number_at s 0 4) (\<lambda>y. Option.bind (number_at s i 2)
                 (\<lambda>m. Option.bind (number_at s j 2) (\<lambda>d. ordinal_of y m d))));
         week = (\<lambda>i day. Option.bind (number_at s 0 4) (\<lambda>y. Option.bind (number_at s i 2)
                 (\<lambda>w. Option.bind day (\<lambda>d. ordinal_of_week y w d))))
     in if n = 10 \<and> at 4 CHR ''-'' \<and> at 5 CHR ''W'' then if at 8 CHR ''-'' then week 6 (number_at s 9 1) else None
        else if n = 10 then if at 4 CHR ''-'' \<and> at 7 CHR ''-'' then ymd 5 8 else None
        else if n = 8 \<and> at 4 CHR ''-'' then if at 5 CHR ''W'' then week 6 (Some 1) else None
        else if n = 8 \<and> at 4 CHR ''W'' then week 5 (number_at s 7 1)
        else if n = 8 then ymd 4 6
        else if n = 7 \<and> at 4 CHR ''W'' then week 5 (Some 1)
        else None)"

lemma ordinal_of_range: "ordinal_of y m d = Some n \<Longrightarrow> 1 \<le> y \<and> y \<le> 9999 \<and> 1 \<le> m \<and> m \<le> 12"
  by (simp add: ordinal_of_def split: if_splits)

text \<open>The Saturday on or after a day; \<open>None\<close>: the date is past year 9999 (\<open>OverflowError\<close>).\<close>

definition plus_days :: "int \<Rightarrow> int \<Rightarrow> int option" where
  "plus_days n k = (if 1 \<le> n + k \<and> n + k \<le> 3652059 then Some (n + k) else None)"

definition saturday_of :: "int \<Rightarrow> int option" where
  "saturday_of n = plus_days n ((5 - (n + 6) mod 7) mod 7)"

lemma saturday_is_saturday: "saturday_of n = Some k \<Longrightarrow> (k + 6) mod 7 = 5 \<and> n \<le> k \<and> k < n + 7"
proof -
  assume "saturday_of n = Some k"
  then have k: "k = n + (5 - (n + 6) mod 7) mod 7" by (simp add: saturday_of_def plus_days_def split: if_splits)
  then have "(k + 6) mod 7 = ((n + 6) mod 7 + (5 - (n + 6) mod 7) mod 7) mod 7"
    by (metis add.assoc add.commute mod_add_left_eq)
  also have "\<dots> = 5" by (simp only: mod_add_right_eq) simp
  finally have "(k + 6) mod 7 = 5" .
  moreover have "0 \<le> (5 - (n + 6) mod 7) mod 7 \<and> (5 - (n + 6) mod 7) mod 7 < 7" by simp
  ultimately show ?thesis using k by simp
qed

subsection \<open>Home focuses\<close>

record home_focus =
  hf_label :: string
  hf_domains :: "string list"
  hf_keywords :: "string list"
  hf_classes :: "string list"
  hf_units :: "string list"
  hf_entity :: "string list"

definition degree :: string where "degree = [CHR 0xB0]"

definition HOME_FOCUS_DEFAULTS :: "(string \<times> home_focus) list" where
  "HOME_FOCUS_DEFAULTS =
    [(''temperature'', \<lparr>hf_label = ''Temperature sensors'', hf_domains = [''sensor''], hf_keywords = [''temperature'', ''temp''],
       hf_classes = [''temperature''], hf_units = [''f'', ''c'', degree @ ''f'', degree @ ''c''], hf_entity = [''temperature'']\<rparr>),
     (''humidity'', \<lparr>hf_label = ''Humidity sensors'', hf_domains = [''sensor''], hf_keywords = [''humidity''],
       hf_classes = [''humidity''], hf_units = [''%''], hf_entity = [''humidity'']\<rparr>),
     (''power'', \<lparr>hf_label = ''Power sensors'', hf_domains = [''sensor''], hf_keywords = [''power'', ''usage'', ''watts''],
       hf_classes = [''power''], hf_units = [''w'', ''kw''], hf_entity = [''power'']\<rparr>),
     (''energy'', \<lparr>hf_label = ''Energy sensors'', hf_domains = [''sensor''], hf_keywords = [''energy'', ''kwh''],
       hf_classes = [''energy''], hf_units = [''wh'', ''kwh'', ''mwh''], hf_entity = [''energy'']\<rparr>),
     (''electric'', \<lparr>hf_label = ''Electric sensors'', hf_domains = [''sensor''], hf_keywords = [''electric'', ''electricity''],
       hf_classes = [''power'', ''energy'', ''voltage'', ''current''], hf_units = [''w'', ''kw'', ''wh'', ''kwh'', ''v'', ''a''],
       hf_entity = [''electric'']\<rparr>),
     (''battery'', \<lparr>hf_label = ''Battery sensors'', hf_domains = [''sensor''], hf_keywords = [''battery''],
       hf_classes = [''battery''], hf_units = [''%''], hf_entity = [''battery'']\<rparr>),
     (''voltage'', \<lparr>hf_label = ''Voltage sensors'', hf_domains = [''sensor''], hf_keywords = [''voltage''],
       hf_classes = [''voltage''], hf_units = [''v''], hf_entity = [''voltage'']\<rparr>),
     (''current'', \<lparr>hf_label = ''Current sensors'', hf_domains = [''sensor''], hf_keywords = [''current'', ''amps'', ''amperage''],
       hf_classes = [''current''], hf_units = [''a''], hf_entity = [''current'']\<rparr>)]"

definition safe_focus_id :: "string \<Rightarrow> string" where
  "safe_focus_id s =
    (let i = map (\<lambda>c. if c = CHR ''-'' \<or> c = CHR '' '' then CHR ''_'' else c) (str_lower (str_strip s))
     in if 1 \<le> length i \<and> length i \<le> 64
           \<and> list_all (in_ranges [(CHR ''a'', CHR ''z''), (CHR ''0'', CHR ''9''), (CHR ''_'', CHR ''_'')]) i
        then i else [])"

definition string_set :: "json \<Rightarrow> string list" where
  "string_set v =
    (let items = (case v of JStr s \<Rightarrow> [v] | JList xs \<Rightarrow> xs | _ \<Rightarrow> [])
     in remdups (map (\<lambda>x. str_lower (str_strip (json_str x))) (filter (\<lambda>x. str_strip (json_str x) \<noteq> []) items)))"

text \<open>\<open>title()\<close>: a letter after a character that is no letter becomes upper case.\<close>

fun title_from :: "bool \<Rightarrow> string \<Rightarrow> string" where
  "title_from inside [] = []"
| "title_from inside (c # s) =
    (let l = lower_char c; letter = CHR ''a'' \<le> l \<and> l \<le> CHR ''z''
     in (if letter \<and> \<not> inside then char_of (of_char l - (32::nat)) else l) # title_from letter s)"

definition focus_title :: "string \<Rightarrow> string" where
  "focus_title i = title_from False (map (\<lambda>c. if c = CHR ''_'' then CHR '' '' else c) i)"

fun focus_put :: "string \<Rightarrow> home_focus \<Rightarrow> (string \<times> home_focus) list \<Rightarrow> (string \<times> home_focus) list" where
  "focus_put i f [] = [(i, f)]"
| "focus_put i f ((j, g) # fs) = (if j = i then (i, f) # fs else (j, g) # focus_put i f fs)"

definition overlay_focus :: "string \<Rightarrow> json_obj \<Rightarrow> home_focus option \<Rightarrow> home_focus" where
  "overlay_focus i raw old =
    (let pick = (\<lambda>key sel. let vs = string_set (jget key raw) in
           if vs \<noteq> [] then vs else (case old of None \<Rightarrow> [] | Some f \<Rightarrow> sel f));
         label = (case old of None \<Rightarrow> [] | Some f \<Rightarrow> hf_label f)
     in \<lparr>hf_label = str_or (jget ''label'' raw) (if label \<noteq> [] then label else focus_title i),
         hf_domains = pick ''domains'' hf_domains, hf_keywords = pick ''keywords'' hf_keywords,
         hf_classes = pick ''device_classes'' hf_classes, hf_units = pick ''units'' hf_units,
         hf_entity = pick ''entity_keywords'' hf_entity\<rparr>)"

text \<open>The overlay file: \<open>None\<close> when it cannot be read or parsed.\<close>

definition home_focuses :: "json option \<Rightarrow> (string \<times> home_focus) list" where
  "home_focuses overlay =
    (case overlay of
       Some (JObj d) \<Rightarrow>
         (case jget ''focuses'' d of
            JObj raws \<Rightarrow>
              fold (\<lambda>(rid, raw) fs.
                let i = safe_focus_id rid in
                if i = [] then fs
                else (case raw of
                   JObj r \<Rightarrow>
                     (let f = overlay_focus i r (map_of fs i)
                      in if hf_keywords f \<noteq> [] \<or> hf_classes f \<noteq> [] \<or> hf_entity f \<noteq> [] then focus_put i f fs else fs)
                 | _ \<Rightarrow> fs)) raws HOME_FOCUS_DEFAULTS
          | _ \<Rightarrow> HOME_FOCUS_DEFAULTS)
     | _ \<Rightarrow> HOME_FOCUS_DEFAULTS)"

type_synonym focuses = "(string \<times> home_focus) list"

definition sensor_focus :: "focuses \<Rightarrow> string \<Rightarrow> string option" where
  "sensor_focus fs s = map_option fst (List.find (\<lambda>(i, f). mentions s (hf_keywords f)) fs)"

definition focus_label :: "focuses \<Rightarrow> string \<Rightarrow> string option" where
  "focus_label fs s = map_option (\<lambda>i.
     let l = hf_label (the (map_of fs i)) in if l \<noteq> [] then l else focus_title i) (sensor_focus fs s)"

definition focus_for_text :: "focuses \<Rightarrow> string \<Rightarrow> string option" where
  "focus_for_text fs s = sensor_focus fs (str_lower s)"

definition entity_text :: "json_obj \<Rightarrow> string \<Rightarrow> string" where
  "entity_text e k = str_lower (str_or_empty (jget k e))"

definition entity_matches_focus :: "focuses \<Rightarrow> json_obj \<Rightarrow> string \<Rightarrow> bool" where
  "entity_matches_focus fs e i =
    (case map_of fs i of
       None \<Rightarrow> False
     | Some f \<Rightarrow>
         (let c = entity_text e ''device_class''; u = entity_text e ''unit_of_measurement'';
              name = entity_text e ''entity_id'' @ '' '' @ entity_text e ''friendly_name''
          in (c \<noteq> [] \<and> c \<in> set (hf_classes f)) \<or> (u \<noteq> [] \<and> u \<in> set (hf_units f)) \<or> mentions name (hf_entity f)))"

definition entity_available :: "json_obj \<Rightarrow> bool" where
  "entity_available e \<longleftrightarrow> entity_text e ''state'' \<notin> {''unknown'', ''unavailable'', []}"

definition dicts_of :: "json list \<Rightarrow> json_obj list" where
  "dicts_of xs = List.map_filter (\<lambda>x. case x of JObj d \<Rightarrow> Some d | _ \<Rightarrow> None) xs"

definition matching_entities :: "focuses \<Rightarrow> string \<Rightarrow> json list \<Rightarrow> json_obj list" where
  "matching_entities fs s entities =
    (case sensor_focus fs s of
       None \<Rightarrow> []
     | Some i \<Rightarrow>
         (let m = filter (\<lambda>e. entity_matches_focus fs e i) (dicts_of entities); a = filter entity_available m
          in if a \<noteq> [] then a else m))"

definition state_line :: "json_obj \<Rightarrow> string" where
  "state_line e = str_or (jget ''friendly_name'' e) (str_or (jget ''entity_id'' e) ''unknown'')
     @ '': '' @ str_or (jget ''state'' e) ''unknown'' @ str_or_empty (jget ''unit_of_measurement'' e)"

definition domain_label :: "json list \<Rightarrow> string" where
  "domain_label entities =
    (let ds = remdups (filter (\<lambda>d. d \<noteq> []) (map (\<lambda>e. str_or_empty (jget ''domain'' e)) (dicts_of entities)))
     in case ds of
          [d] \<Rightarrow> (let t = map (\<lambda>c. if c = CHR ''_'' then CHR '' '' else c) d
                 in if t = ''light'' then ''lights'' else t @ '' states'')
        | _ \<Rightarrow> ''Home Assistant states'')"

subsection \<open>Results of tools, and answers made without a model\<close>

record tool_outcome =
  tr_capability :: string
  tr_tool :: string
  tr_success :: bool
  tr_error :: "string option"
  tr_public :: "string option"
  tr_output :: json_obj

definition outcome_json :: "tool_outcome \<Rightarrow> json" where
  "outcome_json r = JObj [(''capability_id'', JStr (tr_capability r)), (''tool_name'', JStr (tr_tool r)),
     (''success'', JBool (tr_success r)), (''error_code'', jopt (tr_error r)),
     (''public_error_message'', jopt (tr_public r)), (''output'', JObj (tr_output r))]"

definition tool_effective_success :: "bool \<Rightarrow> json_obj \<Rightarrow> bool" where
  "tool_effective_success ok out =
    (if \<not> ok then False
     else (case jget ''success'' out of
        JBool b \<Rightarrow> b
      | _ \<Rightarrow> \<not> json_truthy (jget ''error'' out) \<and> jget ''live_data_available'' out \<noteq> JBool False))"

definition opencode_status_lines :: "json_obj \<Rightarrow> string list" where
  "opencode_status_lines out =
    map (\<lambda>(label, key). label @ '': '' @ json_str (jget key out))
      (filter (\<lambda>(label, key). jget key out \<noteq> JNull \<and> jget key out \<noteq> JStr [])
        [(''Alias'', ''alias''), (''Session'', ''session''), (''State'', ''state''),
         (''Working directory'', ''working_directory''), (''Recent action'', ''recent_action'')])"

fun opencode_status_response :: "tool_outcome list \<Rightarrow> string option" where
  "opencode_status_response [] = None"
| "opencode_status_response (r # rs) =
    (if tr_capability r = ''opencode.status'' \<and> tr_success r \<and> opencode_status_lines (tr_output r) \<noteq> []
     then Some (''OpenCode status'' @ [CHR 0x0A] @ str_join [CHR 0x0A] (opencode_status_lines (tr_output r)))
     else opencode_status_response rs)"

text \<open>The answer from one listing of entities. \<open>None\<close>: \<open>int(count)\<close> raises; \<open>Some None\<close>: the
  listing gives no answer.\<close>

definition home_answer :: "focuses \<Rightarrow> string \<Rightarrow> json_obj \<Rightarrow> json list \<Rightarrow> string option option" where
  "home_answer fs obj out entities =
    (let s = str_lower obj; m = matching_entities fs s entities in
     if mentions s [''how many'', ''count'', ''number of''] then
       (let countable = (if m \<noteq> [] then map JObj m else entities);
            lit = filter (\<lambda>e. entity_text e ''state'' = ''on'') (dicts_of countable)
        in Some (Some (show_int (int (length lit)) @ '' '' @ domain_label countable @ '' are on.'')))
     else if m \<noteq> [] then
       Some (Some (or_else (focus_label fs s) (domain_label (map JObj m)) @ '': ''
         @ str_join ''; '' (map state_line (take 8 m)) @ ''.''))
     else
       (let samples = map state_line (dicts_of (take 8 entities)) in
        if samples = [] then Some None
        else (let c = jget ''count'' out in
              case (if json_truthy c then py_int c else Some (int (length entities))) of
                None \<Rightarrow> None
              | Some n \<Rightarrow> Some (Some (''I can see '' @ show_int n @ '' '' @ domain_label entities @ '': ''
                  @ str_join ''; '' samples @ ''.'')))))"

fun home_assistant_response :: "focuses \<Rightarrow> string \<Rightarrow> tool_outcome list \<Rightarrow> string option option" where
  "home_assistant_response fs obj [] = Some None"
| "home_assistant_response fs obj (r # rs) =
    (if tr_capability r \<noteq> ''home-assistant.read'' \<or> \<not> tr_success r then home_assistant_response fs obj rs
     else (case jget ''entities'' (tr_output r) of
        JList es \<Rightarrow>
          (case home_answer fs obj (tr_output r) es of
             None \<Rightarrow> None
           | Some None \<Rightarrow> home_assistant_response fs obj rs
           | Some (Some t) \<Rightarrow> Some (Some t))
      | _ \<Rightarrow> home_assistant_response fs obj rs))"

subsection \<open>Choice of tools\<close>

definition TOOL_RULES :: "(string \<times> string list) list" where
  "TOOL_RULES =
    [(''web.search'', [''search'', ''look up'', ''latest'']),
     (''weather.current'', [''weather'', ''forecast'', ''temperature'']),
     (''browser.control'', [''browser'', ''safari'', ''front tab'', ''current tab'']),
     (''calendar.write'', [''add to calendar'', ''add family dinner'', ''add dinner'', ''add event'', ''add appointment'',
        ''create calendar'', ''create event'', ''schedule dinner'', ''schedule family'', ''book appointment'',
        ''reserve appointment'']),
     (''calendar.read'', [''calendar'', ''calender'', ''schedule'', ''appointment'']),
     (''email.read'', [''email'', ''mail'']),
     (''messaging.send'', [''send message'', ''send a message'', ''imessage'', ''text joe'', ''text beth'', ''text liam'',
        ''text jenna'', ''sms'']),
     (''home-assistant.read'', [''home assistant'', ''house state'', ''home state'', ''in my home'', ''at home'', ''lights'',
        ''sensors'', ''devices'', ''thermostat'', ''humidity'', ''power'', ''energy'', ''battery'', ''voltage'', ''current'',
        ''electric'', ''electricity'', ''outlet'', ''temperature'', ''door'', ''lock'', ''garage'']),
     (''home-assistant.control'', [''turn on'', ''turn off'', ''switch on'', ''switch off'', ''lock'', ''unlock'']),
     (''macagent.apple'', [''mac'', ''finder'', ''safari'', ''shortcut'', ''apple'']),
     (''shell.run'', [''shell'', ''command'', ''terminal'']),
     (''filesystem.read'', [''file'', ''folder'', ''repo'', ''inspect'']),
     (''filesystem.write'', [''edit'', ''write'', ''patch'', ''create file'']),
     (''git.inspect'', [''git'', ''diff'', ''status'', ''commit'']),
     (''opencode.status'', [''opencode status'', ''opencode session status'', ''coding session status'', ''session state'']),
     (''coding.execute'', [''code'', ''test'', ''build'', ''bug'']),
     (''documents.process'', [''pdf'', ''document'', ''docx'']),
     (''vision.inspect'', [''photo'', ''image'', ''picture'', ''see this'']),
     (''music.control'', [''music'', ''song'', ''playlist'']),
     (''scheduling.create'', [''remind'', ''schedule this'', ''timer'']),
     (''memory.private'', [''remember'', ''what do you know'']),
     (''memory.shared'', [''family'', ''household'']),
     (''system.health'', [''system health'', ''diagnose'', ''diagnostic''])]"

definition DAY_WORDS :: "string list" where
  "DAY_WORDS = [''monday'', ''tuesday'', ''wednesday'', ''thursday'', ''friday'', ''saturday'', ''sunday'']"

definition CREATE_WORD :: rx where
  "CREATE_WORD = rx_whole (rx_alts (map rx_lit [''add'', ''put'', ''create'', ''schedule'']))"

definition WHEN_WORD :: rx where
  "WHEN_WORD = rx_whole (rx_alts (map rx_lit
     ([''today'', ''tonight'', ''tomorrow'', ''this weekend'', ''next weekend'', ''weekend''] @ DAY_WORDS)))"

definition add_choice :: "string \<Rightarrow> bool \<Rightarrow> string list \<Rightarrow> string list" where
  "add_choice t cond ts = (if cond \<and> t \<notin> set ts then ts @ [t] else ts)"

definition drop_choice :: "string \<Rightarrow> bool \<Rightarrow> string list \<Rightarrow> string list" where
  "drop_choice t cond ts = (if cond then remove1 t ts else ts)"

definition choose_tools :: "focuses \<Rightarrow> string set \<Rightarrow> string \<Rightarrow> string set \<Rightarrow> string list" where
  "choose_tools fs grants obj available =
    (let allowed = grants \<inter> available; s = str_lower obj in
     if ''opencode.status'' \<in> allowed \<and> sublist ''opencode'' s
        \<and> mentions s [''status'', ''state'', ''session'', ''working directory'', ''read-only'']
     then [''opencode.status'']
     else
      (let c0 = map fst (filter (\<lambda>(t, ws). t \<in> allowed \<and> mentions s ws) TOOL_RULES);
           c1 = add_choice ''calendar.write''
                  (''calendar.write'' \<in> allowed \<and> rx_found CREATE_WORD s \<and> rx_found WHEN_WORD s) c0;
           c2 = add_choice ''home-assistant.read''
                  (''home-assistant.read'' \<in> allowed \<and> focus_for_text fs s \<noteq> None) c1;
           c3 = drop_choice ''home-assistant.read''
                  (''home-assistant.control'' \<in> set c2 \<and> ''home-assistant.read'' \<in> set c2) c2
       in if ''opencode.status'' \<in> set c3 then [''opencode.status'']
          else drop_choice ''weather.current''
                 (''weather.current'' \<in> set c3 \<and> ''home-assistant.read'' \<in> set c3
                  \<and> \<not> mentions s [''weather'', ''forecast'', ''outside'', ''outdoor'']) c3))"

lemma set_add_choice: "set (add_choice t c ts) \<subseteq> insert t (set ts) \<and> (\<not> c \<longrightarrow> add_choice t c ts = ts)"
  by (auto simp: add_choice_def)

lemma distinct_add_choice: "distinct ts \<Longrightarrow> distinct (add_choice t c ts)"
  by (simp add: add_choice_def)

lemma set_drop_choice: "set (drop_choice t c ts) \<subseteq> set ts"
  using set_remove1_subset [of t ts] by (simp add: drop_choice_def)

lemma distinct_drop_choice: "distinct ts \<Longrightarrow> distinct (drop_choice t c ts)"
  by (simp add: drop_choice_def)

lemma distinct_rules: "distinct (map fst TOOL_RULES)"
  by (simp add: TOOL_RULES_def)

lemma distinct_filtered_rules: "distinct (map fst (filter P TOOL_RULES))"
  using distinct_rules by (rule distinct_map_filter)

text \<open>An agent selects only what it was granted and what the handoff makes available, each once.\<close>

lemma choose_tools_allowed:
  "set (choose_tools fs g obj av) \<subseteq> g \<inter> av \<and> distinct (choose_tools fs g obj av)"
proof -
  define s where "s = str_lower obj"
  define c0 where "c0 = map fst (filter (\<lambda>(t, ws). t \<in> g \<inter> av \<and> mentions s ws) TOOL_RULES)"
  define c1 where "c1 = add_choice ''calendar.write''
    (''calendar.write'' \<in> g \<inter> av \<and> rx_found CREATE_WORD s \<and> rx_found WHEN_WORD s) c0"
  define c2 where "c2 = add_choice ''home-assistant.read''
    (''home-assistant.read'' \<in> g \<inter> av \<and> focus_for_text fs s \<noteq> None) c1"
  define c3 where "c3 = drop_choice ''home-assistant.read''
    (''home-assistant.control'' \<in> set c2 \<and> ''home-assistant.read'' \<in> set c2) c2"
  have 0: "set c0 \<subseteq> g \<inter> av" "distinct c0"
    by (auto simp: c0_def distinct_filtered_rules)
  have 1: "set c1 \<subseteq> g \<inter> av" "distinct c1"
    using 0 distinct_add_choice by (auto simp: c1_def add_choice_def)
  have 2: "set c2 \<subseteq> g \<inter> av" "distinct c2"
    using 1 distinct_add_choice by (auto simp: c2_def add_choice_def)
  have 3: "set c3 \<subseteq> g \<inter> av" "distinct c3"
    unfolding c3_def using 2 set_drop_choice distinct_drop_choice by (blast, blast)
  have 4: "set (drop_choice ''weather.current'' P c3) \<subseteq> g \<inter> av \<and> distinct (drop_choice ''weather.current'' P c3)" for P
    using 3 set_drop_choice [of _ _ c3] distinct_drop_choice by (meson order_trans)
  show ?thesis
    unfolding choose_tools_def Let_def s_def [symmetric] c0_def [symmetric] c1_def [symmetric]
      c2_def [symmetric] c3_def [symmetric]
    using 3 4 by (simp split: if_split) blast
qed

record choice_env =
  ce_focuses :: focuses
  ce_zone :: "string \<Rightarrow> (int \<Rightarrow> int) option"
  ce_weather :: "string \<Rightarrow> json_obj"
  ce_size :: "string \<Rightarrow> int option"

text \<open>\<open>AttachmentInput(\<dots>)\<close> of an attachment dictionary; \<open>None\<close> is pydantic's \<open>ValidationError\<close>.
  \<open>ce_size\<close> reads the integer of a text.\<close>

definition field_text :: "json \<Rightarrow> string option option" where
  "field_text v = (case v of JNull \<Rightarrow> Some None | JStr s \<Rightarrow> Some (Some s) | _ \<Rightarrow> None)"

definition json_or :: "json \<Rightarrow> json \<Rightarrow> json" where
  "json_or a b = (if json_truthy a then a else b)"

definition field_size :: "choice_env \<Rightarrow> json \<Rightarrow> int option option" where
  "field_size E v =
    (case v of
       JNull \<Rightarrow> Some None
     | JInt i \<Rightarrow> if 0 \<le> i then Some (Some i) else None
     | JBool b \<Rightarrow> Some (Some (if b then 1 else 0))
     | JStr s \<Rightarrow> (case ce_size E s of Some i \<Rightarrow> if 0 \<le> i then Some (Some i) else None | None \<Rightarrow> None)
     | _ \<Rightarrow> None)"

definition attachment_of :: "choice_env \<Rightarrow> json_obj \<Rightarrow> attachment_input option" where
  "attachment_of E d =
    (let source = json_or (jget ''source'' d) (jget ''path'' d);
         path = (if json_truthy source \<and> \<not> prefix ''http://'' (json_str source) \<and> \<not> prefix ''https://'' (json_str source)
                 then Some (json_str source) else None)
     in case (field_text (jget ''filename'' d), field_text (json_or (jget ''media_type'' d) (jget ''mime_type'' d)),
              field_text (jget ''data_base64'' d), field_size E (json_or (jget ''size'' d) (jget ''size_bytes'' d))) of
          (Some f, Some m, Some b, Some n) \<Rightarrow>
            Some \<lparr>ai_filename = f, ai_mime = m, ai_path = path, ai_data = b, ai_size = n\<rparr>
        | _ \<Rightarrow> None)"

definition attachment_inputs :: "choice_env \<Rightarrow> handoff \<Rightarrow> attachment_input list option" where
  "attachment_inputs E h =
    (let xs = map (attachment_of E) (gh_attachments h) in if None \<in> set xs then None else Some (map the xs))"

definition explicit_home_context :: "string \<Rightarrow> bool" where
  "explicit_home_context obj \<longleftrightarrow> mentions (str_lower obj)
     [''home assistant'', ''house state'', ''home state'', ''in my home'', ''at home'', ''lights'', ''sensors'', ''devices'',
      ''thermostat'', ''humidity'', ''power'', ''energy'', ''battery'', ''voltage'', ''electric'', ''electricity'', ''outlet'',
      ''temperature'', ''door'', ''lock'', ''garage'']"

definition push_front :: "string \<Rightarrow> bool \<Rightarrow> string list \<Rightarrow> string list" where
  "push_front t cond ts = (if cond \<and> t \<notin> set ts then t # ts else ts)"

definition prioritize_attachment_tools ::
    "choice_env \<Rightarrow> persistent_agent \<Rightarrow> handoff \<Rightarrow> string list \<Rightarrow> string list option" where
  "prioritize_attachment_tools E a h ts =
    (if gh_attachments h = [] then Some ts
     else
      (let ts1 = (if \<not> explicit_home_context (gh_prompt h)
             then filter (\<lambda>t. t \<notin> {''home-assistant.read'', ''home-assistant.control'', ''weather.current''}) ts else ts);
           available = pa_grants a \<inter> gh_tools h
       in map_option (\<lambda>as.
            push_front ''vision.inspect'' (list_ex is_image as \<and> ''vision.inspect'' \<in> available)
              (push_front ''documents.process'' (list_ex is_document as \<and> ''documents.process'' \<in> available) ts1))
          (attachment_inputs E h)))"

lemma prioritize_allowed:
  assumes "prioritize_attachment_tools E a h ts = Some us" and "set ts \<subseteq> pa_grants a \<inter> gh_tools h"
  shows "set us \<subseteq> pa_grants a \<inter> gh_tools h"
  using assms by (auto simp: prioritize_attachment_tools_def push_front_def Let_def split: if_splits)

lemma prioritize_distinct:
  assumes "prioritize_attachment_tools E a h ts = Some us" and "distinct ts"
  shows "distinct us"
  using assms by (auto simp: prioritize_attachment_tools_def push_front_def Let_def split: if_splits)

subsection \<open>Questions before a mutation\<close>

definition APPROVAL_PREFIXES :: "string list" where
  "APPROVAL_PREFIXES = [''approval:'', ''approve:'']"

definition permission_granted :: "string \<Rightarrow> string set \<Rightarrow> bool" where
  "permission_granted c permissions \<longleftrightarrow> list_ex (\<lambda>p. p @ c \<in> permissions) APPROVAL_PREFIXES"

definition upper_class :: rx where "upper_class = Cls False [(CHR ''A'', CHR ''Z'')]"

definition letter_class :: rx where
  "letter_class = Cls False [(CHR ''A'', CHR ''Z''), (CHR ''a'', CHR ''z'')]"

definition mail_class :: rx where
  "mail_class = Cls False [(CHR ''a'', CHR ''z''), (CHR ''0'', CHR ''9''), (CHR ''_'', CHR ''_''), (CHR ''.'', CHR ''.''),
     (CHR ''+'', CHR ''+''), (CHR ''-'', CHR ''-'')]"

definition host_class :: "bool \<Rightarrow> rx" where
  "host_class dots = Cls False ([(CHR ''a'', CHR ''z''), (CHR ''0'', CHR ''9''), (CHR ''-'', CHR ''-'')]
     @ (if dots then [(CHR ''.'', CHR ''.'')] else []))"

definition MESSAGE_TARGET :: rx where
  "MESSAGE_TARGET = Seq WordB (Seq (rx_alts (map rx_lit [''to'', ''text'', ''message'', ''imessage'', ''sms'']))
     (Seq (rx_plus rx_space) (rx_alts
       [Seq upper_class (rx_plus letter_class),
        Seq (rx_chr CHR ''+'') (Seq (rx_times 7 digit) (Star digit)),
        Seq (rx_plus mail_class) (Seq (rx_chr CHR ''@'') (Seq (rx_plus (host_class False))
          (Seq (rx_chr CHR ''.'') (rx_plus (host_class True)))))])))"

definition has_message_target :: "string \<Rightarrow> bool" where
  "has_message_target obj \<longleftrightarrow> rx_found MESSAGE_TARGET obj
     \<or> list_ex (\<lambda>n. sublist ('' '' @ n @ '' '') ('' '' @ str_lower obj @ '' ''))
          [''joe'', ''beth'', ''liam'', ''jenna'', ''mom'', ''dad'']"

definition one_or_two_digits :: rx where
  "one_or_two_digits = Seq digit (rx_opt digit)"

definition TIME_DETAIL :: rx where
  "TIME_DETAIL = rx_whole (rx_alts
     (Seq one_or_two_digits (Seq (rx_opt (Seq (rx_chr CHR '':'') (rx_times 2 digit)))
        (Seq (rx_opt rx_space) (rx_alts [rx_lit ''am'', rx_lit ''pm''])))
      # map rx_lit ([''today'', ''tomorrow''] @ DAY_WORDS)))"

definition has_time_detail :: "string \<Rightarrow> bool" where
  "has_time_detail s \<longleftrightarrow> rx_found TIME_DETAIL s"

definition has_home_action_detail :: "string \<Rightarrow> bool" where
  "has_home_action_detail s \<longleftrightarrow> mentions s [''turn on'', ''turn off'', ''set '', ''lock'', ''unlock'', ''open'', ''close'']
     \<and> mentions s [''light'', ''thermostat'', ''door'', ''lock'', ''kitchen'', ''living room'', ''bedroom'', ''garage'']"

text \<open>\<open>None\<close>: the weekend is past year 9999 and the addition raises.\<close>

definition this_weekend_context :: "handoff \<Rightarrow> string option option" where
  "this_weekend_context h =
    (if \<not> sublist ''this weekend'' (str_lower (gh_prompt h)) then Some None
     else (case jget ''temporal_context'' (gh_reply h) of
        JObj ctx \<Rightarrow>
          (case jget ''local_date'' ctx of
             JStr t \<Rightarrow>
               (case date_fromisoformat t of
                  None \<Rightarrow> Some None
                | Some n \<Rightarrow>
                    (case saturday_of n of
                       None \<Rightarrow> None
                     | Some sat \<Rightarrow> map_option (\<lambda>sun. Some (iso_date sat @ '' to '' @ iso_date sun)) (plus_days sat 1)))
           | _ \<Rightarrow> Some None)
      | _ \<Rightarrow> Some None))"

definition calendar_question :: "handoff \<Rightarrow> string option" where
  "calendar_question h = map_option (\<lambda>w. case w of
      Some weekend \<Rightarrow> ''I can create that calendar event. This weekend is '' @ weekend
        @ ''; which day and start time should I use, and do you approve adding it?''
    | None \<Rightarrow> ''I can create that calendar event. Please confirm the exact date, start time, title, and that you approve adding it.'')
    (this_weekend_context h)"

definition follow_up_questions :: "handoff \<Rightarrow> string list \<Rightarrow> string list option" where
  "follow_up_questions h ts =
    (let s = str_lower (gh_prompt h);
         ask = (\<lambda>t cond q. if t \<in> set ts \<and> cond then [q] else []);
         calendar = (if ''calendar.write'' \<in> set ts \<and> \<not> permission_granted ''calendar.write'' (gh_permissions h)
                     then map_option (\<lambda>q. [q]) (calendar_question h) else Some [])
     in map_option (\<lambda>c.
          ask ''messaging.send'' (\<not> has_message_target (gh_prompt h))
            ''Who should I send the message to, and what should it say?''
          @ c
          @ ask ''scheduling.create'' (\<not> has_time_detail s) ''When should I schedule that?''
          @ ask ''home-assistant.control'' (\<not> has_home_action_detail s)
              ''Which Home Assistant device or area should I control, and what state should it be set to?'')
        calendar)"

lemma calendar_question_asked:
  "follow_up_questions h ts = Some qs \<Longrightarrow> ''calendar.write'' \<in> set ts \<Longrightarrow>
    permission_granted ''calendar.write'' (gh_permissions h) \<or> qs \<noteq> []"
  by (auto simp: follow_up_questions_def Let_def split: if_splits)

subsection \<open>Arguments of the tools\<close>

definition home_read_arguments :: "focuses \<Rightarrow> string \<Rightarrow> json_obj" where
  "home_read_arguments fs obj =
    (let s = str_lower obj; dom = (\<lambda>d. [(''domain'', JStr d)]) in
     if sublist ''light'' s then dom ''light''
     else if mentions s [''lock'', ''door''] then dom ''lock''
     else if mentions s [''thermostat'', ''climate''] then dom ''climate''
     else if mentions s [''cover'', ''garage''] then dom ''cover''
     else if sublist ''switch'' s then dom ''switch''
     else (case sensor_focus fs s of
        Some i \<Rightarrow> (case remdups (hf_domains (the (map_of fs i))) of [d] \<Rightarrow> dom d | _ \<Rightarrow> dom ''sensor'')
      | None \<Rightarrow> if sublist ''sensor'' s then dom ''sensor'' else []))"

definition ENTITY_ID :: rx where
  "ENTITY_ID = rx_whole (Seq (rx_alts (map rx_lit [''light'', ''switch'', ''climate'', ''cover'', ''lock'']))
     (Seq (rx_chr CHR ''.'') (rx_plus (Cls False [(CHR ''a'', CHR ''z''), (CHR ''0'', CHR ''9''), (CHR ''_'', CHR ''_'')]))))"

definition home_control_arguments :: "string \<Rightarrow> json_obj" where
  "home_control_arguments obj =
    (let s = str_lower obj;
         state = (if mentions s [''turn on'', ''switch on'', ''set on''] then ''on''
                  else if mentions s [''turn off'', ''switch off'', ''set off''] then ''off'' else []);
         entity = (case rx_search ENTITY_ID s of
           None \<Rightarrow> [] | Some (i, j) \<Rightarrow> [(''entity_id'', JStr (take (j - i) (drop i s)))])
     in entity @ (if state \<noteq> [] then [(''state'', JStr state)] else []))"

definition TITLE_PREFIX :: rx where
  "TITLE_PREFIX = Seq Bol (Seq (rx_opt (Seq (rx_ci ''user:'') (Star rx_space)))
     (Seq (rx_opt (Seq (rx_ci ''please'') (rx_plus rx_space)))
       (Seq (rx_alts (map rx_ci [''add'', ''put'', ''create'', ''schedule''])) (rx_plus rx_space))))"

definition TITLE_SUFFIX :: rx where
  "TITLE_SUFFIX = Seq (rx_plus rx_space) (Seq (rx_ci ''this weekend'') (Seq (Star rx_dot) Eol))"

definition strip_dots :: "string \<Rightarrow> string" where
  "strip_dots s = (let P = (\<lambda>c. c = CHR '' '' \<or> c = CHR ''.'') in rev (dropWhile P (rev (dropWhile P s))))"

definition title_of_line :: "string \<Rightarrow> string" where
  "title_of_line t = strip_dots (rx_sub TITLE_SUFFIX (\<lambda>_. []) (rx_sub TITLE_PREFIX (\<lambda>_. []) t))"

definition calendar_title :: "string \<Rightarrow> string" where
  "calendar_title obj =
    (case List.find (\<lambda>l. str_strip l \<noteq> [] \<and> title_of_line (str_strip l) \<noteq> []) (splitlines_from [] obj) of
       Some l \<Rightarrow> title_of_line (str_strip l) | None \<Rightarrow> ''Calendar event'')"

text \<open>\<open>\b(?:at\s*)?(\d{1,2})(?::(\d{2}))?\s*(am|pm)?\b\<close>: pieces 2, 3 and 5 are the groups (piece 3 with
  its colon).\<close>

definition CLOCK :: "rx list" where
  "CLOCK = [WordB, rx_opt (Seq (rx_lit ''at'') (Star rx_space)), one_or_two_digits,
     rx_opt (Seq (rx_chr CHR '':'') (rx_times 2 digit)), Star rx_space, rx_opt (rx_alts [rx_lit ''am'', rx_lit ''pm'']), WordB]"

definition clock_of :: "string \<Rightarrow> (int \<times> int) option" where
  "clock_of s =
    (case first_cuts CLOCK s [0..<Suc (length s)] of
       None \<Rightarrow> None
     | Some c \<Rightarrow>
         (let h = digits_int (cut_piece s c 2); m = cut_piece s c 3; mm = (if m = [] then 0 else digits_int (tl m));
              mer = cut_piece s c 5;
              hour = (if mer = ''pm'' \<and> h \<noteq> 12 then h + 12 else if mer = ''am'' \<and> h = 12 then 0 else h)
          in if 23 < hour \<or> 59 < mm then None else Some (hour, mm)))"

text \<open>\<open>None\<close>: a date past year 9999 raises.\<close>

definition calendar_write_arguments :: "choice_env \<Rightarrow> string \<Rightarrow> handoff \<Rightarrow> json_obj option" where
  "calendar_write_arguments E obj h =
    (let s = str_lower obj in
     case jget ''temporal_context'' (gh_reply h) of
       JObj ctx \<Rightarrow>
         (case (jget ''local_date'' ctx, jget ''timezone'' ctx) of
            (JStr dt, JStr zt) \<Rightarrow>
              (case (date_fromisoformat dt, ce_zone E zt) of
                 (Some n, Some z) \<Rightarrow>
                   (if \<not> sublist ''this weekend'' s \<or> \<not> mentions s [''saturday'', ''sunday''] then Some []
                    else (case clock_of s of
                       None \<Rightarrow> Some []
                     | Some (hour, minute) \<Rightarrow>
                         (let day = (if sublist ''saturday'' s then 0 else 1) in
                          case Option.bind (saturday_of n) (\<lambda>sat. plus_days sat day) of
                            None \<Rightarrow> None
                          | Some d \<Rightarrow>
                              (let start = (d - 1) * usec_day + hour * usec_hour + minute * usec_minute;
                                   finish = start + usec_hour;
                                   iso = (\<lambda>w. isoformat \<lparr>wall = w, tz_offset = Some (z w)\<rparr>)
                               in if max_wall \<le> finish then None
                                  else Some [(''title'', JStr (calendar_title obj)), (''start'', JStr (iso start)),
                                    (''end'', JStr (iso finish)), (''member_ids'', JList [JStr ''joe''])]))))
               | _ \<Rightarrow> Some [])
          | _ \<Rightarrow> Some [])
     | _ \<Rightarrow> Some [])"

definition arguments_for_tool :: "choice_env \<Rightarrow> string \<Rightarrow> string \<Rightarrow> handoff \<Rightarrow> json_obj option" where
  "arguments_for_tool E c obj h =
    (if c = ''web.search'' then Some [(''query'', JStr obj), (''max_results'', JInt 3)]
     else if c = ''weather.current'' then Some (ce_weather E obj)
     else if c = ''memory.private'' then Some [(''conversation_id'', JStr (gh_conversation h)), (''limit'', JInt 10)]
     else if c = ''memory.shared'' then Some [(''query'', JStr obj), (''limit'', JInt 5)]
     else if c = ''home-assistant.read'' then Some (home_read_arguments (ce_focuses E) obj)
     else if c = ''home-assistant.control'' then Some (home_control_arguments obj)
     else if c = ''calendar.write'' then calendar_write_arguments E obj h
     else if c = ''opencode.status'' then Some [(''alias'', JStr ''freyja-core-coder'')]
     else Some [])"

subsection \<open>What to remember\<close>

definition EXPLICIT_MEMORY :: "rx list" where
  "EXPLICIT_MEMORY = [Bol, Star rx_space,
     rx_opt (Seq (rx_alts [rx_ci ''system'', rx_ci ''user'']) (Seq (rx_chr CHR '':'') (Star rx_space))),
     rx_opt (Seq (rx_ci ''please'') (rx_plus rx_space)), rx_ci ''remember'',
     rx_opt (rx_alts [Seq (rx_plus rx_space) (rx_ci ''that''), Seq (rx_plus rx_space) (rx_ci ''this'')]),
     rx_plus rx_space, Seq rx_any_char (LazyStar rx_any_char), Star rx_space, Eol]"

definition MEMORY_CANDIDATE :: "rx list" where
  "MEMORY_CANDIDATE = [WordB,
     Seq (rx_alts (map rx_ci [''i'', ''we'', ''joe'', ''beth'', ''liam'', ''jenna'', ''the family'']))
       (Seq (rx_plus rx_space)
         (Seq (rx_alts (map rx_ci [''prefer'', ''prefers'', ''like'', ''likes'', ''need'', ''needs'', ''use'', ''uses'',
                 ''work'', ''works'', ''want'', ''wants'']))
           (Seq WordB (let c = Cls True [(CHR ''.'', CHR ''.''), (CHR ''?'', CHR ''?''), (CHR ''!'', CHR ''!'')]
             in Seq (rx_times 3 c) (rx_upto 217 c)))))]"

definition squeeze :: "nat \<Rightarrow> string \<Rightarrow> string option" where
  "squeeze n s = (let t = str_join '' '' (str_words s) in if t = [] then None else Some (take n t))"

definition explicit_memory_content :: "string \<Rightarrow> string option" where
  "explicit_memory_content obj =
    (case rx_cuts EXPLICIT_MEMORY obj 0 of [] \<Rightarrow> None | c # _ \<Rightarrow> squeeze 2000 (cut_piece obj c 7))"

definition memory_candidate_content :: "string \<Rightarrow> string option" where
  "memory_candidate_content obj =
    (case first_cuts MEMORY_CANDIDATE obj [0..<Suc (length obj)] of
       None \<Rightarrow> None | Some c \<Rightarrow> squeeze 500 (cut_piece obj c 1))"

definition classification_for_text :: "string \<Rightarrow> memory_classification" where
  "classification_for_text t =
    (let s = str_lower t in
     if mentions s [''password'', ''api key'', ''api_key'', ''token'', ''ssn'', ''social security''] then Restricted
     else if mentions s [''medical'', ''health'', ''bank'', ''legal'', ''attorney'', ''case''] then Sensitive
     else Private)"

lemma squeeze_bounded: "squeeze n s = Some t \<Longrightarrow> length t \<le> n \<and> (0 < n \<longrightarrow> t \<noteq> [])"
  by (auto simp: squeeze_def Let_def split: if_splits)

end
