(* ===== verification/Agent_Gateway.thy ===== *)
theory Agent_Gateway
  imports Agent_Models
begin

section \<open>The agent gateway\<close>

text \<open>
  \<open>AgentGateway\<close> of \<open>src/freyja/agent_gateway.py\<close>: who sends, which agent is meant, whether the
  sender's domain may reach the agent's domain, and the handoff with its audit event. The new
  handoff id and the new conversation id are parameters. The three exceptions are the
  constructors of \<open>gateway_error\<close>.
\<close>

record gateway_request =
  gr_sender :: gateway_sender
  gr_target :: string
  gr_prompt :: string
  gr_conversation :: "string option"
  gr_channel :: string
  gr_message :: "string option"
  gr_attachments :: "json_obj list"
  gr_reply :: json_obj
  gr_permissions :: "string set"
  gr_actor :: "string option"
  gr_subject :: "string option"
  gr_document :: "string option"
  gr_tool_policy :: "string option"
  gr_privacy_policy :: "string option"
  gr_parent_visibility :: "string option"
  gr_audit_reason :: "string option"

datatype gateway_error =
    Not_authenticated
  | Not_permitted agent_event
  | Unknown_key string

record gateway =
  gw_agents :: "string \<Rightarrow> persistent_agent option"
  gw_domains :: "security_domain \<Rightarrow> security_domain_info option"

definition gateway_of :: "persistent_agent list \<Rightarrow> security_domain_info list \<Rightarrow> gateway" where
  "gateway_of agents domains = \<lparr>gw_agents = agent_index agents, gw_domains = domain_index domains\<rparr>"

definition seed_gateway :: gateway where
  "seed_gateway = gateway_of PERSISTENT_AGENTS SECURITY_DOMAINS"

definition authenticate_sender :: "gateway_sender \<Rightarrow> gateway_error + gateway_sender" where
  "authenticate_sender s = (if \<not> gs_authenticated s then Inl Not_authenticated else Inr s)"

definition resolve_target_agent :: "gateway \<Rightarrow> string \<Rightarrow> gateway_error + persistent_agent" where
  "resolve_target_agent g name =
    (case gw_agents g (normalize_agent_key name) of
       None \<Rightarrow> Inl (Unknown_key (''unknown target agent: '' @ name))
     | Some a \<Rightarrow> if \<not> pa_active a then Inl (Unknown_key (''unknown target agent: '' @ name)) else Inr a)"

definition resolve_conversation :: "string \<Rightarrow> gateway_request \<Rightarrow> string" where
  "resolve_conversation new_id r = or_else (gr_conversation r) new_id"

definition domain_of :: "gateway \<Rightarrow> security_domain \<Rightarrow> gateway_error + security_domain_info" where
  "domain_of g i = (case gw_domains g i of None \<Rightarrow> Inl (Unknown_key (domain_value i)) | Some d \<Rightarrow> Inr d)"

definition check_domain_permission ::
    "gateway \<Rightarrow> security_domain \<Rightarrow> security_domain \<Rightarrow> gateway_error + bool \<times> string" where
  "check_domain_permission g s t =
    bind_result (domain_of g s) (\<lambda>source.
    bind_result (domain_of g t) (\<lambda>target.
      Inr (if allows_domain source t \<or> sd_parent target = Some s
              \<or> (s = Freyja_household \<and> sd_parent target = Some Household)
           then (True, ''domain access allowed'')
           else (False, domain_value s @ '' cannot access '' @ domain_value t))))"

definition handoff_of :: "string \<Rightarrow> string \<Rightarrow> persistent_agent \<Rightarrow> gateway_request \<Rightarrow> handoff" where
  "handoff_of hid cid a r =
    (let s = gr_sender r in
     \<lparr>gh_id = hid, gh_sender = gs_id s, gh_target = pa_id a, gh_conversation = cid,
      gh_source = gs_domain s, gh_target_domain = pa_domain a, gh_prompt = gr_prompt r,
      gh_channel = gr_channel r, gh_message = gr_message r, gh_attachments = gr_attachments r,
      gh_reply = gr_reply r, gh_permissions = gr_permissions r, gh_tools = pa_grants a,
      gh_scopes = {x. x \<noteq> [] \<and> (Some x = pa_private a \<or> x \<in> pa_shared a)},
      gh_actor = Some (or_else (gr_actor r) (gs_id s)), gh_subject = Some (or_else (gr_subject r) (gs_id s)),
      gh_document = gr_document r, gh_tool_policy = gr_tool_policy r,
      gh_privacy_policy = gr_privacy_policy r, gh_parent_visibility = gr_parent_visibility r,
      gh_audit_reason = gr_audit_reason r, gh_egress = pa_egress a\<rparr>)"

definition created_event :: "handoff \<Rightarrow> agent_event" where
  "created_event h = \<lparr>av_type = Handoff_created, av_actor = gh_sender h, av_domain = gh_source h,
     av_target = Some (gh_target h), av_allowed = True,
     av_reason = ''explicit target agent resolved and domain access allowed'',
     av_metadata = [(''conversation_id'', JStr (gh_conversation h)), (''handoff_id'', JStr (gh_id h)),
       (''channel'', JStr (gh_channel h)), (''message_id'', jopt (gh_message h)),
       (''source_domain'', JStr (domain_value (gh_source h))),
       (''target_domain'', JStr (domain_value (gh_target_domain h))),
       (''actor_principal'', jopt (gh_actor h)), (''authenticated_subject'', jopt (gh_subject h)),
       (''memory_scopes'', JList (map JStr (sorted_list_of_set (gh_scopes h)))),
       (''document_scope'', jopt (gh_document h)), (''tool_policy'', jopt (gh_tool_policy h)),
       (''privacy_policy'', jopt (gh_privacy_policy h)),
       (''parent_visibility'', jopt (gh_parent_visibility h)),
       (''audit_reason'', jopt (gh_audit_reason h))]\<rparr>"

definition denied_event :: "gateway_sender \<Rightarrow> persistent_agent \<Rightarrow> string \<Rightarrow> agent_event" where
  "denied_event s a why = \<lparr>av_type = Handoff_denied, av_actor = gs_id s, av_domain = gs_domain s,
     av_target = Some (pa_id a), av_allowed = False, av_reason = why, av_metadata = []\<rparr>"

definition gateway_handle ::
    "gateway \<Rightarrow> string \<Rightarrow> string \<Rightarrow> gateway_request \<Rightarrow> gateway_error + handoff \<times> agent_event" where
  "gateway_handle g hid new_cid r =
    bind_result (authenticate_sender (gr_sender r)) (\<lambda>s.
    bind_result (resolve_target_agent g (gr_target r)) (\<lambda>a.
    bind_result (check_domain_permission g (gs_domain s) (pa_domain a)) (\<lambda>(allowed, why).
      if \<not> allowed then Inl (Not_permitted (denied_event s a why))
      else (let h = handoff_of hid (resolve_conversation new_cid r) a r in Inr (h, created_event h)))))"

subsection \<open>Who reaches whom\<close>

text \<open>The relation that the gateway enforces: with the seed domains it is the table below.\<close>

definition PEOPLE :: "security_domain set" where
  "PEOPLE = {Person_joe, Person_beth, Person_liam, Person_jenna}"

definition seed_reach :: "security_domain \<Rightarrow> security_domain \<Rightarrow> bool" where
  "seed_reach s t \<longleftrightarrow> s = t
     \<or> (s = Household \<and> t \<in> insert Freyja_household (insert System PEOPLE))
     \<or> (s = Freyja_household \<and> t \<in> insert Household PEOPLE)
     \<or> (s \<in> PEOPLE \<and> t \<in> {Household, System})
     \<or> (s = System \<and> t = Household)
     \<or> (s = Paralegal_enclave \<and> t = Paralegal)"

lemmas seed_domain_defs = SECURITY_DOMAINS_def FREYJA_HOUSEHOLD_DOMAIN_def
  LEGACY_FREYJA_HOUSEHOLD_DOMAIN_def JOE_DOMAIN_def BETH_DOMAIN_def LIAM_DOMAIN_def JENNA_DOMAIN_def
  SYSTEM_DOMAIN_def PARALEGAL_ENCLAVE_DOMAIN_def LEGACY_PARALEGAL_ENCLAVE_DOMAIN_def

lemma seed_permission:
  "\<exists>why. check_domain_permission seed_gateway s t = Inr (seed_reach s t, why)"
  by (cases s; cases t)
    (simp_all add: check_domain_permission_def domain_of_def seed_gateway_def gateway_of_def
      seed_domain_defs allows_domain_def seed_reach_def PEOPLE_def)

lemma gateway_handle_Inr [ok_iff]:
  "gateway_handle g hid cid r = Inr (h, ev) \<longleftrightarrow>
    (\<exists>a why. gs_authenticated (gr_sender r) \<and> gw_agents g (normalize_agent_key (gr_target r)) = Some a
      \<and> pa_active a \<and> check_domain_permission g (gs_domain (gr_sender r)) (pa_domain a) = Inr (True, why)
      \<and> h = handoff_of hid (resolve_conversation cid r) a r \<and> ev = created_event h)"
  by (auto simp: gateway_handle_def authenticate_sender_def resolve_target_agent_def Let_def bind_result_def
      split: sum.splits option.splits if_splits prod.splits)

lemma handoff_of_simps [simp]:
  "gh_target (handoff_of hid cid a r) = pa_id a" "gh_target_domain (handoff_of hid cid a r) = pa_domain a"
  "gh_source (handoff_of hid cid a r) = gs_domain (gr_sender r)" "gh_sender (handoff_of hid cid a r) = gs_id (gr_sender r)"
  "gh_tools (handoff_of hid cid a r) = pa_grants a" "gh_prompt (handoff_of hid cid a r) = gr_prompt r"
  "gh_permissions (handoff_of hid cid a r) = gr_permissions r" "gh_egress (handoff_of hid cid a r) = pa_egress a"
  "gh_attachments (handoff_of hid cid a r) = gr_attachments r" "gh_conversation (handoff_of hid cid a r) = cid"
  "gh_id (handoff_of hid cid a r) = hid" "gh_channel (handoff_of hid cid a r) = gr_channel r"
  "gh_reply (handoff_of hid cid a r) = gr_reply r"
  "gh_scopes (handoff_of hid cid a r) = {x. x \<noteq> [] \<and> (Some x = pa_private a \<or> x \<in> pa_shared a)}"
  by (simp_all add: handoff_of_def Let_def)

lemma seed_agents_domains:
  "a \<in> set PERSISTENT_AGENTS \<Longrightarrow> pa_domain a \<in> insert Household (insert Paralegal PEOPLE)"
  by (auto simp: PERSISTENT_AGENTS_def AGENT_FREYJA_def AGENT_CLOYD_GIBBLER_def AGENT_SMITH_def
      AGENT_BENEDICT_def AGENT_BENEDICT_PARALEGAL_def AGENT_AGENT_47_def AGENT_JENNACIDE_def PEOPLE_def)

text \<open>C6. With the shipped agents and domains the gateway makes a handoff exactly when the sender is
  authenticated, the name resolves to an active agent and the table of domains lets the sender's
  domain reach the agent's. So the paralegal agent is reached only from its own enclave, whose
  senders reach nobody else, and nobody reaches the agent of another person except the household
  itself. The handoff carries the target's tools and memory scopes and nobody else's; what the
  sender claims as permissions passes unchanged.\<close>

theorem gateway_reach:
  "(case gateway_handle seed_gateway hid cid r of
      Inr (h, ev) \<Rightarrow>
        gs_authenticated (gr_sender r)
        \<and> (\<exists>a. agent_index PERSISTENT_AGENTS (normalize_agent_key (gr_target r)) = Some a
             \<and> gh_target h = pa_id a \<and> gh_target_domain h = pa_domain a \<and> gh_tools h = pa_grants a
             \<and> gh_scopes h = {x. x \<noteq> [] \<and> (Some x = pa_private a \<or> x \<in> pa_shared a)})
        \<and> seed_reach (gh_source h) (gh_target_domain h)
        \<and> (gh_target_domain h = Paralegal \<longleftrightarrow> gh_source h \<in> {Paralegal, Paralegal_enclave})
        \<and> (gh_target_domain h \<in> PEOPLE \<longrightarrow> gh_source h \<in> {gh_target_domain h, Household, Freyja_household})
        \<and> gh_permissions h = gr_permissions r \<and> av_allowed ev
    | Inl (Not_permitted ev) \<Rightarrow>
        \<not> av_allowed ev \<and> (\<exists>a. agent_index PERSISTENT_AGENTS (normalize_agent_key (gr_target r)) = Some a
          \<and> \<not> seed_reach (gs_domain (gr_sender r)) (pa_domain a))
    | Inl Not_authenticated \<Rightarrow> \<not> gs_authenticated (gr_sender r)
    | Inl (Unknown_key k) \<Rightarrow>
        (\<forall>a. agent_index PERSISTENT_AGENTS (normalize_agent_key (gr_target r)) = Some a \<longrightarrow> \<not> pa_active a))"
proof -
  let ?s = "gr_sender r"
  let ?look = "agent_index PERSISTENT_AGENTS (normalize_agent_key (gr_target r))"
  have g: "gw_agents seed_gateway = agent_index PERSISTENT_AGENTS" by (simp add: seed_gateway_def gateway_of_def)
  consider "\<not> gs_authenticated ?s" | "gs_authenticated ?s" "?look = None \<or> \<not> pa_active (the ?look)"
    | a where "gs_authenticated ?s" "?look = Some a" "pa_active a" by fastforce
  then show ?thesis
  proof cases
    case (3 a)
    from seed_permission [of "gs_domain ?s" "pa_domain a"] obtain why
      where p: "check_domain_permission seed_gateway (gs_domain ?s) (pa_domain a)
        = Inr (seed_reach (gs_domain ?s) (pa_domain a), why)" by blast
    have a: "pa_domain a \<in> insert Household (insert Paralegal PEOPLE)"
      using agent_index_Some [OF 3(2)] seed_agents_domains by blast
    show ?thesis
    proof (cases "seed_reach (gs_domain ?s) (pa_domain a)")
      case True
      then have "gateway_handle seed_gateway hid cid r
          = Inr (handoff_of hid (resolve_conversation cid r) a r,
                 created_event (handoff_of hid (resolve_conversation cid r) a r))"
        using 3 p g by (auto simp: ok_iff)
      moreover have "pa_domain a = Paralegal \<longleftrightarrow> gs_domain ?s \<in> {Paralegal, Paralegal_enclave}"
        and "pa_domain a \<in> PEOPLE \<longrightarrow> gs_domain ?s \<in> {pa_domain a, Household, Freyja_household}"
        using True a by (auto simp: seed_reach_def PEOPLE_def)
      ultimately show ?thesis using 3 True by (simp add: created_event_def)
    next
      case False
      with 3 p g show ?thesis
        by (simp add: gateway_handle_def authenticate_sender_def resolve_target_agent_def denied_event_def)
    qed
  qed (auto simp: gateway_handle_def authenticate_sender_def resolve_target_agent_def g split: option.splits)
qed

definition sample_gateway_request :: "security_domain \<Rightarrow> string \<Rightarrow> gateway_request" where
  "sample_gateway_request s name = \<lparr>gr_sender = \<lparr>gs_id = ''u1'', gs_name = ''U'', gs_domain = s, gs_authenticated = True\<rparr>,
     gr_target = name, gr_prompt = ''hello'', gr_conversation = Some ''c1'', gr_channel = ''sms'', gr_message = None,
     gr_attachments = [], gr_reply = [], gr_permissions = {}, gr_actor = None, gr_subject = None,
     gr_document = None, gr_tool_policy = None, gr_privacy_policy = None, gr_parent_visibility = None,
     gr_audit_reason = None\<rparr>"

lemmas seed_agent_defs = PERSISTENT_AGENTS_def AGENT_FREYJA_def AGENT_CLOYD_GIBBLER_def AGENT_SMITH_def
  AGENT_BENEDICT_def AGENT_BENEDICT_PARALEGAL_def AGENT_AGENT_47_def AGENT_JENNACIDE_def

lemma sample_handled:
  "gateway_handle seed_gateway ''h'' ''c'' (sample_gateway_request Person_beth ''Benedict'')
    = Inr (handoff_of ''h'' ''c1'' AGENT_BENEDICT (sample_gateway_request Person_beth ''Benedict''),
           created_event (handoff_of ''h'' ''c1'' AGENT_BENEDICT (sample_gateway_request Person_beth ''Benedict'')))"
proof -
  have k: "normalize_agent_key ''Benedict'' = ''benedict''" by code_simp
  have a: "agent_index PERSISTENT_AGENTS ''benedict'' = Some AGENT_BENEDICT" by code_simp
  show ?thesis
    using seed_permission [of Person_beth Person_beth]
    by (auto simp: ok_iff sample_gateway_request_def k a seed_gateway_def gateway_of_def resolve_conversation_def
        AGENT_BENEDICT_def seed_reach_def)
qed

theorem gateway_reach_witness:
  "\<exists>h ev. gateway_handle seed_gateway ''h'' ''c'' (sample_gateway_request Person_beth ''Benedict'') = Inr (h, ev)
     \<and> gh_target_domain h = Person_beth \<and> seed_reach (gh_source h) (gh_target_domain h)"
  using gateway_reach [where hid = "''h''" and cid = "''c''" and r = "sample_gateway_request Person_beth ''Benedict''"]
  unfolding sample_handled by (simp add: AGENT_BENEDICT_def)

end
