(* ===== verification/Ollama_Client.thy ===== *)
theory Ollama_Client
  imports Py_Json
begin

section \<open>The Ollama client\<close>

text \<open>
  \<open>OllamaClient.chat\<close> of \<open>src/freyja/ollama_client.py\<close>, which posts a prompt and posts it once more,
  with a larger budget of tokens, when the first reply is blank because the budget was used up.
  Only the budget differs between the two posts, so a post is a function of the budget and of a
  state; it gives the text of an exception or of an HTTP error, or the JSON value of the reply. A
  reply that is no object, whose message is no object, or whose counts are no numbers makes
  \<open>_sanitize_response\<close> raise (\<open>None\<close>). The latency and the observability record are left out.
\<close>

record token_budgets =
  tb_default :: int
  tb_minimum :: int
  tb_retry :: int

definition output_budget :: "token_budgets \<Rightarrow> int option \<Rightarrow> int" where
  "output_budget B requested = max (case requested of None \<Rightarrow> tb_default B | Some n \<Rightarrow> n) (tb_minimum B)"

definition retry_budget :: "token_budgets \<Rightarrow> int \<Rightarrow> int" where
  "retry_budget B first = max (max (tb_retry B) (first * 2)) (tb_minimum B)"

definition get_or :: "string \<Rightarrow> json \<Rightarrow> json_obj \<Rightarrow> json" where
  "get_or k v d = (case map_of d k of None \<Rightarrow> v | Some x \<Rightarrow> x)"

definition countable_field :: "json \<Rightarrow> bool" where
  "countable_field v \<longleftrightarrow> \<not> json_truthy v \<or> py_int v \<noteq> None"

definition sanitize_response :: "string \<Rightarrow> int \<Rightarrow> json \<Rightarrow> json_obj option" where
  "sanitize_response model budget reply =
    (case reply of
       JObj d \<Rightarrow>
         (case (if json_truthy (jget ''message'' d) then jget ''message'' d else JObj []) of
            JObj m \<Rightarrow>
              if \<not> countable_field (jget ''eval_count'' d) \<or> \<not> countable_field (jget ''eval_duration'' d) then None
              else Some
                ([(''model'', get_or ''model'' (JStr model) d),
                  (''message'', JObj
                    ([(''role'', get_or ''role'' (JStr ''assistant'') m),
                      (''content'', if json_truthy (jget ''content'' m) then jget ''content'' m else JStr [])]
                     @ (if json_truthy (jget ''tool_calls'' m) then [(''tool_calls'', jget ''tool_calls'' m)] else [])))]
                 @ map (\<lambda>k. (k, jget k d)) [''done'', ''done_reason'', ''prompt_eval_count'', ''eval_count'', ''eval_duration'']
                 @ [(''output_tokens_budget'', JInt budget)])
          | _ \<Rightarrow> None)
     | _ \<Rightarrow> None)"

type_synonym 's post = "int \<Rightarrow> 's \<Rightarrow> (string + json) \<times> 's"

definition chat_once :: "string \<Rightarrow> 's post \<Rightarrow> int \<Rightarrow> 's \<Rightarrow> json_obj option \<times> 's" where
  "chat_once model post budget st =
    (case post budget st of
       (Inl e, st') \<Rightarrow> (Some [(''error'', JStr e), (''model'', JStr model)], st')
     | (Inr reply, st') \<Rightarrow> (sanitize_response model budget reply, st'))"

definition has_error :: "json_obj \<Rightarrow> bool" where
  "has_error r \<longleftrightarrow> map_of r ''error'' \<noteq> None"

text \<open>A reply with neither text nor calls of tools.\<close>

definition blank_reply :: "json_obj \<Rightarrow> bool" where
  "blank_reply r \<longleftrightarrow>
    (let m = as_dict (jget ''message'' r)
     in str_strip (str_or_empty (jget ''content'' m)) = [] \<and> \<not> json_truthy (jget ''tool_calls'' m))"

definition finish_chat :: "json_obj \<Rightarrow> json_obj" where
  "finish_chat r =
    (if blank_reply r
     then r @ [(''status'', JStr ''empty_content''), (''error'', JStr ''Ollama returned empty content'')]
     else r @ [(''status'', JStr ''ok'')])"

definition cut_short :: "json_obj \<Rightarrow> bool" where
  "cut_short r \<longleftrightarrow> \<not> has_error r \<and> blank_reply r \<and> jget ''done_reason'' r = JStr ''length''"

definition chat_rounds ::
    "token_budgets \<Rightarrow> string \<Rightarrow> int option \<Rightarrow> bool \<Rightarrow> 's post \<Rightarrow> 's \<Rightarrow> json_obj option \<times> 's" where
  "chat_rounds B model output_tokens retry_on_empty post st =
    (if model = [] then (Some [(''error'', JStr ''No Ollama model configured'')], st)
     else
      (let first = output_budget B output_tokens in
       case chat_once model post first st of
         (None, st1) \<Rightarrow> (None, st1)
       | (Some r, st1) \<Rightarrow>
           if has_error r then (Some r, st1)
           else if \<not> (retry_on_empty \<and> cut_short r) then (Some (finish_chat r), st1)
           else (case chat_once model post (retry_budget B first) st1 of
              (None, st2) \<Rightarrow> (None, st2)
            | (Some r2, st2) \<Rightarrow>
                if has_error r2 then (Some r2, st2)
                else (Some (finish_chat (r2 @ [(''retried'', JBool True)])), st2))))"

subsection \<open>What a call posts and returns\<close>

lemma chat_once_posts: "snd (chat_once model post budget st) = snd (post budget st)"
  by (simp add: chat_once_def split: prod.split sum.split)

lemma sanitized_no_error: "sanitize_response model budget reply = Some r \<Longrightarrow> \<not> has_error r"
  by (auto simp: sanitize_response_def has_error_def Let_def split: json.splits if_splits)

lemma finish_chat_result:
  "has_error (finish_chat r) \<or> \<not> blank_reply (finish_chat r)"
proof (cases "blank_reply r")
  case True
  then show ?thesis by (simp add: finish_chat_def has_error_def map_add_def split: option.split)
next
  case False
  have "jget ''message'' (finish_chat r) = jget ''message'' r"
    using False by (simp add: finish_chat_def jget_def map_add_def split: option.split)
  with False show ?thesis by (simp add: blank_reply_def)
qed

text \<open>A call posts once, and a second time exactly after a first reply that is blank because its
  budget was used up.\<close>

lemma chat_rounds_posts:
  assumes "model \<noteq> []"
  shows "snd (chat_rounds B model tokens again post st) =
    (let first = output_budget B tokens; st1 = snd (post first st)
     in if again \<and> (\<exists>r. fst (chat_once model post first st) = Some r \<and> cut_short r)
        then snd (post (retry_budget B first) st1) else st1)"
proof -
  let ?first = "output_budget B tokens"
  obtain a st1 where a: "chat_once model post ?first st = (a, st1)" by force
  then have st1: "snd (post ?first st) = st1" using chat_once_posts [of model post ?first st] by simp
  obtain b st2 where b: "chat_once model post (retry_budget B ?first) st1 = (b, st2)" by force
  then have st2: "snd (post (retry_budget B ?first) st1) = st2"
    using chat_once_posts [of model post "retry_budget B ?first" st1] by simp
  show ?thesis
    using assms by (auto simp: chat_rounds_def Let_def a b st1 st2 cut_short_def split: option.splits)
qed

text \<open>A call of \<open>OllamaClient.chat\<close> posts once, or twice: the second time exactly when the call
  allows it and the first reply has no error, no text and no tool call and stopped for its length, with
  at least twice the budget of tokens. Whatever it returns either carries an error or has a text or
  a call of a tool, so that a caller that looks for an error never meets a blank reply.\<close>

theorem ollama_chat_retries:
  assumes "model \<noteq> []" and "chat_rounds B model tokens again post st = (out, st')"
  shows "st' = (let first = output_budget B tokens; st1 = snd (post first st)
      in if again \<and> (\<exists>r. fst (chat_once model post first st) = Some r \<and> cut_short r)
         then snd (post (retry_budget B first) st1) else st1)
    \<and> 2 * output_budget B tokens \<le> retry_budget B (output_budget B tokens)
    \<and> (\<forall>r. out = Some r \<longrightarrow> has_error r \<or> \<not> blank_reply r)"
proof (intro conjI allI impI)
  show "st' = (let first = output_budget B tokens; st1 = snd (post first st)
      in if again \<and> (\<exists>r. fst (chat_once model post first st) = Some r \<and> cut_short r)
         then snd (post (retry_budget B first) st1) else st1)"
    using chat_rounds_posts [OF assms(1), of B tokens again post st] assms(2) by simp
  show "2 * output_budget B tokens \<le> retry_budget B (output_budget B tokens)" by (simp add: retry_budget_def)
  fix r assume "out = Some r"
  moreover have "(\<exists>r0. r = finish_chat r0) \<or> has_error r" if "out = Some r"
    using assms that by (auto simp: chat_rounds_def Let_def split: prod.splits option.splits if_splits)
  ultimately show "has_error r \<or> \<not> blank_reply r" using finish_chat_result by blast
qed

definition sample_budgets :: token_budgets where
  "sample_budgets = \<lparr>tb_default = 512, tb_minimum = 160, tb_retry = 1024\<rparr>"

definition length_reply :: "nat post" where
  "length_reply budget n = (Inr (if n = 0 then JObj [(''done_reason'', JStr ''length'')]
     else JObj [(''message'', JObj [(''content'', JStr ''an answer'')])]), n + 1)"

theorem ollama_chat_retries_witness:
  "snd (chat_rounds sample_budgets ''m'' None True length_reply 0) = 2
   \<and> \<not> has_error (the (fst (chat_rounds sample_budgets ''m'' None True length_reply 0)))
   \<and> \<not> blank_reply (the (fst (chat_rounds sample_budgets ''m'' None True length_reply 0)))"
proof -
  obtain out st' where r: "chat_rounds sample_budgets ''m'' None True length_reply 0 = (out, st')" by force
  have "snd (chat_rounds sample_budgets ''m'' None True length_reply 0) = 2"
    "\<not> has_error (the (fst (chat_rounds sample_budgets ''m'' None True length_reply 0)))"
    "fst (chat_rounds sample_budgets ''m'' None True length_reply 0) \<noteq> None"
    by code_simp+
  with ollama_chat_retries [OF _ r] r show ?thesis by auto
qed

end
