(* ===== verification/Agent_Trace.thy ===== *)
theory Agent_Trace
  imports Agent_Runtime
begin

section \<open>What the steps of a run leave behind\<close>

text \<open>
  The trace of a run of the agent runtime: the requests given to the tool registry, the messages sent
  to inference endpoints and the memories written. Each operation of \<open>Agent_Runtime\<close> gets a lemma
  about its trace, and the lemmas compose along \<open>and_then\<close>.
\<close>

subsection \<open>What a run leaves behind\<close>

text \<open>
  \<open>run_trace E d Q S k st st'\<close>: from \<open>st\<close> to \<open>st'\<close> only requests with \<open>Q\<close> were executed, and the
  world is what the registry makes of them in their order; at most \<open>k\<close> messages were sent, all with
  \<open>S\<close>; the memory store only grew, by memories of the domain \<open>d\<close> and by pending candidates of it.
\<close>

definition world_after :: "'w runtime_env \<Rightarrow> exec_request list \<Rightarrow> 'w \<Rightarrow> 'w" where
  "world_after E qs w =
    (case rt_tools E of None \<Rightarrow> w | Some reg \<Rightarrow> fold (\<lambda>q w. snd (execute_tool reg q w)) qs w)"

definition memory_grows :: "security_domain \<Rightarrow> memory_state \<Rightarrow> memory_state \<Rightarrow> bool" where
  "memory_grows d m m' \<longleftrightarrow>
    (\<exists>rs. memories m' = memories m @ rs \<and> list_all (\<lambda>r. owner r = d) rs)
    \<and> (\<exists>cs. candidates m' = candidates m @ cs \<and> list_all (\<lambda>c. cand_owner c = d \<and> cand_status c = Cand_pending) cs)"

definition run_trace ::
    "'w runtime_env \<Rightarrow> security_domain \<Rightarrow> (exec_request \<Rightarrow> bool) \<Rightarrow> (sent \<Rightarrow> bool) \<Rightarrow> nat
     \<Rightarrow> 'w agent_state \<Rightarrow> 'w agent_state \<Rightarrow> bool" where
  "run_trace E d Q S k st st' \<longleftrightarrow>
    (\<exists>qs. ag_executed st' = ag_executed st @ qs \<and> list_all Q qs \<and> ag_world st' = world_after E qs (ag_world st))
    \<and> (\<exists>ss. ag_sent st' = ag_sent st @ ss \<and> list_all S ss \<and> length ss \<le> k)
    \<and> memory_grows d (ag_memory st) (ag_memory st')"

text \<open>The parts of the state that a trace speaks of.\<close>

definition same_outside :: "'w agent_state \<Rightarrow> 'w agent_state \<Rightarrow> bool" where
  "same_outside st st' \<longleftrightarrow> ag_world st' = ag_world st \<and> ag_executed st' = ag_executed st
     \<and> ag_sent st' = ag_sent st \<and> ag_memory st' = ag_memory st"

named_theorems run_simps "the fields that recording a step leaves alone"

lemma add_step_simps [run_simps]:
  "ag_world (add_step k d t e s st) = ag_world st" "ag_executed (add_step k d t e s st) = ag_executed st"
  "ag_sent (add_step k d t e s st) = ag_sent st" "ag_memory (add_step k d t e s st) = ag_memory st"
  "ag_selected (add_step k d t e s st) = ag_selected st" "ag_results (add_step k d t e s st) = ag_results st"
  by (simp_all add: add_step_def)

lemma add_event_simps [run_simps]:
  "ag_world (add_event a t g ok why m st) = ag_world st" "ag_executed (add_event a t g ok why m st) = ag_executed st"
  "ag_sent (add_event a t g ok why m st) = ag_sent st" "ag_memory (add_event a t g ok why m st) = ag_memory st"
  "ag_selected (add_event a t g ok why m st) = ag_selected st" "ag_results (add_event a t g ok why m st) = ag_results st"
  by (simp_all add: add_event_def)

lemma record_selection_simps [run_simps]:
  "ag_world (record_selection a t why d st) = ag_world st" "ag_executed (record_selection a t why d st) = ag_executed st"
  "ag_sent (record_selection a t why d st) = ag_sent st" "ag_memory (record_selection a t why d st) = ag_memory st"
  "ag_selected (record_selection a t why d st) = ag_selected st"
  by (simp_all add: record_selection_def run_simps)

lemma add_selected_simps [run_simps]:
  "ag_world (add_selected ts st) = ag_world st" "ag_executed (add_selected ts st) = ag_executed st"
  "ag_sent (add_selected ts st) = ag_sent st" "ag_memory (add_selected ts st) = ag_memory st"
  by (simp_all add: add_selected_def)

lemma set_add_selected: "set (ag_selected (add_selected ts st)) = set ts \<union> set (ag_selected st)"
proof -
  have "set (fold (\<lambda>t xs. if t \<in> set xs then xs else xs @ [t]) ts xs) = set ts \<union> set xs" for xs
    by (induction ts arbitrary: xs) auto
  then show ?thesis by (simp add: add_selected_def)
qed

lemma fold_same:
  "(\<And>x s. f (g x s) = f s) \<Longrightarrow> f (fold g xs st) = f st"
  by (induction xs arbitrary: st) simp_all

lemma memory_grows_refl [simp]: "memory_grows d m m"
  by (simp add: memory_grows_def)

lemma memory_grows_trans: "memory_grows d m m1 \<Longrightarrow> memory_grows d m1 m2 \<Longrightarrow> memory_grows d m m2"
  unfolding memory_grows_def by fastforce

lemma run_trace_same: "same_outside st st' \<Longrightarrow> run_trace E d Q S k st st'"
  by (simp add: run_trace_def same_outside_def world_after_def split: option.splits)

lemma run_trace_trans:
  assumes "run_trace E d Q S k st st1" and "run_trace E d Q S l st1 st2" and "k + l \<le> n"
  shows "run_trace E d Q S n st st2"
proof -
  from assms obtain qs rs ss ts where
    "ag_executed st1 = ag_executed st @ qs" "list_all Q qs" "ag_world st1 = world_after E qs (ag_world st)"
    "ag_executed st2 = ag_executed st1 @ rs" "list_all Q rs" "ag_world st2 = world_after E rs (ag_world st1)"
    "ag_sent st1 = ag_sent st @ ss" "list_all S ss" "length ss \<le> k"
    "ag_sent st2 = ag_sent st1 @ ts" "list_all S ts" "length ts \<le> l"
    unfolding run_trace_def by blast
  moreover from this have "world_after E (qs @ rs) (ag_world st) = ag_world st2"
    by (simp add: world_after_def split: option.splits)
  moreover have "memory_grows d (ag_memory st) (ag_memory st2)"
    using assms(1,2) memory_grows_trans unfolding run_trace_def by blast
  ultimately show ?thesis
    using assms(3) unfolding run_trace_def by (intro conjI exI [of _ "qs @ rs"] exI [of _ "ss @ ts"]) auto
qed

lemma run_trace_mono:
  assumes "run_trace E d Q S k st st'" and "\<And>q. Q q \<Longrightarrow> Q' q" and "\<And>s. S s \<Longrightarrow> S' s" and "k \<le> l"
  shows "run_trace E d Q' S' l st st'"
  using assms unfolding run_trace_def by (fastforce simp: list_all_iff)

lemma run_trace_start:
  assumes "same_outside st st1" and "run_trace E d Q S k st1 st2"
  shows "run_trace E d Q S k st st2"
  using run_trace_trans [OF run_trace_same [OF assms(1), of E d Q S 0] assms(2)] by simp

lemma run_trace_end:
  assumes "run_trace E d Q S k st st1" and "same_outside st1 st2"
  shows "run_trace E d Q S k st st2"
  using run_trace_trans [OF assms(1) run_trace_same [OF assms(2), of E d Q S 0]] by simp

lemma and_then_simps [simp]:
  "and_then (Inl e, st) f = (Inl e, st)" "and_then (Inr x, st) f = f x st"
  by (simp_all add: and_then_def)

lemma and_then_trace:
  assumes "run_trace E d Q S k st (snd m)"
    and "\<And>x st1. m = (Inr x, st1) \<Longrightarrow> run_trace E d Q S l st1 (snd (f x st1))" and "k + l \<le> n"
  shows "run_trace E d Q S n st (snd (and_then m f))"
proof (cases m)
  case (Pair r st1)
  show ?thesis
  proof (cases r)
    case (Inl e)
    with assms(1,3) Pair show ?thesis by (simp add: run_trace_mono)
  next
    case (Inr x)
    with run_trace_trans [OF _ assms(2) assms(3)] assms(1) Pair show ?thesis by simp
  qed
qed

lemma lift_option_snd [simp]: "snd (lift_option e v st) = st"
  by (simp add: lift_option_def)

lemma lift_option_Inr: "lift_option e v st = (Inr x, st1) \<longleftrightarrow> v = Some x \<and> st1 = st"
  by (auto simp: lift_option_def split: option.splits)

lemma lift_trace:
  assumes "\<And>x. v = Some x \<Longrightarrow> run_trace E d Q S k st (snd (f x st))"
  shows "run_trace E d Q S k st (snd (and_then (lift_option e v st) f))"
  using assms run_trace_same [of st st] by (cases v) (simp_all add: lift_option_def same_outside_def)

subsection \<open>Requests to tools\<close>

text \<open>Every request names the agent, its source domain and the person of that domain.\<close>

definition from_handoff :: "persistent_agent \<Rightarrow> handoff \<Rightarrow> exec_request \<Rightarrow> bool" where
  "from_handoff a h q \<longleftrightarrow> er_actor q = Some (agent_actor a) \<and> er_conversation q = Some (gh_conversation h)
     \<and> jget ''person'' (er_metadata q) = person_metadata (gh_source h)"

text \<open>A request for a capability that the agent was granted, approved when the handoff says so.\<close>

definition granted_request :: "(string \<Rightarrow> bool) \<Rightarrow> persistent_agent \<Rightarrow> handoff \<Rightarrow> exec_request \<Rightarrow> bool" where
  "granted_request R a h q \<longleftrightarrow> from_handoff a h q
     \<and> (\<exists>c \<in> pa_grants a \<inter> gh_tools h. R c \<and> concrete_tool c = Some (er_tool q)
          \<and> (approval_granted q \<longleftrightarrow> permission_granted c (gh_permissions h)))"

text \<open>A request that a model made: never approved.\<close>

definition model_request :: "persistent_agent \<Rightarrow> handoff \<Rightarrow> exec_request \<Rightarrow> bool" where
  "model_request a h q \<longleftrightarrow> from_handoff a h q \<and> \<not> approval_granted q"

lemma agent_request_simps:
  "er_tool (agent_request E a h t args ok st) = t"
  "approval_granted (agent_request E a h t args ok st) = ok"
  "from_handoff a h (agent_request E a h t args ok st)"
  by (simp_all add: agent_request_def approval_granted_def from_handoff_def jget_def)

lemma perform_simps:
  "ag_executed (perform reg a c q st) = ag_executed st @ [q]"
  "ag_world (perform reg a c q st) = snd (execute_tool reg q (ag_world st))"
  "ag_sent (perform reg a c q st) = ag_sent st" "ag_memory (perform reg a c q st) = ag_memory st"
  "ag_selected (perform reg a c q st) = ag_selected st"
  by (simp_all add: perform_def run_simps Let_def split: prod.splits)

lemma perform_capabilities:
  "map tr_capability (ag_results (perform reg a c q st)) = map tr_capability (ag_results st) @ [c]"
  by (simp add: perform_def run_simps Let_def split: prod.splits)

lemma perform_trace:
  assumes "rt_tools E = Some reg" and "Q q"
  shows "run_trace E d Q S k st (perform reg a c q st)"
  unfolding run_trace_def perform_simps
  using assms by (intro conjI exI [of _ "[q]"] exI [of _ "[]"]) (simp_all add: world_after_def)

lemma execute_selected_trace:
  assumes "set cs \<subseteq> pa_grants a \<inter> gh_tools h" and "\<And>c. c \<in> set cs \<Longrightarrow> R c"
  shows "run_trace E d (granted_request R a h) S 0 st (snd (execute_selected_tools E a h cs st))
    \<and> ag_selected (snd (execute_selected_tools E a h cs st)) = ag_selected st"
  using assms
proof (induction cs arbitrary: st)
  case Nil
  then show ?case by (simp add: run_trace_same same_outside_def)
next
  case (Cons c cs)
  note stop = run_trace_same [of st st, unfolded same_outside_def, simplified]
  show ?case
  proof (cases "if rt_execute E then rt_tools E else None")
    case None
    then show ?thesis using stop by simp
  next
    case (Some reg)
    then have reg: "rt_tools E = Some reg" by (simp split: if_splits)
    show ?thesis
    proof (cases "concrete_tool c")
      case None
      then show ?thesis using Some Cons by simp
    next
      case (Some tool)
      show ?thesis
      proof (cases "arguments_for_tool (rt_choice E) c (gh_prompt h) h")
        case None
        then show ?thesis using \<open>(if _ then _ else _) = Some reg\<close> Some stop by simp
      next
        case args: (Some args)
        let ?q = "agent_request E a h tool args (permission_granted c (gh_permissions h)) st"
        have "granted_request R a h ?q"
          using Cons.prems Some by (auto simp: granted_request_def agent_request_simps)
        then have "run_trace E d (granted_request R a h) S 0 st (perform reg a c ?q st)"
          by (rule perform_trace [OF reg])
        with Cons.IH [of "perform reg a c ?q st"] Cons.prems
        show ?thesis
          using \<open>(if _ then _ else _) = Some reg\<close> Some args
          by (auto simp: perform_simps intro: run_trace_trans)
      qed
    qed
  qed
qed

lemma fold_step_same: "same_outside st (fold (\<lambda>c s. add_step k (d c) (t c) None None s) cs st)
    \<and> ag_selected (fold (\<lambda>c s. add_step k (d c) (t c) None None s) cs st) = ag_selected st"
  by (induction cs arbitrary: st) (simp_all add: same_outside_def run_simps)

lemma follow_up_tools:
  assumes "choose_follow_up_tools a h att st = ((nxt, att'), st')"
  shows "same_outside st st' \<and> ag_selected st' = ag_selected st
    \<and> (\<forall>c \<in> set nxt. c \<notin> set MUTATION_CAPABILITIES \<and> (c \<in> pa_grants a \<inter> gh_tools h \<or> c \<in> set (ag_selected st)))"
proof -
  have h: "''system.health'' \<notin> set MUTATION_CAPABILITIES" by (simp add: MUTATION_CAPABILITIES_def)
  define failed where "failed = filter (\<lambda>r. \<not> tr_success r) (ag_results st)"
  define caps where "caps = filter (\<lambda>c. c \<noteq> []) (map tr_capability failed)"
  define st1 where "st1 = add_event a Tool_selected ''tool-failure-observation'' True
     ''agent observed failed tool results before follow-up selection''
     [(''failed_capabilities'', JList (map JStr caps))]
    (add_step ''observation'' (pa_id a @ '' observed failed tool result(s): '' @ str_join '', '' caps) None None (Some False) st)"
  define retry where "retry = filter (\<lambda>c. c \<in> set caps \<and> c \<notin> att \<and> c \<notin> set MUTATION_CAPABILITIES) (ag_selected st)"
  have st1: "same_outside st st1 \<and> ag_selected st1 = ag_selected st"
    by (simp add: st1_def same_outside_def run_simps)
  note def = assms [unfolded choose_follow_up_tools_def Let_def failed_def [symmetric] caps_def [symmetric]
      st1_def [symmetric] retry_def [symmetric]]
  consider "failed = []" | "failed \<noteq> []" "''system.health'' \<notin> set (ag_selected st)" "''system.health'' \<in> pa_grants a \<inter> gh_tools h"
    | "failed \<noteq> []" "\<not> (''system.health'' \<notin> set (ag_selected st) \<and> ''system.health'' \<in> pa_grants a \<inter> gh_tools h)" by blast
  then show ?thesis
  proof cases
    case 1
    with def show ?thesis by (simp add: same_outside_def)
  next
    case 2
    with def h st1 show ?thesis by (auto simp: same_outside_def run_simps)
  next
    case 3
    with def have n: "nxt = retry" and st': "st' = fold (\<lambda>c s. add_step ''retry'' (pa_id a @ '' retrying '' @ c @ '' after observation'')
        (Some c) None None s) retry st1" by auto
    have "same_outside st1 st' \<and> ag_selected st' = ag_selected st1"
      unfolding st' by (rule fold_step_same)
    with st1 n show ?thesis by (auto simp: retry_def same_outside_def)
  qed
qed

lemma agent_loop_trace:
  assumes "set nxt \<subseteq> pa_grants a \<inter> gh_tools h" and "set (ag_selected st) \<subseteq> pa_grants a \<inter> gh_tools h"
    and "\<And>c. c \<in> set nxt \<Longrightarrow> R c" and "\<And>c. c \<notin> set MUTATION_CAPABILITIES \<Longrightarrow> R c"
  shows "run_trace E d (granted_request R a h) S 0 st (snd (run_tool_loop E a h n i nxt att st))"
  using assms
proof (induction n arbitrary: i nxt att st)
  case 0
  then show ?case by (simp add: run_trace_same same_outside_def)
next
  case (Suc n)
  define st0 where "st0 = add_step ''tool_iteration'' (''agent tool loop iteration '' @ show_int (int i)) None None (Some True) st"
  have 0: "same_outside st st0" and sel0: "ag_selected st0 = ag_selected st"
    by (simp_all add: same_outside_def run_simps st0_def)
  have "run_trace E d (granted_request R a h) S 0 st0 (snd (execute_selected_tools E a h nxt st0))
      \<and> ag_selected (snd (execute_selected_tools E a h nxt st0)) = ag_selected st0"
    by (rule execute_selected_trace [OF Suc.prems(1)]) (rule Suc.prems(3))
  then have 1: "run_trace E d (granted_request R a h) S 0 st0 (snd (execute_selected_tools E a h nxt st0))"
    and sel: "ag_selected (snd (execute_selected_tools E a h nxt st0)) = ag_selected st"
    using sel0 by simp_all
  have 2: "run_trace E d (granted_request R a h) S 0 st1
      (snd (if n = 0 then (Inr (), st1)
         else (case choose_follow_up_tools a h att st1 of
           ((nxt', att'), st2) \<Rightarrow> run_tool_loop E a h n (Suc i) nxt' att' (add_selected nxt' st2))))"
    if m: "execute_selected_tools E a h nxt st0 = (Inr u, st1)" for u st1
  proof (cases "n = 0")
    case False
    obtain nxt' att' st2 where c: "choose_follow_up_tools a h att st1 = ((nxt', att'), st2)" by (metis surj_pair)
    have s1: "ag_selected st1 = ag_selected st" using sel m by simp
    note f = follow_up_tools [OF c]
    have sub: "set nxt' \<subseteq> pa_grants a \<inter> gh_tools h" using f s1 Suc.prems(2) by auto
    then have "run_trace E d (granted_request R a h) S 0 (add_selected nxt' st2)
        (snd (run_tool_loop E a h n (Suc i) nxt' att' (add_selected nxt' st2)))"
      using f s1 Suc.prems(2,4) by (intro Suc.IH) (auto simp: set_add_selected)
    moreover have "same_outside st1 (add_selected nxt' st2)"
      using f by (simp add: same_outside_def run_simps)
    ultimately show ?thesis using run_trace_start False c by fastforce
  qed (simp add: run_trace_same same_outside_def)
  show ?case
  proof (cases "nxt = []")
    case False
    have "run_trace E d (granted_request R a h) S 0 st0 (snd (run_tool_loop E a h (Suc n) i nxt att st))"
      using False and_then_trace [where k = 0 and l = 0 and n = 0, OF 1 2] by (simp add: st0_def)
    then show ?thesis by (rule run_trace_start [OF 0])
  qed (simp add: run_trace_same same_outside_def)
qed

subsection \<open>Messages to endpoints\<close>

text \<open>An endpoint the agent may use: in the registry, enabled, not marked unhealthy, in a domain that
  the agent's domain allows, and with one of the capabilities \<open>C\<close>.\<close>

definition usable :: "'w runtime_env \<Rightarrow> persistent_agent \<Rightarrow> string set \<Rightarrow> inference_endpoint \<Rightarrow> bool" where
  "usable E a C e \<longleftrightarrow> (\<exists>d. ir_domains (rt_inference E) (pa_domain a) = Some d \<and> allows_domain d (ie_domain e))
     \<and> e \<in> set (ir_endpoints (rt_inference E)) \<and> ie_enabled e \<and> ie_id e \<notin> rt_unhealthy E
     \<and> C \<inter> ie_capabilities e \<noteq> {}"

definition sent_to :: "'w runtime_env \<Rightarrow> inference_endpoint \<Rightarrow> sent \<Rightarrow> bool" where
  "sent_to E e s \<longleftrightarrow> sn_provider s = ie_provider e \<and> sn_model s = ie_model e
     \<and> sn_url s = rstrip_slashes (if ie_url e \<noteq> [] then ie_url e
          else if ie_provider e = ''ollama'' then rt_ollama_url E else rt_base_url E (ie_provider e))"

definition to_usable :: "'w runtime_env \<Rightarrow> persistent_agent \<Rightarrow> string set \<Rightarrow> sent \<Rightarrow> bool" where
  "to_usable E a C s \<longleftrightarrow> (\<exists>e. usable E a C e \<and> sent_to E e s)"

lemma usable_mono: "usable E a C e \<Longrightarrow> C \<subseteq> D \<Longrightarrow> usable E a D e"
  by (auto simp: usable_def)

lemma to_usable_mono: "to_usable E a C s \<Longrightarrow> C \<subseteq> D \<Longrightarrow> to_usable E a D s"
  unfolding to_usable_def using usable_mono by blast

lemma endpoints_usable:
  assumes "endpoints_for (rt_inference E) c (pa_domain a) = Some es" and "first_healthy (rt_unhealthy E) es = Some e"
  shows "usable E a {c} e"
  using endpoints_for_member [OF assms(1)] find_SomeD [OF assms(2) [unfolded first_healthy_def]]
  by (auto simp: usable_def)

lemma first_healthy_endpoint_usable:
  assumes "first_healthy_endpoint E a c = Some (Some e)"
  shows "usable E a (insert c (set (pa_inference a))) e"
proof -
  let ?reg = "rt_inference E"
  define pick where "pick = (\<lambda>c. first_healthy (rt_unhealthy E) (the (endpoints_for ?reg c (pa_domain a))))"
  from assms have d: "ir_domains ?reg (pa_domain a) \<noteq> None"
    and b: "Option.bind (List.find (\<lambda>c. pick c \<noteq> None) (c # filter (\<lambda>f. f \<noteq> c) (pa_inference a))) pick = Some e"
    by (auto simp: first_healthy_endpoint_def pick_def Let_def split: if_splits)
  from b obtain f where f: "List.find (\<lambda>c. pick c \<noteq> None) (c # filter (\<lambda>f. f \<noteq> c) (pa_inference a)) = Some f" "pick f = Some e"
    by (auto simp: Option.bind_eq_Some_conv)
  from d obtain es where "endpoints_for ?reg f (pa_domain a) = Some es" by (auto simp: endpoints_for_def)
  moreover from this f(2) have "first_healthy (rt_unhealthy E) es = Some e" by (simp add: pick_def)
  ultimately have "usable E a {f} e" by (rule endpoints_usable)
  moreover have "f \<in> insert c (set (pa_inference a))" using find_SomeD [OF f(1)] by auto
  ultimately show ?thesis by (auto intro: usable_mono)
qed

lemma ollama_chat_trace:
  assumes "\<And>s. sn_provider s = ''ollama'' \<Longrightarrow> sn_model s = model
      \<Longrightarrow> sn_url s = rstrip_slashes (if url = [] then rt_ollama_url E else url) \<Longrightarrow> S s"
  shows "run_trace E d Q S 2 st (snd (ollama_chat E url model p imgs req tools st))"
proof -
  let ?post = "ollama_post E url model p imgs req tools"
  let ?sent = "\<lambda>b. \<lparr>sn_provider = ''ollama'', sn_url = rstrip_slashes (if url = [] then rt_ollama_url E else url),
     sn_model = model, sn_prompt = p, sn_images = map (\<lambda>i. the (image_base64 (rt_media E) i)) imgs,
     sn_tools_required = req, sn_tools = tools, sn_tokens = Some b\<rparr>"
  have one: "run_trace E d Q S 1 st (snd (?post b st))" for b st
    unfolding run_trace_def ollama_post_def Let_def
    by (intro conjI exI [of _ "[]"] exI [of _ "[?sent b]"]) (simp_all add: assms world_after_def split: option.splits)
  have "run_trace E d Q S 2 st (snd (?post b st))" for b st by (rule run_trace_mono [OF one]) simp_all
  moreover have "run_trace E d Q S 2 st (snd (?post b (snd (?post c st))))" for b c st
    by (rule run_trace_trans [OF one one]) simp
  moreover have "run_trace E d Q S 2 st st" by (simp add: run_trace_same same_outside_def)
  ultimately have "run_trace E d Q S 2 st (snd (chat_rounds (rt_tokens E) model None True ?post st))" if "model \<noteq> []"
    by (simp add: chat_rounds_posts [OF that] Let_def)
  then show ?thesis
    using \<open>run_trace E d Q S 2 st st\<close> by (auto simp: ollama_chat_def split: prod.splits option.splits)
qed

lemma model_calls_trace:
  assumes "rt_tools E = Some reg"
  shows "run_trace E d (model_request a h) S 0 st (fold (execute_model_tool_call E reg a h) calls st)"
proof (induction calls arbitrary: st)
  case Nil
  then show ?case by (simp add: run_trace_same same_outside_def)
next
  case (Cons c cs)
  have "run_trace E d (model_request a h) S 0 st (execute_model_tool_call E reg a h c st)"
    unfolding execute_model_tool_call_def Let_def
    by (rule run_trace_start [OF _ perform_trace [OF assms]])
      (simp_all add: same_outside_def run_simps model_request_def agent_request_simps)
  with Cons run_trace_trans show ?case by fastforce
qed

lemma text_tool_loop_trace:
  assumes reg: "rt_tools E = Some reg"
    and S: "\<And>s. sn_provider s = ''ollama'' \<Longrightarrow> sn_model s = model
      \<Longrightarrow> sn_url s = rstrip_slashes (if url = [] then rt_ollama_url E else url) \<Longrightarrow> S s"
  shows "run_trace E d (model_request a h) S (2 * Suc n) st (snd (text_tool_loop E reg a h url model tools ms n i st))"
proof (induction n arbitrary: i st)
  case 0
  show ?case
    unfolding text_tool_loop.simps
    by (rule and_then_trace [where k = 2 and l = 0, OF ollama_chat_trace [OF S]])
      (auto simp: run_trace_same same_outside_def)
next
  case (Suc n)
  have "run_trace E d (model_request a h) S 2 st (snd (text_tool_loop E reg a h url model tools ms 0 i st))" for i st
    unfolding text_tool_loop.simps
    by (rule and_then_trace [where k = 2 and l = 0, OF ollama_chat_trace [OF S]])
      (auto simp: run_trace_same same_outside_def)
  then have last: "run_trace E d (model_request a h) S (2 * Suc n) st
      (snd (text_tool_loop E reg a h url model tools ms 0 i st))" for i st
    by (rule run_trace_mono) simp_all
  have next_round: "run_trace E d (model_request a h) S (2 * Suc n) st1 (snd (text_tool_loop E reg a h url model tools ms n (Suc i)
      (fold (execute_model_tool_call E reg a h) calls (add_step k t None None (Some True) st1))))" for st1 calls k t
  proof -
    let ?st2 = "add_step k t None None (Some True) st1"
    have "same_outside st1 ?st2" by (simp add: same_outside_def run_simps)
    from run_trace_start [OF this model_calls_trace [OF reg]]
    have "run_trace E d (model_request a h) S 0 st1 (fold (execute_model_tool_call E reg a h) calls ?st2)" .
    from run_trace_trans [OF this Suc] show ?thesis by simp
  qed
  show ?case
    unfolding text_tool_loop.simps(2)
    by (rule and_then_trace [where k = 2 and l = "2 * Suc n", OF ollama_chat_trace [OF S]])
      (use last next_round in \<open>auto intro: run_trace_mono simp: run_trace_same same_outside_def
        simp del: text_tool_loop.simps\<close>)
qed

text \<open>The capabilities through which a run reaches endpoints without the cloud.\<close>

definition local_capabilities :: "persistent_agent \<Rightarrow> handoff \<Rightarrow> string set" where
  "local_capabilities a h =
     insert (route_capability (choose_semantic_route a h)) (insert ''general.large'' (set (pa_inference a)))"

lemma to_ollama:
  assumes "usable E a C e" and "ie_provider e = ''ollama''"
    and "sn_provider s = ''ollama''" "sn_model s = ie_model e"
      "sn_url s = rstrip_slashes (if ie_url e = [] then rt_ollama_url E else ie_url e)"
  shows "to_usable E a C s"
  using assms unfolding to_usable_def sent_to_def by (intro exI [of _ e]) simp

lemma from_handoff_vision: "from_handoff a (with_vision_context h t) q = from_handoff a h q"
  by (simp add: from_handoff_def with_vision_context_def)

lemma model_request_vision: "model_request a (with_vision_context h t) = model_request a h"
  by (rule ext) (simp add: model_request_def from_handoff_vision)

lemma stop_trace: "run_trace E d Q S k st st"
  by (simp add: run_trace_same same_outside_def)

lemma agent_vision_trace:
  assumes reg: "rt_tools E = Some reg" and e: "usable E a C e" "ie_provider e = ''ollama''"
    and C: "insert ''general.large'' (set (pa_inference a)) \<subseteq> C"
  shows "run_trace E d (model_request a h) (to_usable E a C) (2 * (iterations E + 2)) st
    (snd (vision_inference E reg a h e ms images st))"
proof -
  let ?T = "run_trace E d (model_request a h) (to_usable E a C)"
  have reason: "?T (2 * Suc (iterations E)) st
      (snd (text_tool_loop E reg a (with_vision_context h t) (ie_url f) (ie_model f) tools ms (iterations E) 1 st))"
    if "usable E a C f" "ie_provider f = ''ollama''" for f tools st t
    using text_tool_loop_trace [OF reg, of "ie_model f" "ie_url f" "to_usable E a C" d a "with_vision_context h t"]
      to_ollama [OF that] unfolding model_request_vision by blast
  have target: "usable E a C (reasoning_target e found) \<and> ie_provider (reasoning_target e found) = ''ollama''"
    if "first_healthy_endpoint E a ''general.large'' = Some found" for found
  proof (cases found)
    case (Some f)
    with first_healthy_endpoint_usable that have "usable E a (insert ''general.large'' (set (pa_inference a))) f" by blast
    from usable_mono [OF this C] e Some show ?thesis by (simp add: reasoning_target_def)
  qed (use e in \<open>simp add: reasoning_target_def\<close>)
  have answer: "?T (2 * Suc (iterations E)) st
      (snd (let st3 = add_step k t None (Some x) (Some True) st in
         if is_uncaptioned (gh_prompt h) then (Inr (''ok'', Some r), st3)
         else and_then (lift_option err (first_healthy_endpoint E a ''general.large'') st3)
           (\<lambda>found st4. let f = reasoning_target e found in
             text_tool_loop E reg a (with_vision_context h r) (ie_url f) (ie_model f) tools ms (iterations E) 1 st4)))"
    for k t x r err tools st
  proof -
    define st3 where "st3 = add_step k t None (Some x) (Some True) st"
    have s: "same_outside st st3" by (simp add: st3_def same_outside_def run_simps)
    have "?T (2 * Suc (iterations E)) st3 (snd (and_then (lift_option err (first_healthy_endpoint E a ''general.large'') st3)
           (\<lambda>found st4. let f = reasoning_target e found in
             text_tool_loop E reg a (with_vision_context h r) (ie_url f) (ie_model f) tools ms (iterations E) 1 st4)))"
      by (rule lift_trace) (use target reason in \<open>simp add: Let_def\<close>)
    from run_trace_start [OF s this] run_trace_same [OF s] show ?thesis
      unfolding st3_def [symmetric] Let_def by simp
  qed
  show ?thesis
    unfolding vision_inference_def
  proof (rule lift_trace, rule and_then_trace [where k = 2 and l = "2 * Suc (iterations E)"])
    show "?T 2 st (snd (ollama_chat E (ie_url e) (ie_model e) p images False [] st))" for p
      by (rule ollama_chat_trace, rule to_ollama [OF e])
  next
    fix p r st2
    show "?T (2 * Suc (iterations E)) st2
       (snd (if is_error r \<or> reply_text r = [] then (Inr (''error'', None), st2)
       else
        (let st3 = add_step ''observation'' ''Vulcan vision extracted attachment context'' None (Some (ie_id e)) (Some True) st2 in
         if is_uncaptioned (gh_prompt h) then (Inr (''ok'', Some (reply_text r)), st3)
         else
           and_then (lift_option (Unknown_domain (domain_value (pa_domain a))) (first_healthy_endpoint E a ''general.large'') st3)
             (\<lambda>found st4.
               let f = reasoning_target e found in
               text_tool_loop E reg a (with_vision_context h (reply_text r)) (ie_url f) (ie_model f)
                 (tool_names_for_agent E a h) ms (iterations E) 1 st4))))"
    proof (cases "is_error r \<or> reply_text r = []")
      case False
      then show ?thesis by (simp only: if_False) (rule answer)
    next
      case True
      then show ?thesis by (simp only: if_True snd_conv) (rule stop_trace)
    qed
  qed simp
qed

lemma vulcan_trace:
  assumes reg: "rt_tools E = Some reg" and e: "usable E a C e" "ie_provider e = ''ollama''"
    and C: "insert ''general.large'' (set (pa_inference a)) \<subseteq> C"
  shows "run_trace E d (model_request a h) (to_usable E a C) (2 * (iterations E + 2)) st
    (snd (vulcan_inference E reg a h e ms st))"
  unfolding vulcan_inference_def
proof (rule and_then_trace [where k = 0 and l = "2 * (iterations E + 2)"])
  fix images st0
  have "run_trace E d (model_request a h) (to_usable E a C) (2 * Suc (iterations E)) st0
      (snd (text_tool_loop E reg a h (ie_url e) (ie_model e) (tool_names_for_agent E a h) ms (iterations E) 1 st0))"
    by (rule text_tool_loop_trace [OF reg]) (rule to_ollama [OF e])
  then show "run_trace E d (model_request a h) (to_usable E a C) (2 * (iterations E + 2)) st0
     (snd (if images \<noteq> [] then vision_inference E reg a h e ms images st0
         else text_tool_loop E reg a h (ie_url e) (ie_model e) (tool_names_for_agent E a h) ms (iterations E) 1 st0))"
    using agent_vision_trace [OF assms] by (auto intro: run_trace_mono)
qed (simp_all add: stop_trace)

lemma post_trace:
  assumes "S s"
  shows "run_trace E d Q S 1 st (snd (post_completion E s st))"
  unfolding post_completion_def run_trace_def snd_conv
  by (intro conjI exI [of _ "[]"] exI [of _ "[s]"]) (simp_all add: assms world_after_def split: option.splits)

lemma retry_trace:
  assumes "S s" and "S s'"
  shows "run_trace E d Q S 2 st (snd (completion_with_retry E s s' st))"
proof -
  obtain r st3 where p: "post_completion E s st = (r, st3)" by fastforce
  obtain r' st4 where p': "post_completion E s' st3 = (r', st4)" by fastforce
  have 1: "run_trace E d Q S 1 st st3" using post_trace [where S = S and s = s, OF assms(1), of E d Q st] p by simp
  have 2: "run_trace E d Q S 1 st3 st4" using post_trace [where S = S and s = s', OF assms(2), of E d Q st3] p' by simp
  have "run_trace E d Q S 2 st st3" by (rule run_trace_mono [OF 1]) simp_all
  moreover have "run_trace E d Q S 2 st st4" by (rule run_trace_trans [OF 1 2]) simp
  ultimately show ?thesis by (simp add: completion_with_retry_def p p' split: option.splits)
qed

lemma openai_trace:
  assumes e: "usable E a C e" "ie_provider e \<noteq> ''ollama''"
  shows "run_trace E d Q (to_usable E a C) 2 st (snd (openai_inference E a h e ms st))"
proof -
  let ?T = "run_trace E d Q (to_usable E a C)"
  define url where "url = rstrip_slashes (if ie_url e = [] then rt_base_url E (ie_provider e) else ie_url e)"
  have good: "to_usable E a C s" if "sn_provider s = ie_provider e" "sn_url s = url" "sn_model s = ie_model e" for s
    using e that unfolding to_usable_def sent_to_def url_def by (intro exI [of _ e]) auto
  have post: "?T 2 st2 (snd (if bad then (Inl Image_unreadable, st2)
      else (let s = \<lparr>sn_provider = ie_provider e, sn_url = url, sn_model = ie_model e, sn_prompt = p,
                 sn_images = pics, sn_tools_required = False, sn_tools = [], sn_tokens = Some (tb_default (rt_tokens E))\<rparr>;
               again = s\<lparr>sn_prompt := p', sn_images := []\<rparr> in completion_with_retry E s again st2)))" for bad p p' pics st2
    by (cases bad) (simp_all add: stop_trace good retry_trace Let_def)
  show ?thesis
  proof (cases "url = [] \<or> ie_model e = []")
    case True
    then show ?thesis by (simp add: openai_inference_def url_def [symmetric] stop_trace)
  next
    case False
    show ?thesis
      unfolding openai_inference_def url_def [symmetric] Let_def [of url] if_not_P [OF False]
      by (rule lift_trace, rule lift_trace, rule post)
  qed
qed

lemma plain_trace:
  assumes e: "usable E a C e" "ie_provider e = ''ollama''"
  shows "run_trace E d Q (to_usable E a C) 2 st (snd (plain_ollama_inference E a h e ms st))"
  unfolding plain_ollama_inference_def
proof (rule lift_trace, rule and_then_trace [where k = 0 and l = 2])
  fix p images st2
  show "run_trace E d Q (to_usable E a C) 2 st2 (snd (and_then (ollama_chat E (ie_url e) (ie_model e) p images False [] st2)
     (\<lambda>r st3. (Inr (if is_error r then (''error'', None) else (''ok'', text_or_none (reply_text r))), st3))))"
    by (rule and_then_trace [where k = 2 and l = 0, OF ollama_chat_trace [OF to_ollama [OF e]]]) (simp_all add: stop_trace)
qed (simp_all add: stop_trace)

lemma run_selected_trace:
  assumes e: "usable E a C e" and C: "insert ''general.large'' (set (pa_inference a)) \<subseteq> C"
  shows "run_trace E d (model_request a h) (to_usable E a C) (2 * (iterations E + 2)) st
    (snd (run_selected_inference E a h e ms st))"
proof -
  let ?T = "run_trace E d (model_request a h) (to_usable E a C) (2 * (iterations E + 2)) st"
  consider "\<not> rt_run_inference E"
    | "ie_provider e \<in> {''openai-compatible'', ''litellm'', ''nexus'', ''openrouter''}" "rt_run_inference E"
    | "ie_provider e \<notin> {''openai-compatible'', ''litellm'', ''nexus'', ''openrouter''}" "ie_provider e \<noteq> ''ollama''" "rt_run_inference E"
    | "ie_provider e = ''ollama''" "rt_run_inference E"
    by blast
  then show ?thesis
  proof cases
    case 2
    then have "ie_provider e \<noteq> ''ollama''" by auto
    from openai_trace [OF e this, of d "model_request a h" st h ms]
    have "?T (snd (openai_inference E a h e ms st))" by (rule run_trace_mono) simp_all
    with 2 show ?thesis by (simp only: run_selected_inference_def) simp
  next
    case 4
    have "?T (snd (plain_ollama_inference E a h e ms st))"
      using plain_trace [OF e 4(1), of d "model_request a h" st h ms] by (rule run_trace_mono) simp_all
    with 4 vulcan_trace [OF _ e 4(1) C, of _ d h st ms] show ?thesis
      by (simp add: run_selected_inference_def split: option.splits)
  qed (simp_all add: run_selected_inference_def stop_trace)
qed

end
