(* ===== verification/Agent_Runs.thy ===== *)
theory Agent_Runs
  imports Agent_Trace
begin

section \<open>Runs of an agent\<close>

text \<open>
  The trace of \<open>AgentRuntimeV3.arun\<close> as a whole, and what it shows of the agent's authority, of the
  endpoints that its messages reach and of its memory.
\<close>

subsection \<open>The whole run\<close>

definition chosen_tools :: "'w runtime_env \<Rightarrow> persistent_agent \<Rightarrow> handoff \<Rightarrow> string list option" where
  "chosen_tools E a h = prioritize_attachment_tools (rt_choice E) a h
     (choose_tools (ce_focuses (rt_choice E)) (pa_grants a) (gh_prompt h) (gh_tools h))"

text \<open>The run has a question open.\<close>

definition asked :: "'w runtime_env \<Rightarrow> persistent_agent \<Rightarrow> handoff \<Rightarrow> bool" where
  "asked E a h \<longleftrightarrow> (case Option.bind (chosen_tools E a h) (follow_up_questions h) of Some qs \<Rightarrow> qs \<noteq> [] | None \<Rightarrow> False)"

definition cloud_open :: "'w runtime_env \<Rightarrow> persistent_agent \<Rightarrow> handoff \<Rightarrow> bool" where
  "cloud_open E a h \<longleftrightarrow> rt_cloud E \<and> eg_allowed (evaluate_egress a (gh_prompt h) ''cloud-frontier'' None False)"

definition run_capabilities :: "'w runtime_env \<Rightarrow> persistent_agent \<Rightarrow> handoff \<Rightarrow> string set" where
  "run_capabilities E a h = local_capabilities a h \<union> (if cloud_open E a h then {''general.cloud''} else {})"

definition agent_run_request :: "'w runtime_env \<Rightarrow> persistent_agent \<Rightarrow> handoff \<Rightarrow> exec_request \<Rightarrow> bool" where
  "agent_run_request E a h q \<longleftrightarrow> granted_request (\<lambda>c. c \<notin> set MUTATION_CAPABILITIES \<or> \<not> asked E a h) a h q
     \<or> (\<not> asked E a h \<and> model_request a h q)"

definition run_sent :: "'w runtime_env \<Rightarrow> persistent_agent \<Rightarrow> handoff \<Rightarrow> sent \<Rightarrow> bool" where
  "run_sent E a h s \<longleftrightarrow> \<not> asked E a h \<and> to_usable E a (run_capabilities E a h) s"

lemma choose_endpoint_cases:
  assumes "choose_endpoint E a h qs c st = (Inr (found, c'), st1)"
  shows "same_outside st st1 \<and> (\<forall>e. found = Some e \<longrightarrow>
    usable E a (insert c (set (pa_inference a))) e \<or> (cloud_open E a h \<and> usable E a {''general.cloud''} e))"
proof -
  from assms obtain f where f: "first_healthy_endpoint E a c = Some f"
    by (auto simp: choose_endpoint_def and_then_def lift_option_def split: option.splits prod.splits sum.splits)
  show ?thesis
  proof (cases f)
    case (Some e)
    with assms f first_healthy_endpoint_usable [of E a c e] show ?thesis
      by (auto simp: choose_endpoint_def lift_option_def same_outside_def)
  next
    case None
    then show ?thesis
      using assms f
      by (auto simp: choose_endpoint_def lift_option_def same_outside_def policy_gated_cloud_fallback_def Let_def
          run_simps cloud_open_def split: if_splits option.splits dest: endpoints_usable)
  qed
qed

lemma choose_endpoint_trace: "run_trace E d Q S 0 st (snd (choose_endpoint E a h qs c st))"
  unfolding choose_endpoint_def
  by (rule lift_trace) (auto simp: policy_gated_cloud_fallback_def Let_def run_trace_same same_outside_def run_simps
      split: option.splits)

lemma put_memory_grows:
  "put_memory now i w d m = (r, m') \<Longrightarrow> mw_owner w = d \<Longrightarrow> memory_grows d m m'"
  by (auto simp: put_memory_def memory_grows_def record_of_def Let_def split: option.splits if_splits)

lemma propose_grows:
  "propose_candidate now i w d m = (r, m') \<Longrightarrow> mw_owner w = d \<Longrightarrow> memory_grows d m m'"
  by (auto simp: propose_candidate_def memory_grows_def Let_def split: option.splits if_splits)

lemma memory_update_trace:
  "memory_grows d (ag_memory st) m \<Longrightarrow> run_trace E d Q S k st (st\<lparr>ag_memory := m\<rparr>)"
  by (simp add: run_trace_def world_after_def split: option.splits)

lemma propose_trace: "run_trace E (pa_domain a) Q S k st (snd (propose_memory_candidates E a h st))"
proof (cases "memory_candidate_content (gh_prompt h)")
  case (Some t)
  obtain r m where p: "propose_candidate (rt_now E st) (rt_new_id E st)
      (agent_write a h t ''agent-runtime-v3-memory-candidate'' CANDIDATE_CONFIDENCE (classification_for_text t))
      (pa_domain a) (ag_memory st) = (r, m)" by fastforce
  have "memory_grows (pa_domain a) (ag_memory st) m" by (rule propose_grows [OF p]) (simp add: agent_write_def)
  from memory_update_trace [OF this] have upd: "run_trace E (pa_domain a) Q S k st (st\<lparr>ag_memory := m\<rparr>)" .
  have "run_trace E (pa_domain a) Q S k st st2" if "same_outside (st\<lparr>ag_memory := m\<rparr>) st2" for st2
    by (rule run_trace_end [OF upd that])
  then show ?thesis
    using upd Some p by (auto simp: propose_memory_candidates_def stop_trace same_outside_def run_simps split: sum.splits)
qed (simp add: propose_memory_candidates_def stop_trace)

lemma write_memory_trace:
  assumes "mw_owner w = pa_domain a"
  shows "run_trace E (pa_domain a) Q S k st (snd (write_memory E a w x y st))"
proof -
  obtain r m where p: "put_memory (rt_now E st) (rt_new_id E st) w (pa_domain a) (ag_memory st) = (r, m)" by fastforce
  from memory_update_trace [OF put_memory_grows [OF p assms]]
  have upd: "run_trace E (pa_domain a) Q S k st (st\<lparr>ag_memory := m\<rparr>)" .
  have "run_trace E (pa_domain a) Q S k st st2" if "same_outside (st\<lparr>ag_memory := m\<rparr>) st2" for st2
    by (rule run_trace_end [OF upd that])
  then show ?thesis
    using upd p by (auto simp: write_memory_def same_outside_def run_simps split: sum.splits)
qed

lemma agent_write_owner: "mw_owner (agent_write a h t p c cl) = pa_domain a"
  by (simp add: agent_write_def)

lemma write_agent_memories_trace: "run_trace E (pa_domain a) Q S 0 st (snd (write_agent_memories E a h st))"
proof (cases "rt_memory E")
  case True
  have w: "run_trace E (pa_domain a) Q S 0 st (snd (and_then (write_memory E a (agent_write a h t p c cl) x y st) (\<lambda>r st2. (Inr (g r), st2))))"
    for t p c cl x y st and g :: "memory_record \<Rightarrow> 'b"
    by (rule and_then_trace [where k = 0 and l = 0, OF write_memory_trace]) (simp_all add: agent_write_owner stop_trace)
  show ?thesis
    unfolding write_agent_memories_def using True
    by (simp only: not_True_eq_False if_False, intro and_then_trace [where k = 0 and l = 0])
      (auto simp: stop_trace w write_memory_trace agent_write_owner split: option.splits)
qed (simp add: write_agent_memories_def stop_trace)

lemma finish_agent_run_trace: "run_trace E (pa_domain a) Q S 0 st (snd (finish_agent_run E a h qs ms t e s b st))"
  unfolding finish_agent_run_def
  by (rule and_then_trace [where k = 0 and l = 0, OF propose_trace],
      rule and_then_trace [where k = 0 and l = 0, OF write_agent_memories_trace], rule lift_trace)
    (simp_all add: stop_trace)

lemma finish_deterministic_trace: "run_trace E (pa_domain a) Q S 0 st (snd (finish_deterministic E a h ms t st))"
  unfolding finish_deterministic_def
  by (rule and_then_trace [where k = 0 and l = 0, OF propose_trace],
      rule and_then_trace [where k = 0 and l = 0, OF write_agent_memories_trace])
    (simp_all add: stop_trace)

lemma infer_with_trace:
  assumes "usable E a C e" and "insert ''general.large'' (set (pa_inference a)) \<subseteq> C"
  shows "run_trace E d (model_request a h) (to_usable E a C) (2 * (iterations E + 2)) st (snd (infer_with E a h ms e c st))"
  unfolding infer_with_def
proof (rule and_then_trace [where k = "2 * (iterations E + 2)" and l = 0])
  show "run_trace E d (model_request a h) (to_usable E a C) (2 * (iterations E + 2)) st
     (snd (run_selected_inference E a h e ms (add_event a t g ok why m (add_step k x y z w st))))" for t g ok why m k x y z w
    by (rule run_trace_start [OF _ run_selected_trace [OF assms]]) (simp add: same_outside_def run_simps)
qed (auto simp: run_trace_same same_outside_def run_simps)

lemma infer_and_finish_trace:
  assumes "qs = [] \<longleftrightarrow> \<not> asked E a h"
  shows "run_trace E (pa_domain a) (agent_run_request E a h) (run_sent E a h) (2 * (iterations E + 2)) st
    (snd (infer_and_finish E a h qs ms st))"
  unfolding infer_and_finish_def
proof (rule and_then_trace [where k = 0 and l = "2 * (iterations E + 2)", OF choose_endpoint_trace])
  let ?T = "run_trace E (pa_domain a) (agent_run_request E a h) (run_sent E a h) (2 * (iterations E + 2))"
  let ?c = "route_capability (choose_semantic_route a h)"
  fix x st1
  assume "choose_endpoint E a h qs ?c st = (Inr x, st1)"
  then obtain found c where x: "x = (found, c)" and ch: "choose_endpoint E a h qs ?c st = (Inr (found, c), st1)" by (cases x) simp
  have fin: "?T st2 (snd (finish_agent_run E a h qs ms t e s b st2))" for st2 t e s b
    using finish_agent_run_trace by (rule run_trace_mono) simp_all
  show "?T st1 (snd ((\<lambda>(found, c) st1.
       if qs \<noteq> [] then finish_agent_run E a h qs ms None None None False st1
       else (case found of
          Some e \<Rightarrow>
            and_then (infer_with E a h ms e c st1) (\<lambda>(status, text) st2.
              finish_agent_run E a h qs ms text (Some e) (Some status) False st2)
        | None \<Rightarrow>
            finish_agent_run E a h qs ms None None None True
              (add_step ''inference_unavailable'' (''no healthy endpoint for '' @ c @ '' via '' @ inference_role_alias c)
                None None (Some False) st1))) x st1))"
  proof (cases "qs \<noteq> [] \<or> found = None")
    case True
    have "same_outside st1 (add_step k t None None (Some False) st1)" for k t by (simp add: same_outside_def run_simps)
    from run_trace_start [OF this fin] fin True show ?thesis by (auto simp: x)
  next
    case False
    then obtain e where e: "found = Some e" "qs = []" by auto
    have "usable E a (insert ?c (set (pa_inference a))) e \<or> (cloud_open E a h \<and> usable E a {''general.cloud''} e)"
      using choose_endpoint_cases [OF ch] e by blast
    then have "usable E a (run_capabilities E a h) e"
      by (auto simp: run_capabilities_def local_capabilities_def elim!: usable_mono)
    moreover have "insert ''general.large'' (set (pa_inference a)) \<subseteq> run_capabilities E a h"
      by (auto simp: run_capabilities_def local_capabilities_def)
    ultimately have "?T st1 (snd (infer_with E a h ms e c st1))"
      using assms e by (intro run_trace_mono [OF infer_with_trace]) (auto simp: agent_run_request_def run_sent_def)
    then have "?T st1 (snd (and_then (infer_with E a h ms e c st1) (\<lambda>(status, text) st2.
              finish_agent_run E a h qs ms text (Some e) (Some status) False st2)))"
      by (rule and_then_trace [where l = 0]) (auto simp: finish_agent_run_trace split: prod.splits)
    with e show ?thesis by (simp add: x)
  qed
qed simp

lemma recall_same: "recall_memories E a st = (ms, st1) \<Longrightarrow>
    same_outside st st1 \<and> ag_selected st1 = ag_selected st \<and> ag_results st1 = ag_results st"
  by (auto simp: recall_memories_def Let_def same_outside_def run_simps split: if_splits)

lemma record_questions_same: "same_outside st (record_questions a qs st)
    \<and> ag_selected (record_questions a qs st) = ag_selected st"
  unfolding record_questions_def same_outside_def
  by (intro conjI; rule fold_same) (simp_all add: run_simps)

lemma record_selections_same: "same_outside st (fold (\<lambda>t s. record_selection a t why None s) ts st)
    \<and> ag_selected (fold (\<lambda>t s. record_selection a t why None s) ts st) = ag_selected st"
  unfolding same_outside_def by (intro conjI; rule fold_same) (simp_all add: run_simps)

lemma same_outside_trans: "same_outside a b \<Longrightarrow> same_outside b c \<Longrightarrow> same_outside a c"
  by (simp add: same_outside_def)

lemma prepare_run_same: "same_outside st (snd (prepare_run E a h st))"
  and prepare_run_Inr: "prepare_run E a h st = (Inr (ms, ts, qs), st1) \<Longrightarrow>
    chosen_tools E a h = Some ts \<and> follow_up_questions h ts = Some qs \<and> ag_selected st1 = ts"
proof -
  let ?start = "\<lambda>ts. add_event a Run_started (gh_conversation h) True ''agent received gateway handoff'' []
      (add_step ''objective_received'' (gh_prompt h) None None None (st\<lparr>ag_selected := ts, ag_results := [], ag_steps := [], ag_audit := []\<rparr>))"
  let ?finish = "\<lambda>ts qs st. fold (\<lambda>t s. record_selection a t ''agent selected permitted tool'' None s) ts
      (record_plan a ts qs (record_questions a qs st))"
  have fin: "same_outside st2 (?finish ts qs st2) \<and> ag_selected (?finish ts qs st2) = ag_selected st2" for ts qs st2
  proof -
    let ?p = "record_plan a ts qs (record_questions a qs st2)"
    have p: "same_outside st2 ?p" "ag_selected ?p = ag_selected st2"
      using record_questions_same [of st2 a qs] by (simp_all add: same_outside_def record_plan_def run_simps)
    note f = record_selections_same [of ?p a "''agent selected permitted tool''" ts]
    from same_outside_trans [OF p(1) conjunct1 [OF f]] conjunct2 [OF f, unfolded p(2)] show ?thesis
      by (rule conjI)
  qed
  have all: "same_outside st (snd (prepare_run E a h st)) \<and> (\<forall>ms ts qs st1. prepare_run E a h st = (Inr (ms, ts, qs), st1) \<longrightarrow>
    chosen_tools E a h = Some ts \<and> follow_up_questions h ts = Some qs \<and> ag_selected st1 = ts)"
  proof (cases "chosen_tools E a h")
    case None
    then show ?thesis by (simp add: prepare_run_def chosen_tools_def [symmetric] lift_option_def same_outside_def)
  next
    case (Some ts)
    obtain ms st2 where r: "recall_memories E a (?start ts) = (ms, st2)" by fastforce
    have s2: "same_outside st st2" "ag_selected st2 = ts"
      using recall_same [OF r] by (simp_all add: same_outside_def run_simps)
    have p: "prepare_run E a h st = and_then (lift_option Date_overflow (follow_up_questions h ts) st2)
        (\<lambda>qs st3. (Inr (ms, ts, qs), ?finish ts qs st3))"
      using Some r by (simp add: prepare_run_def chosen_tools_def [symmetric] lift_option_def)
    show ?thesis
    proof (cases "follow_up_questions h ts")
      case None
      then show ?thesis using p s2 by (simp add: lift_option_def)
    next
      case (Some qs)
      then have "prepare_run E a h st = (Inr (ms, ts, qs), ?finish ts qs st2)" using p by (simp add: lift_option_def)
      then show ?thesis using fin [of st2 ts qs] s2 \<open>chosen_tools E a h = Some ts\<close> Some same_outside_trans by auto
    qed
  qed
  show "same_outside st (snd (prepare_run E a h st))" using all by blast
  show "prepare_run E a h st = (Inr (ms, ts, qs), st1) \<Longrightarrow>
    chosen_tools E a h = Some ts \<and> follow_up_questions h ts = Some qs \<and> ag_selected st1 = ts" using all by blast
qed

lemma chosen_allowed: "chosen_tools E a h = Some ts \<Longrightarrow> set ts \<subseteq> pa_grants a \<inter> gh_tools h"
  unfolding chosen_tools_def using choose_tools_allowed prioritize_allowed by blast

theorem arun_trace:
  assumes "rt_agents E (gh_target h) = Some a"
  shows "run_trace E (pa_domain a) (agent_run_request E a h) (run_sent E a h) (2 * (iterations E + 2)) st (snd (arun E h st))"
proof -
  let ?T = "run_trace E (pa_domain a) (agent_run_request E a h) (run_sent E a h)"
  have body: "?T (2 * (iterations E + 2)) st1
      (snd (and_then (run_tool_loop E a h (iterations E) 1 (executable_tools qs ts) {} st1) (\<lambda>_ st2.
         and_then (lift_option Count_not_integer (answer_without_model E h qs (ag_results st2)) st2) (\<lambda>answer st3.
           case answer of
             Some t \<Rightarrow> finish_deterministic E a h ms t st3
           | None \<Rightarrow> infer_and_finish E a h qs ms st3))))"
    if p: "prepare_run E a h st = (Inr (ms, ts, qs), st1)" for ms ts qs st1
  proof -
    note f = prepare_run_Inr [OF p]
    have asked: "qs = [] \<longleftrightarrow> \<not> asked E a h" using f by (simp add: asked_def)
    have sub: "set ts \<subseteq> pa_grants a \<inter> gh_tools h" using f chosen_allowed by blast
    let ?R = "\<lambda>c. c \<notin> set MUTATION_CAPABILITIES \<or> \<not> asked E a h"
    have "run_trace E (pa_domain a) (granted_request ?R a h) (run_sent E a h) 0 st1
        (snd (run_tool_loop E a h (iterations E) 1 (executable_tools qs ts) {} st1))"
      by (rule agent_loop_trace) (use sub f asked in \<open>auto simp: executable_tools_def\<close>)
    then have loop: "?T 0 st1 (snd (run_tool_loop E a h (iterations E) 1 (executable_tools qs ts) {} st1))"
      by (rule run_trace_mono) (simp_all add: agent_run_request_def)
    have rest: "?T (2 * (iterations E + 2)) st3
        (snd (case answer of Some t \<Rightarrow> finish_deterministic E a h ms t st3 | None \<Rightarrow> infer_and_finish E a h qs ms st3))"
      for answer st3
      using infer_and_finish_trace [OF asked] run_trace_mono [OF finish_deterministic_trace] by (cases answer) auto
    show ?thesis
      by (rule and_then_trace [OF loop, where l = "2 * (iterations E + 2)"], rule lift_trace) (rule rest, simp)
  qed
  have "?T (2 * (iterations E + 2)) st (snd (and_then (prepare_run E a h st) (\<lambda>(ms, ts, qs) st1.
         and_then (run_tool_loop E a h (iterations E) 1 (executable_tools qs ts) {} st1) (\<lambda>_ st2.
         and_then (lift_option Count_not_integer (answer_without_model E h qs (ag_results st2)) st2) (\<lambda>answer st3.
           case answer of
             Some t \<Rightarrow> finish_deterministic E a h ms t st3
           | None \<Rightarrow> infer_and_finish E a h qs ms st3)))))"
    by (rule and_then_trace [where k = 0 and l = "2 * (iterations E + 2)", OF run_trace_same [OF prepare_run_same]])
      (use body in \<open>auto split: prod.splits\<close>)
  then show ?thesis using assms by (simp add: arun_def)
qed

subsection \<open>Authority, endpoints and memory of a run\<close>

text \<open>C4. A run of \<open>AgentRuntimeV3.arun\<close>, whatever its outcome, changes the world of the tools only
  through requests to the tool registry, in their order, and each of them names the agent, the
  conversation and the person of the handoff's source domain. A request that carries an approval is for the
  concrete tool of a capability that the agent was granted and the handoff offered, and the handoff's
  permissions contain the approval of that capability. While a follow-up question is open, every
  request is for such a granted capability, and none is for a mutation capability, so that the
  model made none of them. Requests that the registry does not allow leave the world as it is.\<close>

theorem agent_run_authority:
  assumes "rt_agents E (gh_target h) = Some a" and "arun E h st = (r, st')"
  shows "\<exists>qs. ag_executed st' = ag_executed st @ qs
    \<and> ag_world st' = (case rt_tools E of None \<Rightarrow> ag_world st
        | Some reg \<Rightarrow> fold (\<lambda>q w. snd (execute_tool reg q w)) (filter (tool_allowed reg) qs) (ag_world st))
    \<and> (\<forall>q \<in> set qs. from_handoff a h q
        \<and> (approval_granted q \<longrightarrow> (\<exists>c \<in> pa_grants a \<inter> gh_tools h.
              concrete_tool c = Some (er_tool q) \<and> permission_granted c (gh_permissions h)))
        \<and> (asked E a h \<longrightarrow> (\<exists>c \<in> pa_grants a \<inter> gh_tools h.
              concrete_tool c = Some (er_tool q) \<and> c \<notin> set MUTATION_CAPABILITIES)))"
proof -
  from arun_trace [OF assms(1), of st] assms(2) obtain qs
    where qs: "ag_executed st' = ag_executed st @ qs" "list_all (agent_run_request E a h) qs"
      "ag_world st' = world_after E qs (ag_world st)"
    by (auto simp: run_trace_def)
  have q: "from_handoff a h q
        \<and> (approval_granted q \<longrightarrow> (\<exists>c \<in> pa_grants a \<inter> gh_tools h.
              concrete_tool c = Some (er_tool q) \<and> permission_granted c (gh_permissions h)))
        \<and> (asked E a h \<longrightarrow> (\<exists>c \<in> pa_grants a \<inter> gh_tools h.
              concrete_tool c = Some (er_tool q) \<and> c \<notin> set MUTATION_CAPABILITIES))" if "q \<in> set qs" for q
  proof -
    from qs(2) that have "agent_run_request E a h q" by (simp add: list_all_iff)
    then show ?thesis unfolding agent_run_request_def granted_request_def model_request_def by blast
  qed
  have "ag_world st' = (case rt_tools E of None \<Rightarrow> ag_world st
        | Some reg \<Rightarrow> fold (\<lambda>q w. snd (execute_tool reg q w)) (filter (tool_allowed reg) qs) (ag_world st))"
    using qs(3) tools.only_allowed by (simp add: world_after_def split: option.splits)
  with qs(1) q show ?thesis by blast
qed

lemma seed_inference: "a \<in> set PERSISTENT_AGENTS \<Longrightarrow> ''general.cloud'' \<notin> set (pa_inference a)
    \<and> ''premium'' \<notin> set (pa_inference a) \<and> ''vision.cloud'' \<notin> set (pa_inference a)"
  by (auto simp: seed_agent_defs)

lemma route_not_cloud: "route_capability r \<notin> {''premium'', ''vision.cloud'', ''general.cloud''}"
  by (cases r) (simp_all add: route_capability_def)

lemma seed_endpoints_system: "list_all (\<lambda>e. ie_domain e = System \<longrightarrow>
    ie_capabilities e = {''premium'', ''vision.cloud'', ''general.cloud''}) INFERENCE_ENDPOINTS"
  by code_simp

lemma seed_system_endpoint: "e \<in> set INFERENCE_ENDPOINTS \<Longrightarrow> ie_domain e = System \<Longrightarrow>
    ie_capabilities e = {''premium'', ''vision.cloud'', ''general.cloud''}"
  using seed_endpoints_system unfolding list_all_iff by blast

lemma seed_cloud:
  assumes "usable E a (run_capabilities E a h) e" and "a \<in> set PERSISTENT_AGENTS"
    and "ir_endpoints (rt_inference E) = INFERENCE_ENDPOINTS" and "ie_domain e = System"
  shows "cloud_open E a h"
proof (rule ccontr)
  assume "\<not> cloud_open E a h"
  then have "local_capabilities a h \<inter> ie_capabilities e \<noteq> {}"
    using assms(1) by (simp add: usable_def run_capabilities_def)
  moreover have "ie_capabilities e = {''premium'', ''vision.cloud'', ''general.cloud''}"
    using assms(1,3,4) seed_system_endpoint by (simp add: usable_def)
  ultimately show False
    using seed_inference [OF assms(2)] route_not_cloud [of "choose_semantic_route a h"]
    by (auto simp only: local_capabilities_def Int_iff insert_iff empty_iff)
qed

text \<open>C5. A run of \<open>AgentRuntimeV3.arun\<close> with the shipped security domains posts at most twice for each
  of its iterations and at most four times more, since the Ollama client may post every prompt a
  second time, and it posts nothing while a follow-up question is open. Each message
  goes to an endpoint of the registry that is enabled, not marked unhealthy, and has one of the capabilities of
  the run. The paralegal agent's messages reach only endpoints of the paralegal domain, and only
  agents of the paralegal domains reach those. When the shipped endpoints are configured and a shipped agent runs, an endpoint of
  the system domain (the cloud) is reached only when the cloud is enabled and the egress gate allowed
  the handoff's prompt.\<close>

theorem agent_run_endpoints:
  assumes "rt_agents E (gh_target h) = Some a" and "arun E h st = (r, st')"
    and "ir_domains (rt_inference E) = domain_index SECURITY_DOMAINS"
  shows "\<exists>ss. ag_sent st' = ag_sent st @ ss \<and> length ss \<le> 2 * (iterations E + 2) \<and> (asked E a h \<longrightarrow> ss = [])
    \<and> (\<forall>s \<in> set ss. \<exists>e \<in> set (ir_endpoints (rt_inference E)). sent_to E e s \<and> ie_enabled e \<and> ie_id e \<notin> rt_unhealthy E
        \<and> run_capabilities E a h \<inter> ie_capabilities e \<noteq> {}
        \<and> (pa_domain a = Paralegal \<longrightarrow> ie_domain e = Paralegal)
        \<and> (ie_domain e = Paralegal \<longrightarrow> pa_domain a = Paralegal \<or> pa_domain a = Paralegal_enclave)
        \<and> (ie_domain e = System \<and> ir_endpoints (rt_inference E) = INFERENCE_ENDPOINTS \<and> a \<in> set PERSISTENT_AGENTS
             \<longrightarrow> cloud_open E a h))"
proof -
  from arun_trace [OF assms(1), of st] assms(2) obtain ss
    where ss: "ag_sent st' = ag_sent st @ ss" "list_all (run_sent E a h) ss" "length ss \<le> 2 * (iterations E + 2)"
    by (auto simp: run_trace_def)
  have none: "ss = []" if "asked E a h"
    using ss(2) that by (cases ss) (simp_all add: run_sent_def)
  have one: "\<exists>e \<in> set (ir_endpoints (rt_inference E)). sent_to E e s \<and> ie_enabled e \<and> ie_id e \<notin> rt_unhealthy E
        \<and> run_capabilities E a h \<inter> ie_capabilities e \<noteq> {}
        \<and> (pa_domain a = Paralegal \<longrightarrow> ie_domain e = Paralegal)
        \<and> (ie_domain e = Paralegal \<longrightarrow> pa_domain a = Paralegal \<or> pa_domain a = Paralegal_enclave)
        \<and> (ie_domain e = System \<and> ir_endpoints (rt_inference E) = INFERENCE_ENDPOINTS \<and> a \<in> set PERSISTENT_AGENTS
             \<longrightarrow> cloud_open E a h)" if "s \<in> set ss" for s
  proof -
    from ss(2) that obtain e where e: "usable E a (run_capabilities E a h) e" "sent_to E e s"
      by (auto simp: list_all_iff run_sent_def to_usable_def)
    then obtain d where d: "domain_index SECURITY_DOMAINS (pa_domain a) = Some d" "allows_domain d (ie_domain e)"
      using assms(3) by (auto simp: usable_def)
    have "ie_domain e = Paralegal" if "pa_domain a = Paralegal"
      using seed_allows_paralegal(1) [OF d(1) that d(2)] .
    moreover have "pa_domain a = Paralegal \<or> pa_domain a = Paralegal_enclave" if "ie_domain e = Paralegal"
      using seed_allows_paralegal(2) [OF d(1)] d(2) that by simp
    ultimately show ?thesis using e seed_cloud [OF e(1)] by (auto simp: usable_def)
  qed
  from ss(1,3) none one show ?thesis by blast
qed

text \<open>C34. Whatever the outcome of a run, \<open>AgentRuntimeV3.arun\<close> only adds to the memory store, and
  what it adds belongs to the security domain of the agent that ran: memory records owned by that
  domain, and candidates of that domain that wait for a review. A run never approves, changes or
  removes a memory, and never writes into another person's domain.\<close>

theorem agent_run_memory:
  assumes "rt_agents E (gh_target h) = Some a" and "arun E h st = (r, st')"
  shows "(\<exists>rs. memories (ag_memory st') = memories (ag_memory st) @ rs \<and> list_all (\<lambda>m. owner m = pa_domain a) rs)
    \<and> (\<exists>cs. candidates (ag_memory st') = candidates (ag_memory st) @ cs
         \<and> list_all (\<lambda>c. cand_owner c = pa_domain a \<and> cand_status c = Cand_pending) cs)"
  using arun_trace [OF assms(1), of st] assms(2) by (simp add: run_trace_def memory_grows_def)

subsection \<open>A run\<close>

definition sample_choice :: choice_env where
  "sample_choice = \<lparr>ce_focuses = [], ce_zone = (\<lambda>z. None), ce_weather = (\<lambda>p. []), ce_size = (\<lambda>t. None)\<rparr>"

definition sample_media :: media_env where
  "sample_media = \<lparr>md_read = (\<lambda>p. None), md_decode = (\<lambda>t. None), md_encode = (\<lambda>t. t), md_heic_path = (\<lambda>p. None),
     md_heic_bytes = (\<lambda>t. None), md_pdf = (\<lambda>t. None), md_docx = (\<lambda>t. None)\<rparr>"

definition sample_search :: "nat tool_registry" where
  "sample_search = Live \<lparr>reg_tools = [(''web_search'', sample_tool ''web_search'' None)],
     reg_impls = [(''web_search'', \<lambda>q t w. (Impl_output None, w + 1))], reg_enabled = True, reg_default_timeout = 30\<rparr>"

definition agent_env :: "nat runtime_env" where
  "agent_env = \<lparr>rt_agents = runtime_agents PERSISTENT_AGENTS,
     rt_inference = \<lparr>ir_endpoints = INFERENCE_ENDPOINTS, ir_domains = domain_index SECURITY_DOMAINS\<rparr>,
     rt_tools = Some sample_search, rt_execute = True, rt_memory = True, rt_run_inference = True, rt_max = 3,
     rt_unhealthy = {}, rt_cloud = False, rt_choice = sample_choice, rt_media = sample_media,
     rt_now = (\<lambda>st. 0), rt_new_id = (\<lambda>st. ''n''), rt_chat = (\<lambda>s st. Inr (JObj [(''message'', JObj [(''content'', JStr ''an answer'')])])),
     rt_tokens = sample_budgets,
     rt_post = (\<lambda>s st. None), rt_ollama_url = ''http://localhost:11434'', rt_base_url = (\<lambda>p. ''http://localhost''),
     rt_today = ''2026-07-01'', rt_float = (\<lambda>c. ''0.5'')\<rparr>"

definition sample_handoff :: "string \<Rightarrow> handoff" where
  "sample_handoff p = \<lparr>gh_id = ''h'', gh_sender = ''u'', gh_target = ''benedict'', gh_conversation = ''c'', gh_source = Person_beth,
     gh_target_domain = Person_beth, gh_prompt = p, gh_channel = ''sms'', gh_message = None, gh_attachments = [],
     gh_reply = [], gh_permissions = {}, gh_tools = {''web.search'', ''calendar.write''}, gh_scopes = {}, gh_actor = None,
     gh_subject = None, gh_document = None, gh_tool_policy = None, gh_privacy_policy = None, gh_parent_visibility = None,
     gh_audit_reason = None, gh_egress = ''local-only''\<rparr>"

definition sample_state :: "nat agent_state" where
  "sample_state = \<lparr>ag_world = 0, ag_memory = \<lparr>memories = [], candidates = []\<rparr>, ag_sent = [], ag_executed = [],
     ag_selected = [], ag_results = [], ag_steps = [], ag_audit = []\<rparr>"

definition quiet_env :: "nat runtime_env" where
  "quiet_env = agent_env\<lparr>rt_memory := False, rt_run_inference := False\<rparr>"

lemma sample_ran: "map er_tool (ag_executed (snd (arun quiet_env (sample_handoff ''search'') sample_state))) = [''web_search'']"
  unfolding quiet_env_def by code_simp

lemma sample_agent: "runtime_agents PERSISTENT_AGENTS ''benedict'' = Some AGENT_BENEDICT"
  by code_simp

lemma agent_env_agent:
  "rt_agents agent_env (gh_target (sample_handoff p)) = Some AGENT_BENEDICT"
  "rt_agents quiet_env (gh_target (sample_handoff p)) = Some AGENT_BENEDICT"
  by (simp_all add: quiet_env_def agent_env_def sample_handoff_def sample_agent)

theorem agent_run_authority_witness:
  "\<exists>q. ag_executed (snd (arun quiet_env (sample_handoff ''search'') sample_state)) = [q]
     \<and> er_tool q = ''web_search'' \<and> from_handoff AGENT_BENEDICT (sample_handoff ''search'') q"
proof -
  obtain q where q: "ag_executed (snd (arun quiet_env (sample_handoff ''search'') sample_state)) = [q]" "er_tool q = ''web_search''"
    using sample_ran by auto
  have "ag_executed sample_state = []" by (simp add: sample_state_def)
  with agent_run_authority [OF agent_env_agent(2) [of "''search''"] surjective_pairing, of sample_state] q show ?thesis
    by fastforce
qed

theorem agent_run_endpoints_witness:
  "length (ag_sent (snd (arun agent_env (sample_handoff ''search'') sample_state))) \<le> 10"
proof -
  have "ir_domains (rt_inference agent_env) = domain_index SECURITY_DOMAINS" "iterations agent_env = 3"
    "ag_sent sample_state = []"
    by (simp_all add: agent_env_def iterations_def sample_state_def)
  with agent_run_endpoints [OF agent_env_agent(1) [of "''search''"] surjective_pairing, of sample_state] show ?thesis
    by auto
qed

theorem agent_run_memory_witness:
  "list_all (\<lambda>m. owner m = Person_beth) (memories (ag_memory (snd (arun agent_env (sample_handoff ''search'') sample_state))))"
proof -
  have "memories (ag_memory sample_state) = []" "pa_domain AGENT_BENEDICT = Person_beth"
    by (simp_all add: sample_state_def AGENT_BENEDICT_def)
  with agent_run_memory [OF agent_env_agent(1) [of "''search''"] surjective_pairing, of sample_state] show ?thesis
    by auto
qed

end
