(* ===== verification/Channels.thy ===== *)
theory Channels
  imports Py_Json Rx
begin

section \<open>Messaging channels\<close>

text \<open>
  \<open>src/freyja/channels.py\<close>: the gateway of the messaging channels. A message is admitted by the
  policy of its channel, the allowlist, the identity of its sender and the agents of that identity,
  then counted against a rate limit, and forwarded in the thread of its sender and agent.
  Parameters are SHA-256, the clock (microseconds; the code's seconds are floats) and the
  transport to Open WebUI. The policy file is its parsed value, whose numbers are integers. The
  store is the one of the process (\<open>MemoryChannelStore\<close>); \<open>FileChannelStore\<close> keeps the same map in a file. The
  time stamp that the store adds to an audit event is left out.
\<close>

subsection \<open>Agent commands\<close>

definition CHANNEL_AGENT_MODEL_IDS :: "(string \<times> string) list" where
  "CHANNEL_AGENT_MODEL_IDS = [(''freyja'', ''agent/freyja''), (''cloyd'', ''agent/cloyd-gibbler''),
     (''benedict'', ''agent/benedict''), (''agent-44'', ''agent/agent-47''), (''jenna'', ''agent/jennacide'')]"

definition CHANNEL_AGENT_ALIASES :: "(string \<times> string) list" where
  "CHANNEL_AGENT_ALIASES = [(''freyja'', ''freyja''), (''cloyd'', ''cloyd''), (''cloyd-gibbler'', ''cloyd''),
     (''benedict'', ''benedict''), (''agent-44'', ''agent-44''), (''agent-47'', ''agent-44''), (''liam'', ''agent-44''),
     (''jenna'', ''jenna''), (''jennacide'', ''jenna'')]"

text \<open>The pieces of the pattern: the third is the alias, the fifth the message.\<close>

definition AGENT_COMMAND_PATTERN :: "rx list" where
  "AGENT_COMMAND_PATTERN =
    [Seq Bol (Star rx_space), Alt (Seq (rx_lit ''/agent'') (rx_plus rx_space)) (rx_chr CHR ''@''),
     rx_plus (Cls False ((CHR ''-'', CHR ''-'') # word_ranges)), Alt (rx_plus rx_space) Eol, Star rx_any_char, Eol]"

definition parse_agent_command :: "string \<Rightarrow> string option \<times> string" where
  "parse_agent_command s =
    (case rx_cuts AGENT_COMMAND_PATTERN s 0 of
       [] \<Rightarrow> (None, s)
     | c # _ \<Rightarrow>
         (case map_of CHANNEL_AGENT_ALIASES (str_lower (cut_piece s c 2)) of
            None \<Rightarrow> (None, s)
          | Some a \<Rightarrow> (let m = str_strip (cut_piece s c 4) in (Some a, if m \<noteq> [] then m else s))))"

subsection \<open>Messages, routes and the policy\<close>

record channel_message =
  cm_channel :: string
  cm_sender :: string
  cm_text :: string
  cm_requested :: "string option"
  cm_chat :: "string option"
  cm_attachments :: "json_obj list"

record channel_route =
  cr_channel :: string
  cr_identity :: string
  cr_agent :: string
  cr_thread :: string
  cr_hash :: string
  cr_count :: nat

text \<open>\<open>Channel_denied\<close> is a \<open>ChannelPolicyError\<close> with its text, \<open>Rate_exceeded\<close> its subclass,
  \<open>Client_failed\<close> a \<open>ChannelClientError\<close>; \<open>Policy_crash\<close> is any other exception, which a policy of an
  unexpected shape raises.\<close>

datatype channel_error = Channel_denied string | Rate_exceeded | Client_failed string | Policy_crash

definition lift_crash :: "'a option \<Rightarrow> channel_error + 'a" where
  "lift_crash v = (case v of None \<Rightarrow> Inl Policy_crash | Some x \<Rightarrow> Inr x)"

definition deny_unless :: "bool \<Rightarrow> string \<Rightarrow> channel_error + unit" where
  "deny_unless b why = (if b then Inr () else Inl (Channel_denied why))"

definition load_policy :: "json \<Rightarrow> channel_error + json_obj" where
  "load_policy v =
    (case v of
       JObj p \<Rightarrow>
         bind_result (deny_unless (jget ''secrets_included'' p = JBool False) ''channel policy must not contain secrets'') (\<lambda>_.
         bind_result (deny_unless (jget ''principle'' p = JStr ''deterministic_gateway_only'') ''channel policy must be deterministic'') (\<lambda>_.
         bind_result (lift_crash (dict_or_empty (jget ''prohibitions'' p))) (\<lambda>q.
         bind_result (deny_unless (jget ''model_routing'' q = JBool True \<and> jget ''independent_agent_intelligence'' q = JBool True)
           ''channel policy must prohibit model routing and independent intelligence'') (\<lambda>_. Inr p))))
     | _ \<Rightarrow> Inl (Channel_denied ''channel policy must be a mapping''))"

definition channel_policy :: "json_obj \<Rightarrow> string \<Rightarrow> channel_error + json_obj" where
  "channel_policy p ch =
    bind_result (lift_crash (dict_or_empty (jget ''channels'' p))) (\<lambda>cs.
      case jget ch cs of
        JObj item \<Rightarrow>
          bind_result (deny_unless (jget ''empty_allowlist'' item = JStr ''deny_all'') (ch @ '' must deny an empty allowlist''))
            (\<lambda>_. Inr item)
      | _ \<Rightarrow> Inl (Channel_denied (''unsupported channel: '' @ ch)))"

text \<open>The texts in \<open>set(v or [])\<close>; a set of lists or dicts, or of a number, raises.\<close>

definition text_members :: "json \<Rightarrow> string list option" where
  "text_members v =
    (if \<not> json_truthy v then Some []
     else (case v of
         JList xs \<Rightarrow>
           (if list_ex (\<lambda>x. case x of JList _ \<Rightarrow> True | JObj _ \<Rightarrow> True | _ \<Rightarrow> False) xs then None
            else Some (concat (map (\<lambda>x. case x of JStr s \<Rightarrow> [s] | _ \<Rightarrow> []) xs)))
       | JStr s \<Rightarrow> Some (map (\<lambda>c. [c]) s)
       | JObj d \<Rightarrow> Some (map fst d)
       | _ \<Rightarrow> None))"

definition select_agent :: "json_obj \<Rightarrow> string \<Rightarrow> string option \<Rightarrow> channel_error + string" where
  "select_agent p identity requested =
    bind_result (lift_crash (dict_or_empty (jget ''identities'' p))) (\<lambda>ids.
      case jget identity ids of
        JObj item \<Rightarrow>
          bind_result (lift_crash (text_members (jget ''permitted_agents'' item))) (\<lambda>permitted.
            let selected = or_else requested (json_str (jget ''default_agent'' item))
            in bind_result (deny_unless (selected \<in> set permitted) ''requested agent is not permitted for identity'')
                 (\<lambda>_. Inr selected))
      | _ \<Rightarrow> Inl (Channel_denied ''identity is not configured''))"

definition rate_limit :: "json_obj \<Rightarrow> int option" where
  "rate_limit item =
    Option.bind (dict_or_empty (jget ''rate_limit'' item)) (\<lambda>d.
      let v = jget ''per_sender_per_minute'' d in if json_truthy v then py_int v else Some 0)"

subsection \<open>The text of a thread key\<close>

text \<open>\<open>str.format\<close> with plain fields. \<open>None\<close>: it raises, or the template has conversions, format specs or
  attributes, which the policy files do not use.\<close>

function format_fields :: "(string \<times> string) list \<Rightarrow> string \<Rightarrow> string option" where
  "format_fields args s =
    (if s = [] then Some []
     else if prefix ''{{'' s then map_option (Cons CHR ''{'') (format_fields args (drop 2 s))
     else if prefix ''}}'' s then map_option (Cons CHR ''}'') (format_fields args (drop 2 s))
     else if hd s = CHR ''{'' then
       (let name = takeWhile (\<lambda>c. c \<noteq> CHR ''}'') (tl s); rest = dropWhile (\<lambda>c. c \<noteq> CHR ''}'') (tl s)
        in if rest = [] then None
           else (case map_of args name of None \<Rightarrow> None | Some v \<Rightarrow> map_option ((@) v) (format_fields args (tl rest))))
     else if hd s = CHR ''}'' then None
     else map_option (Cons (hd s)) (format_fields args (tl s)))"
  by pat_completeness auto
termination
proof (relation "measure (\<lambda>(args, s). length s)", goal_cases)
  case (4 args s name rest v)
  have "length rest \<le> length (tl s)" unfolding 4 by (rule length_dropWhile_le)
  moreover have "length (tl s) < length s" "length (tl rest) \<le> length rest" using 4(1) by (cases s) auto
  ultimately show ?case by simp
qed auto

declare format_fields.simps [simp del]

definition thread_key_of :: "(string \<Rightarrow> string) \<Rightarrow> json_obj \<Rightarrow> string \<Rightarrow> string \<Rightarrow> string option \<Rightarrow> string option" where
  "thread_key_of hash item agent sender_hash chat =
    Option.bind (dict_or_empty (jget ''thread_persistence'' item)) (\<lambda>d.
      format_fields [(''agent'', agent), (''hashed_chat_id'', hash (or_else chat sender_hash)),
          (''hashed_sender_or_alias'', sender_hash)]
        (str_or (jget ''key'' d) ''{agent}:{hashed_chat_id}''))"

subsection \<open>Routing and forwarding\<close>

record forwarded =
  fw_agent :: string
  fw_thread :: string
  fw_text :: string
  fw_attachments :: "json_obj list"

record channel_state =
  ch_threads :: "string \<Rightarrow> string option"
  ch_windows :: "string \<times> string \<Rightarrow> int list"
  ch_audit :: "json_obj list"
  ch_sent :: "forwarded list"

record channel_env =
  ce_policy :: json_obj
  ce_allowed :: "string \<Rightarrow> string list"
  ce_identity :: "string \<Rightarrow> string \<Rightarrow> string option"
  ce_hash :: "string \<Rightarrow> string"

definition thread_map_key :: "string \<Rightarrow> string \<Rightarrow> string \<Rightarrow> string" where
  "thread_map_key ch h agent = ch @ '':'' @ h @ '':'' @ agent"

definition remember_thread :: "channel_route \<Rightarrow> channel_state \<Rightarrow> channel_state" where
  "remember_thread r st = st\<lparr>ch_threads :=
     (ch_threads st)(thread_map_key (cr_channel r) (cr_hash r) (cr_agent r) \<mapsto> cr_thread r)\<rparr>"

definition write_channel_audit :: "json_obj \<Rightarrow> channel_state \<Rightarrow> channel_state" where
  "write_channel_audit e st = st\<lparr>ch_audit := ch_audit st @ [e]\<rparr>"

definition nothing_logged :: json_obj where
  "nothing_logged = [(''message_body_logged'', JBool False), (''raw_sender_logged'', JBool False)]"

definition denial_event :: "channel_message \<Rightarrow> string \<Rightarrow> string \<Rightarrow> json_obj" where
  "denial_event m h why = [(''event'', JStr ''freyja_channels_denied''), (''channel'', JStr (cm_channel m)), (''sender_hash'', JStr h),
     (''reason'', JStr why), (''attachment_count'', JInt (int (length (cm_attachments m))))] @ nothing_logged"

definition route_event :: "channel_route \<Rightarrow> json_obj" where
  "route_event r = [(''event'', JStr ''freyja_channels_route''), (''channel'', JStr (cr_channel r)), (''identity'', JStr (cr_identity r)),
     (''agent'', JStr (cr_agent r)), (''sender_hash'', JStr (cr_hash r)), (''attachment_count'', JInt (int (cr_count r)))] @ nothing_logged"

definition response_event :: "channel_route \<Rightarrow> string option \<Rightarrow> json_obj" where
  "response_event r failed =
    [(''event'', JStr (if failed = None then ''freyja_channels_response'' else ''freyja_channels_response_failed'')),
     (''channel'', JStr (cr_channel r)), (''identity'', JStr (cr_identity r)), (''agent'', JStr (cr_agent r)), (''sender_hash'', JStr (cr_hash r))]
    @ (case failed of None \<Rightarrow> [] | Some c \<Rightarrow> [(''error_class'', JStr c)]) @ nothing_logged"

text \<open>The checks before the rate limit: the policy of the channel, the identity and the agent.\<close>

definition admit :: "channel_env \<Rightarrow> channel_message \<Rightarrow> channel_error + json_obj \<times> string \<times> string" where
  "admit E m =
    bind_result (channel_policy (ce_policy E) (cm_channel m)) (\<lambda>item.
    bind_result (deny_unless (json_str (jget ''status'' item) \<noteq> ''disabled'') (cm_channel m @ '' is disabled'')) (\<lambda>_.
    bind_result (deny_unless (ce_allowed E (cm_channel m) \<noteq> []) ''allowlist is empty'') (\<lambda>_.
    bind_result (deny_unless (cm_sender m \<in> set (ce_allowed E (cm_channel m))) ''sender is not allowlisted'') (\<lambda>_.
    bind_result (deny_unless (truthy (ce_identity E (cm_channel m) (cm_sender m))) ''sender identity is not mapped'') (\<lambda>_.
      let i = the (ce_identity E (cm_channel m) (cm_sender m))
      in bind_result (select_agent (ce_policy E) i (cm_requested m)) (\<lambda>a. Inr (item, i, a)))))))"

definition usec_minute_window :: int where "usec_minute_window = 60 * 1000000"

text \<open>The window of a sender: the times of the last minute. Old times leave it also when the message is
  refused.\<close>

definition check_rate :: "int \<Rightarrow> int \<Rightarrow> int list \<Rightarrow> bool \<times> int list" where
  "check_rate limit now w =
    (if limit \<le> 0 then (True, w)
     else (let w1 = dropWhile (\<lambda>t. usec_minute_window \<le> now - t) w
           in if limit \<le> int (length w1) then (False, w1) else (True, w1 @ [now])))"

definition denied :: "channel_env \<Rightarrow> channel_message \<Rightarrow> channel_error \<Rightarrow> channel_state \<Rightarrow> channel_state" where
  "denied E m e st =
    (case e of
       Channel_denied why \<Rightarrow> write_channel_audit (denial_event m (ce_hash E (cm_sender m)) why) st
     | Rate_exceeded \<Rightarrow> write_channel_audit (denial_event m (ce_hash E (cm_sender m)) ''rate limit exceeded'') st
     | _ \<Rightarrow> st)"

definition open_thread ::
    "channel_env \<Rightarrow> channel_message \<Rightarrow> json_obj \<Rightarrow> string \<Rightarrow> string \<Rightarrow> channel_state \<Rightarrow> (channel_error + channel_route) \<times> channel_state" where
  "open_thread E m item i a st =
    (let h = ce_hash E (cm_sender m);
         known = ch_threads st (thread_map_key (cm_channel m) h a)
     in case (if truthy known then known else thread_key_of (ce_hash E) item a h (cm_chat m)) of
          None \<Rightarrow> (Inl Policy_crash, st)
        | Some t \<Rightarrow>
            (let r = \<lparr>cr_channel = cm_channel m, cr_identity = i, cr_agent = a, cr_thread = t, cr_hash = h,
                   cr_count = length (cm_attachments m)\<rparr>
             in (Inr r, write_channel_audit (route_event r) (remember_thread r st))))"

definition route_message :: "channel_env \<Rightarrow> int \<Rightarrow> channel_message \<Rightarrow> channel_state \<Rightarrow> (channel_error + channel_route) \<times> channel_state" where
  "route_message E now m st =
    (case admit E m of
       Inl e \<Rightarrow> (Inl e, denied E m e st)
     | Inr (item, i, a) \<Rightarrow>
         (case rate_limit item of
            None \<Rightarrow> (Inl Policy_crash, st)
          | Some limit \<Rightarrow>
              (let k = (cm_channel m, cm_sender m);
                   (ok, w) = check_rate limit now (ch_windows st k);
                   st1 = st\<lparr>ch_windows := (ch_windows st)(k := w)\<rparr>
               in if ok then open_thread E m item i a st1
                  else (Inl Rate_exceeded, denied E m Rate_exceeded st1))))"

text \<open>\<open>handle\<close>: the client answers with a text or the class of the exception it raises, which leaves
  \<open>handle\<close>.\<close>

definition handle_message ::
    "channel_env \<Rightarrow> (forwarded \<Rightarrow> string + string) option \<Rightarrow> int \<Rightarrow> channel_message \<Rightarrow> channel_state
     \<Rightarrow> (channel_error + string) \<times> channel_state" where
  "handle_message E client now m st =
    (case client of
       None \<Rightarrow> (Inl (Channel_denied ''Open WebUI client is not configured''), st)
     | Some send \<Rightarrow>
         (case route_message E now m st of
            (Inl e, st1) \<Rightarrow> (Inl e, st1)
          | (Inr r, st1) \<Rightarrow>
              (let f = \<lparr>fw_agent = cr_agent r, fw_thread = cr_thread r, fw_text = cm_text m, fw_attachments = cm_attachments m\<rparr>;
                   st2 = st1\<lparr>ch_sent := ch_sent st1 @ [f]\<rparr>
               in case send f of
                    Inl c \<Rightarrow> (Inl (Client_failed c), write_channel_audit (response_event r (Some c)) st2)
                  | Inr answer \<Rightarrow> (Inr answer, write_channel_audit (response_event r None) st2))))"

text \<open>\<open>OpenWebUIChatClient.send\<close>, over the HTTP request it makes: \<open>Inl (Some n)\<close> is an HTTP error,
  \<open>Inl None\<close> any other failure.\<close>

definition webui_payload :: "string \<Rightarrow> forwarded \<Rightarrow> json" where
  "webui_payload model f =
    JObj [(''model'', JStr model), (''messages'', JList [JObj [(''role'', JStr ''user''), (''content'', JStr (fw_text f))]]),
      (''stream'', JBool False),
      (''metadata'', JObj [(''freyja_channel_thread_key'', JStr (fw_thread f)), (''attachment_count'', JInt (int (length (fw_attachments f))))])]"

text \<open>\<open>choices[0]\<close> of a dict raises \<open>KeyError\<close>; \<open>(choices[0].get("message") or \<dots>).get\<close> of another value
  raises \<open>AttributeError\<close>: the class of the exception.\<close>

definition webui_answer :: "json \<Rightarrow> string + string" where
  "webui_answer data =
    (let client_error = Inl ''ChannelClientError'';
         choices = (case data of JObj d \<Rightarrow> jget ''choices'' d | _ \<Rightarrow> JNull)
     in if \<not> json_truthy choices then client_error
        else (case choices of
            JList (JObj c # _) \<Rightarrow>
              (case dict_or_empty (jget ''message'' c) of
                 None \<Rightarrow> Inl ''AttributeError''
               | Some msg \<Rightarrow>
                   (let content = str_or_empty (jget ''content'' msg)
                    in if str_strip content = [] then client_error else Inr content))
          | JObj _ \<Rightarrow> Inl ''KeyError''
          | JList _ \<Rightarrow> client_error
          | JStr _ \<Rightarrow> client_error
          | _ \<Rightarrow> Inl ''TypeError''))"

definition webui_send ::
    "string \<Rightarrow> (json \<Rightarrow> int option + json) \<Rightarrow> forwarded \<Rightarrow> string + string" where
  "webui_send api_key post f =
    (if str_strip api_key = [] then Inl ''ChannelClientError''
     else (case map_of CHANNEL_AGENT_MODEL_IDS (fw_agent f) of
         None \<Rightarrow> Inl ''ChannelClientError''
       | Some model \<Rightarrow>
           (case post (webui_payload model f) of
              Inl _ \<Rightarrow> Inl ''ChannelClientError''
            | Inr data \<Rightarrow> webui_answer data)))"

subsection \<open>Who gets through\<close>

lemma deny_unless_Inr [simp]: "deny_unless b why = Inr u \<longleftrightarrow> b"
  by (simp add: deny_unless_def)

lemma lift_crash_Inr [simp]: "lift_crash v = Inr x \<longleftrightarrow> v = Some x"
  by (simp add: lift_crash_def split: option.splits)

lemma obj_case_Inr: "(case v of JObj d \<Rightarrow> f d | _ \<Rightarrow> Inl e) = Inr x \<longleftrightarrow> (\<exists>d. v = JObj d \<and> f d = Inr x)"
  by (cases v) simp_all

lemma channel_policy_Inr:
  "channel_policy p ch = Inr item \<Longrightarrow> jget ''empty_allowlist'' item = JStr ''deny_all''"
  by (auto simp: channel_policy_def bind_result_Inr obj_case_Inr)

lemma select_agent_Inr:
  assumes "select_agent p i requested = Inr a"
  obtains ids item permitted where "dict_or_empty (jget ''identities'' p) = Some ids" "jget i ids = JObj item"
    "text_members (jget ''permitted_agents'' item) = Some permitted" "a \<in> set permitted"
    "a = or_else requested (json_str (jget ''default_agent'' item))"
  using assms that by (auto simp: select_agent_def bind_result_Inr Let_def obj_case_Inr)

lemma admit_Inr:
  assumes "admit E m = Inr (item, i, a)"
  shows "channel_policy (ce_policy E) (cm_channel m) = Inr item" "json_str (jget ''status'' item) \<noteq> ''disabled''"
    "cm_sender m \<in> set (ce_allowed E (cm_channel m))" "ce_identity E (cm_channel m) (cm_sender m) = Some i" "i \<noteq> []"
    "select_agent (ce_policy E) i (cm_requested m) = Inr a"
  using assms by (auto simp: admit_def bind_result_Inr Let_def truthy_iff)

lemma bind_result_Inl: "bind_result v f = Inl e \<longleftrightarrow> v = Inl e \<or> (\<exists>x. v = Inr x \<and> f x = Inl e)"
  by (cases v) simp_all

lemma obj_case_Inl:
  "(case v of JObj d \<Rightarrow> f d | _ \<Rightarrow> Inl e0) = Inl e \<longleftrightarrow> (\<exists>d. v = JObj d \<and> f d = Inl e) \<or> ((\<forall>d. v \<noteq> JObj d) \<and> e = e0)"
  by (cases v) auto

lemma check_not_rate [simp]: "deny_unless b why \<noteq> Inl Rate_exceeded" "lift_crash v \<noteq> Inl Rate_exceeded"
  by (simp_all add: deny_unless_def lift_crash_def split: option.splits)

lemma admit_not_rate: "admit E m \<noteq> Inl Rate_exceeded"
  by (simp add: admit_def bind_result_Inl channel_policy_def select_agent_def obj_case_Inl Let_def)

lemma denied_simps [simp]:
  "ch_threads (denied E m e st) = ch_threads st" "ch_windows (denied E m e st) = ch_windows st" "ch_sent (denied E m e st) = ch_sent st"
  by (simp_all add: denied_def write_channel_audit_def split: channel_error.splits)

lemma open_thread_windows: "ch_windows (snd (open_thread E m item i a st)) = ch_windows st"
  "ch_sent (snd (open_thread E m item i a st)) = ch_sent st"
  by (simp_all add: open_thread_def Let_def write_channel_audit_def remember_thread_def split: option.splits)

lemma route_sent: "ch_sent (snd (route_message E now m st)) = ch_sent st"
  by (auto simp: route_message_def Let_def open_thread_windows split: sum.splits option.splits prod.splits)

lemma route_Inr:
  assumes "route_message E now m st = (Inr r, st1)"
  obtains item i a where "admit E m = Inr (item, i, a)" "cr_agent r = a" "cr_identity r = i" "cr_channel r = cm_channel m"
    "cr_hash r = ce_hash E (cm_sender m)" "ch_threads st1 (thread_map_key (cm_channel m) (cr_hash r) a) = Some (cr_thread r)"
proof -
  from assms obtain item i a limit where a: "admit E m = Inr (item, i, a)" and l: "rate_limit item = Some limit"
    and o: "open_thread E m item i a (st\<lparr>ch_windows := (ch_windows st)((cm_channel m, cm_sender m) :=
        snd (check_rate limit now (ch_windows st (cm_channel m, cm_sender m))))\<rparr>) = (Inr r, st1)"
    by (auto simp: route_message_def Let_def split: sum.splits option.splits prod.splits if_splits)
  from o show ?thesis
    by (intro that [OF a]) (auto simp: open_thread_def Let_def write_channel_audit_def remember_thread_def split: option.splits if_splits)
qed

text \<open>C7. A message of a channel is forwarded to an agent only when its channel is in the policy, denies
  an empty allowlist and is not disabled, its sender is on the allowlist and mapped to an identity, and
  the agent is permitted for that identity; an agent that the message asks for is the one that gets it, or
  none does. At most one message is forwarded, with the text of the message in the thread that is kept
  for the sender and the agent. Without a client nothing happens.\<close>

theorem channel_admission:
  assumes "handle_message E client now m st = (r, st')"
  shows "ch_sent st' = ch_sent st \<or>
    (\<exists>item i a permitted t. ch_sent st' = ch_sent st @ [\<lparr>fw_agent = a, fw_thread = t, fw_text = cm_text m, fw_attachments = cm_attachments m\<rparr>]
      \<and> channel_policy (ce_policy E) (cm_channel m) = Inr item \<and> jget ''empty_allowlist'' item = JStr ''deny_all''
      \<and> json_str (jget ''status'' item) \<noteq> ''disabled''
      \<and> cm_sender m \<in> set (ce_allowed E (cm_channel m)) \<and> ce_identity E (cm_channel m) (cm_sender m) = Some i
      \<and> (\<exists>ids d. dict_or_empty (jget ''identities'' (ce_policy E)) = Some ids \<and> jget i ids = JObj d
           \<and> text_members (jget ''permitted_agents'' d) = Some permitted)
      \<and> a \<in> set permitted \<and> (truthy (cm_requested m) \<longrightarrow> cm_requested m = Some a)
      \<and> ch_threads st' (thread_map_key (cm_channel m) (ce_hash E (cm_sender m)) a) = Some t)"
proof (cases "route_message E now m st")
  case (Pair res st1)
  note s = route_sent [of E now m st, unfolded Pair snd_conv]
  show ?thesis
  proof (cases client)
    case (Some send)
    show ?thesis
    proof (cases res)
      case (Inr rt)
      from Pair Inr have "route_message E now m st = (Inr rt, st1)" by simp
      then obtain item i a where a: "admit E m = Inr (item, i, a)" "cr_agent rt = a" "cr_hash rt = ce_hash E (cm_sender m)"
        "ch_threads st1 (thread_map_key (cm_channel m) (cr_hash rt) a) = Some (cr_thread rt)"
        by (rule route_Inr)
      note ad = admit_Inr [OF a(1)]
      from ad(6) obtain ids d permitted where p: "dict_or_empty (jget ''identities'' (ce_policy E)) = Some ids" "jget i ids = JObj d"
        "text_members (jget ''permitted_agents'' d) = Some permitted" "a \<in> set permitted"
        "a = or_else (cm_requested m) (json_str (jget ''default_agent'' d))"
        by (rule select_agent_Inr)
      have q: "truthy (cm_requested m) \<longrightarrow> cm_requested m = Some a" using p(5) by (auto simp: truthy_iff)
      have "ch_sent st' = ch_sent st1 @ [\<lparr>fw_agent = a, fw_thread = cr_thread rt, fw_text = cm_text m, fw_attachments = cm_attachments m\<rparr>]"
        and "ch_threads st' = ch_threads st1"
        using assms Some Pair Inr a(2) by (auto simp: handle_message_def Let_def write_channel_audit_def split: sum.splits)
      then show ?thesis using s a ad p q channel_policy_Inr [OF ad(1)] by metis
    qed (use assms Some Pair s in \<open>simp add: handle_message_def\<close>)
  qed (use assms in \<open>simp add: handle_message_def\<close>)
qed

subsection \<open>The rate limit\<close>

definition sender_key :: "channel_message \<Rightarrow> string \<times> string" where
  "sender_key m = (cm_channel m, cm_sender m)"

definition channel_limit :: "channel_env \<Rightarrow> string \<Rightarrow> int option" where
  "channel_limit E ch = (case channel_policy (ce_policy E) ch of Inl _ \<Rightarrow> None | Inr item \<Rightarrow> rate_limit item)"

text \<open>The message is admitted and not refused for its rate.\<close>

definition passes :: "channel_env \<Rightarrow> int \<Rightarrow> channel_message \<Rightarrow> channel_state \<Rightarrow> bool" where
  "passes E now m st \<longleftrightarrow> (\<not> isl (admit E m)) \<and> fst (route_message E now m st) \<noteq> Inl Rate_exceeded"

definition route_all :: "channel_env \<Rightarrow> (int \<times> channel_message) list \<Rightarrow> channel_state \<Rightarrow> channel_state" where
  "route_all E h st = fold (\<lambda>(now, m) st. snd (route_message E now m st)) h st"

fun passed :: "channel_env \<Rightarrow> string \<times> string \<Rightarrow> (int \<times> channel_message) list \<Rightarrow> channel_state \<Rightarrow> int list" where
  "passed E k [] st = []"
| "passed E k ((now, m) # h) st =
    (if sender_key m = k \<and> passes E now m st then [now] else []) @ passed E k h (snd (route_message E now m st))"

lemma passed_snoc:
  "passed E k (h @ [(now, m)]) st = passed E k h st @ (if sender_key m = k \<and> passes E now m (route_all E h st) then [now] else [])"
  by (induction E k h st rule: passed.induct) (simp_all add: route_all_def)

lemma route_all_snoc: "route_all E (h @ [(now, m)]) st = snd (route_message E now m (route_all E h st))"
  by (simp add: route_all_def)

lemma route_window:
  assumes "channel_limit E (cm_channel m) = Some n" and "(\<not> isl (admit E m))"
  shows "passes E now m st \<longleftrightarrow> fst (check_rate n now (ch_windows st (sender_key m)))"
    and "ch_windows (snd (route_message E now m st)) =
      (ch_windows st)(sender_key m := snd (check_rate n now (ch_windows st (sender_key m))))"
proof -
  from assms(2) obtain item i a where a: "admit E m = Inr (item, i, a)" by (cases "admit E m") auto
  with assms(1) admit_Inr(1) [OF a] have l: "rate_limit item = Some n" by (simp add: channel_limit_def)
  have "fst (open_thread E m item i a st1) \<noteq> Inl Rate_exceeded" for st1
    by (simp add: open_thread_def Let_def split: option.splits)
  then show "passes E now m st \<longleftrightarrow> fst (check_rate n now (ch_windows st (sender_key m)))"
    using a l by (simp add: passes_def route_message_def sender_key_def Let_def split: prod.splits)
  show "ch_windows (snd (route_message E now m st)) =
      (ch_windows st)(sender_key m := snd (check_rate n now (ch_windows st (sender_key m))))"
    using a l by (simp add: route_message_def sender_key_def Let_def open_thread_windows split: prod.splits)
qed

lemma route_window_refused: "isl (admit E m) \<Longrightarrow> ch_windows (snd (route_message E now m st)) = ch_windows st"
  by (auto simp: route_message_def split: sum.splits)

text \<open>Any \<open>n + 1\<close> consecutive times span a minute.\<close>

definition spaced :: "int \<Rightarrow> int list \<Rightarrow> bool" where
  "spaced n ts \<longleftrightarrow> (\<forall>i. i + nat n < length ts \<longrightarrow> usec_minute_window \<le> ts ! (i + nat n) - ts ! i)"

definition recent :: "int \<Rightarrow> int list \<Rightarrow> int list" where
  "recent now ts = filter (\<lambda>t. now - t < usec_minute_window) ts"

text \<open>The window holds the times of the last minute, seen from the last call of the sender or later.\<close>

definition window_ok :: "int \<Rightarrow> int list \<Rightarrow> int \<Rightarrow> int list \<Rightarrow> bool" where
  "window_ok n past last_now w \<longleftrightarrow> sorted past \<and> spaced n past \<and> (\<forall>t \<in> set past. t \<le> last_now)
     \<and> (\<exists>d. past = d @ w \<and> (\<forall>t \<in> set d. usec_minute_window \<le> last_now - t))"

lemma recent_sorted: "sorted w \<Longrightarrow> dropWhile (\<lambda>t. usec_minute_window \<le> now - t) w = recent now w"
proof (induction w)
  case (Cons t w)
  show ?case
  proof (cases "usec_minute_window \<le> now - t")
    case False
    with Cons.prems have "\<forall>x \<in> set w. now - x < usec_minute_window" by auto
    with False show ?thesis by (simp add: recent_def)
  qed (use Cons in \<open>simp add: recent_def\<close>)
qed (simp add: recent_def)

lemma window_recent:
  assumes "window_ok n past last_now w" and "last_now \<le> now"
  shows "dropWhile (\<lambda>t. usec_minute_window \<le> now - t) w = recent now past"
proof -
  from assms obtain d where d: "past = d @ w" "\<forall>t \<in> set d. usec_minute_window \<le> last_now - t" "sorted w"
    by (auto simp: window_ok_def sorted_append)
  then have "recent now d = []" using assms(2) by (fastforce simp: recent_def filter_empty_conv)
  then show ?thesis using recent_sorted [OF d(3)] d(1) by (simp add: recent_def)
qed

lemma recent_suffix: "sorted past \<Longrightarrow> \<exists>d. past = d @ recent now past \<and> (\<forall>t \<in> set d. usec_minute_window \<le> now - t)"
  by (metis recent_sorted set_takeWhileD takeWhile_dropWhile_id)

lemma spaced_snoc:
  assumes "spaced n past" and "sorted past" and "int (length (recent now past)) < n"
  shows "spaced n (past @ [now])"
  unfolding spaced_def
proof (intro allI impI)
  fix i
  assume i: "i + nat n < length (past @ [now])"
  show "usec_minute_window \<le> (past @ [now]) ! (i + nat n) - (past @ [now]) ! i"
  proof (cases "i + nat n < length past")
    case True
    then show ?thesis using assms(1) by (simp add: spaced_def nth_append)
  next
    case False
    from recent_suffix [OF assms(2)] obtain d where d: "past = d @ recent now past"
      "\<forall>t \<in> set d. usec_minute_window \<le> now - t" by blast
    have "i + nat n = length past" using False i by simp
    moreover have "length past = length d + length (recent now past)" using d(1) by (metis length_append)
    ultimately have "i < length d" using assms(3) by linarith
    then have "past ! i \<in> set d" "i < length past" using d(1) \<open>length past = _\<close> by (metis nth_append nth_mem, simp)
    then show ?thesis using d(2) \<open>i + nat n = length past\<close> by (simp add: nth_append)
  qed
qed

lemma window_step:
  assumes "window_ok n past last_now w" and "last_now \<le> now" and "0 < n"
  shows "fst (check_rate n now w) \<longleftrightarrow> int (length (recent now past)) < n"
    and "window_ok n (if fst (check_rate n now w) then past @ [now] else past) now (snd (check_rate n now w))"
proof -
  note r = window_recent [OF assms(1,2)]
  show f: "fst (check_rate n now w) \<longleftrightarrow> int (length (recent now past)) < n"
    using assms(3) by (simp add: check_rate_def r Let_def)
  have p: "sorted past" "spaced n past" "\<forall>t \<in> set past. t \<le> now"
    using assms by (auto simp: window_ok_def)
  from recent_suffix [OF p(1)] obtain d where d: "past = d @ recent now past" "\<forall>t \<in> set d. usec_minute_window \<le> now - t" by blast
  show "window_ok n (if fst (check_rate n now w) then past @ [now] else past) now (snd (check_rate n now w))"
  proof (cases "fst (check_rate n now w)")
    case True
    moreover have "snd (check_rate n now w) = recent now past @ [now]"
      using True assms(3) by (simp add: check_rate_def r Let_def split: if_splits)
    moreover have "past @ [now] = d @ (recent now past @ [now])" using d(1) by (metis append_assoc)
    ultimately show ?thesis
      using p d(2) spaced_snoc [OF p(2,1)] f unfolding window_ok_def by (auto simp: sorted_append)
  next
    case False
    moreover have "snd (check_rate n now w) = recent now past"
      using False assms(3) by (simp add: check_rate_def r Let_def split: if_splits)
    ultimately show ?thesis using p d unfolding window_ok_def by auto
  qed
qed

lemma window_later:
  "window_ok n past last_now w \<Longrightarrow> last_now \<le> now \<Longrightarrow> window_ok n past now w"
  unfolding window_ok_def by force

lemma routes_window:
  assumes "channel_limit E (fst k) = Some n" and "0 < n" and "ch_windows st k = []"
  shows "sorted (map fst h) \<Longrightarrow> (\<And>t. t \<in> set (map fst h) \<Longrightarrow> t \<le> last_now)
    \<Longrightarrow> window_ok n (passed E k h st) last_now (ch_windows (route_all E h st) k)"
proof (induction h arbitrary: last_now rule: rev_induct)
  case Nil
  then show ?case using assms(3) by (simp add: window_ok_def spaced_def route_all_def)
next
  case (snoc x h)
  obtain now m where x: "x = (now, m)" by (cases x) blast
  let ?st = "route_all E h st"
  have "window_ok n (passed E k h st) now (ch_windows ?st k)"
    using snoc.prems(1) by (intro snoc.IH) (auto simp: x sorted_append)
  moreover have "now \<le> last_now" using snoc.prems(2) by (simp add: x)
  moreover have "window_ok n (passed E k (h @ [x]) st) now (ch_windows (snd (route_message E now m ?st)) k)"
  proof (cases "sender_key m = k \<and> \<not> isl (admit E m)")
    case True
    then have l: "channel_limit E (cm_channel m) = Some n" using assms(1) by (auto simp: sender_key_def)
    show ?thesis
      using window_step(2) [OF calculation(1) order_refl assms(2)] route_window [OF l, of now ?st] True
      by (auto simp: x passed_snoc split: if_splits)
  next
    case False
    moreover have "ch_windows (snd (route_message E now m ?st)) k = ch_windows ?st k" if "sender_key m \<noteq> k"
      using that by (auto simp: route_message_def sender_key_def Let_def open_thread_windows split: sum.splits option.splits prod.splits)
    ultimately show ?thesis
      using \<open>window_ok n (passed E k h st) now (ch_windows ?st k)\<close> route_window_refused [of E m now ?st]
      by (auto simp: x passed_snoc passes_def)
  qed
  ultimately show ?case by (simp add: x route_all_snoc window_later)
qed

text \<open>C36. The rate limit of a channel with a positive limit \<open>n\<close> is an exact sliding window: over any history
  of messages in order of time, whatever other senders and channels do in between, any \<open>n + 1\<close>
  consecutive messages of a sender that pass it span at least a minute, and an admitted
  message is refused for its rate exactly when \<open>n\<close> or more messages of its sender passed within the
  last minute. Messages that are not admitted, and those that are refused, count for nothing.\<close>

theorem channel_rate_exact:
  assumes "sorted (map fst (h @ [(now, m)]))" and "channel_limit E (cm_channel m) = Some n" and "0 < n"
    and "ch_windows st (sender_key m) = []" and "\<not> isl (admit E m)"
  shows "spaced n (passed E (sender_key m) (h @ [(now, m)]) st)
    \<and> (fst (route_message E now m (route_all E h st)) = Inl Rate_exceeded
        \<longleftrightarrow> n \<le> int (length (recent now (passed E (sender_key m) h st))))"
proof -
  have l: "channel_limit E (fst (sender_key m)) = Some n" using assms(2) by (simp add: sender_key_def)
  have "window_ok n (passed E (sender_key m) h st) now (ch_windows (route_all E h st) (sender_key m))"
    by (rule routes_window [OF l assms(3,4)]) (use assms(1) in \<open>auto simp: sorted_append\<close>)
  from window_step(1) [OF this order_refl assms(3)] route_window(1) [OF assms(2,5), of now "route_all E h st"]
  have "passes E now m (route_all E h st) \<longleftrightarrow> int (length (recent now (passed E (sender_key m) h st))) < n" by simp
  moreover have "window_ok n (passed E (sender_key m) (h @ [(now, m)]) st) now
      (ch_windows (route_all E (h @ [(now, m)]) st) (sender_key m))"
    by (rule routes_window [OF l assms(3,4) assms(1)]) (use assms(1) in \<open>auto simp: sorted_append\<close>)
  ultimately show ?thesis using assms(5) by (auto simp: window_ok_def passes_def)
qed


definition sample_policy :: json_obj where
  "sample_policy = [(''identities'', JObj [(''joe'', JObj [(''permitted_agents'', JList [JStr ''freyja'', JStr ''cloyd'']), (''default_agent'', JStr ''freyja'')])]),
     (''channels'', JObj [(''telegram'', JObj [(''status'', JStr ''pilot''), (''empty_allowlist'', JStr ''deny_all''),
       (''rate_limit'', JObj [(''per_sender_per_minute'', JInt 1)])])])]"

definition sample_channels :: channel_env where
  "sample_channels = \<lparr>ce_policy = sample_policy, ce_allowed = (\<lambda>ch. [''7'']), ce_identity = (\<lambda>ch s. Some ''joe''), ce_hash = (\<lambda>s. s)\<rparr>"

definition sample_message :: "string option \<Rightarrow> channel_message" where
  "sample_message a = \<lparr>cm_channel = ''telegram'', cm_sender = ''7'', cm_text = ''hi'', cm_requested = a, cm_chat = None, cm_attachments = []\<rparr>"

definition fresh_channels :: channel_state where
  "fresh_channels = \<lparr>ch_threads = (\<lambda>k. None), ch_windows = (\<lambda>k. []), ch_audit = [], ch_sent = []\<rparr>"

lemma sample_forwarded: "map fw_agent (ch_sent (snd (handle_message sample_channels (Some (\<lambda>f. Inr ''ok'')) 0 (sample_message (Some ''cloyd'')) fresh_channels))) = [''cloyd'']"
  by code_simp

theorem channel_admission_witness:
  "ch_sent (snd (handle_message sample_channels (Some (\<lambda>f. Inr ''ok'')) 0 (sample_message (Some ''cloyd'')) fresh_channels)) \<noteq> []
   \<and> ''7'' \<in> set (ce_allowed sample_channels ''telegram'')"
proof -
  let ?r = "handle_message sample_channels (Some (\<lambda>f. Inr ''ok'')) 0 (sample_message (Some ''cloyd'')) fresh_channels"
  have n: "ch_sent (snd ?r) \<noteq> []" using sample_forwarded by auto
  have "ch_sent fresh_channels = []" by (simp add: fresh_channels_def)
  with channel_admission [OF surjective_pairing, of sample_channels "Some (\<lambda>f. Inr ''ok'')" 0 "sample_message (Some ''cloyd'')" fresh_channels] n
  have "cm_sender (sample_message (Some ''cloyd'')) \<in> set (ce_allowed sample_channels (cm_channel (sample_message (Some ''cloyd''))))"
    by fastforce
  with n show ?thesis by (simp add: sample_message_def)
qed

lemma sample_limit: "channel_limit sample_channels ''telegram'' = Some 1" "\<not> isl (admit sample_channels (sample_message None))"
  "passed sample_channels (''telegram'', ''7'') [(0, sample_message None)] fresh_channels = [0]"
  by code_simp+

theorem channel_rate_exact_witness:
  "fst (route_message sample_channels 1000000 (sample_message None)
      (route_all sample_channels [(0, sample_message None)] fresh_channels)) = Inl Rate_exceeded"
proof -
  have k: "sender_key (sample_message None) = (''telegram'', ''7'')" "cm_channel (sample_message None) = ''telegram''"
    by (simp_all add: sender_key_def sample_message_def)
  show ?thesis
    using channel_rate_exact [of "[(0, sample_message None)]" 1000000 "sample_message None" sample_channels 1 fresh_channels]
    by (simp add: k sample_limit fresh_channels_def [THEN arg_cong, of ch_windows] recent_def usec_minute_window_def
        del: passed.simps)
qed

end
