(* ===== verification/Channel_Transports.thy ===== *)
theory Channel_Transports
  imports Channels
begin

section \<open>Transports of the messaging channels\<close>

text \<open>
  \<open>src/freyja/channel_transports.py\<close>: what the Telegram and Signal transports make of the answers of
  their servers, and the polling of the Telegram pilot (\<open>scripts/run-freyja-channels-telegram-pilot.py\<close>)
  over them. The HTTP requests are parameters; \<open>Inl why\<close> is a request that raises
  \<open>ChannelTransportError\<close> with that text.
\<close>

text \<open>The exceptions: \<open>ChannelTransportError\<close>, \<open>ChannelPolicyError\<close> of an update without a sender, and any
  other exception of a value of an unexpected shape.\<close>

datatype transport_error = Transport_failed string | No_sender string | Value_crash

definition lift_value :: "'a option \<Rightarrow> transport_error + 'a" where
  "lift_value v = (case v of None \<Rightarrow> Inl Value_crash | Some x \<Rightarrow> Inr x)"

text \<open>\<open>a or b\<close>.\<close>

definition json_first :: "json \<Rightarrow> json \<Rightarrow> json" where
  "json_first a b = (if json_truthy a then a else b)"

text \<open>The dicts among the items of \<open>v or []\<close>; iterating over a number raises. The items of a text and the
  keys of a dict are texts.\<close>

definition dict_items :: "json \<Rightarrow> json_obj list option" where
  "dict_items v =
    (if \<not> json_truthy v then Some []
     else (case v of
         JList xs \<Rightarrow> Some (concat (map (\<lambda>x. case x of JObj d \<Rightarrow> [d] | _ \<Rightarrow> []) xs))
       | JStr _ \<Rightarrow> Some []
       | JObj _ \<Rightarrow> Some []
       | _ \<Rightarrow> None))"

definition photo_attachment :: "json_obj \<Rightarrow> json_obj" where
  "photo_attachment p = [(''kind'', JStr ''image''), (''source'', JStr ''telegram''), (''file_id'', jget ''file_id'' p),
     (''file_unique_id'', jget ''file_unique_id'' p), (''width'', jget ''width'' p), (''height'', jget ''height'' p)]"

definition document_attachment :: "json \<Rightarrow> json_obj list" where
  "document_attachment v =
    (case v of
       JObj d \<Rightarrow> [[(''kind'', JStr ''document''), (''source'', JStr ''telegram''), (''file_id'', jget ''file_id'' d),
         (''file_unique_id'', jget ''file_unique_id'' d), (''filename'', jget ''file_name'' d), (''mime_type'', jget ''mime_type'' d)]]
     | _ \<Rightarrow> [])"

definition parse_telegram_update :: "json_obj \<Rightarrow> transport_error + channel_message option" where
  "parse_telegram_update u =
    (case json_first (jget ''message'' u) (jget ''edited_message'' u) of
       JObj msg \<Rightarrow>
         bind_result (lift_value (dict_or_empty (jget ''from'' msg))) (\<lambda>sender.
         bind_result (lift_value (dict_or_empty (jget ''chat'' msg))) (\<lambda>chat.
           if jget ''id'' sender = JNull \<or> jget ''id'' chat = JNull then Inl (No_sender ''Telegram update lacks sender or chat id'')
           else
            (let (agent, s) = parse_agent_command (str_strip (str_or_empty (json_first (jget ''text'' msg) (jget ''caption'' msg))))
             in bind_result (lift_value (dict_items (jget ''photo'' msg))) (\<lambda>photos.
                  Inr (Some \<lparr>cm_channel = ''telegram'', cm_sender = json_str (jget ''id'' sender), cm_text = s,
                    cm_requested = agent, cm_chat = Some (json_str (jget ''id'' chat)),
                    cm_attachments = map photo_attachment photos @ document_attachment (jget ''document'' msg)\<rparr>)))))
     | _ \<Rightarrow> Inr None)"

definition signal_attachment :: "json_obj \<Rightarrow> json_obj" where
  "signal_attachment a = [(''kind'', JStr ''attachment''), (''source'', JStr ''signal''), (''content_type'', jget ''contentType'' a),
     (''filename'', jget ''filename'' a), (''id'', jget ''id'' a)]"

definition parse_signal_event :: "json_obj \<Rightarrow> transport_error + channel_message option" where
  "parse_signal_event ev =
    (case jget ''envelope'' ev of
       JObj envelope \<Rightarrow>
         (case jget ''dataMessage'' envelope of
            JObj data \<Rightarrow>
              (let sender = json_first (jget ''sourceNumber'' envelope) (jget ''source'' envelope)
               in if \<not> json_truthy sender then Inl (No_sender ''Signal event lacks sender'')
                  else bind_result (lift_value (dict_items (jget ''attachments'' data))) (\<lambda>attachments.
                    let (agent, s) = parse_agent_command (str_strip (str_or_empty (jget ''message'' data)))
                    in Inr (Some \<lparr>cm_channel = ''signal'', cm_sender = json_str sender, cm_text = s, cm_requested = agent,
                         cm_chat = Some (json_str (json_first (jget ''sourceUuid'' envelope) sender)),
                         cm_attachments = map signal_attachment attachments\<rparr>)))
          | _ \<Rightarrow> Inr None)
     | _ \<Rightarrow> Inr None)"

text \<open>\<open>get_update_messages\<close>: one update that raises ends the whole batch.\<close>

fun telegram_batch :: "json_obj list \<Rightarrow> transport_error + (int \<times> channel_message) list" where
  "telegram_batch [] = Inr []"
| "telegram_batch (u # us) =
    bind_result (parse_telegram_update u) (\<lambda>found.
    bind_result (case (found, jget ''update_id'' u) of
        (Some m, v) \<Rightarrow> if v = JNull then Inr [] else bind_result (lift_value (py_int v)) (\<lambda>n. Inr [(n, m)])
      | (None, _) \<Rightarrow> Inr []) (\<lambda>now.
    bind_result (telegram_batch us) (\<lambda>later. Inr (now @ later))))"

definition get_update_messages ::
    "string \<Rightarrow> int \<Rightarrow> (string \<Rightarrow> (string \<times> string) list \<Rightarrow> string + json_obj) \<Rightarrow> int option \<Rightarrow> transport_error + (int \<times> channel_message) list" where
  "get_update_messages token timeout request offset =
    (if str_strip token = [] then Inl (Transport_failed ''TELEGRAM_BOT_TOKEN is not configured'')
     else (case request ''getUpdates'' ((''timeout'', show_int timeout) # (case offset of None \<Rightarrow> [] | Some n \<Rightarrow> [(''offset'', show_int n)])) of
         Inl why \<Rightarrow> Inl (Transport_failed why)
       | Inr response \<Rightarrow>
           if jget ''ok'' response \<noteq> JBool True then Inl (Transport_failed ''Telegram getUpdates failed'')
           else bind_result (lift_value (dict_items (jget ''result'' response))) telegram_batch))"

text \<open>The payload of an attachment; \<open>file\<close> downloads at most one byte more than the limit.\<close>

definition download_attachment ::
    "int \<Rightarrow> (string \<Rightarrow> (string \<times> string) list \<Rightarrow> string + json_obj) \<Rightarrow> (string \<Rightarrow> string option) \<Rightarrow> (string \<Rightarrow> string)
     \<Rightarrow> json_obj \<Rightarrow> transport_error + json_obj" where
  "download_attachment limit request file encode a =
    (if \<not> json_truthy (jget ''file_id'' a) then Inr a
     else (case request ''getFile'' [(''file_id'', json_str (jget ''file_id'' a))] of
         Inl why \<Rightarrow> Inl (Transport_failed why)
       | Inr meta \<Rightarrow>
           (case (jget ''ok'' meta = JBool True, jget ''result'' meta) of
              (True, JObj result) \<Rightarrow>
                (let size = (case jget ''file_size'' result of JInt n \<Rightarrow> Some n | JBool b \<Rightarrow> Some (if b then 1 else 0) | _ \<Rightarrow> None);
                     skipped = (\<lambda>n. jupdate a [(''payload_status'', JStr ''skipped_too_large''), (''size_bytes'', n),
                       (''max_attachment_bytes'', JInt limit)])
                 in if (case size of Some n \<Rightarrow> limit < n | None \<Rightarrow> False) then Inr (skipped (jget ''file_size'' result))
                    else if \<not> json_truthy (jget ''file_path'' result) then Inr (jupdate a [(''payload_status'', JStr ''metadata_only'')])
                    else (case file (json_str (jget ''file_path'' result)) of
                        None \<Rightarrow> Inl (Transport_failed ''Telegram file download failed'')
                      | Some payload \<Rightarrow>
                          if limit < int (length payload) then Inr (skipped (JInt (int (length payload))))
                          else Inr (jupdate a [(''payload_status'', JStr ''included_base64''), (''size_bytes'', JInt (int (length payload))),
                            (''data_base64'', JStr (encode payload))])))
            | _ \<Rightarrow> Inl (Transport_failed ''Telegram getFile failed''))))"

fun enrich_all :: "(json_obj \<Rightarrow> transport_error + json_obj) \<Rightarrow> json_obj list \<Rightarrow> transport_error + json_obj list" where
  "enrich_all f [] = Inr []"
| "enrich_all f (a # as) = bind_result (f a) (\<lambda>b. bind_result (enrich_all f as) (\<lambda>bs. Inr (b # bs)))"

definition enrich_attachments :: "(json_obj \<Rightarrow> transport_error + json_obj) \<Rightarrow> channel_message \<Rightarrow> transport_error + channel_message" where
  "enrich_attachments f m =
    (if cm_attachments m = [] then Inr m
     else bind_result (enrich_all f (cm_attachments m)) (\<lambda>as. Inr (m\<lparr>cm_attachments := as\<rparr>)))"

fun signal_batch :: "json_obj list \<Rightarrow> transport_error + channel_message list" where
  "signal_batch [] = Inr []"
| "signal_batch (e # es) =
    bind_result (parse_signal_event e) (\<lambda>found.
    bind_result (signal_batch es) (\<lambda>later. Inr (case found of None \<Rightarrow> later | Some m \<Rightarrow> m # later)))"

text \<open>The dicts among \<open>for event in v\<close>.\<close>

definition event_dicts :: "json \<Rightarrow> json_obj list option" where
  "event_dicts v = (case v of JNull \<Rightarrow> None | JBool _ \<Rightarrow> None | JInt _ \<Rightarrow> None | _ \<Rightarrow> dict_items v)"

text \<open>\<open>None\<close> as the answer of the request is an exception of it.\<close>

definition signal_receive :: "bool \<Rightarrow> json option \<Rightarrow> transport_error + channel_message list" where
  "signal_receive configured answer =
    (if \<not> configured then Inl (Transport_failed ''SIGNAL_ACCOUNT_NUMBER and SIGNAL_REST_API_URL are required'')
     else (case answer of
         None \<Rightarrow> Inl (Transport_failed ''Signal REST request failed'')
       | Some data \<Rightarrow>
           (let events = (case data of JList _ \<Rightarrow> Some data | JObj d \<Rightarrow> (case map_of d ''messages'' of None \<Rightarrow> Some (JList []) | Some v \<Rightarrow> Some v)
                | _ \<Rightarrow> Some (JList []))
            in bind_result (lift_value (Option.bind events event_dicts)) signal_batch)))"

subsection \<open>Polling\<close>

text \<open>How a message of a poll ends. The replies of the pilot are sent by \<open>reply\<close>, which says whether it
  raised.\<close>

datatype poll_outcome = Handled | Denied channel_error | Not_enriched transport_error | Not_replied

record poll_env =
  pe_channels :: channel_env
  pe_client :: "(forwarded \<Rightarrow> string + string) option"
  pe_enrich :: "json_obj \<Rightarrow> transport_error + json_obj"
  pe_reply :: "string \<Rightarrow> string \<Rightarrow> bool"
  pe_forced :: string
  pe_clock :: "int \<Rightarrow> int"          \<comment> \<open>when the update of this id is handled\<close>

definition poll_message :: "poll_env \<Rightarrow> int \<times> channel_message \<Rightarrow> channel_state \<Rightarrow> poll_outcome \<times> channel_state" where
  "poll_message P u st =
    (case enrich_attachments (pe_enrich P) (snd u) of
       Inl e \<Rightarrow> (Not_enriched e, st)
     | Inr m \<Rightarrow>
         (case handle_message (pe_channels P) (pe_client P) (pe_clock P (fst u))
             (if pe_forced P = [] then m else m\<lparr>cm_requested := Some (pe_forced P)\<rparr>) st of
            (Inl e, st1) \<Rightarrow> (Denied e, st1)
          | (Inr answer, st1) \<Rightarrow>
              (if truthy (cm_chat m) \<and> \<not> pe_reply P (the (cm_chat m)) answer then Not_replied else Handled, st1)))"

fun poll_messages :: "poll_env \<Rightarrow> (int \<times> channel_message) list \<Rightarrow> channel_state \<Rightarrow> poll_outcome list \<times> channel_state" where
  "poll_messages P [] st = ([], st)"
| "poll_messages P (u # us) st =
    (let (out, st1) = poll_message P u st; (outs, st2) = poll_messages P us st1 in (out # outs, st2))"

definition next_offset :: "int option \<Rightarrow> int list \<Rightarrow> int option" where
  "next_offset offset ids =
    map_option (\<lambda>n. n + 1) (fold (\<lambda>i best. Some (case best of None \<Rightarrow> i | Some b \<Rightarrow> max b i)) ids (map_option (\<lambda>n. n - 1) offset))"

text \<open>\<open>run_once_forced_agent\<close> on the answer of the server; without a forced agent it is \<open>run_once\<close>.\<close>

definition run_once :: "poll_env \<Rightarrow> transport_error + (int \<times> channel_message) list \<Rightarrow> int option \<Rightarrow> channel_state
    \<Rightarrow> (transport_error + poll_outcome list) \<times> int option \<times> channel_state" where
  "run_once P found offset st =
    (case found of
       Inl e \<Rightarrow> (Inl e, offset, st)
     | Inr us \<Rightarrow> (let (outs, st1) = poll_messages P us st in (Inr outs, next_offset offset (map fst us), st1)))"

text \<open>The loop of the pilot makes a new service for every poll: its rate windows are empty, while the
  threads and the audit log stay in the files. An exception of the poll ends the loop.\<close>

definition fresh_service :: "channel_state \<Rightarrow> channel_state" where
  "fresh_service st = st\<lparr>ch_windows := (\<lambda>k. [])\<rparr>"

fun pilot_loop :: "poll_env \<Rightarrow> (int option \<Rightarrow> transport_error + (int \<times> channel_message) list) list \<Rightarrow> int option \<Rightarrow> channel_state
    \<Rightarrow> (transport_error + poll_outcome list) list \<times> int option \<times> channel_state" where
  "pilot_loop P [] offset st = ([], offset, st)"
| "pilot_loop P (server # servers) offset st =
    (case run_once P (server offset) offset (fresh_service st) of
       (Inl e, offset1, st1) \<Rightarrow> ([Inl e], offset1, st1)
     | (Inr outs, offset1, st1) \<Rightarrow>
         (let (rs, offset2, st2) = pilot_loop P servers offset1 st1 in (Inr outs # rs, offset2, st2)))"

subsection \<open>What the transports promise\<close>

text \<open>A batch holds the messages of its updates in their order, and fails when one of them does.\<close>

lemma telegram_batch_fails: "u \<in> set us \<Longrightarrow> parse_telegram_update u = Inl e \<Longrightarrow> isl (telegram_batch us)"
proof (induction us)
  case (Cons v us)
  show ?case
  proof (cases "parse_telegram_update v")
    case (Inr found)
    with Cons have "isl (telegram_batch us)" by auto
    then show ?thesis using Inr by (auto simp: bind_result_def split: sum.splits)
  qed (simp add: bind_result_def)
qed simp

text \<open>C38. A Telegram update whose message has no sender or no chat id makes the poll raise before anything is
  handled, whatever other updates came with it, and the offset stays: the loop of the pilot ends, and
  so does every later one as long as the server returns that update.\<close>

theorem telegram_poison_update:
  assumes "str_strip token \<noteq> []" and "request ''getUpdates'' args = Inr response" and "jget ''ok'' response = JBool True"
    and "args = (''timeout'', show_int timeout) # (case offset of None \<Rightarrow> [] | Some n \<Rightarrow> [(''offset'', show_int n)])"
    and "jget ''result'' response = JList us" and "JObj u \<in> set us"
    and "jget ''message'' u = JObj msg" and "msg \<noteq> []" and "jget ''from'' msg = JNull"
  shows "\<exists>e. run_once P (get_update_messages token timeout request offset) offset st = (Inl e, offset, st)"
proof -
  have p: "isl (parse_telegram_update u)"
    using assms(7-9)
    by (auto simp: parse_telegram_update_def json_first_def dict_or_empty_def lift_value_def bind_result_def jget_def
        split: option.splits sum.splits)
  have "us \<noteq> []" using assms(6) by auto
  then have "dict_items (JList us) = Some (concat (map (\<lambda>x. case x of JObj d \<Rightarrow> [d] | _ \<Rightarrow> []) us))"
    by (simp add: dict_items_def)
  moreover have "u \<in> set (concat (map (\<lambda>x. case x of JObj d \<Rightarrow> [d] | _ \<Rightarrow> []) us))"
    using assms(6) by (auto intro!: bexI [of _ "JObj u"])
  ultimately have "isl (get_update_messages token timeout request offset)"
    using p telegram_batch_fails [of u] assms(1-5)
    by (cases "parse_telegram_update u") (auto simp: get_update_messages_def lift_value_def)
  then show ?thesis by (cases "get_update_messages token timeout request offset") (simp_all add: run_once_def)
qed

text \<open>The window of a sender is at most as long as the messages that its service has handled.\<close>

lemma check_rate_length: "length (snd (check_rate n now w)) \<le> Suc (length w)"
  using length_dropWhile_le [of "\<lambda>t. usec_minute_window \<le> now - t" w] by (simp add: check_rate_def Let_def)

lemma route_windows_length:
  "length (ch_windows (snd (route_message E now m st)) k) \<le> Suc (length (ch_windows st k))"
  by (auto simp: route_message_def Let_def open_thread_windows split: sum.splits option.splits prod.splits)
    (metis check_rate_length snd_conv)+

lemma route_not_rate:
  assumes "fst (route_message E now m st) = Inl Rate_exceeded" and "channel_limit E (cm_channel m) = Some n" and "0 < n"
  shows "n \<le> int (length (ch_windows st (sender_key m)))"
proof -
  have a: "\<not> isl (admit E m)"
  proof
    assume "isl (admit E m)"
    then obtain e where e: "admit E m = Inl e" by (cases "admit E m") auto
    with assms(1) have "e = Rate_exceeded" by (simp add: route_message_def)
    with e admit_not_rate show False by blast
  qed
  then have "\<not> passes E now m st" using assms(1) by (simp add: passes_def)
  with route_window(1) [OF assms(2) a] have "\<not> fst (check_rate n now (ch_windows st (sender_key m)))" by simp
  then show ?thesis
    using assms(3) length_dropWhile_le [of "\<lambda>t. usec_minute_window \<le> now - t" "ch_windows st (sender_key m)"]
    by (simp add: check_rate_def Let_def split: if_splits)
qed

lemma handle_windows: "client = Some send \<Longrightarrow>
    ch_windows (snd (handle_message E client now m st)) = ch_windows (snd (route_message E now m st))"
  by (auto simp: handle_message_def Let_def write_channel_audit_def split: sum.splits prod.splits)

lemma handle_rate: "fst (handle_message E client now m st) = Inl Rate_exceeded \<Longrightarrow> fst (route_message E now m st) = Inl Rate_exceeded"
  by (auto simp: handle_message_def Let_def split: sum.splits prod.splits option.splits)

lemma poll_message_windows: "length (ch_windows (snd (poll_message P u st)) k) \<le> Suc (length (ch_windows st k))"
proof (cases "enrich_attachments (pe_enrich P) (snd u)")
  case (Inr m)
  let ?m = "if pe_forced P = [] then m else m\<lparr>cm_requested := Some (pe_forced P)\<rparr>"
  have "snd (poll_message P u st) = snd (handle_message (pe_channels P) (pe_client P) (pe_clock P (fst u)) ?m st)"
    using Inr by (simp add: poll_message_def split: sum.splits prod.splits)
  then show ?thesis
    using route_windows_length handle_windows by (cases "pe_client P") (simp_all add: handle_message_def)
qed (simp add: poll_message_def)

lemma enrich_channel: "enrich_attachments f m = Inr m' \<Longrightarrow> cm_channel m' = cm_channel m"
  by (auto simp: enrich_attachments_def bind_result_Inr split: if_splits)

lemma poll_message_rate:
  assumes "fst (poll_message P u st) = Denied Rate_exceeded" and "channel_limit (pe_channels P) (cm_channel (snd u)) = Some n" and "0 < n"
  shows "\<exists>k. n \<le> int (length (ch_windows st k))"
proof -
  from assms(1) obtain m where m: "enrich_attachments (pe_enrich P) (snd u) = Inr m"
    "fst (handle_message (pe_channels P) (pe_client P) (pe_clock P (fst u))
       (if pe_forced P = [] then m else m\<lparr>cm_requested := Some (pe_forced P)\<rparr>) st) = Inl Rate_exceeded"
    by (auto simp: poll_message_def split: sum.splits prod.splits if_splits)
  have "channel_limit (pe_channels P) (cm_channel (if pe_forced P = [] then m else m\<lparr>cm_requested := Some (pe_forced P)\<rparr>)) = Some n"
    using enrich_channel [OF m(1)] assms(2) by simp
  from route_not_rate [OF handle_rate [OF m(2)] this assms(3)] show ?thesis by (rule exI)
qed

lemma poll_messages_rate:
  assumes "\<And>u. u \<in> set us \<Longrightarrow> channel_limit (pe_channels P) (cm_channel (snd u)) = Some n" and "0 < n"
    and "\<And>k. int (length (ch_windows st k)) + int (length us) \<le> n"
  shows "Denied Rate_exceeded \<notin> set (fst (poll_messages P us st))"
  using assms(1,3)
proof (induction us arbitrary: st)
  case (Cons u us)
  have "fst (poll_message P u st) \<noteq> Denied Rate_exceeded"
  proof
    assume "fst (poll_message P u st) = Denied Rate_exceeded"
    from poll_message_rate [OF this _ assms(2)] Cons.prems(1) obtain k where "n \<le> int (length (ch_windows st k))" by auto
    with Cons.prems(2) [of k] show False by simp
  qed
  moreover have "Denied Rate_exceeded \<notin> set (fst (poll_messages P us (snd (poll_message P u st))))"
  proof (rule Cons.IH)
    fix k
    show "int (length (ch_windows (snd (poll_message P u st)) k)) + int (length us) \<le> n"
      using poll_message_windows [of P u st k] Cons.prems(2) [of k] by simp
  qed (use Cons.prems in simp)
  ultimately show ?case by (simp add: split_beta Let_def)
qed simp

text \<open>C37. The rate limit of a channel does not limit the Telegram pilot: its loop makes a new service, with
  empty windows, for every poll. When no poll brings more messages than the limit \<open>n\<close>, none is ever
  refused for its rate, however many polls there are in a minute.\<close>

theorem pilot_forgets_rate:
  assumes "channel_limit (pe_channels P) ''telegram'' = Some n" and "0 < n"
    and "\<And>server off us u. server \<in> set servers \<Longrightarrow> server off = Inr us \<Longrightarrow> u \<in> set us \<Longrightarrow> cm_channel (snd u) = ''telegram''"
    and "\<And>server off us. server \<in> set servers \<Longrightarrow> server off = Inr us \<Longrightarrow> int (length us) \<le> n"
    and "Inr outs \<in> set (fst (pilot_loop P servers offset st))"
  shows "Denied Rate_exceeded \<notin> set outs"
  using assms(3-5)
proof (induction servers arbitrary: offset st)
  case (Cons server servers)
  show ?case
  proof (cases "server offset")
    case (Inl e)
    then show ?thesis using Cons.prems(3) by (simp add: run_once_def)
  next
    case (Inr us)
    let ?first = "poll_messages P us (fresh_service st)"
    have now: "Denied Rate_exceeded \<notin> set (fst ?first)"
      by (rule poll_messages_rate [OF _ assms(2)])
        (use Cons.prems(1) [OF list.set_intros(1) Inr] Cons.prems(2) [OF list.set_intros(1) Inr] assms(1) in
          \<open>auto simp: fresh_service_def\<close>)
    have "Inr outs = Inr (fst ?first) \<or> Inr outs \<in> set (fst (pilot_loop P servers (next_offset offset (map fst us)) (snd ?first)))"
      using Cons.prems(3) Inr by (auto simp: run_once_def Let_def split_beta)
    then show ?thesis
    proof
      assume "Inr outs \<in> set (fst (pilot_loop P servers (next_offset offset (map fst us)) (snd ?first)))"
      then show ?thesis
        by (rule Cons.IH [OF Cons.prems(1) [OF list.set_intros(2)] Cons.prems(2) [OF list.set_intros(2)], rotated -1])
    qed (use now in simp)
  qed
qed simp

text \<open>The payload that an attachment gets is at most as long as the limit.\<close>

lemma jget_jupdate_other: "k \<notin> fst ` set e \<Longrightarrow> jget k (jupdate d e) = jget k d"
  by (induction e arbitrary: d) (auto simp: jupdate_def)

lemma download_bounded:
  assumes "download_attachment limit request file encode a = Inr b" and "jget ''data_base64'' a = JNull"
  shows "jget ''data_base64'' b = JNull \<or> (\<exists>payload. jget ''data_base64'' b = JStr (encode payload) \<and> int (length payload) \<le> limit)"
proof -
  have j: "jget ''data_base64'' (jupdate a [(''payload_status'', x), (''size_bytes'', y), (''max_attachment_bytes'', z)]) = JNull"
    "jget ''data_base64'' (jupdate a [(''payload_status'', x)]) = JNull"
    "jget ''data_base64'' (jupdate a [(''payload_status'', x), (''size_bytes'', y), (''data_base64'', z)]) = z" for x y z
    using assms(2) by (simp_all add: jupdate_def)
  from assms j show ?thesis
    by (auto simp: download_attachment_def Let_def split: if_splits sum.splits prod.splits json.splits bool.splits option.splits)
qed


subsection \<open>Concrete polls\<close>

definition sample_poll :: poll_env where
  "sample_poll = \<lparr>pe_channels = sample_channels, pe_client = Some (\<lambda>f. Inr ''ok''), pe_enrich = Inr, pe_reply = (\<lambda>c t. True),
     pe_forced = [], pe_clock = (\<lambda>i. i)\<rparr>"

theorem pilot_forgets_rate_witness:
  "Denied Rate_exceeded \<notin> set (concat (map projr (fst (pilot_loop sample_poll
       [\<lambda>x. Inr [(1, sample_message None)], \<lambda>x. Inr [(2, sample_message None)]] None fresh_channels))))"
proof -
  let ?l = "pilot_loop sample_poll [\<lambda>x. Inr [(1, sample_message None)], \<lambda>x. Inr [(2, sample_message None)]] None fresh_channels"
  have l: "list_all (\<lambda>r. \<not> isl r) (fst ?l)" by code_simp
  have "channel_limit (pe_channels sample_poll) ''telegram'' = Some 1" using sample_limit(1) by (simp add: sample_poll_def)
  then have "Denied Rate_exceeded \<notin> set outs" if "Inr outs \<in> set (fst ?l)" for outs
    by (rule pilot_forgets_rate [OF _ _ _ _ that]) (auto simp: sample_message_def)
  then have "Denied Rate_exceeded \<notin> set (projr r)" if "r \<in> set (fst ?l)" for r
    using l that by (cases r) (auto simp: list_all_iff simp del: pilot_loop.simps)
  then show ?thesis by (auto simp del: pilot_loop.simps)
qed

definition poison_update :: json_obj where
  "poison_update = [(''update_id'', JInt 5), (''message'', JObj [(''text'', JStr ''hi''), (''chat'', JObj [(''id'', JInt 1)])])]"

definition sample_server :: "string \<Rightarrow> (string \<times> string) list \<Rightarrow> string + json_obj" where
  "sample_server path args = Inr [(''ok'', JBool True), (''result'', JList [JObj poison_update])]"

theorem telegram_poison_update_witness:
  "\<exists>e. run_once sample_poll (get_update_messages ''token'' 25 sample_server (Some 5)) (Some 5) fresh_channels = (Inl e, Some 5, fresh_channels)"
  by (rule telegram_poison_update [where u = poison_update and us = "[JObj poison_update]"
        and msg = "[(''text'', JStr ''hi''), (''chat'', JObj [(''id'', JInt 1)])]"
        and response = "[(''ok'', JBool True), (''result'', JList [JObj poison_update])]"
        and args = "[(''timeout'', show_int 25), (''offset'', show_int 5)]"])
    (simp_all add: sample_server_def poison_update_def jget_def str_strip_def is_space_def)

end
