(* ===== verification/Smith_Loop.thy ===== *)
theory Smith_Loop
  imports Py_Json Py_Datetime
begin

section \<open>The ledger of the Cloyd-Smith loop\<close>

text \<open>
  \<open>CloydSmithJobStore\<close> of \<open>src/freyja/cloyd_smith_loop.py\<close>: jobs that Cloyd supervises and Smith works
  on, their events and the heartbeats of their runs, and the summaries of them. The ledger is three
  tables; a method takes the clock once, where the code reads it at each statement, and returns its
  result or the exception it raises, and the ledger. JSON columns hold their values. Event ids
  are left out.
\<close>

subsection \<open>Rows\<close>

datatype loop_status = Loop_queued | Loop_running | Loop_needs_review | Loop_blocked | Loop_done | Loop_stopped | Loop_stale

fun loop_status_value :: "loop_status \<Rightarrow> string" where
  "loop_status_value Loop_queued = ''queued''"
| "loop_status_value Loop_running = ''running''"
| "loop_status_value Loop_needs_review = ''needs_review''"
| "loop_status_value Loop_blocked = ''blocked''"
| "loop_status_value Loop_done = ''done''"
| "loop_status_value Loop_stopped = ''stopped''"
| "loop_status_value Loop_stale = ''stale''"

definition LOOP_STATUSES :: "loop_status list" where
  "LOOP_STATUSES = [Loop_queued, Loop_running, Loop_needs_review, Loop_blocked, Loop_done, Loop_stopped, Loop_stale]"

definition loop_status_of :: "string \<Rightarrow> loop_status option" where
  "loop_status_of s = List.find (\<lambda>v. loop_status_value v = s) LOOP_STATUSES"

record loop_create =
  lc_objective :: string
  lc_alias :: string
  lc_criteria :: "string list"
  lc_prompt :: string
  lc_by :: string
  lc_metadata :: json_obj

record loop_update =
  lu_status :: "loop_status option"
  lu_prompt :: "string option"
  lu_next :: "string option"
  lu_evidence :: "json_obj option"
  lu_metadata :: "json_obj option"
  lu_error :: "string option"

record loop_job =
  lj_id :: string
  lj_objective :: string
  lj_alias :: string
  lj_criteria :: "string list"
  lj_prompt :: string
  lj_status :: loop_status
  lj_by :: string
  lj_metadata :: json_obj
  lj_next :: "string option"
  lj_evidence :: "json_obj option"
  lj_error :: "string option"
  lj_created :: utc
  lj_updated :: utc
  lj_completed :: "utc option"

record run_beat =
  hb_job :: string
  hb_agent :: string
  hb_alias :: string
  hb_session :: "string option"
  hb_state :: string
  hb_phase :: string
  hb_action :: string
  hb_message :: string
  hb_error :: string
  hb_dir :: string
  hb_started :: "utc option"
  hb_updated :: utc
  hb_limit :: int
  hb_stop :: "string option"

record loop_event =
  le_job :: string
  le_type :: string
  le_payload :: json_obj
  le_at :: utc

record ledger =
  lg_jobs :: "loop_job list"
  lg_events :: "loop_event list"
  lg_beats :: "run_beat list"

datatype loop_error = Unknown_job string | Duplicate_job string

subsection \<open>Jobs\<close>

definition loop_job_of :: "utc \<Rightarrow> string \<Rightarrow> loop_create \<Rightarrow> loop_job" where
  "loop_job_of now i c = \<lparr>lj_id = i, lj_objective = lc_objective c, lj_alias = lc_alias c, lj_criteria = lc_criteria c,
     lj_prompt = lc_prompt c, lj_status = Loop_queued, lj_by = lc_by c, lj_metadata = lc_metadata c,
     lj_next = Some ''send_to_smith'', lj_evidence = None, lj_error = None, lj_created = now, lj_updated = now, lj_completed = None\<rparr>"

text \<open>The row stores \<open>json.dumps(last_evidence or {})\<close>.\<close>

definition loop_row :: "loop_job \<Rightarrow> loop_job" where
  "loop_row j = j\<lparr>lj_evidence := Some (case lj_evidence j of None \<Rightarrow> [] | Some e \<Rightarrow> e)\<rparr>"

definition create_loop_job :: "utc \<Rightarrow> string \<Rightarrow> loop_create \<Rightarrow> ledger \<Rightarrow> (loop_error + loop_job) \<times> ledger" where
  "create_loop_job now i c L =
    (if \<exists>j \<in> set (lg_jobs L). lj_id j = i then (Inl (Duplicate_job i), L)
     else (Inr (loop_job_of now i c), L\<lparr>lg_jobs := lg_jobs L @ [loop_row (loop_job_of now i c)]\<rparr>))"

definition get_loop_job :: "string \<Rightarrow> ledger \<Rightarrow> loop_error + loop_job" where
  "get_loop_job i L = (case row_of lj_id i (lg_jobs L) of None \<Rightarrow> Inl (Unknown_job i) | Some j \<Rightarrow> Inr j)"

definition ACTIVE_STATUSES :: "loop_status list" where
  "ACTIVE_STATUSES = [Loop_queued, Loop_running, Loop_needs_review, Loop_stale]"

definition list_active :: "int \<Rightarrow> ledger \<Rightarrow> loop_job list" where
  "list_active n L = sql_limit (max 1 (min n 500))
     (sort_key (\<lambda>j. (iso_utc (lj_created j), lj_id j)) (filter (\<lambda>j. lj_status j \<in> set ACTIVE_STATUSES) (lg_jobs L)))"

definition completed_key :: "loop_job \<Rightarrow> string \<times> string" where
  "completed_key j = ((case lj_completed j of None \<Rightarrow> [] | Some t \<Rightarrow> iso_utc t), iso_utc (lj_updated j))"

definition list_recent_terminal :: "int \<Rightarrow> ledger \<Rightarrow> loop_job list" where
  "list_recent_terminal n L = sql_limit (max 1 (min n 100))
     (order_desc completed_key (filter (\<lambda>j. lj_status j \<in> {Loop_done, Loop_blocked, Loop_stopped}) (lg_jobs L)))"

definition CLOSED_STATUSES :: "loop_status list" where
  "CLOSED_STATUSES = [Loop_blocked, Loop_done, Loop_stopped, Loop_stale]"

definition apply_update :: "utc \<Rightarrow> loop_update \<Rightarrow> loop_job \<Rightarrow> loop_job" where
  "apply_update now u j =
    (let s = (case lu_status u of None \<Rightarrow> lj_status j | Some s \<Rightarrow> s);
         keep = (\<lambda>new old. case new of None \<Rightarrow> old | Some _ \<Rightarrow> new)
     in j\<lparr>lj_status := s, lj_prompt := (case lu_prompt u of None \<Rightarrow> lj_prompt j | Some p \<Rightarrow> p),
          lj_next := keep (lu_next u) (lj_next j),
          lj_evidence := (case lu_evidence u of None \<Rightarrow> lj_evidence j | Some e \<Rightarrow> Some e),
          lj_metadata := (case lu_metadata u of None \<Rightarrow> lj_metadata j | Some m \<Rightarrow> m),
          lj_error := keep (lu_error u) (lj_error j), lj_updated := now,
          lj_completed := (if s \<in> set CLOSED_STATUSES then Some now
            else if lj_status j \<in> set CLOSED_STATUSES then None else lj_completed j)\<rparr>)"

definition update_loop_job :: "utc \<Rightarrow> string \<Rightarrow> loop_update \<Rightarrow> ledger \<Rightarrow> (loop_error + loop_job) \<times> ledger" where
  "update_loop_job now i u L =
    (case get_loop_job i L of
       Inl e \<Rightarrow> (Inl e, L)
     | Inr j \<Rightarrow>
         (let j1 = apply_update now u j
          in (Inr j1, L\<lparr>lg_jobs := sql_update (\<lambda>r. lj_id r = i) (\<lambda>r. loop_row j1) (lg_jobs L)\<rparr>)))"

definition no_update :: loop_update where
  "no_update = \<lparr>lu_status = None, lu_prompt = None, lu_next = None, lu_evidence = None, lu_metadata = None, lu_error = None\<rparr>"

subsection \<open>Events and heartbeats\<close>

definition add_loop_event :: "utc \<Rightarrow> string \<Rightarrow> string \<Rightarrow> json_obj \<Rightarrow> ledger \<Rightarrow> ledger" where
  "add_loop_event now i t p L = L\<lparr>lg_events := lg_events L @ [\<lparr>le_job = i, le_type = t, le_payload = p, le_at = now\<rparr>]\<rparr>"

definition loop_events :: "string \<Rightarrow> int \<Rightarrow> ledger \<Rightarrow> loop_event list" where
  "loop_events i n L = sql_limit (max 1 (min n 200)) (order_desc (\<lambda>e. iso_utc (le_at e)) (filter (\<lambda>e. le_job e = i) (lg_events L)))"

definition get_beat :: "string \<Rightarrow> ledger \<Rightarrow> run_beat option" where
  "get_beat i L = row_of hb_job i (lg_beats L)"

definition record_beat :: "run_beat \<Rightarrow> ledger \<Rightarrow> run_beat \<times> ledger" where
  "record_beat b L =
    (let existing = get_beat (hb_job b) L;
         started = (case hb_started b of
             Some t \<Rightarrow> Some t
           | None \<Rightarrow> (case existing of None \<Rightarrow> Some (hb_updated b) | Some e \<Rightarrow> hb_started e));
         stored = b\<lparr>hb_started := started\<rparr>;
         row = stored\<lparr>hb_started := Some (case started of None \<Rightarrow> hb_updated b | Some t \<Rightarrow> t)\<rparr>
     in (stored, L\<lparr>lg_beats := (if existing = None then lg_beats L @ [row]
           else sql_update (\<lambda>r. hb_job r = hb_job b) (\<lambda>r. row) (lg_beats L))\<rparr>))"

definition usec_second :: int where "usec_second = 1000000"

definition beat_is_stale :: "utc \<Rightarrow> run_beat \<Rightarrow> bool" where
  "beat_is_stale now b \<longleftrightarrow> hb_limit b * usec_second < now - hb_updated b"

text \<open>\<open>int(d.total_seconds())\<close> rounds towards zero.\<close>

definition whole_seconds :: "int \<Rightarrow> int" where
  "whole_seconds d = (if d < 0 then - (- d div usec_second) else d div usec_second)"

definition jtime :: "utc \<Rightarrow> json" where "jtime t = JStr (iso_utc t)"

definition beat_summary :: "utc \<Rightarrow> run_beat \<Rightarrow> json_obj" where
  "beat_summary now b =
    (let elapsed = whole_seconds (now - (case hb_started b of None \<Rightarrow> hb_updated b | Some t \<Rightarrow> t));
         age = whole_seconds (now - hb_updated b);
         old = (hb_state b = ''running'' \<and> hb_limit b < age)
     in [(''job_id'', JStr (hb_job b)), (''agent'', JStr (hb_agent b)), (''alias'', JStr (hb_alias b)), (''session_id'', jopt (hb_session b)),
         (''state'', JStr (if old \<and> hb_state b = ''running'' then ''stale'' else hb_state b)), (''phase'', JStr (hb_phase b)),
         (''last_action'', JStr (hb_action b)), (''last_message'', JStr (hb_message b)), (''last_error'', JStr (hb_error b)),
         (''working_directory'', JStr (hb_dir b)), (''updated_at'', jtime (hb_updated b)),
         (''elapsed_seconds'', JInt (max elapsed 0)), (''heartbeat_age_seconds'', JInt (max age 0)),
         (''stale_after_seconds'', JInt (hb_limit b)), (''is_stale'', JBool old), (''stop_reason'', jopt (hb_stop b))])"

definition stale_beat :: "utc \<Rightarrow> run_beat \<Rightarrow> run_beat" where
  "stale_beat now b = b\<lparr>hb_state := ''stale'', hb_phase := ''stale'', hb_action := ''operator_review'',
     hb_error := ''No meaningful progress for '' @ show_int (hb_limit b) @ '' seconds'', hb_updated := now,
     hb_stop := Some ''stale_timeout''\<rparr>"

definition mark_stale_run :: "utc \<Rightarrow> loop_job \<Rightarrow> run_beat list \<times> ledger \<Rightarrow> run_beat list \<times> ledger" where
  "mark_stale_run now j R =
    (case get_beat (lj_id j) (snd R) of
       None \<Rightarrow> R
     | Some b \<Rightarrow>
         (if lj_status j \<noteq> Loop_running \<or> \<not> beat_is_stale now b then R
          else (let s = stale_beat now b;
                    seen = [(''heartbeat'', JObj (beat_summary now s))];
                    L1 = snd (record_beat s (snd R));
                    L2 = snd (update_loop_job now (lj_id j) (no_update\<lparr>lu_status := Some Loop_stale,
                      lu_next := Some ''inspect_opencode_output_or_restart'', lu_error := Some (hb_error s), lu_evidence := Some seen\<rparr>) L1)
                in (fst R @ [s], add_loop_event now (lj_id j) ''run_stale'' seen L2))))"

definition mark_stale_runs :: "utc \<Rightarrow> ledger \<Rightarrow> run_beat list \<times> ledger" where
  "mark_stale_runs now L = fold (mark_stale_run now) (list_active 50 L) ([], L)"

subsection \<open>Replacement chains and prompts\<close>

text \<open>\<open>x in {...}\<close> raises for a list or dict: \<open>None\<close>.\<close>

definition REPLACEMENT_SOURCES :: "string list" where
  "REPLACEMENT_SOURCES = [''agent-runs-suggested-replacement'', ''cloyd_smith_replace'', ''agent-runs-replacement'']"

definition is_replacement_source :: "json \<Rightarrow> bool option" where
  "is_replacement_source v =
    (case v of JStr s \<Rightarrow> Some (s \<in> set REPLACEMENT_SOURCES) | JList _ \<Rightarrow> None | JObj _ \<Rightarrow> None | _ \<Rightarrow> Some False)"

lemma size_jget: "size (jget k d) \<le> size (JObj d)"
proof (induction d)
  case (Cons kv d)
  then show ?case by (cases kv) (auto simp: jget_def)
qed (simp add: jget_def)

lemma size_jget_obj: "jget k d = JObj e \<Longrightarrow> size (JObj e) < size (JObj d)"
proof (induction d)
  case (Cons kv d)
  then show ?case by (cases kv) (auto simp: jget_def split: if_splits)
qed (simp add: jget_def)

function replacement_chain_depth :: "json \<Rightarrow> int option" where
  "replacement_chain_depth v =
    (case v of
       JObj d \<Rightarrow>
         (case is_replacement_source (jget ''source'' d) of
            None \<Rightarrow> None
          | Some b \<Rightarrow>
              (case jget ''parent_metadata'' d of
                 JObj e \<Rightarrow> map_option (\<lambda>n. n + (if b then 1 else 0)) (replacement_chain_depth (JObj e))
               | _ \<Rightarrow> Some (if b then 1 else 0)))
     | _ \<Rightarrow> Some 0)"
  by pat_completeness auto
termination by (relation "measure size") (auto dest: size_jget_obj)

declare replacement_chain_depth.simps [simp del]

definition line_feed :: string where "line_feed = [CHR 0x0A]"

fun sort_json :: "json \<Rightarrow> json" where
  "sort_json (JObj d) = JObj (sort_key fst (map (\<lambda>(k, v). (k, sort_json v)) d))"
| "sort_json (JList xs) = JList (map sort_json xs)"
| "sort_json v = v"

text \<open>The lines that both prompts share.\<close>

definition beat_dir :: "run_beat option \<Rightarrow> string" where
  "beat_dir b = (case b of None \<Rightarrow> [] | Some b \<Rightarrow> hb_dir b)"

definition blocked_reason :: "loop_job \<Rightarrow> string option \<Rightarrow> string" where
  "blocked_reason j err = or_else err (or_else (lj_error j) [])"

definition blocked_lines :: "loop_job \<Rightarrow> run_beat option \<Rightarrow> string option \<Rightarrow> string list" where
  "blocked_lines j b err =
    [''blocked_job_id: '' @ lj_id j, ''blocked_objective: '' @ lj_objective j, ''blocked_reason: '' @ blocked_reason j err,
     ''working_directory: '' @ beat_dir b, ''metadata: '' @ json_dumps (sort_json (JObj (lj_metadata j)))]"

definition replacement_job_prompt :: "loop_job \<Rightarrow> run_beat option \<Rightarrow> string option \<Rightarrow> string" where
  "replacement_job_prompt j b err = str_join line_feed
    ([''Cloyd, use the canonical Agent Runs monitor as source of truth and do not start a fresh OpenCode session just to inspect this old job.'',
      ''This job is blocked because its evidence is too weak or timeout-only for the original broad objective.'']
     @ blocked_lines j b err
     @ [''Use http://100.115.228.56:8000/agent-runs/api/status as the source of truth.'',
      ''Draft a smaller replacement job that can clear the queue without blind retrying.'',
      ''The replacement must include:'',
      ''- exact target files or service URL'',
      ''- at most one small reversible change or one read-only inspection'',
      ''- expected evidence: diff or explicit no-change reason'',
      ''- verification steps and served-page/test evidence'',
      ''- the Smith/OpenCode alias to use if known'',
      ''Tell me the replacement prompt to submit, or say this should remain blocked and why.''])"

definition bounded_replacement_prompt :: "loop_job \<Rightarrow> run_beat option \<Rightarrow> string option \<Rightarrow> bool \<Rightarrow> string" where
  "bounded_replacement_prompt j b err smaller = str_join line_feed
    ([''Smith, this is a bounded replacement for a blocked Cloyd-Smith job. Do not retry the old session and do not broaden the task.'']
     @ blocked_lines j b err @ [''Task:'']
     @ (if smaller then
          [''- The previous bounded job hit a Smith busy timeout. Make this replacement smaller than the timed-out job.'',
           ''- Perform only one read-only check against the most specific file or URL named in the blocked reason.'',
           ''- Do not run broad searches, dependency installs, dev servers, or multi-file inspections.''] else [])
     @ [''- Perform one read-only inventory of the exact files, service URL, or narrow surface named above.'',
        ''- If the blocked reason names files, inspect only those files unless one adjacent route/module file is required to understand them.'',
        ''- Use .venv/bin/python or python3 for Python checks; do not call bare python.'',
        ''- Do not edit files, start broad implementation work, or create a new unrelated session.'',
        ''Acceptance criteria:'',
        ''- Report the files or URL inspected.'',
        ''- State whether any existing change is present.'',
        ''- Name the smallest safe next task, or say no action is needed.'',
        ''- Include verification evidence or the exact reason verification was not possible.''])"

subsection \<open>The summary of a job\<close>

definition expected_smith_alias :: "loop_job \<Rightarrow> string option" where
  "expected_smith_alias j =
    (let m = lj_metadata j;
         explicit = (case jget ''alias'' m of JStr s \<Rightarrow> if str_strip s \<in> {''atlas-dashboard'', ''freyja-code''} then Some (str_strip s) else None | _ \<Rightarrow> None);
         haystack = str_lower (str_join line_feed
           [lj_objective j, lj_prompt j, str_or_empty (jget ''source_directory'' m), str_or_empty (jget ''url'' m), str_or_empty (jget ''repository'' m)])
     in if explicit \<noteq> None then explicit
        else if mentions haystack [''/home/joe/cloyd-services'', ''atlas dashboard'', ''atlas.tail''] then Some ''atlas-dashboard'' else None)"

text \<open>\<open>metadata.get(key).get("attempts", 0)\<close>, and its comparison with a number, which raises for values that are
  no numbers.\<close>

definition attempts_of :: "string \<Rightarrow> json_obj \<Rightarrow> json" where
  "attempts_of key m =
    (case jget key m of JObj d \<Rightarrow> (case map_of d ''attempts'' of None \<Rightarrow> JInt 0 | Some v \<Rightarrow> v) | _ \<Rightarrow> JInt 0)"

definition at_least :: "int \<Rightarrow> json \<Rightarrow> bool option" where
  "at_least n v = (case v of JInt i \<Rightarrow> Some (n \<le> i) | JBool b \<Rightarrow> Some (n \<le> (if b then 1 else 0)) | _ \<Rightarrow> None)"

definition SHARPER :: string where
  "SHARPER = ''draft a sharper replacement job with verifiable acceptance criteria, or leave blocked with this reason visible''"

definition BUSY_TIMEOUT :: string where
  "BUSY_TIMEOUT = ''Smith busy timeout stopped the runtime; inspect evidence before retrying or queue a smaller replacement''"

definition BUSY_NEXT :: string where
  "BUSY_NEXT = ''inspect_or_queue_suggested_replacement_after_busy_timeout''"

text \<open>The next action that the status of the job suggests, before the limits.\<close>

definition status_next_action :: "loop_job \<Rightarrow> string \<Rightarrow> string \<Rightarrow> string option \<Rightarrow> int \<Rightarrow> string" where
  "status_next_action j state message err elapsed =
    (let given = or_else (lj_next j) in
     if state = ''stale'' then ''inspect OpenCode output, then restart or stop the job''
     else if lj_status j = Loop_queued then
       (if 60 < elapsed then ''ensure the local cloyd-smith loop daemon is running'' else given ''waiting for daemon pickup'')
     else if lj_status j = Loop_needs_review then
       (if sublist ''INFERENCE_QUEUE_TIMEOUT'' message
        then ''do not mark done; evidence is timeout-only, so send one bounded follow-up or mark blocked''
        else given ''review Smith evidence and mark done or queue follow-up'')
     else if lj_status j = Loop_stopped then given ''operator review required''
     else if lj_status j = Loop_blocked then
       (if lj_next j = Some BUSY_NEXT then BUSY_TIMEOUT
        else if lj_next j = Some ''blocked_pending_new_prompt_or_runtime_fix'' then SHARPER
        else if sublist ''timed out'' (str_lower (or_else err [])) \<and> lj_next j \<noteq> Some ''inspect_or_stop_opencode_session_before_retry''
        then ''OpenCode health is separate; if healthy, use one bounded Retry, otherwise inspect runtime logs''
        else given ''operator review required'')
     else given ''inspect_recent_events'')"

definition and_flag :: "bool \<Rightarrow> bool option \<Rightarrow> bool option" where
  "and_flag a b = (if a then b else Some False)"

text \<open>The limits, which override it in this order. The second component says whether the busy timeouts are
  repeated. \<open>None\<close>: a comparison raises.\<close>

definition limited_next_action :: "loop_job \<Rightarrow> string \<Rightarrow> (string \<times> bool) option" where
  "limited_next_action j first =
    (let m = lj_metadata j; expected = expected_smith_alias j; mismatch = (expected \<noteq> None \<and> expected \<noteq> Some (lj_alias j)) in
     Option.bind (at_least 3 (attempts_of ''retry'' m)) (\<lambda>retries.
     Option.bind (at_least 1 (attempts_of ''follow_up'' m)) (\<lambda>followed.
     Option.bind (replacement_chain_depth (JObj m)) (\<lambda>depth.
       let repeated = (lj_status j = Loop_blocked \<and> lj_next j = Some BUSY_NEXT \<and> 2 \<le> depth)
       in Option.bind (and_flag repeated (at_least 1 (attempts_of ''runtime_reset'' m))) (\<lambda>reset.
         Some
          (if repeated \<and> reset then ''runtime reset completed; use one bounded Retry only if the prompt is still worth running''
           else if repeated then ''repeated Smith busy timeouts; inspect or reset OpenCode runtime before queueing more replacements''
           else if mismatch \<and> lj_status j \<notin> {Loop_done, Loop_stopped}
           then ''wrong Smith alias for target; reroute or create a new job with smith_alias='' @ the expected
           else if followed \<and> lj_status j \<in> {Loop_needs_review, Loop_blocked, Loop_stale}
           then ''bounded follow-up already used; mark done only with evidence or mark blocked with reason''
           else if retries then ''retry limit reached; inspect error/output and change prompt or runtime before requeueing''
           else first, repeated))))))"

definition job_status_summary :: "utc \<Rightarrow> loop_job \<Rightarrow> run_beat option \<Rightarrow> json_obj option" where
  "job_status_summary now j b =
    (let hb = (case b of None \<Rightarrow> [] | Some x \<Rightarrow> beat_summary now x);
         of_beat = (\<lambda>sel other. case b of None \<Rightarrow> other | Some x \<Rightarrow> sel x);
         state = (if b = None then loop_status_value (lj_status j) else json_str (jget ''state'' hb));
         message = of_beat hb_message [];
         own = of_beat hb_error [];
         err = (if own \<noteq> [] then Some own else lj_error j);
         elapsed = (case b of None \<Rightarrow> whole_seconds (now - lj_created j)
           | Some x \<Rightarrow> max (whole_seconds (now - (case hb_started x of None \<Rightarrow> hb_updated x | Some t \<Rightarrow> t))) 0);
         expected = expected_smith_alias j
     in map_option (\<lambda>(next_act, repeated).
          [(''job_id'', JStr (lj_id j)), (''agent'', JStr (of_beat hb_agent ''smith'')), (''alias'', JStr (of_beat hb_alias (lj_alias j))),
           (''state'', JStr state), (''job_status'', JStr (loop_status_value (lj_status j))),
           (''phase'', JStr (of_beat hb_phase (loop_status_value (lj_status j)))),
           (''last_action'', JStr (of_beat hb_action (or_else (lj_next j) []))), (''last_message'', JStr message), (''last_error'', jopt err),
           (''working_directory'', JStr (beat_dir b)), (''updated_at'', jtime (case b of None \<Rightarrow> lj_updated j | Some x \<Rightarrow> hb_updated x)),
           (''elapsed_seconds'', JInt elapsed), (''stale_after_seconds'', (case b of None \<Rightarrow> JNull | Some x \<Rightarrow> JInt (hb_limit x))),
           (''is_stale'', JBool (b \<noteq> None \<and> jget ''is_stale'' hb = JBool True)),
           (''stop_reason'', (case b of None \<Rightarrow> JNull | Some x \<Rightarrow> jopt (hb_stop x))),
           (''objective'', JStr (lj_objective j)), (''metadata'', JObj (lj_metadata j)),
           (''retry_attempts'', attempts_of ''retry'' (lj_metadata j)), (''follow_up_attempts'', attempts_of ''follow_up'' (lj_metadata j)),
           (''runtime_reset_attempts'', attempts_of ''runtime_reset'' (lj_metadata j)),
           (''expected_alias'', jopt expected), (''alias_mismatch'', JBool (expected \<noteq> None \<and> expected \<noteq> Some (lj_alias j))),
           (''next_action'', JStr next_act),
           (''suggested_prompt'', JStr (if next_act = SHARPER \<or> (next_act = BUSY_TIMEOUT \<and> \<not> repeated)
              then replacement_job_prompt j b err else [])),
           (''replacement_prompt'', JStr (if next_act = SHARPER then bounded_replacement_prompt j b err False
              else if next_act = BUSY_TIMEOUT \<and> \<not> repeated then bounded_replacement_prompt j b err True else []))])
        (limited_next_action j (status_next_action j state message err elapsed)))"

subsection \<open>The status of the loop\<close>

definition agent_run_is_hidden_terminal :: "json_obj \<Rightarrow> bool" where
  "agent_run_is_hidden_terminal run \<longleftrightarrow> jget ''job_status'' run = JStr ''stopped''
     \<and> (jget ''phase'' run = JStr ''cleared'' \<or> jget ''stop_reason'' run = JStr ''cleared_from_monitor''
        \<or> jget ''phase'' run = JStr ''superseded'' \<or> jget ''stop_reason'' run = JStr ''superseded''
        \<or> prefix ''superseded_by:'' (str_or_empty (jget ''next_action'' run)))"

definition visible_run_status :: "json_obj \<Rightarrow> string" where
  "visible_run_status run =
    (let s = str_or_empty (jget ''state'' run)
     in if s \<in> set (map loop_status_value LOOP_STATUSES) then s else json_str (jget ''job_status'' run))"

definition status_is :: "string list \<Rightarrow> json_obj \<Rightarrow> bool" where
  "status_is vs run \<longleftrightarrow> jget ''job_status'' run \<in> set (map JStr vs)"

text \<open>\<open>int(run.get(k) or 0)\<close>; \<open>None\<close> raises.\<close>

definition count_of :: "string \<Rightarrow> json_obj \<Rightarrow> int option" where
  "count_of k run = (let v = jget k run in if json_truthy v then py_int v else Some 0)"

definition count_at_least :: "int \<Rightarrow> string \<Rightarrow> json_obj \<Rightarrow> bool option" where
  "count_at_least n k run = map_option (\<lambda>i. n \<le> i) (count_of k run)"

fun any_option :: "('a \<Rightarrow> bool option) \<Rightarrow> 'a list \<Rightarrow> bool option" where
  "any_option p [] = Some False"
| "any_option p (x # xs) = (case p x of None \<Rightarrow> None | Some True \<Rightarrow> Some True | Some False \<Rightarrow> any_option p xs)"

text \<open>A list comprehension tests every element.\<close>

fun all_tested :: "('a \<Rightarrow> bool option) \<Rightarrow> 'a list \<Rightarrow> bool option" where
  "all_tested p [] = Some False"
| "all_tested p (x # xs) = (case (p x, all_tested p xs) of (Some a, Some b) \<Rightarrow> Some (a \<or> b) | _ \<Rightarrow> None)"

definition diag_note :: "bool \<Rightarrow> string \<Rightarrow> string \<Rightarrow> string \<Rightarrow> (string \<times> string \<times> string) list" where
  "diag_note b level title detail = (if b then [(level, title, detail)] else [])"

definition agent_runs_diagnostics :: "json_obj list \<Rightarrow> json_obj option \<Rightarrow> (string \<times> string \<times> string) list option" where
  "agent_runs_diagnostics runs supervisor =
    (let down = (case supervisor of None \<Rightarrow> False | Some s \<Rightarrow> s \<noteq> [] \<and> \<not> json_truthy (jget ''ok'' s));
         wrong = filter (\<lambda>r. json_truthy (jget ''alias_mismatch'' r) \<and> \<not> status_is [''done'', ''stopped''] r) runs;
         expected = str_join '', '' (map (\<lambda>r. json_str (jget ''job_id'' r) @ '' -> '' @ json_str (jget ''expected_alias'' r)) (take 3 wrong));
         phase = (\<lambda>p r. status_is [''blocked''] r \<and> jget ''phase'' r = JStr p) in
     Option.bind (all_tested (\<lambda>r. map_option (\<lambda>b. b \<and> \<not> status_is [''done'', ''stopped''] r) (count_at_least 2 ''retry_attempts'' r)) runs) (\<lambda>retrying.
     Option.bind (all_tested (\<lambda>r. map_option (\<lambda>b. b \<and> status_is [''needs_review'', ''blocked'', ''stale''] r) (count_at_least 1 ''follow_up_attempts'' r)) runs) (\<lambda>followed.
     Option.bind (any_option (\<lambda>r. if sublist ''repeated Smith busy timeouts'' (str_or_empty (jget ''next_action'' r))
        then map_option (\<lambda>i. i = 0) (count_of ''runtime_reset_attempts'' r) else Some False) runs) (\<lambda>inspect.
     Option.bind (any_option (\<lambda>r. map_option (\<lambda>b. b \<and> status_is [''blocked''] r) (count_at_least 1 ''runtime_reset_attempts'' r)) runs) (\<lambda>reset.
       let ds =
         diag_note down ''blocked'' ''Supervisor heartbeat stale''
           (''Cloyd-Smith loop heartbeat is '' @ (case supervisor of None \<Rightarrow> [] | Some s \<Rightarrow> json_str (jget ''status'' s))
            @ ''; restart or inspect the LaunchAgent before trusting idle queue state.'')
         @ diag_note (wrong \<noteq> []) ''blocked'' ''Wrong Smith alias''
           (''Jobs are assigned to the wrong worker for their target: '' @ expected
            @ ''. Reroute or create a new job with the expected alias before retrying.'')
         @ diag_note retrying ''blocked'' ''Retry attempts accumulating''
           ''One or more jobs have been retried at least twice. Stop blind retries; inspect the OpenCode error/output and tighten the next prompt or runtime before trying again.''
         @ diag_note followed ''review'' ''Follow-up already used''
           ''One or more jobs already consumed their bounded follow-up. Mark done only with evidence, otherwise mark blocked with a concrete reason.''
         @ diag_note (list_ex (phase ''send_failed'') runs) ''blocked'' ''OpenCode send failed''
           ''At least one job could not be handed to Smith. Use Retry after confirming the OpenCode runtime is healthy, or leave it blocked with the error visible.''
         @ diag_note (list_ex (phase ''smith_busy_timeout'') runs) ''blocked'' ''Smith busy timeout''
           ''A bounded Smith job stayed busy past the max window and the loop stopped the OpenCode runtime. Inspect the visible error before retrying or queueing a smaller replacement.''
         @ diag_note inspect ''blocked'' ''OpenCode runtime inspection needed''
           ''Repeated smaller replacements are timing out before producing output. Stop queueing replacements and inspect or reset the OpenCode runtime/session.''
         @ diag_note reset ''review'' ''Runtime reset completed''
           ''OpenCode was reset after busy timeouts. A single bounded Retry is available if the job is still worth running; otherwise leave it blocked with the visible reason.''
         @ diag_note (list_ex (\<lambda>r. sublist ''INFERENCE_QUEUE_TIMEOUT'' (str_or_empty (jget ''last_message'' r))) runs) ''review'' ''Inference queue timeout evidence''
           ''Review jobs include timeout evidence. Do not mark them done unless the output also proves the requested objective, diff, and verification.''
         @ diag_note (list_ex (\<lambda>r. status_is [''blocked''] r \<and> jget ''next_action'' r = JStr SHARPER) runs) ''blocked'' ''Sharper replacement needed''
           ''A blocked job has insufficient evidence for its broad objective. Do not retry blindly; draft a smaller replacement with explicit files, expected evidence, and verification steps.''
         @ diag_note (list_ex (status_is [''needs_review'']) runs) ''review'' ''Human or Cloyd review required''
           ''Needs-review jobs are idle and waiting for evidence review. Mark Done only after evidence matches the objective; otherwise send one bounded follow-up or mark blocked.''
         @ diag_note (list_ex (status_is [''blocked'']) runs) ''blocked'' ''Blocked jobs need review''
           ''At least one job is blocked without an automatic queue-clearing action. Inspect the reason, then create a sharper replacement job or leave it blocked with the reason visible.'';
         ds1 = (if ds = [] \<and> list_ex (status_is [''queued'', ''running'']) runs
           then [(''review'', ''Work in progress'',
             ''A job is queued or running. Wait for output_ready, needs_review, blocked, or stale before taking a queue-clearing action.'')] else ds)
       in Some (if ds1 = [] then [(''ok'', ''Loop quiet'', ''No blocked, stale, or review jobs are visible in the canonical ledger.'')] else ds1))))))"

definition simple_loop_cycle :: "(string \<Rightarrow> nat) \<Rightarrow> json_obj option \<Rightarrow> string \<times> string \<times> bool" where
  "simple_loop_cycle queue supervisor =
    (let given = (case supervisor of None \<Rightarrow> False | Some s \<Rightarrow> s \<noteq> []);
         ok = (given \<and> json_truthy (jget ''ok'' (the supervisor))) in
     if given \<and> \<not> ok then (''report_result'',
       ''Supervisor heartbeat is not healthy; report that the loop cannot be trusted until it is restarted or inspected.'', ok)
     else if queue ''blocked'' \<noteq> 0 \<or> queue ''stale'' \<noteq> 0 \<or> queue ''needs_review'' \<noteq> 0 then (''report_result'',
       ''Work reached a review, stale, or blocked outcome; report it clearly before doing more.'', ok)
     else if queue ''running'' \<noteq> 0 then (''do_bounded_work'',
       ''Smith/OpenCode is working a bounded unit; the supervisor will poll, harvest output, or stop it on timeout.'', ok)
     else if queue ''queued'' \<noteq> 0 then (''check_for_work'',
       ''Queued work is waiting; the next supervisor tick should pick up one bounded unit.'', ok)
     else (''check_for_work'', ''No queued or active work; the supervisor should keep checking quietly.'', ok))"

record loop_report =
  rp_supervisor :: json_obj
  rp_cycle :: "string \<times> string \<times> bool"
  rp_active :: nat
  rp_attention :: nat
  rp_terminal :: nat
  rp_hidden :: nat
  rp_queue :: "string \<Rightarrow> nat"
  rp_diagnostics :: "(string \<times> string \<times> string) list"
  rp_runs :: "json_obj list"

fun all_options :: "'a option list \<Rightarrow> 'a list option" where
  "all_options [] = Some []"
| "all_options (x # xs) = (case (x, all_options xs) of (Some a, Some as) \<Rightarrow> Some (a # as) | _ \<Rightarrow> None)"

definition status_rows :: "utc \<Rightarrow> int \<Rightarrow> int \<Rightarrow> ledger \<Rightarrow> json_obj list option" where
  "status_rows now a r L =
    all_options (map (\<lambda>j. job_status_summary now j (get_beat (lj_id j) L)) (list_active a L @ list_recent_terminal r L))"

definition queue_count :: "json_obj list \<Rightarrow> string \<Rightarrow> nat" where
  "queue_count runs v = length (filter (\<lambda>run. visible_run_status run = v
     \<or> (v = ''stale'' \<and> json_truthy (jget ''is_stale'' run))) runs)"

definition report_of :: "json_obj list \<Rightarrow> json_obj \<Rightarrow> loop_report option" where
  "report_of rows supervisor =
    (let runs = filter (\<lambda>r. \<not> agent_run_is_hidden_terminal r) rows; q = queue_count runs in
     map_option (\<lambda>ds. \<lparr>rp_supervisor = supervisor, rp_cycle = simple_loop_cycle q (Some supervisor),
         rp_active = q ''queued'' + q ''running'' + q ''needs_review'' + q ''stale'',
         rp_attention = q ''needs_review'' + q ''blocked'' + q ''stale'', rp_terminal = q ''done'' + q ''blocked'' + q ''stopped'',
         rp_hidden = length (filter agent_run_is_hidden_terminal rows), rp_queue = q, rp_diagnostics = ds, rp_runs = runs\<rparr>)
       (agent_runs_diagnostics runs (Some supervisor)))"

definition loop_status_payload :: "utc \<Rightarrow> json_obj \<Rightarrow> ledger \<Rightarrow> loop_report option \<times> ledger" where
  "loop_status_payload now supervisor L =
    (let L1 = snd (mark_stale_runs now L)
     in (Option.bind (status_rows now 50 10 L1) (\<lambda>rows. report_of rows supervisor), L1))"

text \<open>The heartbeat file of the supervisor: \<open>None\<close> is a missing file, \<open>Inl why\<close> one that is not read. \<open>parse_iso\<close> is
  \<open>datetime.fromisoformat\<close>. A file that holds no object raises: \<open>None\<close>.\<close>

definition read_supervisor_heartbeat ::
    "(string \<Rightarrow> utc option) \<Rightarrow> utc \<Rightarrow> int \<Rightarrow> string \<Rightarrow> (string + json) option \<Rightarrow> json_obj option" where
  "read_supervisor_heartbeat parse_iso now limit path file =
    (let failed = (\<lambda>status why extra. [(''ok'', JBool False), (''status'', JStr status), (''path'', JStr path), (''age_seconds'', JNull),
           (''stale_after_seconds'', JInt limit), (''error'', JStr why)] @ extra) in
     case file of
       None \<Rightarrow> Some (failed ''missing'' ''Supervisor heartbeat has not been written yet.'' [])
     | Some (Inl why) \<Rightarrow> Some (failed ''unreadable'' why [])
     | Some (Inr (JObj p)) \<Rightarrow>
         (let s = str_or_empty (jget ''updated_at'' p) in
          case parse_iso s of
            None \<Rightarrow> Some (failed ''invalid'' (''Invalid supervisor heartbeat timestamp: '' @ s) [(''payload'', JObj p)])
          | Some t \<Rightarrow>
              (let age = max 0 (whole_seconds (now - t)); old = limit < age;
                   ok = (case map_of p ''ok'' of None \<Rightarrow> True | Some v \<Rightarrow> json_truthy v)
               in Some [(''ok'', JBool (\<not> old \<and> ok)), (''status'', JStr (if old then ''stale'' else str_or (jget ''status'' p) ''ok'')),
                    (''path'', JStr path), (''age_seconds'', JInt age), (''stale_after_seconds'', JInt limit), (''payload'', JObj p)]))
     | Some (Inr _) \<Rightarrow> None)"

definition enrich_report :: "json_obj \<Rightarrow> loop_report \<Rightarrow> loop_report option" where
  "enrich_report runtime R =
    (let ok = json_truthy (jget ''ok'' runtime); running = rp_queue R ''running''; sessions = jget ''session_count'' runtime in
     map_option (\<lambda>busy.
         if \<not> ok then R\<lparr>rp_diagnostics := (''blocked'', ''OpenCode runtime unhealthy'',
             ''OpenCode health check failed: '' @ str_or (jget ''error'' runtime) (json_repr (JObj runtime))
             @ ''. The loop can queue work, but Smith cannot execute until runtime is healthy.'') # rp_diagnostics R\<rparr>
         else if int running < busy then R\<lparr>rp_diagnostics := (''review'', ''OpenCode busy outside ledger'',
             ''OpenCode reports '' @ show_int busy @ '' active session(s), but the Cloyd-Smith ledger has '' @ show_int (int running)
             @ '' running job(s). Inspect or stop the orphan session, or requeue the work through the durable loop.'') # rp_diagnostics R,
             rp_cycle := (''report_result'', ''OpenCode is busy outside the durable ledger; report the exception before trusting the quiet queue.'',
               snd (snd (rp_cycle R)))\<rparr>
         else if 0 < running \<and> busy = 0 then R\<lparr>rp_diagnostics := (''review'', ''Ledger running but runtime idle'',
             ''The ledger has running job(s), but OpenCode reports no active session. The supervisor should harvest output or mark the job for review on its next pass.'')
             # rp_diagnostics R\<rparr>
         else R)
       (if ok then (if json_truthy sessions then py_int sessions else Some 0) else Some 0))"

end
