(* ===== verification/Loop_Tools.thy ===== *)
theory Loop_Tools
  imports Smith_Loop
begin

section \<open>The operator tools of the Cloyd-Smith loop\<close>

text \<open>
  \<open>src/freyja/tools/cloyd_smith_loop.py\<close>: the tools with which Cloyd submits, records, follows up, retries,
  closes, stops and replaces jobs of the ledger. A tool gets the arguments of its request and an
  environment: the clock, a fresh job id, who asks, the parsed heartbeat of the supervisor (\<open>None\<close>: reading it
  raises) and the answers of the OpenCode runtime. The record that \<open>cloyd_smith_record\<close> may add to the
  home memory is left out.
\<close>

record loop_tool_env =
  lt_now :: utc
  lt_id :: string
  lt_actor :: "string option"
  lt_conversation :: "string option"
  lt_supervisor :: "json_obj option"
  lt_health :: "string \<Rightarrow> json_obj"
  lt_status :: "string \<Rightarrow> json_obj"

text \<open>\<open>Refused\<close> is an answer with \<open>ok\<close> false, \<open>Receipt\<close> the one of a submission, \<open>Answered\<close> holds the jobs of the
  answer and the status of the loop, if it is part of it; \<open>Raised\<close> is an exception.\<close>

datatype tool_reply = Refused string | Receipt loop_job | Answered "loop_job list" "loop_report option" | Raised

definition tool_arg :: "string \<Rightarrow> json_obj \<Rightarrow> string" where
  "tool_arg k args = str_strip (str_or_empty (jget k args))"

definition first_arg :: "string list \<Rightarrow> json_obj \<Rightarrow> json" where
  "first_arg ks args = (case List.find (\<lambda>k. json_truthy (jget k args)) ks of None \<Rightarrow> JNull | Some k \<Rightarrow> jget k args)"

definition prompt_arg :: "json_obj \<Rightarrow> string" where
  "prompt_arg args = str_strip (str_or_empty (first_arg [''prompt'', ''current_prompt''] args))"

definition jactor :: "loop_tool_env \<Rightarrow> string \<times> json" where
  "jactor T = (''actor'', jopt (lt_actor T))"

text \<open>The criteria: the lines of a text, the items of a list, the keys of a dict.\<close>

definition criteria_items :: "json \<Rightarrow> string list option" where
  "criteria_items v =
    (if \<not> json_truthy v then Some []
     else (case v of
         JStr s \<Rightarrow> Some (filter (\<lambda>l. l \<noteq> []) (map str_strip (splitlines_from [] s)))
       | JList xs \<Rightarrow> Some (map json_str xs)
       | JObj d \<Rightarrow> Some (map fst d)
       | _ \<Rightarrow> None))"

definition tool_beat :: "loop_tool_env \<Rightarrow> string \<Rightarrow> string \<Rightarrow> string \<Rightarrow> string \<Rightarrow> string \<Rightarrow> string \<Rightarrow> utc option \<Rightarrow> string option \<Rightarrow> run_beat" where
  "tool_beat T i al state phase action message started stop =
    \<lparr>hb_job = i, hb_agent = ''smith'', hb_alias = al, hb_session = None, hb_state = state, hb_phase = phase, hb_action = action,
     hb_message = message, hb_error = [], hb_dir = [], hb_started = started, hb_updated = lt_now T, hb_limit = 300, hb_stop = stop\<rparr>"

definition put_beat :: "run_beat \<Rightarrow> ledger \<Rightarrow> ledger" where
  "put_beat b L = snd (record_beat b L)"

definition put_event :: "loop_tool_env \<Rightarrow> string \<Rightarrow> string \<Rightarrow> json_obj \<Rightarrow> ledger \<Rightarrow> ledger" where
  "put_event T i t p L = add_loop_event (lt_now T) i t p L"

definition put_update :: "loop_tool_env \<Rightarrow> string \<Rightarrow> loop_update \<Rightarrow> ledger \<Rightarrow> ledger" where
  "put_update T i u L = snd (update_loop_job (lt_now T) i u L)"

text \<open>The summaries of the jobs of an answer, and the status of the loop, which marks stale runs.\<close>

definition summarize_jobs :: "loop_tool_env \<Rightarrow> loop_job list \<Rightarrow> loop_report option \<Rightarrow> ledger \<Rightarrow> tool_reply" where
  "summarize_jobs T js report L =
    (case all_options (map (\<lambda>j. job_status_summary (lt_now T) j (get_beat (lj_id j) L)) js) of
       None \<Rightarrow> Raised | Some _ \<Rightarrow> Answered js report)"

definition answer_with_loop :: "loop_tool_env \<Rightarrow> loop_job list \<Rightarrow> ledger \<Rightarrow> tool_reply \<times> ledger" where
  "answer_with_loop T js L =
    (case lt_supervisor T of
       None \<Rightarrow> (Raised, snd (mark_stale_runs (lt_now T) L))
     | Some s \<Rightarrow>
         (case loop_status_payload (lt_now T) s L of
            (None, L1) \<Rightarrow> (Raised, L1)
          | (Some R, L1) \<Rightarrow> (summarize_jobs T js (Some R) L1, L1)))"

definition the_job :: "string \<Rightarrow> ledger \<Rightarrow> loop_job" where
  "the_job i L = projr (get_loop_job i L)"

definition unknown_reply :: "string \<Rightarrow> tool_reply" where
  "unknown_reply i = Refused (''Unknown Cloyd Smith job: '' @ i)"

definition only_reply :: "loop_job \<Rightarrow> string \<Rightarrow> tool_reply" where
  "only_reply j what = Refused (''Job '' @ lj_id j @ '' is '' @ loop_status_value (lj_status j) @ ''; only '' @ what)"

definition cloyd_smith_submit :: "loop_tool_env \<Rightarrow> json_obj \<Rightarrow> ledger \<Rightarrow> tool_reply \<times> ledger" where
  "cloyd_smith_submit T args L =
    (let objective = tool_arg ''objective'' args;
         prompt = str_strip (str_or (first_arg [''prompt'', ''current_prompt''] args) objective) in
     if objective = [] then (Refused ''objective is required'', L)
     else if prompt = [] then (Refused ''prompt is required'', L)
     else (case (criteria_items (jget ''acceptance_criteria'' args), dict_or_empty (jget ''metadata'' args)) of
         (Some cs, Some m) \<Rightarrow>
           (case create_loop_job (lt_now T) (lt_id T)
               \<lparr>lc_objective = objective, lc_alias = str_strip (str_or (first_arg [''smith_alias'', ''alias''] args) ''freyja-code''),
                lc_criteria = cs, lc_prompt = prompt, lc_by = str_or (jget ''created_by'' args) (or_else (lt_actor T) ''joe''),
                lc_metadata = jupdate [(''conversation_id'', jopt (lt_conversation T))] m\<rparr> L of
              (Inl _, L1) \<Rightarrow> (Raised, L1)
            | (Inr j, L1) \<Rightarrow> (Receipt j, put_event T (lj_id j) ''submitted'' [jactor T] L1))
       | _ \<Rightarrow> (Raised, L)))"

definition cloyd_smith_record :: "loop_tool_env \<Rightarrow> json_obj \<Rightarrow> ledger \<Rightarrow> tool_reply \<times> ledger" where
  "cloyd_smith_record T args L =
    (let i = tool_arg ''job_id'' args; kind = str_strip (str_or (jget ''event_type'' args) ''evidence'') in
     if i = [] then (Refused ''job_id is required'', L)
     else (case (if json_truthy (jget ''payload'' args) then jget ''payload'' args else JObj []) of
         JObj payload \<Rightarrow>
           (let L1 = put_event T i kind payload L; given = jget ''status'' args;
                field = (\<lambda>k. if jget k args = JNull then None else Some (json_str (jget k args))) in
            if json_truthy given \<and> loop_status_of (json_str given) = None
            then (Refused (py_repr (json_str given) @ '' is not a valid CloydSmithJobStatus''), L1)
            else (case update_loop_job (lt_now T) i (no_update\<lparr>lu_status := (if json_truthy given then loop_status_of (json_str given) else None),
                    lu_next := field ''next_action'', lu_evidence := Some payload, lu_error := field ''error''\<rparr>) L1 of
                (Inl _, L2) \<Rightarrow> (unknown_reply i, L2)
              | (Inr j, L2) \<Rightarrow> (summarize_jobs T [j] None L2, L2)))
       | _ \<Rightarrow> (Refused ''payload must be an object'', L)))"

text \<open>The attempts that the metadata counts under a key. \<open>None\<close>: reading them raises.\<close>

definition metadata_dict :: "string \<Rightarrow> json_obj \<Rightarrow> json_obj option" where
  "metadata_dict k m = dict_or_empty (jget k m)"

definition counted :: "string \<Rightarrow> json_obj \<Rightarrow> int option" where
  "counted k m = Option.bind (metadata_dict k m) (count_of ''attempts'')"

definition cloyd_smith_follow_up :: "loop_tool_env \<Rightarrow> json_obj \<Rightarrow> ledger \<Rightarrow> tool_reply \<times> ledger" where
  "cloyd_smith_follow_up T args L =
    (let i = tool_arg ''job_id'' args; prompt = prompt_arg args in
     if i = [] then (Refused ''job_id is required'', L)
     else if prompt = [] then (Refused ''prompt is required'', L)
     else (case get_loop_job i L of
         Inl _ \<Rightarrow> (unknown_reply i, L)
       | Inr j \<Rightarrow>
           (if lj_status j \<notin> {Loop_needs_review, Loop_blocked, Loop_stale}
            then (only_reply j ''needs_review, blocked, or stale jobs can receive a bounded follow-up.'', L)
            else (case (metadata_dict ''follow_up'' (lj_metadata j), counted ''follow_up'' (lj_metadata j)) of
                (Some d, Some n) \<Rightarrow>
                  (if 1 \<le> n then
                     (Refused (''Job '' @ i @ '' already has a bounded follow-up; mark blocked or create a new job instead of looping.''),
                      put_event T i ''operator_follow_up_limit_reached'' [jactor T, (''attempts'', JInt n)] L)
                   else
                    (let was = JStr (loop_status_value (lj_status j));
                         f = jupdate d [(''attempts'', JInt (n + 1)), (''last_follow_up_at'', jtime (lt_now T)), (''previous_status'', was)];
                         L1 = put_event T i ''operator_follow_up'' [jactor T, (''attempt'', JInt (n + 1)), (''previous_status'', was)] L;
                         L2 = put_update T i (no_update\<lparr>lu_status := Some Loop_queued, lu_prompt := Some prompt, lu_next := Some ''send_to_smith'',
                           lu_evidence := Some [(''operator_action'', JStr ''follow_up''), (''attempt'', JInt (n + 1))],
                           lu_metadata := Some (jput ''follow_up'' (JObj f) (lj_metadata j)), lu_error := Some []\<rparr>) L1;
                         L3 = put_beat (tool_beat T i (lj_alias j) ''queued'' ''operator_follow_up_queued'' ''operator_follow_up''
                           (''Queued bounded follow-up attempt '' @ show_int (n + 1) @ ''.'') (Some (lt_now T)) None) L2
                     in answer_with_loop T [the_job i L2] L3))
              | _ \<Rightarrow> (Raised, L)))))"

text \<open>\<open>_opencode_status_is_busy\<close>.\<close>

definition status_is_busy :: "json_obj \<Rightarrow> bool" where
  "status_is_busy s \<longleftrightarrow>
     (case jget ''state'' s of JStr v \<Rightarrow> v = ''busy'' | JObj d \<Rightarrow> jget ''type'' d = JStr ''busy'' | _ \<Rightarrow> False)
     \<or> (case jget ''recent_action'' s of JObj d \<Rightarrow> jget ''status'' d = JStr ''running'' | _ \<Rightarrow> False)"

definition requeue_update :: "json_obj \<Rightarrow> json_obj \<Rightarrow> loop_update" where
  "requeue_update evidence m = no_update\<lparr>lu_status := Some Loop_queued, lu_next := Some ''send_to_smith'', lu_evidence := Some evidence,
     lu_metadata := Some m, lu_error := Some []\<rparr>"

definition cloyd_smith_retry :: "loop_tool_env \<Rightarrow> json_obj \<Rightarrow> ledger \<Rightarrow> tool_reply \<times> ledger" where
  "cloyd_smith_retry T args L =
    (let i = tool_arg ''job_id'' args in
     if i = [] then (Refused ''job_id is required'', L)
     else (case get_loop_job i L of
         Inl _ \<Rightarrow> (unknown_reply i, L)
       | Inr j \<Rightarrow>
           (let was = JStr (loop_status_value (lj_status j)); expected = expected_smith_alias j in
            if lj_status j \<notin> {Loop_blocked, Loop_stale, Loop_stopped}
            then (only_reply j ''blocked, stale, or stopped jobs can be retried.'', L)
            else if expected \<noteq> None \<and> expected \<noteq> Some (lj_alias j)
            then (Refused (''Job '' @ i @ '' targets '' @ the expected @ '' but is assigned to '' @ lj_alias j
                    @ ''; reroute or create a new job with smith_alias='' @ the expected @ '' before retrying.''),
                  put_event T i ''operator_retry_alias_mismatch'' [jactor T, (''current_alias'', JStr (lj_alias j)), (''expected_alias'', jopt expected)] L)
            else (case (metadata_dict ''retry'' (lj_metadata j), counted ''retry'' (lj_metadata j)) of
                (Some d, Some n) \<Rightarrow>
                  (let health = lt_health T (lj_alias j); status = lt_status T (lj_alias j) in
                   if 3 \<le> n then
                     (Refused (''Job '' @ i @ '' already has '' @ show_int n @ '' retry attempts; inspect the error/output before requeueing.''),
                      put_event T i ''operator_retry_limit_reached'' [jactor T, (''attempts'', JInt n), (''previous_status'', was)] L)
                   else if \<not> json_truthy (jget ''ok'' health) then
                     (Refused (''OpenCode runtime is not healthy: '' @ str_or (jget ''error'' health) (json_repr (JObj health))),
                      put_event T i ''operator_retry_preflight_failed'' [jactor T, (''runtime'', JObj health)] L)
                   else if \<not> json_truthy (jget ''ok'' status) \<or> status_is_busy status then
                     (let L1 = put_event T i ''operator_retry_runtime_busy'' [jactor T, (''runtime'', JObj health), (''status'', JObj status)] L;
                          L2 = put_update T i (no_update\<lparr>lu_next := Some ''inspect_or_stop_opencode_session_before_retry'',
                            lu_evidence := Some [(''operator_action'', JStr ''retry_preflight_busy''), (''runtime'', JObj health), (''status'', JObj status)]\<rparr>) L1
                      in (case summarize_jobs T [the_job i L2] None L2 of
                            Answered _ _ \<Rightarrow> Refused ''OpenCode runtime is not ready for retry; inspect or stop the current session before requeueing.''
                          | r \<Rightarrow> r, L2))
                   else
                     (let f = jupdate d [(''attempts'', JInt (n + 1)), (''last_retry_at'', jtime (lt_now T)),
                            (''last_error'', JStr (or_else (lj_error j) [])), (''previous_status'', was)];
                          L1 = put_event T i ''operator_retry'' [jactor T, (''previous_status'', was), (''attempt'', JInt (n + 1)), (''runtime'', JObj health)] L;
                          L2 = put_update T i (requeue_update [(''operator_action'', JStr ''retry''), (''attempt'', JInt (n + 1)), (''runtime'', JObj health)]
                            (jput ''retry'' (JObj f) (lj_metadata j))) L1;
                          L3 = put_beat (tool_beat T i (lj_alias j) ''queued'' ''operator_requeued'' ''operator_retry''
                            (''Queued for supervisor retry attempt '' @ show_int (n + 1) @ ''.'') (Some (lt_now T)) None) L2
                      in answer_with_loop T [the_job i L2] L3))
              | _ \<Rightarrow> (Raised, L)))))"

definition cloyd_smith_mark_done :: "loop_tool_env \<Rightarrow> json_obj \<Rightarrow> ledger \<Rightarrow> tool_reply \<times> ledger" where
  "cloyd_smith_mark_done T args L =
    (let i = tool_arg ''job_id'' args in
     if i = [] then (Refused ''job_id is required'', L)
     else (case get_loop_job i L of
         Inl _ \<Rightarrow> (unknown_reply i, L)
       | Inr j \<Rightarrow>
           (if lj_status j \<noteq> Loop_needs_review then (only_reply j ''needs_review jobs can be marked done.'', L)
            else
             (let L1 = put_event T i ''operator_mark_done'' [jactor T] L;
                  L2 = put_update T i (no_update\<lparr>lu_status := Some Loop_done, lu_next := Some ''operator_reviewed_done'',
                    lu_evidence := Some [(''operator_action'', JStr ''marked_done'')]\<rparr>) L1;
                  L3 = put_beat (tool_beat T i (lj_alias j) ''done'' ''operator_reviewed'' ''operator_mark_done''
                    ''Marked done from Cloyd-Smith tool.'' None (Some ''operator_reviewed_done'')) L2
              in answer_with_loop T [the_job i L2] L3))))"

definition blocked_because :: "string \<Rightarrow> run_beat option \<Rightarrow> loop_job \<Rightarrow> string" where
  "blocked_because supplied b j =
    (if supplied \<noteq> [] then supplied
     else if (case b of None \<Rightarrow> False | Some x \<Rightarrow> sublist ''INFERENCE_QUEUE_TIMEOUT'' (hb_message x))
     then ''review evidence is timeout-only; requested objective is not proven''
     else or_else (lj_error j) ''operator marked blocked from Cloyd-Smith tool'')"

definition cloyd_smith_mark_blocked :: "loop_tool_env \<Rightarrow> json_obj \<Rightarrow> ledger \<Rightarrow> tool_reply \<times> ledger" where
  "cloyd_smith_mark_blocked T args L =
    (let i = tool_arg ''job_id'' args in
     if i = [] then (Refused ''job_id is required'', L)
     else (case get_loop_job i L of
         Inl _ \<Rightarrow> (unknown_reply i, L)
       | Inr j \<Rightarrow>
           (if lj_status j \<notin> {Loop_needs_review, Loop_queued, Loop_running, Loop_stale}
            then (only_reply j ''active or needs-review jobs can be marked blocked.'', L)
            else
             (let b = get_beat i L; why = blocked_because (tool_arg ''reason'' args) b j;
                  L1 = put_event T i ''operator_mark_blocked'' [jactor T, (''previous_status'', JStr (loop_status_value (lj_status j))), (''reason'', JStr why)] L;
                  L2 = put_update T i (no_update\<lparr>lu_status := Some Loop_blocked, lu_next := Some ''blocked_pending_new_prompt_or_runtime_fix'',
                    lu_evidence := Some [(''operator_action'', JStr ''marked_blocked''), (''reason'', JStr why)], lu_error := Some why\<rparr>) L1;
                  L3 = put_beat ((tool_beat T i (lj_alias j) ''blocked'' ''operator_review_blocked'' ''operator_mark_blocked'' why None
                    (Some ''operator_review_blocked''))\<lparr>hb_error := why, hb_dir := beat_dir b\<rparr>) L2
              in answer_with_loop T [the_job i L2] L3))))"

definition cloyd_smith_stop :: "loop_tool_env \<Rightarrow> json_obj \<Rightarrow> ledger \<Rightarrow> tool_reply \<times> ledger" where
  "cloyd_smith_stop T args L =
    (let i = tool_arg ''job_id'' args in
     if i = [] then (Refused ''job_id is required'', L)
     else (case update_loop_job (lt_now T) i (no_update\<lparr>lu_status := Some Loop_stopped, lu_next := Some ''stopped_by_user''\<rparr>)
             (put_event T i ''stopped'' [jactor T] L) of
         (Inl _, L1) \<Rightarrow> (unknown_reply i, L1)
       | (Inr j, L1) \<Rightarrow> (summarize_jobs T [j] None L1, L1)))"

definition cloyd_smith_replace :: "loop_tool_env \<Rightarrow> json_obj \<Rightarrow> ledger \<Rightarrow> tool_reply \<times> ledger" where
  "cloyd_smith_replace T args L =
    (let i = tool_arg ''job_id'' args; prompt = prompt_arg args; al = str_strip (str_or_empty (first_arg [''smith_alias'', ''alias''] args)) in
     case criteria_items (jget ''acceptance_criteria'' args) of
       None \<Rightarrow> (if i = [] then (Refused ''job_id is required'', L) else if prompt = [] then (Refused ''prompt is required'', L)
                else (case get_loop_job i L of Inl _ \<Rightarrow> (unknown_reply i, L)
                  | Inr j \<Rightarrow> if lj_status j \<noteq> Loop_blocked then (only_reply j ''blocked jobs can be replaced.'', L) else (Raised, L)))
     | Some items \<Rightarrow>
         (if i = [] then (Refused ''job_id is required'', L)
          else if prompt = [] then (Refused ''prompt is required'', L)
          else (case get_loop_job i L of
              Inl _ \<Rightarrow> (unknown_reply i, L)
            | Inr j \<Rightarrow>
                (if lj_status j \<noteq> Loop_blocked then (only_reply j ''blocked jobs can be replaced.'', L)
                 else (case create_loop_job (lt_now T) (lt_id T)
                     \<lparr>lc_objective = (let o1 = tool_arg ''objective'' args in if o1 \<noteq> [] then o1
                        else ''Replacement for blocked job '' @ i @ '': '' @ lj_objective j),
                      lc_alias = (if al \<noteq> [] then al else if lj_alias j \<noteq> [] then lj_alias j else ''freyja-code''),
                      lc_criteria = filter (\<lambda>c. c \<noteq> []) (map str_strip items), lc_prompt = prompt,
                      lc_by = or_else (lt_actor T) ''cloyd-smith-tool'',
                      lc_metadata = [(''source'', JStr ''cloyd_smith_replace''), (''replaces'', JStr i), (''replaced_objective'', JStr (lj_objective j)),
                        (''replacement_reason'', JStr (or_else (lj_error j) ''blocked job needed sharper replacement'')),
                        (''parent_metadata'', JObj (lj_metadata j))]\<rparr> L of
                    (Inl _, L1) \<Rightarrow> (Raised, L1)
                  | (Inr r, L1) \<Rightarrow>
                      (let L2 = put_event T i ''operator_create_replacement'' [jactor T, (''replacement_job_id'', JStr (lj_id r)), (''replacement_alias'', JStr (lj_alias r))] L1;
                           L3 = put_event T (lj_id r) ''submitted_as_replacement'' [jactor T, (''replaces'', JStr i)] L2;
                           L4 = put_update T i (no_update\<lparr>lu_status := Some Loop_stopped, lu_next := Some (''superseded_by:'' @ lj_id r),
                             lu_evidence := Some [(''operator_action'', JStr ''create_replacement''), (''replacement_job_id'', JStr (lj_id r))],
                             lu_metadata := Some (jput ''superseded_reason'' (JStr ''replaced by sharper Cloyd-Smith job'')
                               (jput ''superseded_by'' (JStr (lj_id r)) (lj_metadata j))), lu_error := Some []\<rparr>) L3;
                           L5 = put_beat (tool_beat T i (lj_alias j) ''stopped'' ''superseded'' ''operator_create_replacement''
                             (''Superseded by replacement job '' @ lj_id r @ ''.'') None (Some ''superseded'')) L4;
                           L6 = put_beat (tool_beat T (lj_id r) (lj_alias r) ''queued'' ''replacement_queued'' ''operator_create_replacement''
                             (''Queued replacement for '' @ i @ ''.'') None None) L5
                       in answer_with_loop T [the_job i L4, r] L6))))))"

end
