(* ===== verification/Loop_Daemon.thy ===== *)
theory Loop_Daemon
  imports Loop_Tools Rx
begin

section \<open>The supervisor of the Cloyd-Smith loop\<close>

text \<open>
  \<open>scripts/cloyd-smith-loop-daemon.py\<close>: one cycle of the daemon marks stale runs and takes every active job one
  step, by asking the OpenCode runtime. What the runtime answers to the calls about a job is a
  parameter (\<open>Inl\<close>: the call raises, and with it the cycle); the state is the ledger and the list of calls made.
  The clock is read once per cycle. The lock, the sleep and the arguments of the command are left out.
\<close>

subsection \<open>Redaction and summaries of answers\<close>

definition SECRET_KEYS :: "string list" where
  "SECRET_KEYS = [''password'', ''token'', ''secret'', ''authorization'', ''api_key'', ''apikey'']"

text \<open>Each pattern is a group and what follows it; a match is replaced by the group and a marker.\<close>

definition rx_class :: "bool \<Rightarrow> string \<Rightarrow> (char \<times> char) list \<Rightarrow> rx" where
  "rx_class neg cs rs = Cls neg (map (\<lambda>c. (c, c)) cs @ rs)"

definition alnum_ranges :: "(char \<times> char) list" where
  "alnum_ranges = [(CHR ''A'', CHR ''Z''), (CHR ''a'', CHR ''z''), (CHR ''0'', CHR ''9'')]"

definition quote_chars :: string where "quote_chars = [CHR 0x27, CHR 0x22]"

definition key_group :: "rx \<Rightarrow> rx" where
  "key_group key = foldr Seq [key, rx_opt (rx_class False quote_chars []), Star rx_space, rx_class False '':='' [], Star rx_space,
     rx_opt (rx_class False quote_chars [])] Eps"

definition plain_value :: rx where
  "plain_value = rx_plus (rx_class True (quote_chars @ '',}'') space_ranges)"

definition LOOP_SECRETS :: "(rx \<times> rx) list" where
  "LOOP_SECRETS =
    [(foldr Seq [rx_ci ''authorization:'', Star rx_space, rx_ci ''basic'', rx_plus rx_space] Eps, rx_plus (rx_class False ''+/=._-'' alnum_ranges)),
     (Seq (rx_ci ''bearer'') (rx_plus rx_space), rx_plus (rx_class False ''._~+/=-'' alnum_ranges)),
     (key_group (foldr Seq [rx_ci ''api'', rx_opt (rx_class False ''_-'' []), rx_ci ''key''] Eps), plain_value),
     (key_group (rx_ci ''password''), plain_value),
     (key_group (rx_ci ''token''), plain_value)]"

definition keep_group :: "rx \<times> rx \<Rightarrow> string \<Rightarrow> string" where
  "keep_group p m = (case rx_cuts [fst p, snd p] m 0 of c # _ \<Rightarrow> cut_piece m c 0 @ ''[redacted]'' | [] \<Rightarrow> m)"

definition redact_secrets :: "string \<Rightarrow> string" where
  "redact_secrets s = fold (\<lambda>p t. rx_sub (Seq (fst p) (snd p)) (keep_group p) t) LOOP_SECRETS s"

fun redact_json :: "json \<Rightarrow> json" where
  "redact_json (JObj d) = JObj (map (\<lambda>(k, v). (k, if mentions (str_lower k) SECRET_KEYS then JStr ''[redacted]'' else redact_json v)) d)"
| "redact_json (JList xs) = JList (map redact_json xs)"
| "redact_json (JStr s) = JStr (redact_secrets s)"
| "redact_json v = v"

text \<open>\<open>s[-n:]\<close>.\<close>

definition last_chars :: "nat \<Rightarrow> string \<Rightarrow> string" where
  "last_chars n s = drop (length s - n) s"

definition bounded_payload :: "nat \<Rightarrow> json \<Rightarrow> json_obj" where
  "bounded_payload limit payload =
    (let p = redact_json payload; t = json_dumps p in
     if length t \<le> limit then (case p of JObj d \<Rightarrow> d | _ \<Rightarrow> [(''value'', p)])
     else [(''truncated'', JBool True), (''text'', JStr (last_chars limit t))])"

definition bounded :: "json_obj \<Rightarrow> json_obj" where
  "bounded d = bounded_payload 20000 (JObj d)"

definition summary_text :: "json_obj \<Rightarrow> string" where
  "summary_text d =
    (case List.find (\<lambda>k. case jget k d of JStr s \<Rightarrow> str_strip s \<noteq> [] | _ \<Rightarrow> False) [''result'', ''message'', ''error''] of
       Some k \<Rightarrow> last_chars 1000 (redact_secrets (str_strip (json_str (jget k d))))
     | None \<Rightarrow>
         (case jget ''recent_action'' d of
            JObj a \<Rightarrow> str_or (jget ''tool'' a) ''tool'' @ '': '' @ str_or (jget ''status'' a) ''unknown''
          | _ \<Rightarrow> last_chars 1000 (json_dumps (sort_json (JObj (bounded_payload 1000 (JObj d)))))))"

definition last_action_name :: "json_obj \<Rightarrow> string option" where
  "last_action_name d =
    (case jget ''recent_action'' d of JObj a \<Rightarrow> if json_truthy (jget ''tool'' a) then Some (json_str (jget ''tool'' a)) else None | _ \<Rightarrow> None)"

definition action_or_status :: "json_obj \<Rightarrow> string" where
  "action_or_status d = or_else (last_action_name d) ''opencode_status''"

definition send_timed_out :: "json_obj \<Rightarrow> bool" where
  "send_timed_out d \<longleftrightarrow> \<not> json_truthy (jget ''ok'' d) \<and> sublist ''timed out'' (str_lower (str_or_empty (jget ''error'' d)))"

definition session_of :: "json_obj list \<Rightarrow> string option" where
  "session_of ds =
    (case List.find (\<lambda>d. json_truthy (jget ''session'' d)) ds of
       None \<Rightarrow> None
     | Some d \<Rightarrow> (let s = json_str (jget ''session'' d) in if s = [] then None else Some s))"

definition smith_prompt :: "loop_job \<Rightarrow> string" where
  "smith_prompt j =
    (let listed = str_join line_feed (map (\<lambda>c. ''- '' @ c) (lj_criteria j)) in
     str_join line_feed
      [''Freyja 5.2 Smith worker task.'', [], ''Original Cloyd objective:'', lj_objective j, [], ''Current Smith task:'', lj_prompt j, [],
       ''Acceptance criteria:'', (if listed = [] then ''- Report evidence clearly.'' else listed), [], ''Rules:'',
       ''- Do not use subagents or task delegation.'', ''- Use direct commands only.'',
       ''- Keep work bounded and report commands, diffs, tests, blockers, and evidence.'',
       ''- Stop after reporting. Cloyd owns the master plan.'', []])"

subsection \<open>The state of a cycle\<close>

datatype opencode_call = Call_send string string | Call_status string | Call_output string | Call_stop string

record daemon_env =
  ld_now :: utc
  ld_send :: "loop_job \<Rightarrow> string + json_obj"
  ld_status :: "loop_job \<Rightarrow> string + json_obj"
  ld_output :: "loop_job \<Rightarrow> string + json_obj"
  ld_stop :: "loop_job \<Rightarrow> string + json_obj"

record daemon_state =
  dm_ledger :: ledger
  dm_calls :: "opencode_call list"

type_synonym daemon_result = "(string + json) \<times> daemon_state"

definition ask_runtime :: "opencode_call \<Rightarrow> string + json_obj \<Rightarrow> (json_obj \<Rightarrow> daemon_state \<Rightarrow> daemon_result) \<Rightarrow> daemon_state \<Rightarrow> daemon_result" where
  "ask_runtime c answer k S =
    (let S1 = S\<lparr>dm_calls := dm_calls S @ [c]\<rparr> in case answer of Inl e \<Rightarrow> (Inl e, S1) | Inr d \<Rightarrow> k d S1)"

definition on_ledger :: "(ledger \<Rightarrow> ledger) \<Rightarrow> daemon_state \<Rightarrow> daemon_state" where
  "on_ledger f S = S\<lparr>dm_ledger := f (dm_ledger S)\<rparr>"

record beat_fields =
  bf_state :: string
  bf_phase :: string
  bf_action :: string
  bf_message :: string
  bf_error :: string
  bf_session :: "string option"
  bf_dir :: string
  bf_stop :: "string option"
  bf_reset :: bool

text \<open>\<open>_record_heartbeat\<close>; its parameter \<open>meaningful\<close> has no use.\<close>

definition daemon_beat :: "utc \<Rightarrow> loop_job \<Rightarrow> beat_fields \<Rightarrow> ledger \<Rightarrow> ledger" where
  "daemon_beat now j f L =
    (let existing = get_beat (lj_id j) L in
     put_beat \<lparr>hb_job = lj_id j, hb_agent = ''smith'', hb_alias = lj_alias j,
       hb_session = (if truthy (bf_session f) then bf_session f else Option.bind existing hb_session), hb_state = bf_state f, hb_phase = bf_phase f,
       hb_action = bf_action f, hb_message = last_chars 1000 (bf_message f), hb_error = last_chars 1000 (bf_error f),
       hb_dir = (if bf_dir f \<noteq> [] then bf_dir f else beat_dir existing),
       hb_started = (if bf_reset f then Some now else Option.bind existing hb_started), hb_updated = now, hb_limit = 300, hb_stop = bf_stop f\<rparr> L)"

text \<open>A step of a job ends with the heartbeat, the update of the row and the entry of the results.\<close>

definition daemon_entry :: "loop_job \<Rightarrow> string \<Rightarrow> string \<Rightarrow> json" where
  "daemon_entry j status action = JObj [(''job_id'', JStr (lj_id j)), (''status'', JStr status), (''action'', JStr action)]"

definition settle :: "utc \<Rightarrow> loop_job \<Rightarrow> beat_fields \<Rightarrow> loop_update \<Rightarrow> loop_status \<Rightarrow> string \<Rightarrow> daemon_state \<Rightarrow> daemon_result" where
  "settle now j f u s action S =
    (case update_loop_job now (lj_id j) u (daemon_beat now j f (dm_ledger S)) of
       (Inl _, L) \<Rightarrow> (Inl (py_repr (lj_id j)), S\<lparr>dm_ledger := L\<rparr>)
     | (Inr _, L) \<Rightarrow> (Inr (daemon_entry j (loop_status_value s) action), S\<lparr>dm_ledger := L\<rparr>))"

definition dir_of :: "json_obj \<Rightarrow> string" where
  "dir_of d = str_or_empty (jget ''working_directory'' d)"

definition noting :: "utc \<Rightarrow> loop_job \<Rightarrow> string \<Rightarrow> json_obj \<Rightarrow> daemon_state \<Rightarrow> daemon_state" where
  "noting now j kind d S = on_ledger (add_loop_event now (lj_id j) kind d) S"

definition is_idle :: "json_obj \<Rightarrow> bool" where
  "is_idle d \<longleftrightarrow> jget ''state'' d = JStr ''idle''"

definition answer_ok :: "json_obj \<Rightarrow> bool" where
  "answer_ok d \<longleftrightarrow> json_truthy (jget ''ok'' d)"

definition full_update :: "loop_status \<Rightarrow> string \<Rightarrow> json_obj \<Rightarrow> string option \<Rightarrow> loop_update" where
  "full_update s next_act evidence err =
    no_update\<lparr>lu_status := Some s, lu_next := Some next_act, lu_evidence := Some evidence, lu_error := err\<rparr>"

subsection \<open>A queued job\<close>

definition busy_fields :: "string \<Rightarrow> json_obj \<Rightarrow> beat_fields" where
  "busy_fields phase status = \<lparr>bf_state = ''running'', bf_phase = phase, bf_action = action_or_status status,
     bf_message = summary_text status, bf_error = [], bf_session = session_of [status], bf_dir = dir_of status, bf_stop = None, bf_reset = False\<rparr>"

definition harvest_fields :: "string \<Rightarrow> string \<Rightarrow> json_obj \<Rightarrow> json_obj \<Rightarrow> beat_fields" where
  "harvest_fields phase stop review status = \<lparr>bf_state = ''needs_review'', bf_phase = phase, bf_action = ''opencode_output'',
     bf_message = summary_text review, bf_error = [], bf_session = session_of [review, status], bf_dir = dir_of status, bf_stop = Some stop,
     bf_reset = False\<rparr>"

definition send_result :: "utc \<Rightarrow> loop_job \<Rightarrow> json_obj \<Rightarrow> daemon_state \<Rightarrow> daemon_result" where
  "send_result now j out S =
    (let ok = answer_ok out; err = str_or (jget ''error'' out) ''Smith send failed''; s = (if ok then Loop_running else Loop_blocked) in
     settle now j \<lparr>bf_state = loop_status_value s, bf_phase = (if ok then ''sent_to_smith'' else ''send_failed''), bf_action = ''opencode_send'',
         bf_message = summary_text out, bf_error = (if ok then [] else err), bf_session = session_of [out], bf_dir = dir_of out,
         bf_stop = (if ok then None else Some ''send_failed''), bf_reset = False\<rparr>
       (full_update s (if ok then ''check_smith_output'' else ''needs_user_or_operator_review'') (bounded out) (if ok then None else Some err))
       s ''sent_to_smith'' S)"

definition after_timeout :: "daemon_env \<Rightarrow> loop_job \<Rightarrow> json_obj \<Rightarrow> json_obj \<Rightarrow> daemon_state \<Rightarrow> daemon_result" where
  "after_timeout E j out status S0 =
    (let now = ld_now E; S = noting now j ''smith_status_after_send_timeout'' (bounded status) S0 in
     if answer_ok status \<and> is_idle status then
       ask_runtime (Call_output (lj_alias j)) (ld_output E j) (\<lambda>review S1.
         settle now j (harvest_fields ''output_ready_after_send_timeout'' ''smith_idle_after_send_timeout'' review status)
           (full_update Loop_needs_review ''cloyd_review_evidence'' (bounded review) (Some []))
           Loop_needs_review ''harvested_output_after_send_timeout''
           (noting now j ''smith_output_after_send_timeout'' (bounded review) S1)) S
     else if answer_ok status then
       settle now j (busy_fields ''smith_busy_after_send_timeout'' status)
         (full_update Loop_running ''check_smith_output'' (bounded status) (Some [])) Loop_running ''send_timed_out_but_smith_busy'' S
     else send_result now j out S)"

definition claim_job :: "utc \<Rightarrow> loop_job \<Rightarrow> daemon_state \<Rightarrow> daemon_state" where
  "claim_job now j S = on_ledger (\<lambda>L. daemon_beat now j
      \<lparr>bf_state = ''running'', bf_phase = ''sending_to_smith'', bf_action = ''opencode_send'', bf_message = ''Sending bounded Smith prompt.'',
       bf_error = [], bf_session = None, bf_dir = [], bf_stop = None, bf_reset = True\<rparr>
      (snd (update_loop_job now (lj_id j) (full_update Loop_running ''await_smith_send_result'' [(''phase'', JStr ''sending_to_smith'')] None) L))) S"

definition queued_step :: "daemon_env \<Rightarrow> loop_job \<Rightarrow> daemon_state \<Rightarrow> daemon_result" where
  "queued_step E j S =
    ask_runtime (Call_send (lj_alias j) (smith_prompt j)) (ld_send E j) (\<lambda>out S1.
      let S2 = noting (ld_now E) j ''smith_send'' (bounded out) S1 in
      if send_timed_out out then ask_runtime (Call_status (lj_alias j)) (ld_status E j) (after_timeout E j out) S2
      else send_result (ld_now E) j out S2) (claim_job (ld_now E) j S)"

subsection \<open>A running job\<close>

definition status_failed :: "utc \<Rightarrow> loop_job \<Rightarrow> string \<Rightarrow> string \<Rightarrow> string \<Rightarrow> json_obj \<Rightarrow> daemon_state \<Rightarrow> daemon_result" where
  "status_failed now j phase default_error action status S =
    (let err = str_or (jget ''error'' status) default_error in
     settle now j \<lparr>bf_state = ''blocked'', bf_phase = phase, bf_action = ''opencode_status'', bf_message = [], bf_error = err,
         bf_session = session_of [status], bf_dir = dir_of status, bf_stop = Some phase, bf_reset = False\<rparr>
       (full_update Loop_blocked ''fix_runtime_or_retry'' (bounded status) (Some err)) Loop_blocked action S)"

text \<open>\<open>_block_long_busy_job_if_needed\<close>: \<open>Some\<close> the seconds of a run that is busy for too long.\<close>

definition long_busy :: "utc \<Rightarrow> loop_job \<Rightarrow> ledger \<Rightarrow> int option" where
  "long_busy now j L =
    (case get_beat (lj_id j) L of
       None \<Rightarrow> None
     | Some b \<Rightarrow>
         (let elapsed = whole_seconds (now - (case hb_started b of None \<Rightarrow> hb_updated b | Some t \<Rightarrow> t))
          in if hb_state b \<noteq> ''running'' \<or> elapsed \<le> 180 then None else Some elapsed))"

definition block_long_busy :: "utc \<Rightarrow> loop_job \<Rightarrow> json_obj \<Rightarrow> int \<Rightarrow> json_obj \<Rightarrow> daemon_state \<Rightarrow> daemon_result" where
  "block_long_busy now j status elapsed stop S =
    (let why = ''Smith stayed busy for '' @ show_int elapsed @ ''s without producing reviewable output; ''
           @ ''stopped OpenCode session after max busy window of 180s.'';
         seen = [(''status'', JObj (bounded status)), (''stop'', JObj (bounded stop)), (''elapsed_seconds'', JInt elapsed)] in
     settle now j \<lparr>bf_state = ''blocked'', bf_phase = ''smith_busy_timeout'', bf_action = ''opencode_stop'', bf_message = summary_text stop,
         bf_error = why, bf_session = session_of [status], bf_dir = dir_of status, bf_stop = Some ''smith_busy_timeout'', bf_reset = False\<rparr>
       (full_update Loop_blocked BUSY_NEXT seen (Some why)) Loop_blocked ''blocked_busy_timeout''
       (noting now j ''smith_busy_timeout_stop'' seen S))"

definition running_step :: "daemon_env \<Rightarrow> loop_job \<Rightarrow> daemon_state \<Rightarrow> daemon_result" where
  "running_step E j S =
    ask_runtime (Call_status (lj_alias j)) (ld_status E j) (\<lambda>status S1.
      let now = ld_now E; S2 = noting now j ''smith_status'' (bounded status) S1 in
      if \<not> answer_ok status then status_failed now j ''status_failed'' ''Smith status failed'' ''blocked'' status S2
      else if \<not> is_idle status then
        (case long_busy now j (dm_ledger S2) of
           Some elapsed \<Rightarrow> ask_runtime (Call_stop (lj_alias j)) (ld_stop E j) (block_long_busy now j status elapsed) S2
         | None \<Rightarrow> settle now j (busy_fields ''smith_busy'' status)
             (no_update\<lparr>lu_next := Some ''check_smith_output'', lu_evidence := Some (bounded status)\<rparr>) Loop_running ''still_running'' S2)
      else ask_runtime (Call_output (lj_alias j)) (ld_output E j) (\<lambda>out S3.
          settle now j (harvest_fields ''output_ready'' ''smith_idle'' out status)
            (full_update Loop_needs_review ''cloyd_review_evidence'' (bounded out) None) Loop_needs_review ''ready_for_review''
            (noting now j ''smith_output'' (bounded out) S3)) S2) S"

subsection \<open>A stale job\<close>

definition stale_step :: "daemon_env \<Rightarrow> loop_job \<Rightarrow> daemon_state \<Rightarrow> daemon_result" where
  "stale_step E j S =
    ask_runtime (Call_status (lj_alias j)) (ld_status E j) (\<lambda>status S1.
      let now = ld_now E; S2 = noting now j ''smith_status_after_stale'' (bounded status) S1 in
      if answer_ok status \<and> \<not> is_idle status then
        settle now j (busy_fields ''smith_busy_after_stale'' status)
          (full_update Loop_running ''check_smith_output'' (bounded status) (Some [])) Loop_running ''recovered_stale_busy'' S2
      else if answer_ok status then
        ask_runtime (Call_output (lj_alias j)) (ld_output E j) (\<lambda>out S3.
          settle now j (harvest_fields ''output_ready_after_stale'' ''smith_idle_after_stale'' out status)
            (full_update Loop_needs_review ''cloyd_review_evidence'' (bounded out) (Some [])) Loop_needs_review ''harvested_output_after_stale''
            (noting now j ''smith_output_after_stale'' (bounded out) S3)) S2
      else status_failed now j ''status_failed_after_stale'' ''Smith status failed after stale'' ''blocked_after_stale_status_failed'' status S2) S"

subsection \<open>The cycle\<close>

definition job_step :: "daemon_env \<Rightarrow> loop_job \<Rightarrow> daemon_state \<Rightarrow> (string + json option) \<times> daemon_state" where
  "job_step E j S =
    (let entered = (\<lambda>(r, S1). (map_sum id Some r, S1)) in
     case lj_status j of
       Loop_stale \<Rightarrow> entered (stale_step E j S)
     | Loop_queued \<Rightarrow> entered (queued_step E j S)
     | Loop_running \<Rightarrow> entered (running_step E j S)
     | _ \<Rightarrow> (Inr None, S))"

fun job_steps :: "daemon_env \<Rightarrow> loop_job list \<Rightarrow> json list \<Rightarrow> daemon_state \<Rightarrow> (string + json list) \<times> daemon_state" where
  "job_steps E [] acc S = (Inr acc, S)"
| "job_steps E (j # js) acc S =
    (case job_step E j S of
       (Inl e, S1) \<Rightarrow> (Inl e, S1)
     | (Inr r, S1) \<Rightarrow> job_steps E js (acc @ (case r of None \<Rightarrow> [] | Some x \<Rightarrow> [x])) S1)"

definition stale_entry :: "run_beat \<Rightarrow> json" where
  "stale_entry b = JObj [(''job_id'', JStr (hb_job b)), (''status'', JStr ''stale''), (''action'', JStr ''marked_stale'')]"

definition run_cycle :: "daemon_env \<Rightarrow> daemon_state \<Rightarrow> (string + json list) \<times> daemon_state" where
  "run_cycle E S =
    (let (bs, L) = mark_stale_runs (ld_now E) (dm_ledger S)
     in job_steps E (list_active 20 L) (map stale_entry bs) (S\<lparr>dm_ledger := L\<rparr>))"

definition stop_job :: "daemon_env \<Rightarrow> string \<Rightarrow> daemon_state \<Rightarrow> daemon_result" where
  "stop_job E i S =
    (case get_loop_job i (dm_ledger S) of
       Inl _ \<Rightarrow> (Inl (py_repr i), S)
     | Inr j \<Rightarrow> ask_runtime (Call_stop (lj_alias j)) (ld_stop E j) (\<lambda>d S1.
         case settle (ld_now E) j \<lparr>bf_state = ''stopped'', bf_phase = ''stopped'', bf_action = ''opencode_stop'', bf_message = summary_text d,
             bf_error = [], bf_session = session_of [d], bf_dir = [], bf_stop = Some ''stopped_by_supervisor'', bf_reset = False\<rparr>
           (full_update Loop_stopped ''stopped_by_supervisor'' (bounded d) None) Loop_stopped []
           (noting (ld_now E) j ''smith_stop'' (bounded d) S1) of
           (Inl e, S2) \<Rightarrow> (Inl e, S2)
         | (Inr _, S2) \<Rightarrow> (Inr (JObj [(''job_id'', JStr i), (''status'', JStr ''stopped''), (''smith_stop'', JObj d)]), S2)) S)"

text \<open>One round of the loop: the cycle and the heartbeat of the supervisor.\<close>

definition supervisor_payload :: "utc \<Rightarrow> int \<Rightarrow> string \<Rightarrow> string \<Rightarrow> bool \<Rightarrow> json list \<Rightarrow> string \<Rightarrow> json_obj" where
  "supervisor_payload now pid database status ok results err =
    [(''ok'', JBool ok), (''status'', JStr status), (''pid'', JInt pid), (''database'', JStr database), (''updated_at'', jtime now),
     (''result_count'', JInt (int (length results))), (''results'', JObj (bounded_payload 5000 (JList results))), (''error'', JStr err)]"

definition daemon_round :: "daemon_env \<Rightarrow> int \<Rightarrow> string \<Rightarrow> daemon_state \<Rightarrow> json_obj \<times> daemon_state" where
  "daemon_round E pid database S =
    (case run_cycle E S of
       (Inr rs, S1) \<Rightarrow> (supervisor_payload (ld_now E) pid database ''loop_ok'' True rs [], S1)
     | (Inl e, S1) \<Rightarrow> (supervisor_payload (ld_now E) pid database ''loop_error'' False [] e, S1))"

end
