(* ===== verification/Loop_Moves.thy ===== *)
theory Loop_Moves
  imports Loop_Daemon
begin

section \<open>Moves of the job table\<close>

text \<open>
  What an operation of the Cloyd-Smith loop does to the rows of the job table. \<open>one_row i R\<close> says that only
  the row of job \<open>i\<close> moves, and along \<open>R\<close>; \<open>table_moves R\<close> that every row does. The locale \<open>row_relation\<close>
  composes such moves for every reflexive and transitive \<open>R\<close>; its interpretations are the moves of
  the daemon and the ones of \<open>mark_stale_runs\<close>.
\<close>

subsection \<open>The job table under the operations of the store\<close>

lemma jobs_event [simp]: "lg_jobs (add_loop_event now i t p L) = lg_jobs L"
  by (simp add: add_loop_event_def)

lemma jobs_beat [simp]: "lg_jobs (snd (record_beat b L)) = lg_jobs L"
  by (simp add: record_beat_def Let_def)

lemma jobs_tool_effects [simp]:
  "lg_jobs (put_event T i t p L) = lg_jobs L" "lg_jobs (put_beat b L) = lg_jobs L"
  "lg_jobs (daemon_beat now j f L) = lg_jobs L"
  by (simp_all add: put_event_def put_beat_def daemon_beat_def Let_def)

lemma get_loop_job_cong: "lg_jobs L = lg_jobs M \<Longrightarrow> get_loop_job i L = get_loop_job i M"
  by (simp add: get_loop_job_def)

lemma get_effects [simp]:
  "get_loop_job k (add_loop_event now i t p L) = get_loop_job k L"
  "get_loop_job k (put_event T i t p L) = get_loop_job k L"
  "get_loop_job k (put_beat b L) = get_loop_job k L"
  "get_loop_job k (snd (record_beat b L)) = get_loop_job k L"
  "get_loop_job k (daemon_beat now j f L) = get_loop_job k L"
  by (simp_all add: get_loop_job_def)

lemma get_loop_job_Inr: "get_loop_job i L = Inr j \<Longrightarrow> j \<in> set (lg_jobs L) \<and> lj_id j = i"
  by (auto simp: get_loop_job_def split: option.splits dest: row_of_SomeD)

lemma apply_update_id [simp]: "lj_id (apply_update now u j) = lj_id j" "lj_id (loop_row j) = lj_id j"
  by (simp_all add: apply_update_def loop_row_def Let_def)

lemma row_of_const_update:
  "key r = i \<Longrightarrow> row_of key k (sql_update (\<lambda>x. key x = i) (\<lambda>_. r) t) = (if k = i then map_option (\<lambda>_. r) (row_of key k t) else row_of key k t)"
  by (induction t) auto

lemma keys_const_update: "key r = i \<Longrightarrow> map key (sql_update (\<lambda>x. key x = i) (\<lambda>_. r) t) = map key t"
  by (induction t) auto

text \<open>The row that an update leaves.\<close>

definition updated_row :: "utc \<Rightarrow> loop_update \<Rightarrow> loop_job \<Rightarrow> loop_job" where
  "updated_row now u j = loop_row (apply_update now u j)"

lemma get_update:
  "get_loop_job k (snd (update_loop_job now i u L)) =
    (case get_loop_job k L of Inl e \<Rightarrow> Inl e | Inr j \<Rightarrow> Inr (if k = i then updated_row now u j else j))"
proof (cases "get_loop_job i L")
  case (Inl e)
  then show ?thesis by (cases "k = i") (auto simp: update_loop_job_def split: sum.splits)
next
  case (Inr j)
  then have id: "lj_id (loop_row (apply_update now u j)) = i" using get_loop_job_Inr by simp
  have "row_of lj_id i (lg_jobs L) = Some j" using Inr by (simp add: get_loop_job_def split: option.splits)
  then show ?thesis using Inr
    by (simp add: update_loop_job_def Let_def get_loop_job_def row_of_const_update [where key = lj_id, OF id] updated_row_def split: option.splits)
qed

lemma keys_update [simp]: "map lj_id (lg_jobs (snd (update_loop_job now i u L))) = map lj_id (lg_jobs L)"
proof (cases "get_loop_job i L")
  case (Inr j)
  then have id: "lj_id (loop_row (apply_update now u j)) = i" using get_loop_job_Inr by simp
  show ?thesis using Inr by (simp add: update_loop_job_def Let_def keys_const_update [where key = lj_id, OF id])
qed (simp add: update_loop_job_def)

lemma get_put_update:
  "get_loop_job k (put_update T i u L) =
    (case get_loop_job k L of Inl e \<Rightarrow> Inl e | Inr j \<Rightarrow> Inr (if k = i then updated_row (lt_now T) u j else j))"
  by (simp add: put_update_def get_update)

lemma updated_row_simps [simp]:
  "lj_id (updated_row now u j) = lj_id j" "lj_objective (updated_row now u j) = lj_objective j"
  "lj_alias (updated_row now u j) = lj_alias j" "lj_criteria (updated_row now u j) = lj_criteria j"
  "lj_by (updated_row now u j) = lj_by j" "lj_created (updated_row now u j) = lj_created j"
  "lj_status (updated_row now u j) = (case lu_status u of None \<Rightarrow> lj_status j | Some s \<Rightarrow> s)"
  "lj_prompt (updated_row now u j) = (case lu_prompt u of None \<Rightarrow> lj_prompt j | Some p \<Rightarrow> p)"
  "lj_metadata (updated_row now u j) = (case lu_metadata u of None \<Rightarrow> lj_metadata j | Some m \<Rightarrow> m)"
  "lj_updated (updated_row now u j) = now"
  by (simp_all add: updated_row_def apply_update_def loop_row_def Let_def)

text \<open>A completion time belongs to the closed statuses.\<close>

definition job_closed_wf :: "loop_job \<Rightarrow> bool" where
  "job_closed_wf j \<longleftrightarrow> (lj_completed j \<noteq> None) = (lj_status j \<in> set CLOSED_STATUSES)"

lemma updated_row_closed: "job_closed_wf j \<Longrightarrow> job_closed_wf (updated_row now u j)"
  by (auto simp: job_closed_wf_def updated_row_def apply_update_def loop_row_def Let_def)

subsection \<open>Moves of one row\<close>

definition one_row :: "string \<Rightarrow> (loop_job \<Rightarrow> loop_job \<Rightarrow> bool) \<Rightarrow> ledger \<Rightarrow> ledger \<Rightarrow> bool" where
  "one_row i R L M \<longleftrightarrow> map lj_id (lg_jobs M) = map lj_id (lg_jobs L)
     \<and> (\<forall>k. k \<noteq> i \<longrightarrow> get_loop_job k M = get_loop_job k L)
     \<and> (\<forall>j. get_loop_job i L = Inr j \<longrightarrow> (\<exists>r. get_loop_job i M = Inr r \<and> R j r))"

text \<open>Every row moves along \<open>R\<close>, and rows may be added.\<close>

definition all_rows :: "(loop_job \<Rightarrow> loop_job \<Rightarrow> bool) \<Rightarrow> ledger \<Rightarrow> ledger \<Rightarrow> bool" where
  "all_rows R L M \<longleftrightarrow> (\<forall>i j. get_loop_job i L = Inr j \<longrightarrow> (\<exists>r. get_loop_job i M = Inr r \<and> R j r))"

text \<open>A pass over a snapshot of the table: the rows of the snapshot are current when their turn comes.\<close>

definition current :: "loop_job list \<Rightarrow> ledger \<Rightarrow> bool" where
  "current js L \<longleftrightarrow> distinct (map lj_id js) \<and> (\<forall>j \<in> set js. get_loop_job (lj_id j) L = Inr j)"

definition table_moves :: "(loop_job \<Rightarrow> loop_job \<Rightarrow> bool) \<Rightarrow> ledger \<Rightarrow> ledger \<Rightarrow> bool" where
  "table_moves R L M \<longleftrightarrow> map lj_id (lg_jobs M) = map lj_id (lg_jobs L) \<and> all_rows R L M"

lemma current_Cons: "current (j # js) L \<Longrightarrow> one_row (lj_id j) R L M \<Longrightarrow> current js M"
  by (auto simp: current_def one_row_def image_iff)

lemma one_row_cong: "lg_jobs M = lg_jobs M' \<Longrightarrow> lg_jobs L = lg_jobs L' \<Longrightarrow> one_row i R L M = one_row i R L' M'"
  by (simp add: one_row_def get_loop_job_cong [of M M'] get_loop_job_cong [of L L'])

lemma one_row_effects [simp]:
  "one_row i R L (add_loop_event now k t p M) = one_row i R L M" "one_row i R (add_loop_event now k t p L) M = one_row i R L M"
  "one_row i R L (snd (record_beat b M)) = one_row i R L M" "one_row i R (snd (record_beat b L)) M = one_row i R L M"
  "one_row i R L (put_event T k t p M) = one_row i R L M" "one_row i R (put_event T k t p L) M = one_row i R L M"
  "one_row i R L (put_beat b M) = one_row i R L M" "one_row i R (put_beat b L) M = one_row i R L M"
  "one_row i R L (daemon_beat now j f M) = one_row i R L M" "one_row i R (daemon_beat now j f L) M = one_row i R L M"
  by (intro one_row_cong; simp)+

lemma jobs_update_cong:
  "lg_jobs L = lg_jobs M \<Longrightarrow> lg_jobs (snd (update_loop_job now i u L)) = lg_jobs (snd (update_loop_job now i u M))"
  by (simp add: update_loop_job_def get_loop_job_cong [of L M] Let_def split: sum.splits)

locale row_relation =
  fixes R :: "loop_job \<Rightarrow> loop_job \<Rightarrow> bool"
  assumes refl: "R j j"
    and trans: "R j k \<Longrightarrow> R k l \<Longrightarrow> R j l"
begin

lemma one_row_same: "lg_jobs M = lg_jobs L \<Longrightarrow> one_row i R L M"
  using refl by (simp add: one_row_def get_loop_job_cong [of M L])

lemma one_row_trans: "one_row i R L M \<Longrightarrow> one_row i R M N \<Longrightarrow> one_row i R L N"
  unfolding one_row_def using trans by fastforce

lemma one_row_update: "(\<And>j. get_loop_job i L = Inr j \<Longrightarrow> R j (updated_row now u j)) \<Longrightarrow> one_row i R L (snd (update_loop_job now i u L))"
  by (auto simp: one_row_def get_update split: sum.splits)

lemma one_row_all: "one_row i R L M \<Longrightarrow> all_rows R L M"
  unfolding one_row_def all_rows_def
proof (intro allI impI)
  fix k j
  assume one: "map lj_id (lg_jobs M) = map lj_id (lg_jobs L) \<and> (\<forall>k. k \<noteq> i \<longrightarrow> get_loop_job k M = get_loop_job k L)
      \<and> (\<forall>j. get_loop_job i L = Inr j \<longrightarrow> (\<exists>r. get_loop_job i M = Inr r \<and> R j r))" and get: "get_loop_job k L = Inr j"
  show "\<exists>r. get_loop_job k M = Inr r \<and> R j r" using one get refl by (cases "k = i") auto
qed

lemma all_rows_same: "lg_jobs M = lg_jobs L \<Longrightarrow> all_rows R L M"
  using refl by (simp add: all_rows_def get_loop_job_cong [of M L])

lemma all_rows_trans: "all_rows R L M \<Longrightarrow> all_rows R M N \<Longrightarrow> all_rows R L N"
  unfolding all_rows_def using trans by fastforce

lemma all_rows_create: "all_rows R L (snd (create_loop_job now i c L))"
  using refl by (auto simp: all_rows_def create_loop_job_def get_loop_job_def table_simps split: option.splits)

lemma one_row_table: "one_row i R L M \<Longrightarrow> table_moves R L M"
  using one_row_all by (simp add: table_moves_def one_row_def)

lemma table_moves_same: "lg_jobs M = lg_jobs L \<Longrightarrow> table_moves R L M"
  using all_rows_same by (simp add: table_moves_def)

lemma table_moves_trans: "table_moves R L M \<Longrightarrow> table_moves R M N \<Longrightarrow> table_moves R L N"
  using all_rows_trans by (auto simp: table_moves_def)

lemma fold_moves:
  assumes step: "\<And>j S. get_loop_job (lj_id j) (sel S) = Inr j \<Longrightarrow> one_row (lj_id j) R (sel S) (sel (f j S))"
  shows "current js (sel S) \<Longrightarrow> table_moves R (sel S) (sel (fold f js S))"
proof (induction js arbitrary: S)
  case Nil
  show ?case by (simp add: table_moves_same)
next
  case (Cons j js)
  then have "get_loop_job (lj_id j) (sel S) = Inr j" by (simp add: current_def)
  then have one: "one_row (lj_id j) R (sel S) (sel (f j S))" by (rule step)
  from Cons.IH [OF current_Cons [OF Cons.prems one]] table_moves_trans [OF one_row_table [OF one]] show ?case by simp
qed

end

lemma sub_table_current:
  assumes "distinct (map lj_id (lg_jobs L))" and "distinct (map lj_id js)" and "set js \<subseteq> set (lg_jobs L)"
  shows "current js L"
  using assms by (auto simp: current_def get_loop_job_def row_of_distinct)

lemma distinct_sql_limit: "distinct (map f xs) \<Longrightarrow> distinct (map f (sql_limit n xs))"
  by (simp add: sql_limit_def take_map [symmetric] distinct_take)

lemma distinct_sort_key: "distinct (map f xs) \<Longrightarrow> distinct (map f (sort_key k xs))"
  by (simp add: distinct_map)

lemma list_active_current: "distinct (map lj_id (lg_jobs L)) \<Longrightarrow> current (list_active n L) L"
  by (rule sub_table_current)
    (auto simp: list_active_def distinct_map_filter intro!: distinct_sql_limit distinct_sort_key dest: subsetD [OF set_sql_limit])

lemma list_active_status: "j \<in> set (list_active n L) \<Longrightarrow> lj_status j \<in> set ACTIVE_STATUSES"
  by (auto simp: list_active_def dest: subsetD [OF set_sql_limit])

subsection \<open>What the daemon may do to a job\<close>

definition daemon_move :: "loop_job \<Rightarrow> loop_job \<Rightarrow> bool" where
  "daemon_move j r \<longleftrightarrow>
     (lj_id r = lj_id j \<and> lj_objective r = lj_objective j \<and> lj_alias r = lj_alias j \<and> lj_criteria r = lj_criteria j
      \<and> lj_prompt r = lj_prompt j \<and> lj_by r = lj_by j \<and> lj_metadata r = lj_metadata j \<and> lj_created r = lj_created j)
     \<and> (job_closed_wf j \<longrightarrow> job_closed_wf r)
     \<and> (r = j \<or> lj_status j \<in> {Loop_queued, Loop_running, Loop_stale}
          \<and> lj_status r \<in> {Loop_running, Loop_needs_review, Loop_blocked, Loop_stale})"

interpretation daemon_rows: row_relation daemon_move
  by unfold_locales (auto simp: daemon_move_def)

lemma daemon_move_update:
  assumes "lj_status j \<in> {Loop_running, Loop_stale} \<or> lj_status j = Loop_queued \<and> lu_status u \<noteq> None"
    and "lu_status u \<in> {None, Some Loop_running, Some Loop_needs_review, Some Loop_blocked, Some Loop_stale}"
    and "lu_prompt u = None" and "lu_metadata u = None"
  shows "daemon_move j (updated_row now u j)"
  using assms by (auto simp: daemon_move_def updated_row_closed)

text \<open>Marking stale runs moves running jobs only.\<close>

definition stale_move :: "loop_job \<Rightarrow> loop_job \<Rightarrow> bool" where
  "stale_move j r \<longleftrightarrow> daemon_move j r \<and> (r = j \<or> lj_status j = Loop_running \<and> lj_status r = Loop_stale)"

interpretation stale_rows: row_relation stale_move
  by unfold_locales (auto simp: stale_move_def daemon_rows.refl intro: daemon_rows.trans)

lemma all_rows_mono: "all_rows R L M \<Longrightarrow> (\<And>j r. R j r \<Longrightarrow> R' j r) \<Longrightarrow> all_rows R' L M"
  unfolding all_rows_def by blast

lemma table_moves_mono: "table_moves R L M \<Longrightarrow> (\<And>j r. R j r \<Longrightarrow> R' j r) \<Longrightarrow> table_moves R' L M"
  unfolding table_moves_def using all_rows_mono by blast

lemma mark_stale_run_move:
  assumes "get_loop_job (lj_id j) (snd S) = Inr j"
  shows "one_row (lj_id j) stale_move (snd S) (snd (mark_stale_run now j S))"
proof -
  have upd: "one_row (lj_id j) stale_move (snd S) (snd (update_loop_job now (lj_id j) (no_update\<lparr>lu_status := Some Loop_stale,
      lu_next := n, lu_error := e, lu_evidence := v\<rparr>) (snd (record_beat b (snd S)))))"
    if "lj_status j = Loop_running" for n e v b
    unfolding one_row_cong [OF jobs_update_cong [OF jobs_beat] refl]
    using that assms by (intro stale_rows.one_row_update) (auto simp: stale_move_def no_update_def intro!: daemon_move_update)
  show ?thesis
    by (auto simp: mark_stale_run_def Let_def stale_rows.one_row_same upd split: option.splits)
qed

lemma mark_stale_moves:
  assumes "distinct (map lj_id (lg_jobs L))"
  shows "table_moves stale_move L (snd (mark_stale_runs now L))"
  using stale_rows.fold_moves [where sel = snd and f = "mark_stale_run now" and js = "list_active 50 L" and S = "([], L)",
      OF mark_stale_run_move] list_active_current [OF assms]
  by (simp add: mark_stale_runs_def)

text \<open>The steps of the daemon.\<close>

definition live :: "string \<Rightarrow> daemon_state \<Rightarrow> bool" where
  "live i S \<longleftrightarrow> (\<forall>c. get_loop_job i (dm_ledger S) = Inr c \<longrightarrow> lj_status c \<in> {Loop_running, Loop_stale})"

definition steps_row :: "string \<Rightarrow> daemon_state \<Rightarrow> daemon_state \<Rightarrow> bool" where
  "steps_row i S M \<longleftrightarrow> one_row i daemon_move (dm_ledger S) (dm_ledger M)"

lemma dm_ledger_noting [simp]: "dm_ledger (noting now j k d S) = add_loop_event now (lj_id j) k d (dm_ledger S)"
  by (simp add: noting_def on_ledger_def)

lemma steps_row_noting [simp]: "steps_row i (noting now j k d S) M = steps_row i S M"
  by (simp add: steps_row_def)

lemma live_noting [simp]: "live i (noting now j k d S) = live i S"
  by (simp add: live_def)

lemma ask_moves:
  assumes "live i S" and "\<And>d S1. live i S1 \<Longrightarrow> steps_row i S1 (snd (k d S1))"
  shows "steps_row i S (snd (ask_runtime c a k S))"
proof (cases a)
  case (Inr d)
  from assms(1) have "live i (S\<lparr>dm_calls := dm_calls S @ [c]\<rparr>)" by (simp add: live_def)
  from assms(2) [OF this] Inr show ?thesis by (simp add: ask_runtime_def Let_def steps_row_def)
qed (simp add: ask_runtime_def Let_def steps_row_def daemon_rows.one_row_same)

definition daemon_update :: "loop_update \<Rightarrow> bool" where
  "daemon_update u \<longleftrightarrow> lu_status u \<in> {None, Some Loop_running, Some Loop_needs_review, Some Loop_blocked} \<and> lu_prompt u = None \<and> lu_metadata u = None"

lemma daemon_update_full [simp]:
  "daemon_update (full_update s n v e) \<longleftrightarrow> s \<in> {Loop_running, Loop_needs_review, Loop_blocked}"
  "daemon_update (no_update\<lparr>lu_next := n', lu_evidence := v'\<rparr>)"
  by (simp_all add: daemon_update_def full_update_def no_update_def)

lemma settle_moves:
  assumes "live (lj_id j) S" and "daemon_update u"
  shows "steps_row (lj_id j) S (snd (settle now j f u s a S))"
proof -
  have upd: "one_row (lj_id j) daemon_move (dm_ledger S) (snd (update_loop_job now (lj_id j) u (daemon_beat now j f (dm_ledger S))))"
    unfolding one_row_cong [OF jobs_update_cong [OF jobs_tool_effects(3)] refl]
    using assms by (intro daemon_rows.one_row_update daemon_move_update) (auto simp: live_def daemon_update_def)
  have "dm_ledger (snd (settle now j f u s a S)) = snd (update_loop_job now (lj_id j) u (daemon_beat now j f (dm_ledger S)))"
    by (simp add: settle_def split: prod.splits sum.splits)
  with upd show ?thesis by (simp add: steps_row_def)
qed

lemma settle_noted:
  "live (lj_id j) S \<Longrightarrow> daemon_update u \<Longrightarrow> steps_row (lj_id j) S (snd (settle now j f u s a (noting now' j k d S)))"
  using settle_moves [of j "noting now' j k d S"] by simp

lemma ask_noted:
  "live i S \<Longrightarrow> (\<And>d S1. live i S1 \<Longrightarrow> steps_row i S1 (snd (k d S1))) \<Longrightarrow> steps_row i S (snd (ask_runtime c a k (noting now j t p S)))"
  using ask_moves [of i "noting now j t p S"] by simp

lemmas daemon_moves = settle_noted ask_noted settle_moves ask_moves

lemma send_result_moves: "live (lj_id j) S \<Longrightarrow> steps_row (lj_id j) S (snd (send_result now j out (noting now' j k d S)))"
  by (auto simp: send_result_def Let_def intro!: settle_noted)

lemma after_timeout_moves: "live (lj_id j) S \<Longrightarrow> steps_row (lj_id j) S (snd (after_timeout E j out status S))"
  by (auto simp: after_timeout_def Let_def intro!: daemon_moves send_result_moves)

lemma claim_moves:
  assumes "get_loop_job (lj_id j) (dm_ledger S) = Inr j" and "lj_status j = Loop_queued"
  shows "steps_row (lj_id j) S (claim_job now j S) \<and> live (lj_id j) (claim_job now j S)"
proof
  have "one_row (lj_id j) daemon_move (dm_ledger S)
      (snd (update_loop_job now (lj_id j) (full_update Loop_running n v None) (dm_ledger S)))" for n v
    using assms by (intro daemon_rows.one_row_update daemon_move_update) (auto simp: full_update_def no_update_def)
  then show "steps_row (lj_id j) S (claim_job now j S)" by (simp add: claim_job_def on_ledger_def steps_row_def)
  show "live (lj_id j) (claim_job now j S)"
    using assms by (simp add: claim_job_def on_ledger_def live_def get_update full_update_def no_update_def)
qed

lemma steps_row_trans: "steps_row i S M \<Longrightarrow> steps_row i M N \<Longrightarrow> steps_row i S N"
  unfolding steps_row_def by (rule daemon_rows.one_row_trans)

lemma queued_moves:
  assumes "get_loop_job (lj_id j) (dm_ledger S) = Inr j" and "lj_status j = Loop_queued"
  shows "steps_row (lj_id j) S (snd (queued_step E j S))"
proof (rule steps_row_trans)
  from claim_moves [OF assms] show "steps_row (lj_id j) S (claim_job (ld_now E) j S)" by blast
  from claim_moves [OF assms] show "steps_row (lj_id j) (claim_job (ld_now E) j S) (snd (queued_step E j S))"
    unfolding queued_step_def
    by (auto simp: Let_def intro!: ask_moves [of "lj_id j"] ask_noted send_result_moves after_timeout_moves)
qed

lemma status_failed_moves: "live (lj_id j) S \<Longrightarrow> steps_row (lj_id j) S (snd (status_failed now j p e a st (noting now' j k d S)))"
  by (auto simp: status_failed_def Let_def intro!: settle_noted)

lemma block_long_busy_moves: "live (lj_id j) S \<Longrightarrow> steps_row (lj_id j) S (snd (block_long_busy now j st n d S))"
  by (auto simp: block_long_busy_def Let_def intro!: settle_noted)

lemma running_moves: "live (lj_id j) S \<Longrightarrow> steps_row (lj_id j) S (snd (running_step E j S))"
  unfolding running_step_def
  by (rule ask_moves)
    (auto simp: Let_def intro!: daemon_moves status_failed_moves block_long_busy_moves split: option.splits)

lemma stale_moves: "live (lj_id j) S \<Longrightarrow> steps_row (lj_id j) S (snd (stale_step E j S))"
  unfolding stale_step_def
  by (rule ask_moves) (auto simp: Let_def intro!: daemon_moves status_failed_moves)

lemma job_step_moves:
  assumes "get_loop_job (lj_id j) (dm_ledger S) = Inr j"
  shows "steps_row (lj_id j) S (snd (job_step E j S))"
proof -
  have live: "lj_status j \<in> {Loop_running, Loop_stale} \<Longrightarrow> live (lj_id j) S" using assms by (auto simp: live_def)
  have same: "steps_row (lj_id j) S S" by (simp add: steps_row_def daemon_rows.one_row_same)
  show ?thesis
    using queued_moves [OF assms, of E] running_moves [OF live, of E] stale_moves [OF live, of E] same
    by (auto simp: job_step_def Let_def split: loop_status.splits prod.splits)
qed

lemma job_steps_moves: "current js (dm_ledger S) \<Longrightarrow> table_moves daemon_move (dm_ledger S) (dm_ledger (snd (job_steps E js acc S)))"
proof (induction js arbitrary: S acc)
  case Nil
  show ?case by (simp add: daemon_rows.table_moves_same)
next
  case (Cons j js)
  obtain r S1 where step: "job_step E j S = (r, S1)" by (cases "job_step E j S")
  from Cons.prems have "get_loop_job (lj_id j) (dm_ledger S) = Inr j" by (simp add: current_def)
  from job_step_moves [OF this, of E] step have one: "one_row (lj_id j) daemon_move (dm_ledger S) (dm_ledger S1)"
    by (simp add: steps_row_def)
  have "table_moves daemon_move (dm_ledger S) (dm_ledger (snd (job_steps E js a S1)))" for a
    using daemon_rows.table_moves_trans [OF daemon_rows.one_row_table [OF one] Cons.IH [OF current_Cons [OF Cons.prems one]]] .
  then show ?case using step daemon_rows.one_row_table [OF one] by (simp split: sum.splits)
qed

lemma run_cycle_moves:
  assumes "distinct (map lj_id (lg_jobs (dm_ledger S)))"
  shows "table_moves daemon_move (dm_ledger S) (dm_ledger (snd (run_cycle E S)))"
proof -
  obtain bs L where mark: "mark_stale_runs (ld_now E) (dm_ledger S) = (bs, L)" by (cases "mark_stale_runs (ld_now E) (dm_ledger S)")
  from table_moves_mono [OF mark_stale_moves [OF assms, of "ld_now E"], of daemon_move] mark
  have moved: "table_moves daemon_move (dm_ledger S) L" by (simp add: stale_move_def)
  with assms have "distinct (map lj_id (lg_jobs L))" by (simp add: table_moves_def)
  then have "current (list_active 20 L) (dm_ledger (S\<lparr>dm_ledger := L\<rparr>))" by (simp add: list_active_current)
  from job_steps_moves [OF this, of E] moved mark show ?thesis
    using daemon_rows.table_moves_trans by (simp add: run_cycle_def)
qed

end
