(* ===== verification/Loop_History.thy ===== *)
theory Loop_History
  imports Loop_Moves
begin

section \<open>Histories of the Cloyd-Smith loop\<close>

text \<open>
  What holds over any sequence of operator tools and daemon cycles, from the lemmas of \<open>Loop_Moves\<close>.
\<close>

subsection \<open>Histories\<close>

datatype loop_tool = Tool_submit | Tool_record | Tool_follow_up | Tool_retry | Tool_mark_done | Tool_mark_blocked | Tool_stop | Tool_replace

fun tool_call :: "loop_tool \<Rightarrow> loop_tool_env \<Rightarrow> json_obj \<Rightarrow> ledger \<Rightarrow> tool_reply \<times> ledger" where
  "tool_call Tool_submit = cloyd_smith_submit"
| "tool_call Tool_record = cloyd_smith_record"
| "tool_call Tool_follow_up = cloyd_smith_follow_up"
| "tool_call Tool_retry = cloyd_smith_retry"
| "tool_call Tool_mark_done = cloyd_smith_mark_done"
| "tool_call Tool_mark_blocked = cloyd_smith_mark_blocked"
| "tool_call Tool_stop = cloyd_smith_stop"
| "tool_call Tool_replace = cloyd_smith_replace"

datatype loop_act = Operator loop_tool loop_tool_env json_obj | Cycle daemon_env | Supervisor_stop daemon_env string

fun loop_act_ledger :: "loop_act \<Rightarrow> ledger \<Rightarrow> ledger" where
  "loop_act_ledger (Operator t T args) L = snd (tool_call t T args L)"
| "loop_act_ledger (Cycle E) L = dm_ledger (snd (run_cycle E \<lparr>dm_ledger = L, dm_calls = []\<rparr>))"
| "loop_act_ledger (Supervisor_stop E i) L = dm_ledger (snd (stop_job E i \<lparr>dm_ledger = L, dm_calls = []\<rparr>))"

definition empty_ledger :: ledger where "empty_ledger = \<lparr>lg_jobs = [], lg_events = [], lg_beats = []\<rparr>"

inductive loop_reachable :: "ledger \<Rightarrow> bool" where
  loop_start: "loop_reachable empty_ledger"
| loop_next: "loop_reachable L \<Longrightarrow> loop_reachable (loop_act_ledger a L)"

definition ledger_ok :: "ledger \<Rightarrow> bool" where
  "ledger_ok L \<longleftrightarrow> distinct (map lj_id (lg_jobs L)) \<and> (\<forall>j \<in> set (lg_jobs L). job_closed_wf j)"

lemma ledger_ok_distinct: "ledger_ok L \<Longrightarrow> distinct (map lj_id (lg_jobs L))"
  by (simp add: ledger_ok_def)

lemma ledger_ok_effects [simp]:
  "ledger_ok (add_loop_event now k t p L) = ledger_ok L" "ledger_ok (put_event T k t p L) = ledger_ok L"
  "ledger_ok (put_beat b L) = ledger_ok L" "ledger_ok (daemon_beat now j f L) = ledger_ok L" "ledger_ok (snd (record_beat b L)) = ledger_ok L"
  by (simp_all add: ledger_ok_def)

lemma table_moves_ok:
  assumes "table_moves R L M" and ok: "ledger_ok L" and R: "\<And>j r. R j r \<Longrightarrow> job_closed_wf j \<Longrightarrow> job_closed_wf r"
  shows "ledger_ok M"
proof -
  from assms have keys: "map lj_id (lg_jobs M) = map lj_id (lg_jobs L)" and rows: "all_rows R L M" by (simp_all add: table_moves_def)
  with ok have dist: "distinct (map lj_id (lg_jobs M))" by (simp add: ledger_ok_def)
  have "job_closed_wf r" if r: "r \<in> set (lg_jobs M)" for r
  proof -
    from r have "lj_id r \<in> set (map lj_id (lg_jobs M))" by simp
    with keys obtain j where j: "j \<in> set (lg_jobs L)" "lj_id j = lj_id r" by auto
    with ok have "get_loop_job (lj_id r) L = Inr j" using row_of_distinct [of lj_id "lg_jobs L" j] by (simp add: ledger_ok_def get_loop_job_def)
    moreover have "get_loop_job (lj_id r) M = Inr r" using row_of_distinct [OF dist r] by (simp add: get_loop_job_def)
    ultimately have "R j r" using rows unfolding all_rows_def by fastforce
    with R j ok show ?thesis by (auto simp: ledger_ok_def)
  qed
  with dist show ?thesis by (simp add: ledger_ok_def)
qed

lemma ok_update [intro!]:
  assumes ok: "ledger_ok L"
  shows "ledger_ok (snd (update_loop_job now i u L))"
proof (cases "get_loop_job i L")
  case (Inr j)
  with ok have "job_closed_wf j" using get_loop_job_Inr by (auto simp: ledger_ok_def)
  then have "job_closed_wf (loop_row (apply_update now u j))" using updated_row_closed by (simp add: updated_row_def)
  with Inr ok have "\<forall>r \<in> set (lg_jobs (snd (update_loop_job now i u L))). job_closed_wf r"
    by (auto simp: update_loop_job_def Let_def ledger_ok_def table_simps)
  with ok show ?thesis by (simp add: ledger_ok_def)
qed (simp add: update_loop_job_def ok)

lemma ok_put_update [intro!]: "ledger_ok L \<Longrightarrow> ledger_ok (put_update T i u L)"
  by (auto simp: put_update_def)

lemma ok_create: "ledger_ok L \<Longrightarrow> create_loop_job now i c L = (r, M) \<Longrightarrow> ledger_ok M"
  by (auto simp: create_loop_job_def ledger_ok_def job_closed_wf_def loop_job_of_def loop_row_def CLOSED_STATUSES_def split: if_splits)

lemma ok_update_result: "update_loop_job now i u L = (r, M) \<Longrightarrow> ledger_ok L \<Longrightarrow> ledger_ok M"
  using ok_update [of L now i u] by simp

lemma ok_mark_stale [intro!]: "ledger_ok L \<Longrightarrow> ledger_ok (snd (mark_stale_runs now L))"
  by (rule table_moves_ok [OF mark_stale_moves]) (auto simp: ledger_ok_def stale_move_def daemon_move_def)

lemma snd_answer_with_loop [simp]: "snd (answer_with_loop T js L) = snd (mark_stale_runs (lt_now T) L)"
  by (simp add: answer_with_loop_def loop_status_payload_def Let_def split: option.splits prod.splits)

text \<open>\<open>ends P x\<close>: a tool leaves a ledger with \<open>P\<close>. The rules follow the branches of the code.\<close>

definition ends :: "(ledger \<Rightarrow> bool) \<Rightarrow> 'a \<times> ledger \<Rightarrow> bool" where
  "ends P x \<longleftrightarrow> P (snd x)"

lemma ends_pair: "P L \<Longrightarrow> ends P (r, L)"
  by (simp add: ends_def)

lemma ends_if: "(b \<Longrightarrow> ends P x) \<Longrightarrow> (\<not> b \<Longrightarrow> ends P y) \<Longrightarrow> ends P (if b then x else y)"
  by simp

lemma ends_option: "(v = None \<Longrightarrow> ends P x) \<Longrightarrow> (\<And>a. v = Some a \<Longrightarrow> ends P (f a)) \<Longrightarrow> ends P (case v of None \<Rightarrow> x | Some a \<Rightarrow> f a)"
  by (cases v) simp_all

lemma ends_sum: "(\<And>e. v = Inl e \<Longrightarrow> ends P (f e)) \<Longrightarrow> (\<And>a. v = Inr a \<Longrightarrow> ends P (g a)) \<Longrightarrow> ends P (case v of Inl e \<Rightarrow> f e | Inr a \<Rightarrow> g a)"
  by (cases v) simp_all

lemma ends_create:
  assumes "P L" and "\<And>j. create_loop_job now i c L = (Inr j, snd (create_loop_job now i c L)) \<Longrightarrow> ends P (g j (snd (create_loop_job now i c L)))"
  shows "ends P (case create_loop_job now i c L of (Inl e, M) \<Rightarrow> (f, M) | (Inr j, M) \<Rightarrow> g j M)"
  using assms by (cases "create_loop_job now i c L") (auto simp: create_loop_job_def ends_def split: if_splits)

lemma ends_update:
  assumes "P (snd (update_loop_job now i u L))"
  shows "ends P (case update_loop_job now i u L of (Inl e, M) \<Rightarrow> (f, M) | (Inr j, M) \<Rightarrow> (g j M, M))"
  using assms by (auto simp: ends_def split: prod.split sum.split)

lemma ends_answer: "P (snd (mark_stale_runs (lt_now T) L)) \<Longrightarrow> ends P (answer_with_loop T js L)"
  by (simp add: ends_def)

lemma ends_json:
  "(\<And>d. v = JObj d \<Longrightarrow> ends P (f d)) \<Longrightarrow> ends P x \<Longrightarrow>
   ends P (case v of JObj d \<Rightarrow> f d | _ \<Rightarrow> x)"
  by (cases v) simp_all

lemmas ends_intros = ends_answer ends_create ends_update ends_if ends_option ends_sum ends_json ends_pair

lemmas tool_defs = cloyd_smith_submit_def cloyd_smith_record_def cloyd_smith_follow_up_def cloyd_smith_retry_def
  cloyd_smith_mark_done_def cloyd_smith_mark_blocked_def cloyd_smith_stop_def cloyd_smith_replace_def

lemma ok_put_event [intro!]: "ledger_ok L \<Longrightarrow> ledger_ok (put_event T k t p L)"
  by simp

lemma ok_put_beat [intro!]: "ledger_ok L \<Longrightarrow> ledger_ok (put_beat b L)"
  by simp

lemma ok_created [intro!]: "ledger_ok L \<Longrightarrow> ledger_ok (snd (create_loop_job now i c L))"
  by (cases "create_loop_job now i c L") (simp add: ok_create)

lemmas ok_intros = ok_put_event ok_put_beat ok_created ok_put_update ok_mark_stale ok_update

lemma submit_ok: "ledger_ok L \<Longrightarrow> ends ledger_ok (cloyd_smith_submit T args L)"
  unfolding cloyd_smith_submit_def Let_def prod.case by (intro ends_intros ok_intros)

lemma record_ok: "ledger_ok L \<Longrightarrow> ends ledger_ok (cloyd_smith_record T args L)"
  unfolding cloyd_smith_record_def Let_def prod.case by (intro ends_intros ok_intros)

lemma follow_up_ok: "ledger_ok L \<Longrightarrow> ends ledger_ok (cloyd_smith_follow_up T args L)"
  unfolding cloyd_smith_follow_up_def Let_def prod.case by (intro ends_intros ok_intros)

lemma retry_ok: "ledger_ok L \<Longrightarrow> ends ledger_ok (cloyd_smith_retry T args L)"
  unfolding cloyd_smith_retry_def Let_def prod.case by (intro ends_intros ok_intros)

lemma mark_done_ok: "ledger_ok L \<Longrightarrow> ends ledger_ok (cloyd_smith_mark_done T args L)"
  unfolding cloyd_smith_mark_done_def Let_def prod.case by (intro ends_intros ok_intros)

lemma mark_blocked_ok: "ledger_ok L \<Longrightarrow> ends ledger_ok (cloyd_smith_mark_blocked T args L)"
  unfolding cloyd_smith_mark_blocked_def Let_def prod.case by (intro ends_intros ok_intros)

lemma stop_ok: "ledger_ok L \<Longrightarrow> ends ledger_ok (cloyd_smith_stop T args L)"
  unfolding cloyd_smith_stop_def Let_def prod.case by (intro ends_intros ok_intros)

lemma replace_ok: "ledger_ok L \<Longrightarrow> ends ledger_ok (cloyd_smith_replace T args L)"
  unfolding cloyd_smith_replace_def Let_def prod.case by (intro ends_intros ok_intros)

lemma tool_call_ok: "ledger_ok L \<Longrightarrow> ledger_ok (snd (tool_call t T args L))"
  by (cases t) (simp_all add: ends_def [of ledger_ok, symmetric] submit_ok record_ok follow_up_ok retry_ok mark_done_ok mark_blocked_ok stop_ok replace_ok)

lemma stop_job_ok: "ledger_ok (dm_ledger S) \<Longrightarrow> ledger_ok (dm_ledger (snd (stop_job E i S)))"
  by (auto simp: stop_job_def ask_runtime_def settle_def Let_def split: sum.splits prod.splits dest!: ok_update_result)

lemma act_ok: "ledger_ok L \<Longrightarrow> ledger_ok (loop_act_ledger a L)"
proof (cases a)
  case (Cycle E)
  assume ok: "ledger_ok L"
  with Cycle show ?thesis
    using table_moves_ok [OF run_cycle_moves [of "\<lparr>dm_ledger = L, dm_calls = []\<rparr>" E]] by (auto simp: ledger_ok_def daemon_move_def)
qed (simp_all add: tool_call_ok stop_job_ok)

lemma reachable_ok: "loop_reachable L \<Longrightarrow> ledger_ok L"
  by (induction rule: loop_reachable.induct) (simp add: ledger_ok_def empty_ledger_def, rule act_ok)

subsection \<open>Attempts\<close>

text \<open>Outside \<open>A\<close>, the metadata of the jobs keeps its value under a key.\<close>

definition keeps :: "string set \<Rightarrow> string \<Rightarrow> ledger \<Rightarrow> ledger \<Rightarrow> bool" where
  "keeps A k L M \<longleftrightarrow> ledger_ok M \<and> (\<forall>i j. i \<notin> A \<longrightarrow> get_loop_job i L = Inr j \<longrightarrow>
     (\<exists>r. get_loop_job i M = Inr r \<and> jget k (lj_metadata r) = jget k (lj_metadata j)))"

lemma keeps_refl: "ledger_ok L \<Longrightarrow> keeps A k L L"
  by (simp add: keeps_def)

lemma keeps_event: "keeps A k L M \<Longrightarrow> keeps A k L (put_event T i t p M)"
  by (simp add: keeps_def)

lemma keeps_beat: "keeps A k L M \<Longrightarrow> keeps A k L (put_beat b M)"
  by (simp add: keeps_def)

lemma keeps_rows: "keeps A k L M \<Longrightarrow> ledger_ok N \<Longrightarrow> all_rows R M N \<Longrightarrow> (\<And>j r. R j r \<Longrightarrow> lj_metadata r = lj_metadata j) \<Longrightarrow> keeps A k L N"
  unfolding keeps_def all_rows_def by fastforce

lemma keeps_stale: "keeps A k L M \<Longrightarrow> keeps A k L (snd (mark_stale_runs now M))"
proof (rule keeps_rows [where R = stale_move])
  assume keeps: "keeps A k L M"
  then have "ledger_ok M" by (simp add: keeps_def)
  then show "ledger_ok (snd (mark_stale_runs now M))" "all_rows stale_move M (snd (mark_stale_runs now M))"
    using mark_stale_moves [OF ledger_ok_distinct] by (auto simp: table_moves_def)
qed (simp_all add: stale_move_def daemon_move_def)

lemma keeps_create: "keeps A k L M \<Longrightarrow> keeps A k L (snd (create_loop_job now i c M))"
proof (rule keeps_rows [where R = daemon_move])
  assume "keeps A k L M"
  then show "ledger_ok (snd (create_loop_job now i c M))" by (simp add: keeps_def ok_created)
  show "all_rows daemon_move M (snd (create_loop_job now i c M))" by (rule daemon_rows.all_rows_create)
qed (auto simp: daemon_move_def)

lemma keeps_update:
  assumes "keeps A k L M"
    and "\<And>m j. lu_metadata u = Some m \<Longrightarrow> i \<notin> A \<Longrightarrow> get_loop_job i L = Inr j \<Longrightarrow> jget k m = jget k (lj_metadata j)"
  shows "keeps A k L (snd (update_loop_job now i u M))"
  using assms(1) assms(2) ok_update [of M now i u]
  by (auto simp: keeps_def get_update split: option.splits sum.splits)

lemma keeps_put_update:
  "keeps A k L M \<Longrightarrow> (\<And>m j. lu_metadata u = Some m \<Longrightarrow> i \<notin> A \<Longrightarrow> get_loop_job i L = Inr j \<Longrightarrow> jget k m = jget k (lj_metadata j))
   \<Longrightarrow> keeps A k L (put_update T i u M)"
  unfolding put_update_def by (rule keeps_update)

lemmas keeps_intros = keeps_event keeps_beat keeps_stale keeps_create keeps_put_update keeps_update keeps_refl

text \<open>Which key a tool counts under, and up to which limit.\<close>

fun counter_of :: "loop_tool \<Rightarrow> (string \<times> int) option" where
  "counter_of Tool_retry = Some (''retry'', 3)"
| "counter_of Tool_follow_up = Some (''follow_up'', 1)"
| "counter_of _ = None"

lemma counter_keys: "counter_of t = Some (k, n) \<Longrightarrow> k \<in> {''retry'', ''follow_up''}"
  by (cases t) auto

lemma record_keeps: "ledger_ok L \<Longrightarrow> ends (keeps {} k L) (cloyd_smith_record T args L)"
  unfolding cloyd_smith_record_def Let_def prod.case by (intro ends_intros keeps_intros) (simp_all add: no_update_def)

lemma submit_keeps: "ledger_ok L \<Longrightarrow> ends (keeps {} k L) (cloyd_smith_submit T args L)"
  unfolding cloyd_smith_submit_def Let_def prod.case by (intro ends_intros keeps_intros)

lemma mark_done_keeps: "ledger_ok L \<Longrightarrow> ends (keeps {} k L) (cloyd_smith_mark_done T args L)"
  unfolding cloyd_smith_mark_done_def Let_def prod.case by (intro ends_intros keeps_intros) (simp_all add: no_update_def)

lemma mark_blocked_keeps: "ledger_ok L \<Longrightarrow> ends (keeps {} k L) (cloyd_smith_mark_blocked T args L)"
  unfolding cloyd_smith_mark_blocked_def Let_def prod.case by (intro ends_intros keeps_intros) (simp_all add: no_update_def)

lemma stop_keeps: "ledger_ok L \<Longrightarrow> ends (keeps {} k L) (cloyd_smith_stop T args L)"
  unfolding cloyd_smith_stop_def Let_def prod.case by (intro ends_intros keeps_intros) (simp_all add: no_update_def)

lemma replace_keeps:
  "ledger_ok L \<Longrightarrow> k \<in> {''retry'', ''follow_up''} \<Longrightarrow> ends (keeps {} k L) (cloyd_smith_replace T args L)"
  unfolding cloyd_smith_replace_def Let_def prod.case by (intro ends_intros keeps_intros) (auto simp: no_update_def)

lemma follow_up_keeps:
  "ledger_ok L \<Longrightarrow> ends (keeps (if k = ''follow_up'' then {tool_arg ''job_id'' args} else {}) k L) (cloyd_smith_follow_up T args L)"
  unfolding cloyd_smith_follow_up_def Let_def prod.case by (intro ends_intros keeps_intros) (auto simp: no_update_def split: if_splits)

lemma retry_keeps:
  "ledger_ok L \<Longrightarrow> ends (keeps (if k = ''retry'' then {tool_arg ''job_id'' args} else {}) k L) (cloyd_smith_retry T args L)"
  unfolding cloyd_smith_retry_def Let_def prod.case
  by (intro ends_intros keeps_intros) (auto simp: no_update_def requeue_update_def split: if_splits)

lemma keeps_weaken: "keeps A k L M \<Longrightarrow> A \<subseteq> B \<Longrightarrow> keeps B k L M"
  unfolding keeps_def by blast

lemma tool_keeps:
  assumes "ledger_ok L" and "counter_of t = Some (k, n)"
  shows "keeps (if t' = t then {tool_arg ''job_id'' args} else {}) k L (snd (tool_call t' T args L))"
proof -
  have k: "k \<in> {''retry'', ''follow_up''}" using counter_keys assms(2) by blast
  have own: "k = (if t = Tool_retry then ''retry'' else ''follow_up'') \<and> t \<in> {Tool_retry, Tool_follow_up}"
    using assms(2) by (cases t) auto
  note facts = record_keeps submit_keeps mark_done_keeps mark_blocked_keeps stop_keeps
  show ?thesis
    using facts [OF assms(1), of k T args] replace_keeps [OF assms(1) k, of T args] follow_up_keeps [OF assms(1), of k args T]
      retry_keeps [OF assms(1), of k args T] own
    by (cases t') (auto simp: ends_def)
qed

text \<open>The steps that count.\<close>

definition job_status_in :: "ledger \<Rightarrow> string \<Rightarrow> loop_status option" where
  "job_status_in L i = (case get_loop_job i L of Inl _ \<Rightarrow> None | Inr j \<Rightarrow> Some (lj_status j))"

definition requeued_by :: "loop_tool \<Rightarrow> string \<Rightarrow> loop_act \<Rightarrow> ledger \<Rightarrow> bool" where
  "requeued_by t i a L \<longleftrightarrow>
     (case a of Operator t' T args \<Rightarrow> t' = t \<and> tool_arg ''job_id'' args = i | _ \<Rightarrow> False)
     \<and> job_status_in L i \<noteq> Some Loop_queued \<and> job_status_in (loop_act_ledger a L) i = Some Loop_queued"

fun requeues :: "loop_tool \<Rightarrow> string \<Rightarrow> loop_act list \<Rightarrow> ledger \<Rightarrow> nat" where
  "requeues t i [] L = 0"
| "requeues t i (a # as) L = (if requeued_by t i a L then 1 else 0) + requeues t i as (loop_act_ledger a L)"

lemma mark_stale_get:
  assumes "ledger_ok L" and "\<exists>r. get_loop_job i L = Inr r \<and> lj_status r \<noteq> Loop_running"
  shows "get_loop_job i (snd (mark_stale_runs now L)) = get_loop_job i L"
proof -
  from mark_stale_moves [OF ledger_ok_distinct [OF assms(1)], of now] have "all_rows stale_move L (snd (mark_stale_runs now L))"
    by (simp add: table_moves_def)
  with assms(2) show ?thesis by (fastforce simp: all_rows_def stale_move_def)
qed

lemma dict_or_empty_obj [simp]: "dict_or_empty (JObj d) = Some d"
  by (simp add: dict_or_empty_def)

lemma counted_jput:
  "counted k (jput k (JObj d) m) = count_of ''attempts'' d" "k' \<noteq> k \<Longrightarrow> counted k' (jput k v m) = counted k' m"
  by (simp_all add: counted_def metadata_dict_def)

lemma count_of_int: "jget k d = JInt n \<Longrightarrow> count_of k d = Some n"
  by (simp add: count_of_def py_int_def)

text \<open>What a counting tool does to its job.\<close>

definition counts_once :: "string \<Rightarrow> int \<Rightarrow> string \<Rightarrow> loop_job \<Rightarrow> ledger \<Rightarrow> bool" where
  "counts_once k lim i j M \<longleftrightarrow> (\<exists>r. get_loop_job i M = Inr r \<and>
     (if lj_status r = Loop_queued \<and> lj_status j \<noteq> Loop_queued
      then (\<exists>n<lim. counted k (lj_metadata j) = Some n \<and> counted k (lj_metadata r) = Some (n + 1))
      else counted k (lj_metadata r) = counted k (lj_metadata j)))"

lemma counts_once_same: "get_loop_job i M = Inr j \<Longrightarrow> counts_once k lim i j M"
  by (simp add: counts_once_def)

lemma counts_once_stale:
  assumes "ledger_ok M" and "counts_once k lim i j M" and "\<exists>r. get_loop_job i M = Inr r \<and> lj_status r \<noteq> Loop_running"
  shows "counts_once k lim i j (snd (mark_stale_runs now M))"
  using assms(2) mark_stale_get [OF assms(1,3), of now] by (simp add: counts_once_def)

lemma retry_counts:
  assumes ok: "ledger_ok L" and job: "get_loop_job (tool_arg ''job_id'' args) L = Inr j"
  shows "ends (counts_once ''retry'' 3 (tool_arg ''job_id'' args) j) (cloyd_smith_retry T args L)"
  unfolding cloyd_smith_retry_def Let_def prod.case
  using job
  by (intro ends_intros counts_once_stale ok_intros ok)
    (auto simp: counts_once_def get_put_update no_update_def requeue_update_def counted_jput jupdate_def intro!: count_of_int)

lemma follow_up_counts:
  assumes ok: "ledger_ok L" and job: "get_loop_job (tool_arg ''job_id'' args) L = Inr j"
  shows "ends (counts_once ''follow_up'' 1 (tool_arg ''job_id'' args) j) (cloyd_smith_follow_up T args L)"
  unfolding cloyd_smith_follow_up_def Let_def prod.case
  using job
  by (intro ends_intros counts_once_stale ok_intros ok)
    (auto simp: counts_once_def get_put_update no_update_def counted_jput jupdate_def intro!: count_of_int)

lemma dm_ledger_settle: "dm_ledger (snd (settle now j f u s a S)) = snd (update_loop_job now (lj_id j) u (daemon_beat now j f (dm_ledger S)))"
  by (simp add: settle_def split: prod.splits sum.splits)

lemma snd_rewrap: "snd (case p of (Inl e, S) \<Rightarrow> (Inl e, S) | (Inr x, S) \<Rightarrow> (Inr (f x), S)) = snd p"
  by (simp split: prod.split sum.split)

lemma stop_job_metadata:
  assumes "get_loop_job i (dm_ledger S) = Inr j"
  shows "\<exists>r. get_loop_job i (dm_ledger (snd (stop_job E i' S))) = Inr r \<and> lj_metadata r = lj_metadata j"
  using assms
  by (auto simp: stop_job_def ask_runtime_def Let_def snd_rewrap dm_ledger_settle get_update full_update_def no_update_def split: sum.splits)

lemma keepsD:
  "keeps A k L M \<Longrightarrow> i \<notin> A \<Longrightarrow> get_loop_job i L = Inr j
   \<Longrightarrow> \<exists>r. get_loop_job i M = Inr r \<and> jget k (lj_metadata r) = jget k (lj_metadata j)"
  by (simp add: keeps_def)

lemma act_counts:
  assumes ok: "ledger_ok L" and counter: "counter_of t = Some (k, lim)" and job: "get_loop_job i L = Inr j"
  shows "\<exists>r. get_loop_job i (loop_act_ledger a L) = Inr r \<and>
    (if requeued_by t i a L then (\<exists>n<lim. counted k (lj_metadata j) = Some n \<and> counted k (lj_metadata r) = Some (n + 1))
     else counted k (lj_metadata r) = counted k (lj_metadata j))"
proof (cases a)
  case (Operator t' T args)
  show ?thesis
  proof (cases "t' = t \<and> tool_arg ''job_id'' args = i")
    case True
    with retry_counts [OF ok, of args j T] follow_up_counts [OF ok, of args j T] job counter
    have "counts_once k lim i j (loop_act_ledger a L)" using Operator by (cases t) (auto simp: ends_def)
    then show ?thesis using True Operator job by (auto simp: counts_once_def requeued_by_def job_status_in_def split: if_splits)
  next
    case False
    then have "i \<notin> (if t' = t then {tool_arg ''job_id'' args} else {})" by auto
    from keepsD [OF tool_keeps [OF ok counter, of t' args T] this job] Operator
    obtain r where "get_loop_job i (loop_act_ledger a L) = Inr r" "jget k (lj_metadata r) = jget k (lj_metadata j)" by auto
    with False Operator show ?thesis by (auto simp: requeued_by_def counted_def metadata_dict_def)
  qed
next
  case (Cycle E)
  have "all_rows daemon_move L (loop_act_ledger a L)"
    using run_cycle_moves [of "\<lparr>dm_ledger = L, dm_calls = []\<rparr>" E] ledger_ok_distinct [OF ok] Cycle by (simp add: table_moves_def)
  with job obtain r where "get_loop_job i (loop_act_ledger a L) = Inr r" "daemon_move j r" by (auto simp: all_rows_def)
  with Cycle show ?thesis by (auto simp: requeued_by_def daemon_move_def)
next
  case (Supervisor_stop E i')
  with stop_job_metadata [of i "\<lparr>dm_ledger = L, dm_calls = []\<rparr>" j E i'] job show ?thesis
    by (auto simp: requeued_by_def counted_def metadata_dict_def)
qed

lemma requeues_counted:
  assumes "counter_of t = Some (k, lim)"
  shows "ledger_ok L \<Longrightarrow> get_loop_job i L = Inr j
    \<Longrightarrow> (case counted k (lj_metadata j) of None \<Rightarrow> requeues t i as L = 0 | Some n \<Rightarrow> int (requeues t i as L) \<le> max 0 (lim - n))"
proof (induction "as" arbitrary: L j)
  case Nil
  show ?case by (simp split: option.split)
next
  case (Cons a as)
  from act_counts [OF Cons.prems(1) assms Cons.prems(2), of a]
  obtain r where r: "get_loop_job i (loop_act_ledger a L) = Inr r"
      "if requeued_by t i a L then (\<exists>n<lim. counted k (lj_metadata j) = Some n \<and> counted k (lj_metadata r) = Some (n + 1))
       else counted k (lj_metadata r) = counted k (lj_metadata j)" by blast
  from Cons.IH [OF act_ok [OF Cons.prems(1)] r(1)] r(2) show ?case
    by (auto split: option.splits if_splits)
qed

subsection \<open>Progress of a cycle\<close>

definition GOING :: "loop_status list" where "GOING = [Loop_running, Loop_needs_review, Loop_blocked]"

definition lands :: "string \<Rightarrow> daemon_result \<Rightarrow> bool" where
  "lands i X \<longleftrightarrow> (case fst X of Inl _ \<Rightarrow> True | Inr _ \<Rightarrow> job_status_in (dm_ledger (snd X)) i \<in> set (map Some GOING))"

lemma status_effects [simp]:
  "job_status_in (add_loop_event now k t p L) i = job_status_in L i" "job_status_in (daemon_beat now j f L) i = job_status_in L i"
  by (simp_all add: job_status_in_def)

lemma lands_ask: "(\<And>d S1. dm_ledger S1 = dm_ledger S \<Longrightarrow> lands i (k d S1)) \<Longrightarrow> lands i (ask_runtime c a k S)"
  by (cases a) (simp_all add: ask_runtime_def lands_def Let_def)

lemma lands_settle:
  assumes "case lu_status u of None \<Rightarrow> job_status_in (dm_ledger S) (lj_id j) = Some Loop_running | Some s \<Rightarrow> s \<in> set GOING"
  shows "lands (lj_id j) (settle now j f u s a S)"
proof (cases "get_loop_job (lj_id j) (dm_ledger S)")
  case (Inl e)
  then have "get_loop_job (lj_id j) (daemon_beat now j f (dm_ledger S)) = Inl e" by simp
  then show ?thesis by (simp add: settle_def update_loop_job_def lands_def)
next
  case (Inr r)
  with assms have "job_status_in (dm_ledger (snd (settle now j f u s a S))) (lj_id j) \<in> set (map Some GOING)"
    by (auto simp: dm_ledger_settle job_status_in_def get_update GOING_def split: option.splits)
  then show ?thesis by (simp add: lands_def split: sum.split)
qed

lemma lands_full: "s \<in> set GOING \<Longrightarrow> lands (lj_id j) (settle now j f (full_update s n v e) s' a S)"
  by (rule lands_settle) (simp add: full_update_def)

lemma lands_kept: "job_status_in (dm_ledger S) (lj_id j) = Some Loop_running
  \<Longrightarrow> lands (lj_id j) (settle now j f (no_update\<lparr>lu_next := n, lu_evidence := v\<rparr>) s' a S)"
  by (rule lands_settle) (simp add: no_update_def)

lemma going_simps [simp]: "Loop_running \<in> set GOING" "Loop_needs_review \<in> set GOING" "Loop_blocked \<in> set GOING"
  by (simp_all add: GOING_def)

lemma lands_send_result: "lands (lj_id j) (send_result now j out S)"
  by (simp add: send_result_def Let_def lands_full)

lemma lands_queued: "lands (lj_id j) (queued_step E j S)"
  unfolding queued_step_def after_timeout_def Let_def
  by (intro lands_ask) (auto intro!: lands_ask lands_full lands_send_result)

lemma lands_stale: "lands (lj_id j) (stale_step E j S)"
  unfolding stale_step_def status_failed_def Let_def
  by (intro lands_ask) (auto intro!: lands_ask lands_full)

lemma lands_running: "job_status_in (dm_ledger S) (lj_id j) = Some Loop_running \<Longrightarrow> lands (lj_id j) (running_step E j S)"
  unfolding running_step_def status_failed_def block_long_busy_def Let_def
  by (intro lands_ask) (auto intro!: lands_ask lands_full lands_kept split: option.split)

lemma job_step_lands:
  assumes "get_loop_job (lj_id j) (dm_ledger S) = Inr j" and "lj_status j \<in> set ACTIVE_STATUSES" and "job_step E j S = (Inr x, S1)"
  shows "job_status_in (dm_ledger S1) (lj_id j) \<in> set (map Some GOING)"
proof -
  from assms(1) have now: "job_status_in (dm_ledger S) (lj_id j) = Some (lj_status j)" by (simp add: job_status_in_def)
  show ?thesis
  proof (cases "lj_status j")
    case Loop_running
    with now lands_running [of S j E] assms(3) show ?thesis
      by (cases "running_step E j S"; cases "fst (running_step E j S)") (auto simp: job_step_def lands_def)
  qed (use now assms lands_queued [of j E S] lands_stale [of j E S] in
    \<open>auto simp: job_step_def lands_def ACTIVE_STATUSES_def GOING_def map_sum_def split: prod.splits sum.splits\<close>)
qed

lemma job_steps_other: "current js (dm_ledger S) \<Longrightarrow> i \<notin> lj_id ` set js
  \<Longrightarrow> get_loop_job i (dm_ledger (snd (job_steps E js acc S))) = get_loop_job i (dm_ledger S)"
proof (induction js arbitrary: S acc)
  case (Cons j js)
  obtain r S1 where step: "job_step E j S = (r, S1)" by (cases "job_step E j S")
  from Cons.prems(1) have "get_loop_job (lj_id j) (dm_ledger S) = Inr j" by (simp add: current_def)
  from job_step_moves [OF this, of E] step have one: "one_row (lj_id j) daemon_move (dm_ledger S) (dm_ledger S1)"
    by (simp add: steps_row_def)
  with Cons.prems(2) have "get_loop_job i (dm_ledger S1) = get_loop_job i (dm_ledger S)" by (simp add: one_row_def)
  then show ?case using Cons.IH [OF current_Cons [OF Cons.prems(1) one]] Cons.prems(2) step by (simp split: sum.split)
qed simp

lemma job_steps_land:
  "current js (dm_ledger S) \<Longrightarrow> \<forall>j \<in> set js. lj_status j \<in> set ACTIVE_STATUSES \<Longrightarrow> job_steps E js acc S = (Inr rs, S') \<Longrightarrow> j \<in> set js
   \<Longrightarrow> job_status_in (dm_ledger S') (lj_id j) \<in> set (map Some GOING)"
proof (induction js arbitrary: S acc)
  case (Cons h js)
  from Cons.prems(1) have cur: "get_loop_job (lj_id h) (dm_ledger S) = Inr h" by (simp add: current_def)
  from Cons.prems(3) obtain x S1 where step: "job_step E h S = (Inr x, S1)"
      and rest: "job_steps E js (acc @ (case x of None \<Rightarrow> [] | Some y \<Rightarrow> [y])) S1 = (Inr rs, S')"
    by (auto split: prod.splits sum.splits)
  from job_step_moves [OF cur, of E] step have one: "one_row (lj_id h) daemon_move (dm_ledger S) (dm_ledger S1)"
    by (simp add: steps_row_def)
  note cur' = current_Cons [OF Cons.prems(1) one]
  show ?case
  proof (cases "j = h")
    case True
    from Cons.prems(1) have "lj_id h \<notin> lj_id ` set js" by (simp add: current_def)
    from job_steps_other [OF cur' this, of E] rest have "get_loop_job (lj_id h) (dm_ledger S') = get_loop_job (lj_id h) (dm_ledger S1)"
      by (metis snd_conv)
    with job_step_lands [OF cur _ step] Cons.prems(2) True show ?thesis by (simp add: job_status_in_def)
  next
    case False
    with Cons.IH [OF cur' _ rest] Cons.prems(2,4) show ?thesis by simp
  qed
qed simp

subsection \<open>A concrete loop\<close>

definition demo_tools :: loop_tool_env where
  "demo_tools = \<lparr>lt_now = 0, lt_id = ''job1'', lt_actor = None, lt_conversation = None, lt_supervisor = Some [],
     lt_health = (\<lambda>_. [(''ok'', JBool True)]), lt_status = (\<lambda>_. [(''ok'', JBool True)])\<rparr>"

definition demo_ledger :: ledger where
  "demo_ledger = loop_act_ledger (Operator Tool_submit demo_tools [(''objective'', JStr ''build'')]) empty_ledger"

definition demo_daemon :: daemon_env where
  "demo_daemon = \<lparr>ld_now = 1000000, ld_send = (\<lambda>_. Inr [(''ok'', JBool True)]), ld_status = (\<lambda>_. Inr []), ld_output = (\<lambda>_. Inr []), ld_stop = (\<lambda>_. Inr [])\<rparr>"

definition demo_job :: loop_job where
  "demo_job = loop_row (loop_job_of 0 ''job1'' \<lparr>lc_objective = ''build'', lc_alias = ''freyja-code'', lc_criteria = [],
     lc_prompt = ''build'', lc_by = ''joe'', lc_metadata = [(''conversation_id'', JNull)]\<rparr>)"

lemma demo_ledger_jobs: "lg_jobs demo_ledger = [demo_job]" "lg_beats demo_ledger = []"
  by code_simp+

lemma demo_ledger_get: "get_loop_job ''job1'' demo_ledger = Inr demo_job"
  by (simp add: get_loop_job_def demo_ledger_jobs) (simp add: demo_job_def loop_row_def loop_job_of_def)

lemma demo_ledger_reachable: "loop_reachable demo_ledger"
  unfolding demo_ledger_def by (intro loop_next loop_start)

lemma demo_active: "list_active 50 demo_ledger = [demo_job]" "list_active 20 demo_ledger = [demo_job]"
  by (simp_all add: list_active_def demo_ledger_jobs sql_limit_def) (simp_all add: demo_job_def loop_row_def loop_job_of_def ACTIVE_STATUSES_def)

lemma demo_marked: "mark_stale_runs now demo_ledger = ([], demo_ledger)"
  by (simp add: mark_stale_runs_def demo_active mark_stale_run_def get_beat_def demo_ledger_jobs)

lemma demo_cycle: "fst (run_cycle demo_daemon \<lparr>dm_ledger = demo_ledger, dm_calls = []\<rparr>) = Inr [daemon_entry demo_job ''running'' ''sent_to_smith'']"
proof -
  have "run_cycle demo_daemon \<lparr>dm_ledger = demo_ledger, dm_calls = []\<rparr> = job_steps demo_daemon [demo_job] [] \<lparr>dm_ledger = demo_ledger, dm_calls = []\<rparr>"
    by (simp add: run_cycle_def demo_marked demo_active)
  moreover have "fst (job_steps demo_daemon [demo_job] [] \<lparr>dm_ledger = demo_ledger, dm_calls = []\<rparr>) = Inr [daemon_entry demo_job ''running'' ''sent_to_smith'']"
    by code_simp
  ultimately show ?thesis by simp
qed

definition demo_history :: "loop_act list" where
  "demo_history = concat (replicate 4 [Operator Tool_mark_blocked demo_tools [(''job_id'', JStr ''job1'')],
     Operator Tool_retry demo_tools [(''job_id'', JStr ''job1'')]])"

lemma demo_counted: "counted ''retry'' (lj_metadata demo_job) = Some 0" "counted ''follow_up'' (lj_metadata demo_job) = Some 0"
  by code_simp+

subsection \<open>Properties\<close>

text \<open>C8. Operator attempts are bounded. Over any history of operator tools and daemon cycles, \<open>cloyd_smith_retry\<close> puts a job
  back into the queue at most \<open>3 - n\<close> times, where \<open>n\<close> is the count its metadata starts with, and
  \<open>cloyd_smith_follow_up\<close> at most \<open>1 - n\<close> times; a job whose count cannot be read is never put back.\<close>

theorem operator_attempts_bounded:
  assumes "loop_reachable L" and "get_loop_job i L = Inr j"
  shows "(case counted ''retry'' (lj_metadata j) of
            None \<Rightarrow> requeues Tool_retry i history L = 0 | Some n \<Rightarrow> int (requeues Tool_retry i history L) \<le> max 0 (3 - n))
       \<and> (case counted ''follow_up'' (lj_metadata j) of
            None \<Rightarrow> requeues Tool_follow_up i history L = 0 | Some n \<Rightarrow> int (requeues Tool_follow_up i history L) \<le> max 0 (1 - n))"
  using requeues_counted [of Tool_retry "''retry''" 3] requeues_counted [of Tool_follow_up "''follow_up''" 1]
    reachable_ok [OF assms(1)] assms(2) by simp

lemma operator_attempts_bounded_witness:
  "requeues Tool_retry ''job1'' demo_history demo_ledger \<le> 3 \<and> requeues Tool_follow_up ''job1'' demo_history demo_ledger \<le> 1"
  using operator_attempts_bounded [OF demo_ledger_reachable demo_ledger_get, of demo_history] by (simp add: demo_counted)

text \<open>C40. The job table. In every reachable ledger the ids of the jobs are distinct, and a job has a completion time
  exactly when it is blocked, done, stopped or stale.\<close>

theorem loop_ledger_invariant:
  assumes "loop_reachable L"
  shows "distinct (map lj_id (lg_jobs L))
    \<and> list_all (\<lambda>j. (lj_completed j \<noteq> None) = (lj_status j \<in> {Loop_blocked, Loop_done, Loop_stopped, Loop_stale})) (lg_jobs L)"
  using reachable_ok [OF assms] by (simp add: ledger_ok_def job_closed_wf_def CLOSED_STATUSES_def list_all_iff)

lemma loop_ledger_invariant_witness: "lj_completed demo_job = None \<and> lg_jobs demo_ledger = [demo_job]"
  using loop_ledger_invariant [OF demo_ledger_reachable] unfolding demo_ledger_jobs
  by (simp add: demo_job_def loop_row_def loop_job_of_def)

text \<open>C9. What the daemon may do. A cycle, finished or cut short by an exception, keeps every job and its objective, prompt
  and metadata; it leaves jobs that need review, are blocked, done or stopped as they are, and never makes a job done or stopped.\<close>

theorem daemon_leaves_decisions:
  assumes "loop_reachable (dm_ledger S)" and "get_loop_job i (dm_ledger S) = Inr j" and "run_cycle E S = (result, S')"
  shows "case get_loop_job i (dm_ledger S') of Inl _ \<Rightarrow> False | Inr r \<Rightarrow>
     lj_objective r = lj_objective j \<and> lj_prompt r = lj_prompt j \<and> lj_metadata r = lj_metadata j
     \<and> (r = j \<or> lj_status j \<in> {Loop_queued, Loop_running, Loop_stale}
            \<and> lj_status r \<in> {Loop_running, Loop_needs_review, Loop_blocked, Loop_stale})"
proof -
  from run_cycle_moves [OF ledger_ok_distinct [OF reachable_ok [OF assms(1)]], of E] assms(3)
  have "all_rows daemon_move (dm_ledger S) (dm_ledger S')" by (simp add: table_moves_def)
  with assms(2) obtain r where "get_loop_job i (dm_ledger S') = Inr r" "daemon_move j r" by (auto simp: all_rows_def)
  then show ?thesis by (simp add: daemon_move_def)
qed

lemma daemon_leaves_decisions_witness:
  "case get_loop_job ''job1'' (dm_ledger (snd (run_cycle demo_daemon \<lparr>dm_ledger = demo_ledger, dm_calls = []\<rparr>))) of
     Inl _ \<Rightarrow> False | Inr r \<Rightarrow> lj_metadata r = [(''conversation_id'', JNull)]"
  using daemon_leaves_decisions [OF _ _ prod.collapse [symmetric], of "\<lparr>dm_ledger = demo_ledger, dm_calls = []\<rparr>" "''job1''" demo_job demo_daemon]
    demo_ledger_reachable demo_ledger_get
  by (simp add: demo_job_def loop_row_def loop_job_of_def split: sum.splits)

text \<open>C39. Progress. After a cycle that raises nothing, every job among the twenty oldest active ones is running, needs review
  or is blocked: none of them stays queued or stale.\<close>

theorem daemon_cycle_progress:
  assumes "loop_reachable (dm_ledger S)" and "run_cycle E S = (Inr results, S')"
    and "j \<in> set (list_active 20 (snd (mark_stale_runs (ld_now E) (dm_ledger S))))"
  shows "job_status_in (dm_ledger S') (lj_id j) \<in> {Some Loop_running, Some Loop_needs_review, Some Loop_blocked}"
proof -
  let ?L = "snd (mark_stale_runs (ld_now E) (dm_ledger S))"
  have "ledger_ok ?L" using ok_mark_stale [OF reachable_ok [OF assms(1)]] .
  then have "current (list_active 20 ?L) (dm_ledger (S\<lparr>dm_ledger := ?L\<rparr>))" by (simp add: list_active_current ledger_ok_distinct)
  moreover obtain acc where "job_steps E (list_active 20 ?L) acc (S\<lparr>dm_ledger := ?L\<rparr>) = (Inr results, S')"
    using assms(2) by (auto simp: run_cycle_def split: prod.splits)
  ultimately have "job_status_in (dm_ledger S') (lj_id j) \<in> set (map Some GOING)"
    using job_steps_land assms(3) list_active_status by blast
  then show ?thesis by (simp add: GOING_def)
qed

lemma daemon_cycle_progress_witness:
  "job_status_in (dm_ledger (snd (run_cycle demo_daemon \<lparr>dm_ledger = demo_ledger, dm_calls = []\<rparr>))) ''job1''
     \<in> {Some Loop_running, Some Loop_needs_review, Some Loop_blocked}"
proof -
  have "run_cycle demo_daemon \<lparr>dm_ledger = demo_ledger, dm_calls = []\<rparr>
      = (Inr [daemon_entry demo_job ''running'' ''sent_to_smith''], snd (run_cycle demo_daemon \<lparr>dm_ledger = demo_ledger, dm_calls = []\<rparr>))"
    using demo_cycle by (simp add: prod_eq_iff)
  moreover have "lj_id demo_job = ''job1''" by (simp add: demo_job_def loop_row_def loop_job_of_def)
  ultimately show ?thesis
    using daemon_cycle_progress [of "\<lparr>dm_ledger = demo_ledger, dm_calls = []\<rparr>" demo_daemon _ _ demo_job]
      demo_ledger_reachable by (simp add: demo_marked demo_active)
qed

end
