(* ===== verification/Recall_Tool.thy ===== *)
theory Recall_Tool
  imports Router_Exec
begin

section \<open>The tool that recalls shared memories\<close>

text \<open>
  \<open>memory_recall_shared\<close> of \<open>src/freyja/tools/builtin.py\<close>: its registration and its
  implementation. The store is a function of the world that lists, for a principal, some kinds and
  a limit, the memories as the JSON objects that \<open>model_dump\<close> gives; the check of the
  principal's fields is a parameter. The registry passes only arguments that satisfy the schema, so
  that \<open>limit\<close> is an integer or a boolean and the other arguments are texts; the conversions of
  other values are not modelled.
\<close>

definition RECALL_TOOL :: tool_def where
  "RECALL_TOOL = \<lparr>td_name = ''memory_recall_shared'',
     td_schema = Some \<lparr>as_required = [],
       as_properties = map (\<lambda>(k, t). (k, \<lparr>ps_type = Some t, ps_enum = None\<rparr>))
         [(''query'', ''string''), (''kind'', ''string''), (''domain'', ''string''), (''limit'', ''integer'')]\<rparr>,
     td_risk = Read_only, td_host_service = Some ''atlas.memory'', td_permission = Some ''personal:memory.read'',
     td_confirmation = ''none'', td_enabled = True, td_timeout = 10\<rparr>"

definition memory_domain :: "json_obj \<Rightarrow> string" where
  "memory_domain m = str_lower (str_or_empty (jget ''domain'' (as_dict (jget ''metadata'' m))))"

definition searchable :: "json_obj \<Rightarrow> string" where
  "searchable m = str_join '' '' (map str_lower
     [json_str (jget ''memory_id'' m), json_str (jget ''kind'' m), json_str (jget ''content'' m),
      json_str (jget ''source'' m), memory_domain m])"

definition text_argument :: "string \<Rightarrow> json_obj \<Rightarrow> string" where
  "text_argument k args = str_lower (str_strip (str_or_empty (jget k args)))"

definition limit_argument :: "json_obj \<Rightarrow> int" where
  "limit_argument args = max 1 (min (case map_of args ''limit'' of
     Some (JInt n) \<Rightarrow> n | Some (JBool b) \<Rightarrow> (if b then 1 else 0) | _ \<Rightarrow> 12) 50)"

definition no_memories :: "string \<Rightarrow> impl_outcome" where
  "no_memories why = Impl_output (Some [(''memories'', JList []), (''count'', JInt 0), (''error'', JStr why)])"

definition memory_recall_shared ::
    "(json_obj \<Rightarrow> 'p option) \<Rightarrow> ('w \<Rightarrow> 'p \<Rightarrow> string list option \<Rightarrow> int \<Rightarrow> json_obj list) \<Rightarrow> 'w tool_impl" where
  "memory_recall_shared parse list_shared q timeout w =
    (case jget ''memory_principal'' (er_metadata q) of
       JObj d \<Rightarrow>
         (case parse d of
            None \<Rightarrow> no_memories ''Invalid memory principal.''
          | Some p \<Rightarrow>
              (let args = er_arguments q; kind = str_or_empty (jget ''kind'' args);
                   query = text_argument ''query'' args; domain = text_argument ''domain'' args;
                   found = filter (\<lambda>m. (query = [] \<or> sublist query (searchable m))
                       \<and> (domain = [] \<or> domain = memory_domain m))
                     (list_shared w p (if kind = [] then None else Some [kind]) (limit_argument args))
               in Impl_output (Some [(''memories'', JList (map JObj found)), (''count'', JInt (int (length found)))])))
     | _ \<Rightarrow> no_memories ''Missing memory principal.'', w)"

definition recall_output :: "json_obj list \<Rightarrow> json_obj" where
  "recall_output ms = [(''memories'', JList (map JObj ms)), (''count'', JInt (int (length ms)))]"

lemma recall_reads_only: "snd (memory_recall_shared parse list_shared q timeout w) = w"
  by (simp add: memory_recall_shared_def)

lemma recall_everything:
  assumes "jget ''memory_principal'' (er_metadata q) = JObj d" and "parse d = Some p" and "er_arguments q = []"
  shows "memory_recall_shared parse list_shared q timeout w
    = (Impl_output (Some (recall_output (list_shared w p None 12))), w)"
  using assms
proof -
  have none: "str_or_empty (jget k []) = []" for k by (simp add: jget_def str_or_empty_def)
  have blank: "text_argument k [] = []" for k by (simp add: text_argument_def none str_lower_def str_strip_def)
  show ?thesis
    using assms by (simp add: memory_recall_shared_def recall_output_def blank none limit_argument_def Let_def)
qed

subsection \<open>What the tool loop tells the model\<close>

lemma tool_loop_keeps: "\<exists>more. rs_sent (snd (tool_loop E r d c pr person n hist ev st)) = rs_sent st @ more"
proof -
  have "trace_ok E {c} (n + 1) n st (snd (tool_loop E r d c pr person n hist ev st))"
    by (rule tool_loop_trace) simp
  then show ?thesis unfolding trace_ok_def by blast
qed

text \<open>Every round starts with a call whose prompt holds the history so far.\<close>

lemma tool_loop_sends:
  "\<exists>q more. rs_sent (snd (tool_loop E r d c pr person n hist ev st)) = rs_sent st @ (c, q) # more
     \<and> cc_prompt q = fst (build_prompt E (rs_world st) r d pr (n = 0) hist ev)"
proof (cases n)
  case 0
  then show ?thesis
    by (auto simp: Let_def split_beta send_def split: option.split)
next
  case (Suc m)
  obtain p ev1 where p: "build_prompt E (rs_world st) r d pr False hist ev = (p, ev1)" by force
  define q where "q = \<lparr>cc_prompt = p, cc_model = model_or_none (rd_model d),
           cc_tools_required = True, cc_images = images_or_none r,
           cc_output_tokens = output_tokens_for E d,
           cc_tools = (if rd_provider d \<in> set LOCAL_PROVIDERS then Some (list_tools False (ee_registry E)) else None)\<rparr>"
  have call: "rs_sent (snd (snd (call_tool E r d pr person name args e1 s))) = rs_sent s" for name args e1 s
    by (simp add: call_tool_def run_tool_request_def Let_def split_beta split: option.split)
  have more: "\<exists>more. rs_sent (snd (tool_loop E r d c pr person m h e2 s2)) = rs_sent st @ (c, q) # more"
    if "rs_sent s2 = rs_sent st @ [(c, q)]" for h e2 s2
    using tool_loop_keeps [of E r d c pr person m h e2 s2] that by auto
  have "\<exists>more. rs_sent (snd (tool_loop E r d c pr person n hist ev st)) = rs_sent st @ (c, q) # more"
    using p more by (auto simp: Suc Let_def split_beta send_def call q_def split: option.split json.split)
  with p show ?thesis by (auto simp: q_def Suc)
qed

lemma history_in_prompt:
  assumes "t \<in> set hist"
  shows "\<exists>i. sublist (history_text (max 0 (chat_max_tool_output_chars (ee_settings E))) i t)
    (fst (build_prompt E w r d pr final hist ev))"
proof -
  let ?h = "\<lambda>(i, t). history_text (max 0 (chat_max_tool_output_chars (ee_settings E))) i t"
  from assms obtain i where "(i, t) \<in> set (enumerate 1 hist)"
    by (metis in_set_conv_nth in_set_enumerate_eq le_add1 add.commute add_diff_cancel_left' add_less_cancel_left fst_conv snd_conv)
  then have "?h (i, t) \<in> set (map ?h (enumerate 1 hist))" unfolding set_map by (rule imageI)
  then obtain xs ys where "map ?h (enumerate 1 hist) = xs @ ?h (i, t) # ys" by (meson split_list)
  then have parts: "sublist (?h (i, t)) (p @ concat (map ?h (enumerate 1 hist)) @ cl)" for p cl
    by (auto simp: sublist_def) (metis append.assoc)
  obtain p c where "fst (build_prompt E w r d pr final hist ev) = p @ concat (map ?h (enumerate 1 hist)) @ c"
    unfolding build_prompt_def Let_def split_beta fst_conv append_assoc by blast
  with parts [of p c] show ?thesis by (intro exI [of _ i]) simp
qed

subsection \<open>Property\<close>

lemma recall_authorized:
  assumes "mp_client_type p \<noteq> []" and "mp_client_subject p \<noteq> []"
  shows "au_allowed (authorize RECALL_TOOL (tool_request n args d (Some p) None))"
proof -
  let ?q = "tool_request n args d (Some p) None"
  have "auth_person ?q = []"
    by (simp add: auth_person_def tool_request_def jget_def as_dict_def str_or_empty_def str_lower_def str_strip_def)
  moreover have "auth_principal ?q" "director_authorized ?q"
    using assms by (simp_all add: auth_principal_def director_authorized_def tool_request_def principal_json_def
        jget_def as_dict_def Let_def)
  ultimately show ?thesis by (simp add: authorize_def RECALL_TOOL_def truthy_def Let_def allow_def)
qed

text \<open>The registry runs the tool for the router, without arguments.\<close>

lemma recall_runs:
  assumes "ee_registry E = Live R" and "reg_enabled R"
    and "map_of (reg_tools R) ''memory_recall_shared'' = Some RECALL_TOOL"
    and "map_of (reg_impls R) ''memory_recall_shared'' = Some (memory_recall_shared parse list_shared)"
    and "mp_client_type p \<noteq> []" and "mp_client_subject p \<noteq> []" and "parse (as_dict (principal_json p)) = Some p'"
  shows "normalize_arguments ''memory_recall_shared'' [] (Live R) = ([], [])"
    and "validate_arguments ''memory_recall_shared'' [] (Live R) = []"
    and "execute_tool (Live R) (tool_request ''memory_recall_shared'' [] d (Some p) None) w =
      (\<lparr>ex_success = True, ex_tool = ''memory_recall_shared'', ex_output = recall_output (list_shared w p' None 12),
        ex_error_code = None, ex_public_error = None, ex_request_id = rd_request_id d\<rparr>, w)"
proof -
  let ?x = "tool_request ''memory_recall_shared'' [] d (Some p) None"
  have x: "er_tool ?x = ''memory_recall_shared''" "er_arguments ?x = []" "er_request_id ?x = rd_request_id d"
    by (simp_all add: tool_request_def)
  show norm: "normalize_arguments ''memory_recall_shared'' [] (Live R) = ([], [])"
    "validate_arguments ''memory_recall_shared'' [] (Live R) = []"
    using assms(3) by (simp_all add: normalize_arguments_def validate_arguments_def RECALL_TOOL_def
        normalize_against_schema_def validate_against_schema_def)
  have "memory_recall_shared parse list_shared (?x\<lparr>er_arguments := []\<rparr>) t w
      = (Impl_output (Some (recall_output (list_shared w p' None 12))), w)" for t
    using assms(7) by (intro recall_everything) (simp_all add: tool_request_def jget_def principal_json_def as_dict_def)
  then have "run_implementation R RECALL_TOOL (memory_recall_shared parse list_shared) [] ?x w =
      (\<lparr>ex_success = True, ex_tool = ''memory_recall_shared'', ex_output = recall_output (list_shared w p' None 12),
        ex_error_code = None, ex_public_error = None, ex_request_id = rd_request_id d\<rparr>, w)"
    by (simp add: run_implementation_def x Let_def)
  moreover have "td_enabled RECALL_TOOL" by (simp add: RECALL_TOOL_def)
  ultimately show "execute_tool (Live R) ?x w =
      (\<lparr>ex_success = True, ex_tool = ''memory_recall_shared'', ex_output = recall_output (list_shared w p' None 12),
        ex_error_code = None, ex_public_error = None, ex_request_id = rd_request_id d\<rparr>, w)"
    using assms(2-4) norm recall_authorized [OF assms(5,6)]
    by (simp add: execute_tool_def x)
qed

text \<open>C11. The setting that keeps shared memories out of the cloud governs only what the router adds to
  a prompt itself. When a request that needs tools goes to the cloud, for a principal, and the
  model's first answer asks for \<open>memory_recall_shared\<close> without arguments, the next call to the cloud
  client holds the principal's memories, read from the store, cut to the configured length, whatever
  the setting is: the registry authorizes the tool by the Director's mark and the principal alone.\<close>

theorem memories_reach_cloud_by_tool:
  assumes "ee_registry E = Live R" and "reg_enabled R"
    and "map_of (reg_tools R) ''memory_recall_shared'' = Some RECALL_TOOL"
    and "map_of (reg_impls R) ''memory_recall_shared'' = Some (memory_recall_shared parse list_shared)"
    and "mp_client_type p \<noteq> []" and "mp_client_subject p \<noteq> []" and "parse (as_dict (principal_json p)) = Some p'"
    and "task_of r \<noteq> ''coding''" and "web_search_request r = None" and "rq_tools_required r"
    and "has_openrouter (ee_route E)" and "rd_provider d = ''openrouter''"
    and "\<forall>q. ee_chat E Openrouter_client q st = asking" and "rp_error asking = None"
    and "parse_tool_call (rp_content asking) = Some [(''tool_name'', JStr ''memory_recall_shared''), (''arguments'', JObj [])]"
  shows "\<exists>q i. (Openrouter_client, q) \<in> set (rs_sent (snd (execute_cloud E r d (Some p) None ev st)))
    \<and> sublist (history_text (max 0 (chat_max_tool_output_chars (ee_settings E))) i
        \<lparr>te_tool = ''memory_recall_shared'', te_success = True,
         te_output = recall_output (list_shared (rs_world st) p' None 12), te_arguments = [],
         te_error = None, te_public = None\<rparr>) (cc_prompt q)"
proof -
  obtain n where n: "max_iterations (ee_settings E) = Suc n"
    using max_iterations_bounds(3) [of "ee_settings E"] by (metis gr0_implies_Suc)
  let ?name = "''memory_recall_shared''"
  let ?t = "\<lparr>te_tool = ?name, te_success = True, te_output = recall_output (list_shared (rs_world st) p' None 12),
     te_arguments = [], te_error = None, te_public = None\<rparr>"
  obtain pt ev1 where pt: "build_prompt E (rs_world st) r d (Some p) False [] ev = (pt, ev1)" by force
  have first: "\<exists>s. send E Openrouter_client q st = (asking, s) \<and> rs_world s = rs_world st" for q
    using assms(13) by (simp add: send_def)
  have enabled: "td_enabled RECALL_TOOL" by (simp add: RECALL_TOOL_def)
  have call: "\<exists>ev2 st2. call_tool E r d (Some p) None ?name [] e s = (?t, ev2, st2)" if "rs_world s = rs_world st" for e s
    using that assms(1,3,8) recall_runs(1,2) [OF assms(1-7)] recall_runs(3) [OF assms(1-7), of d "rs_world st"]
      recall_authorized [OF assms(5,6), of ?name "[]" d] enabled
    by (simp add: call_tool_def normalize_tool_name_def get_tool_def run_tool_request_def result_entry_def Let_def)
  have cloud: "rd_provider d \<notin> set LOCAL_PROVIDERS" using assms(12) by (simp add: LOCAL_PROVIDERS_def)
  then have asks: "extract_tool_call asking (rd_provider d)
      = Some [(''tool_name'', JStr ?name), (''arguments'', JObj [])]"
    using assms(15) by (simp add: extract_tool_call_def)
  have "\<exists>ev2 st2. snd (tool_loop E r d Openrouter_client (Some p) None (Suc n) [] ev st)
      = snd (tool_loop E r d Openrouter_client (Some p) None n [?t] ev2 st2)"
  proof -
    define q where "q = \<lparr>cc_prompt = pt, cc_model = model_or_none (rd_model d), cc_tools_required = True,
      cc_images = images_or_none r, cc_output_tokens = output_tokens_for E d, cc_tools = None\<rparr>"
    obtain s where s: "send E Openrouter_client q st = (asking, s)" "rs_world s = rs_world st" using first by blast
    from call [OF s(2), of ev1] obtain ev2 st2
      where c: "call_tool E r d (Some p) None ?name [] ev1 s = (?t, ev2, st2)" by blast
    have "tool_loop E r d Openrouter_client (Some p) None (Suc n) [] ev st
        = tool_loop E r d Openrouter_client (Some p) None n [?t] ev2 st2"
      using cloud s(1) c asks assms(14) by (simp add: pt q_def jget_def as_dict_def)
    then show ?thesis by (intro exI [of _ ev2] exI [of _ st2]) simp
  qed
  then obtain ev2 st2 where loop: "snd (tool_loop E r d Openrouter_client (Some p) None (Suc n) [] ev st)
      = snd (tool_loop E r d Openrouter_client (Some p) None n [?t] ev2 st2)" by blast
  obtain q more where q: "rs_sent (snd (tool_loop E r d Openrouter_client (Some p) None n [?t] ev2 st2))
      = rs_sent st2 @ (Openrouter_client, q) # more"
    "cc_prompt q = fst (build_prompt E (rs_world st2) r d (Some p) (n = 0) [?t] ev2)"
    using tool_loop_sends by blast
  obtain i where "sublist (history_text (max 0 (chat_max_tool_output_chars (ee_settings E))) i ?t) (cc_prompt q)"
    using history_in_prompt [of ?t "[?t]" E "rs_world st2" r d "Some p" "n = 0" ev2] q(2) by auto
  moreover have "snd (execute_cloud E r d (Some p) None ev st) = snd (tool_loop E r d Openrouter_client (Some p) None (Suc n) [] ev st)"
    using assms(9-11) by (simp add: execute_cloud_def execute_with_tools_def n)
  ultimately show ?thesis using loop q(1) by (intro exI [of _ q] exI [of _ i]) simp
qed

definition recall_registry :: "nat registry" where
  "recall_registry = \<lparr>reg_tools = [(''memory_recall_shared'', RECALL_TOOL)],
     reg_impls = [(''memory_recall_shared'', memory_recall_shared (\<lambda>d. Some ())
       (\<lambda>w p k n. [[(''content'', JStr ''the blue door'')]]))],
     reg_enabled = True, reg_default_timeout = 30\<rparr>"

definition recall_env :: "nat exec_env" where
  "recall_env = sample_exec_env\<lparr>ee_registry := Live recall_registry, ee_chat := (\<lambda>c q st.
     \<lparr>rp_error = None, rp_content = OPEN_CALL @
        json_dumps (JObj [(''tool_name'', JStr ''memory_recall_shared''), (''arguments'', JObj [])]) @ CLOSE_CALL,
      rp_calls = []\<rparr>)\<rparr>"

definition recall_request :: route_request where
  "recall_request = (sample_route ''cloud'' ''hello there'')\<lparr>rq_tools_required := True\<rparr>"

definition recall_principal :: memory_principal where
  "recall_principal = \<lparr>mp_client_type = ''cli'', mp_client_subject = ''x'', mp_account_owner = None, mp_conversation = None\<rparr>"

lemma recall_asks:
  "parse_tool_call (rp_content (ee_chat recall_env Openrouter_client q st))
    = Some [(''tool_name'', JStr ''memory_recall_shared''), (''arguments'', JObj [])]"
  by (simp add: recall_env_def) code_simp

theorem memories_reach_cloud_by_tool_witness:
  "\<not> memory_recall_include_in_cloud (ee_settings recall_env)
   \<and> (\<exists>q i. (Openrouter_client, q) \<in> set (rs_sent (snd (execute_cloud recall_env recall_request
         (decide sample_env recall_request 0) (Some recall_principal) None
         (start_evidence (ee_settings recall_env) (decide sample_env recall_request 0) (Some recall_principal) None)
         start_state)))
     \<and> sublist (history_text (max 0 (chat_max_tool_output_chars (ee_settings recall_env))) i
        \<lparr>te_tool = ''memory_recall_shared'', te_success = True,
         te_output = recall_output [[(''content'', JStr ''the blue door'')]], te_arguments = [],
         te_error = None, te_public = None\<rparr>) (cc_prompt q))"
proof -
  have "classify_privacy ''hello there'' None = ''routine''" by (rule sample_not_private)
  then have d: "rd_provider (decide sample_env recall_request 0) = ''openrouter''"
    by (simp add: decide_def Let_def decide_cloud_def sample_env_def sample_settings_def sample_route_def
        recall_request_def requires_internal_def request_cost_def estimate_cost_def split: prod.split)
  have r: "task_of recall_request \<noteq> ''coding''" "web_search_request recall_request = None" by code_simp+
  have e: "rq_tools_required recall_request" "has_openrouter (ee_route recall_env)"
    "ee_registry recall_env = Live recall_registry" "reg_enabled recall_registry"
    "\<not> memory_recall_include_in_cloud (ee_settings recall_env)"
    "mp_client_type recall_principal \<noteq> []" "mp_client_subject recall_principal \<noteq> []"
    by (simp_all add: recall_request_def recall_env_def sample_exec_env_def sample_env_def recall_registry_def
        sample_settings_def recall_principal_def)
  have t: "map_of (reg_tools recall_registry) ''memory_recall_shared'' = Some RECALL_TOOL"
    "map_of (reg_impls recall_registry) ''memory_recall_shared'' = Some (memory_recall_shared (\<lambda>d. Some ())
       (\<lambda>w p k n. [[(''content'', JStr ''the blue door'')]]))"
    by (simp_all add: recall_registry_def)
  have same: "\<forall>q. ee_chat recall_env Openrouter_client q start_state = ee_chat recall_env Openrouter_client undefined start_state"
    and ok: "rp_error (ee_chat recall_env Openrouter_client undefined start_state) = None"
    by (simp_all add: recall_env_def)
  show ?thesis
    using memories_reach_cloud_by_tool [OF e(3,4) t e(6,7) refl r e(1,2) d same ok recall_asks] e(5) by blast
qed

end
