(* ===== verification/Memory_Reviews.thy ===== *)
theory Memory_Reviews
  imports Domain_Memory
begin

section \<open>Reviews of memory candidates that overlap\<close>

text \<open>
  \<open>review_candidate\<close> of \<open>src/freyja/freyja3_memory.py\<close> with its transactions apart. A call reads
  the candidate and checks it, then inserts the memory of an approval, then marks the candidate;
  between them other calls, and other reviews of the same candidate, may run. A call in flight is
  kept with the candidate it read. The UPDATE and the read of its result are one step here. A
  process may also die between two steps, which leaves what it did.
\<close>

record review_call =
  rc_new_id :: string
  rc_candidate :: string
  rc_review :: candidate_review
  rc_reviewer :: security_domain

datatype review_stage = Checked memory_candidate | Stored memory_candidate "memory_record option"

record review_system =
  rs_store :: memory_state
  rs_flying :: "(review_call \<times> review_stage) list"
  rs_reviewed :: "(review_call \<times> memory_candidate \<times> memory_record option) list"

definition start_review :: "review_call \<Rightarrow> review_system \<Rightarrow> review_system option" where
  "start_review k s =
    (let row = row_of candidate_id (rc_candidate k) (candidates (rs_store s))
     in case review_denial (rc_candidate k) (rc_reviewer k) row of
          Some e \<Rightarrow> None
        | None \<Rightarrow> Some (s\<lparr>rs_flying := rs_flying s @ [(k, Checked (the row))]\<rparr>))"

definition insert_memory :: "utc \<Rightarrow> review_call \<Rightarrow> memory_candidate \<Rightarrow> review_system \<Rightarrow> review_system" where
  "insert_memory now k c s =
    (case review_store now (rc_new_id k) (rc_review k) (rc_reviewer k) c (rs_store s) of
       (Inl e, st) \<Rightarrow> s\<lparr>rs_store := st, rs_flying := remove1 (k, Checked c) (rs_flying s)\<rparr>
     | (Inr made, st) \<Rightarrow>
         s\<lparr>rs_store := st, rs_flying := remove1 (k, Checked c) (rs_flying s) @ [(k, Stored c made)]\<rparr>)"

definition mark_candidate ::
    "utc \<Rightarrow> review_call \<Rightarrow> memory_candidate \<Rightarrow> memory_record option \<Rightarrow> review_system \<Rightarrow> review_system" where
  "mark_candidate now k c made s =
    (case review_mark now (rc_candidate k) (rc_review k) (rc_reviewer k) made (rs_store s) of
       (Inl e, st) \<Rightarrow> s\<lparr>rs_store := st, rs_flying := remove1 (k, Stored c made) (rs_flying s)\<rparr>
     | (Inr (c', m), st) \<Rightarrow>
         s\<lparr>rs_store := st, rs_flying := remove1 (k, Stored c made) (rs_flying s),
            rs_reviewed := rs_reviewed s @ [(k, c', m)]\<rparr>)"

inductive review_step :: "review_system \<Rightarrow> review_system \<Rightarrow> bool" where
  rev_read: "start_review k s = Some s' \<Longrightarrow> review_step s s'"
| rev_store: "(k, Checked c) \<in> set (rs_flying s) \<Longrightarrow> review_step s (insert_memory now k c s)"
| rev_mark: "(k, Stored c made) \<in> set (rs_flying s) \<Longrightarrow> review_step s (mark_candidate now k c made s)"
| rev_die: "x \<in> set (rs_flying s) \<Longrightarrow> review_step s (s\<lparr>rs_flying := remove1 x (rs_flying s)\<rparr>)"
| rev_put: "put_memory now i w d (rs_store s) = (res, st) \<Longrightarrow> review_step s (s\<lparr>rs_store := st\<rparr>)"
| rev_propose: "propose_candidate now i w d (rs_store s) = (res', st) \<Longrightarrow> review_step s (s\<lparr>rs_store := st\<rparr>)"

inductive review_steps :: "review_system \<Rightarrow> review_system \<Rightarrow> bool" where
  no_steps: "review_steps s s"
| more_steps: "review_steps s s' \<Longrightarrow> review_step s' s'' \<Longrightarrow> review_steps s s''"

definition idle_system :: "memory_state \<Rightarrow> review_system" where
  "idle_system st = \<lparr>rs_store = st, rs_flying = [], rs_reviewed = []\<rparr>"

subsection \<open>What a transaction leaves of the store\<close>

definition cand_core :: "memory_candidate \<Rightarrow> memory_candidate" where
  "cand_core c = c\<lparr>cand_status := Cand_pending, reviewed_at := None, reviewed_by := None,
     review_reason := None, approved_memory_id := None\<rparr>"

definition memory_of_candidate :: "memory_candidate \<Rightarrow> memory_record \<Rightarrow> bool" where
  "memory_of_candidate c r \<longleftrightarrow> content r = cand_content c \<and> owner r = cand_owner c \<and> scope r = cand_scope c
     \<and> classification r = cand_classification c \<and> source_agent r = cand_source_agent c"

text \<open>Memories stay, candidates keep everything but their review, and none is pending again.\<close>

definition evolves :: "memory_state \<Rightarrow> memory_state \<Rightarrow> bool" where
  "evolves st st' \<longleftrightarrow> set (memories st) \<subseteq> set (memories st')
     \<and> (\<forall>cid x. row_of candidate_id cid (candidates st) = Some x \<longrightarrow>
          (\<exists>y. row_of candidate_id cid (candidates st') = Some y \<and> cand_core y = cand_core x
             \<and> (cand_status x \<noteq> Cand_pending \<longrightarrow> cand_status y \<noteq> Cand_pending)))"

lemma evolves_refl [simp]: "evolves st st"
  by (simp add: evolves_def)

lemma evolves_row:
  "evolves st st' \<Longrightarrow> row_of candidate_id cid (candidates st) = Some x \<Longrightarrow>
    \<exists>y. row_of candidate_id cid (candidates st') = Some y \<and> cand_core y = cand_core x
       \<and> (cand_status x \<noteq> Cand_pending \<longrightarrow> cand_status y \<noteq> Cand_pending)"
  unfolding evolves_def by blast

lemma cand_coreD:
  assumes "cand_core y = cand_core x"
  shows "memory_of_candidate y r = memory_of_candidate x r" and "can_review_candidate y d = can_review_candidate x d"
  using assms by (cases x; cases y; simp add: cand_core_def memory_of_candidate_def can_review_candidate_def)+

lemma evolves_put: "put_memory now i w d st = (res, st') \<Longrightarrow> evolves st st' \<and> candidates st' = candidates st"
  by (auto simp: put_memory_def evolves_def Let_def split: option.splits if_splits)

lemma evolves_propose:
  "propose_candidate now i w d st = (res, st') \<Longrightarrow> evolves st st'
     \<and> (\<forall>cid x. row_of candidate_id cid (candidates st) = Some x \<longrightarrow> row_of candidate_id cid (candidates st') = Some x)"
  by (auto simp: propose_candidate_def evolves_def Let_def row_of_append split: option.splits if_splits)

lemma evolves_store:
  assumes "review_store now i rv d c st = (res, st')"
  shows "evolves st st' \<and> candidates st' = candidates st
    \<and> (\<forall>made. res = Inr made \<longrightarrow> (rv_approve rv \<longleftrightarrow> made \<noteq> None)
         \<and> (\<forall>r. made = Some r \<longrightarrow> r \<in> set (memories st') \<and> memory_of_candidate c r))"
proof (cases "rv_approve rv")
  case True
  obtain v st1 where p: "put_memory now i (candidate_as_write c) d st = (v, st1)" by force
  then have "evolves st st1 \<and> candidates st1 = candidates st" by (rule evolves_put)
  moreover have "r \<in> set (memories st1) \<and> memory_of_candidate c r" if "v = Inr r" for r
    using p that by (auto simp: put_memory_def Let_def record_of_def candidate_as_write_def
        memory_of_candidate_def split: option.splits if_splits)
  ultimately show ?thesis using assms True p by (cases v) (auto simp: review_store_def)
qed (use assms in \<open>auto simp: review_store_def\<close>)

lemma row_of_mark:
  "row_of candidate_id i (candidates (mark_reviewed now cid rv d m st)) =
    map_option (\<lambda>c. if candidate_id c = cid then c\<lparr>cand_status := (if rv_approve rv then Cand_approved else Cand_rejected),
       reviewed_at := Some now, reviewed_by := Some d, review_reason := Some (rv_reason rv),
       approved_memory_id := m\<rparr> else c) (row_of candidate_id i (candidates st))"
  by (simp add: mark_reviewed_def row_of_sql_update)

lemma evolves_mark:
  assumes "review_mark now cid rv d made st = (res, st')"
  shows "evolves st st'
    \<and> (\<forall>i. i \<noteq> cid \<longrightarrow> row_of candidate_id i (candidates st') = row_of candidate_id i (candidates st))
    \<and> (\<forall>c m. res = Inr (c, m) \<longrightarrow> m = made
         \<and> row_of candidate_id cid (candidates st') = Some c \<and> cand_status c \<noteq> Cand_pending)"
proof -
  have st': "st' = mark_reviewed now cid rv d (map_option memory_id made) st"
    using assms by (auto simp: review_mark_def Let_def split: option.splits)
  have other: "row_of candidate_id i (candidates st') = row_of candidate_id i (candidates st)" if "i \<noteq> cid" for i
    using that by (cases "row_of candidate_id i (candidates st)") (auto simp: st' row_of_mark dest: row_of_SomeD)
  have "evolves st st'"
    unfolding evolves_def st' by (simp add: row_of_mark cand_core_def)
  moreover have "m = made \<and> row_of candidate_id cid (candidates st') = Some c \<and> cand_status c \<noteq> Cand_pending"
    if "res = Inr (c, m)" for c m
  proof -
    have c: "m = made" "row_of candidate_id cid (candidates st') = Some c"
      using assms that by (auto simp: review_mark_def Let_def split: option.splits)
    then obtain x where x: "row_of candidate_id cid (candidates st) = Some x"
      by (auto simp: st' row_of_mark)
    then have "candidate_id x = cid" by (auto dest: row_of_SomeD)
    with c(2) x have "cand_status c = (if rv_approve rv then Cand_approved else Cand_rejected)"
      by (simp add: st' row_of_mark) (erule subst, simp)
    with c show ?thesis by simp
  qed
  ultimately show ?thesis using other by blast
qed

subsection \<open>The invariant of the calls\<close>

definition read_ok :: "memory_state \<Rightarrow> review_call \<Rightarrow> memory_candidate \<Rightarrow> bool" where
  "read_ok st k c \<longleftrightarrow> can_review_candidate c (rc_reviewer k)
     \<and> (\<exists>x. row_of candidate_id (rc_candidate k) (candidates st) = Some x \<and> cand_core x = cand_core c)"

fun stage_ok :: "memory_state \<Rightarrow> review_call \<times> review_stage \<Rightarrow> bool" where
  "stage_ok st (k, Checked c) = read_ok st k c"
| "stage_ok st (k, Stored c made) =
    (read_ok st k c \<and> (rv_approve (rc_review k) \<longleftrightarrow> made \<noteq> None)
       \<and> (\<forall>r. made = Some r \<longrightarrow> r \<in> set (memories st) \<and> memory_of_candidate c r))"

definition reviewed_ok :: "memory_state \<Rightarrow> review_call \<Rightarrow> memory_record option \<Rightarrow> bool" where
  "reviewed_ok st k made \<longleftrightarrow>
    (\<exists>x. row_of candidate_id (rc_candidate k) (candidates st) = Some x \<and> cand_status x \<noteq> Cand_pending
       \<and> can_review_candidate x (rc_reviewer k) \<and> (rv_approve (rc_review k) \<longleftrightarrow> made \<noteq> None)
       \<and> (\<forall>r. made = Some r \<longrightarrow> r \<in> set (memories st) \<and> memory_of_candidate x r))"

definition system_ok :: "review_system \<Rightarrow> bool" where
  "system_ok s \<longleftrightarrow> (\<forall>x \<in> set (rs_flying s). stage_ok (rs_store s) x)
     \<and> (\<forall>(k, c, made) \<in> set (rs_reviewed s). reviewed_ok (rs_store s) k made)"

lemma read_ok_evolves: "evolves st st' \<Longrightarrow> read_ok st k c \<Longrightarrow> read_ok st' k c"
  unfolding evolves_def read_ok_def by metis

lemma stage_ok_evolves: "evolves st st' \<Longrightarrow> stage_ok st x \<Longrightarrow> stage_ok st' x"
  by (cases "(st, x)" rule: stage_ok.cases) (auto intro: read_ok_evolves simp: evolves_def)

lemma reviewed_ok_evolves:
  assumes "evolves st st'" and "reviewed_ok st k made"
  shows "reviewed_ok st' k made"
proof -
  from assms(2) obtain x where x: "row_of candidate_id (rc_candidate k) (candidates st) = Some x"
    "cand_status x \<noteq> Cand_pending" "can_review_candidate x (rc_reviewer k)" "rv_approve (rc_review k) \<longleftrightarrow> made \<noteq> None"
    "\<forall>r. made = Some r \<longrightarrow> r \<in> set (memories st) \<and> memory_of_candidate x r"
    by (auto simp: reviewed_ok_def)
  from evolves_row [OF assms(1) x(1)] x(2) obtain y
    where y: "row_of candidate_id (rc_candidate k) (candidates st') = Some y" "cand_core y = cand_core x"
      "cand_status y \<noteq> Cand_pending" by blast
  have "set (memories st) \<subseteq> set (memories st')" using assms(1) by (simp add: evolves_def)
  with x(3-5) have "can_review_candidate y (rc_reviewer k)"
    "\<forall>r. made = Some r \<longrightarrow> r \<in> set (memories st') \<and> memory_of_candidate y r"
    unfolding cand_coreD [OF y(2)] by blast+
  with x(4) y(1,3) show ?thesis unfolding reviewed_ok_def by blast
qed

lemma system_ok_store:
  "system_ok s \<Longrightarrow> evolves (rs_store s) st \<Longrightarrow> set fl \<subseteq> set (rs_flying s) \<Longrightarrow>
    system_ok (s\<lparr>rs_store := st, rs_flying := fl\<rparr>)"
  by (auto simp: system_ok_def intro: stage_ok_evolves dest: reviewed_ok_evolves)

lemma start_review_ok:
  assumes "start_review k s = Some s'"
  obtains c where "row_of candidate_id (rc_candidate k) (candidates (rs_store s)) = Some c"
    "cand_status c = Cand_pending" "can_review_candidate c (rc_reviewer k)"
    "s' = s\<lparr>rs_flying := rs_flying s @ [(k, Checked c)]\<rparr>"
  using assms
  by (auto simp: start_review_def review_denial_def Let_def split: option.splits if_splits)

lemma insert_memory_ok:
  assumes "stage_ok (rs_store s) (k, Checked c)"
  obtains st fl where "insert_memory now k c s = s\<lparr>rs_store := st, rs_flying := fl\<rparr>"
    "evolves (rs_store s) st" "candidates st = candidates (rs_store s)"
    "\<forall>x \<in> set fl. x \<in> set (rs_flying s) \<or> (\<exists>made. x = (k, Stored c made) \<and> stage_ok st x)"
proof -
  obtain res st where r: "review_store now (rc_new_id k) (rc_review k) (rc_reviewer k) c (rs_store s) = (res, st)"
    by force
  note ev = evolves_store [OF r]
  show thesis
  proof (cases res)
    case (Inl e)
    show thesis
      by (rule that [where st = st and fl = "remove1 (k, Checked c) (rs_flying s)"])
        (use r Inl ev in \<open>auto simp: insert_memory_def dest: notin_set_remove1\<close>)
  next
    case (Inr made)
    have "stage_ok st (k, Stored c made)"
      using ev Inr assms by (auto intro: read_ok_evolves)
    then show thesis
      by (intro that [where st = st and fl = "remove1 (k, Checked c) (rs_flying s) @ [(k, Stored c made)]"])
        (use r Inr ev in \<open>auto simp: insert_memory_def dest: notin_set_remove1\<close>)
  qed
qed

lemma mark_candidate_ok:
  assumes "stage_ok (rs_store s) (k, Stored c made)"
  obtains st more where "mark_candidate now k c made s = s\<lparr>rs_store := st,
      rs_flying := remove1 (k, Stored c made) (rs_flying s), rs_reviewed := rs_reviewed s @ more\<rparr>"
    "evolves (rs_store s) st"
    "\<forall>i. i \<noteq> rc_candidate k \<longrightarrow> row_of candidate_id i (candidates st) = row_of candidate_id i (candidates (rs_store s))"
    "\<forall>(k', c', m) \<in> set more. k' = k \<and> reviewed_ok st k m"
proof -
  obtain res st where r: "review_mark now (rc_candidate k) (rc_review k) (rc_reviewer k) made (rs_store s) = (res, st)"
    by force
  note ev = evolves_mark [OF r]
  show thesis
  proof (cases res)
    case (Inl e)
    show thesis
      by (rule that [where st = st and more = "[]"]) (use r Inl ev in \<open>auto simp: mark_candidate_def\<close>)
  next
    case (Inr p)
    obtain c' m where p: "p = (c', m)" by force
    with ev Inr have row: "row_of candidate_id (rc_candidate k) (candidates st) = Some c'"
      "cand_status c' \<noteq> Cand_pending" "m = made" by blast+
    have "stage_ok st (k, Stored c made)" using ev assms by (blast intro: stage_ok_evolves)
    then have st: "can_review_candidate c (rc_reviewer k)" "cand_core c' = cand_core c"
      "rv_approve (rc_review k) \<longleftrightarrow> made \<noteq> None"
      "\<forall>r. made = Some r \<longrightarrow> r \<in> set (memories st) \<and> memory_of_candidate c r"
      using row(1) by (auto simp: read_ok_def)
    then have "reviewed_ok st k m"
      using row unfolding reviewed_ok_def cand_coreD [OF st(2), symmetric] by blast
    then show thesis
      by (intro that [where st = st and more = "[(k, c', m)]"]) (use r Inr p ev in \<open>auto simp: mark_candidate_def\<close>)
  qed
qed

inductive_cases review_stepE: "review_step s s'"

lemma system_ok_step:
  assumes "system_ok s" and "review_step s s'"
  shows "system_ok s'"
  using assms(2)
proof (cases rule: review_step.cases)
  case (rev_read k)
  from start_review_ok [OF this] obtain c
    where "row_of candidate_id (rc_candidate k) (candidates (rs_store s)) = Some c"
      "can_review_candidate c (rc_reviewer k)" "s' = s\<lparr>rs_flying := rs_flying s @ [(k, Checked c)]\<rparr>" .
  with assms(1) show ?thesis by (auto simp: system_ok_def read_ok_def)
next
  case (rev_store k c now)
  with assms(1) have "stage_ok (rs_store s) (k, Checked c)" by (auto simp: system_ok_def)
  then obtain st fl where u: "s' = s\<lparr>rs_store := st, rs_flying := fl\<rparr>" "evolves (rs_store s) st"
    "\<forall>x \<in> set fl. x \<in> set (rs_flying s) \<or> (\<exists>made. x = (k, Stored c made) \<and> stage_ok st x)"
    unfolding rev_store(1) by (rule insert_memory_ok)
  with assms(1) show ?thesis
    by (auto simp: system_ok_def dest: reviewed_ok_evolves intro: stage_ok_evolves)
next
  case (rev_mark k c made now)
  with assms(1) have "stage_ok (rs_store s) (k, Stored c made)" by (auto simp: system_ok_def)
  then obtain st more where u: "s' = s\<lparr>rs_store := st, rs_flying := remove1 (k, Stored c made) (rs_flying s),
      rs_reviewed := rs_reviewed s @ more\<rparr>" "evolves (rs_store s) st"
    "\<forall>(k', c', m) \<in> set more. k' = k \<and> reviewed_ok st k m"
    unfolding rev_mark(1) by (rule mark_candidate_ok)
  have fl: "\<forall>x \<in> set (remove1 (k, Stored c made) (rs_flying s)). stage_ok st x"
    using assms(1) u(2) by (auto simp: system_ok_def dest: notin_set_remove1 intro: stage_ok_evolves)
  have "\<forall>(k, c, m) \<in> set (rs_reviewed s @ more). reviewed_ok st k m"
    using assms(1) u(2,3) by (auto simp: system_ok_def dest: reviewed_ok_evolves)
  with fl show ?thesis by (simp add: system_ok_def u(1))
next
  case (rev_die x)
  with assms(1) show ?thesis by (auto simp: system_ok_def dest: notin_set_remove1)
next
  case (rev_put now i w d res st)
  with assms(1) show ?thesis
    by (auto simp: system_ok_def dest!: evolves_put dest: reviewed_ok_evolves intro: stage_ok_evolves)
next
  case (rev_propose now i w d res st)
  with assms(1) show ?thesis
    by (auto simp: system_ok_def dest!: evolves_propose dest: reviewed_ok_evolves intro: stage_ok_evolves)
qed

lemma system_ok_steps: "review_steps s s' \<Longrightarrow> system_ok s \<Longrightarrow> system_ok s'"
  by (induction rule: review_steps.induct) (auto intro: system_ok_step)

lemma system_ok_idle [simp]: "system_ok (idle_system st)"
  by (simp add: system_ok_def idle_system_def)

subsection \<open>A candidate that was reviewed while no other review of it runs\<close>

definition idle_for :: "string \<Rightarrow> review_system \<Rightarrow> bool" where
  "idle_for cid s \<longleftrightarrow> (\<forall>x \<in> set (rs_flying s). rc_candidate (fst x) \<noteq> cid)"

definition reviews_of ::
    "string \<Rightarrow> review_system \<Rightarrow> (review_call \<times> memory_candidate \<times> memory_record option) list" where
  "reviews_of cid s = filter (\<lambda>x. rc_candidate (fst x) = cid) (rs_reviewed s)"

definition settled :: "string \<Rightarrow> memory_candidate \<Rightarrow> review_system \<Rightarrow> bool" where
  "settled cid c s \<longleftrightarrow> row_of candidate_id cid (candidates (rs_store s)) = Some c
     \<and> cand_status c \<noteq> Cand_pending \<and> idle_for cid s"

lemma settled_step:
  assumes "settled cid c s" and "system_ok s" and "review_step s s'"
  shows "settled cid c s' \<and> reviews_of cid s' = reviews_of cid s"
  using assms(3)
proof (cases rule: review_step.cases)
  case (rev_read k)
  from start_review_ok [OF this] obtain x
    where x: "row_of candidate_id (rc_candidate k) (candidates (rs_store s)) = Some x" "cand_status x = Cand_pending"
      "s' = s\<lparr>rs_flying := rs_flying s @ [(k, Checked x)]\<rparr>" .
  with assms(1) have "rc_candidate k \<noteq> cid" by (auto simp: settled_def)
  with x(3) assms(1) show ?thesis by (auto simp: settled_def idle_for_def reviews_of_def)
next
  case (rev_store k x now)
  with assms(2) have "stage_ok (rs_store s) (k, Checked x)" by (auto simp: system_ok_def)
  then obtain st fl where u: "s' = s\<lparr>rs_store := st, rs_flying := fl\<rparr>"
    "candidates st = candidates (rs_store s)"
    "\<forall>y \<in> set fl. y \<in> set (rs_flying s) \<or> (\<exists>made. y = (k, Stored x made) \<and> stage_ok st y)"
    unfolding rev_store(1) by (rule insert_memory_ok)
  moreover have "rc_candidate k \<noteq> cid" using assms(1) rev_store(2) by (auto simp: settled_def idle_for_def)
  ultimately show ?thesis using assms(1) by (auto simp: settled_def idle_for_def reviews_of_def)
next
  case (rev_mark k x made now)
  with assms(2) have "stage_ok (rs_store s) (k, Stored x made)" by (auto simp: system_ok_def)
  then obtain st more where u: "s' = s\<lparr>rs_store := st, rs_flying := remove1 (k, Stored x made) (rs_flying s),
      rs_reviewed := rs_reviewed s @ more\<rparr>"
    "\<forall>i. i \<noteq> rc_candidate k \<longrightarrow> row_of candidate_id i (candidates st) = row_of candidate_id i (candidates (rs_store s))"
    "\<forall>(k', c', m) \<in> set more. k' = k \<and> reviewed_ok st k m"
    unfolding rev_mark(1) by (rule mark_candidate_ok)
  have k: "rc_candidate k \<noteq> cid" using assms(1) rev_mark(2) by (auto simp: settled_def idle_for_def)
  have "filter (\<lambda>x. rc_candidate (fst x) = cid) more = []"
    using u(3) k by (auto simp: filter_empty_conv)
  with u k assms(1) show ?thesis
    by (auto simp: settled_def idle_for_def reviews_of_def dest: notin_set_remove1)
next
  case (rev_die x)
  with assms(1) show ?thesis by (auto simp: settled_def idle_for_def reviews_of_def dest: notin_set_remove1)
next
  case (rev_put now i w d res st)
  with assms(1) show ?thesis by (auto simp: settled_def idle_for_def reviews_of_def dest!: evolves_put)
next
  case (rev_propose now i w d res st)
  with assms(1) show ?thesis by (auto simp: settled_def idle_for_def reviews_of_def dest!: evolves_propose)
qed

lemma settled_steps:
  "review_steps s s' \<Longrightarrow> settled cid c s \<Longrightarrow> system_ok s \<Longrightarrow>
    settled cid c s' \<and> reviews_of cid s' = reviews_of cid s"
proof (induction rule: review_steps.induct)
  case (more_steps s s' s'')
  then have "settled cid c s' \<and> reviews_of cid s' = reviews_of cid s" "system_ok s'"
    using system_ok_steps by blast+
  with settled_step [of cid c s' s''] more_steps.hyps(2) show ?case by simp
qed simp

subsection \<open>Property\<close>

text \<open>C27. Whatever the interleaving of the transactions of any number of reviews with puts and
  proposals, and whichever calls die half way: a review that finished was made by a domain that may
  review the candidate, its candidate is not pending any more, and an approval, and nothing else,
  left a memory with the candidate's content, owner, scope, classification and source. A candidate
  that is reviewed while no other review of it is in flight keeps its decision, its reviewer and its
  reason in every further run, and no review of it finishes any more.\<close>

theorem reviews_settle:
  assumes "review_steps (idle_system st0) s"
  shows "(\<forall>(k, c, made) \<in> set (rs_reviewed s).
       \<exists>x. row_of candidate_id (rc_candidate k) (candidates (rs_store s)) = Some x
         \<and> cand_status x \<noteq> Cand_pending \<and> can_review_candidate x (rc_reviewer k)
         \<and> (rv_approve (rc_review k) \<longleftrightarrow> made \<noteq> None)
         \<and> (\<forall>r. made = Some r \<longrightarrow> r \<in> set (memories (rs_store s)) \<and> memory_of_candidate x r))
    \<and> (\<forall>cid c s'. row_of candidate_id cid (candidates (rs_store s)) = Some c
         \<and> cand_status c \<noteq> Cand_pending \<and> idle_for cid s \<and> review_steps s s'
         \<longrightarrow> row_of candidate_id cid (candidates (rs_store s')) = Some c
           \<and> reviews_of cid s' = reviews_of cid s)"
proof -
  have ok: "system_ok s" by (rule system_ok_steps [OF assms system_ok_idle])
  show ?thesis
  proof (rule conjI)
    from ok show "\<forall>(k, c, made) \<in> set (rs_reviewed s).
       \<exists>x. row_of candidate_id (rc_candidate k) (candidates (rs_store s)) = Some x
         \<and> cand_status x \<noteq> Cand_pending \<and> can_review_candidate x (rc_reviewer k)
         \<and> (rv_approve (rc_review k) \<longleftrightarrow> made \<noteq> None)
         \<and> (\<forall>r. made = Some r \<longrightarrow> r \<in> set (memories (rs_store s)) \<and> memory_of_candidate x r)"
      unfolding system_ok_def reviewed_ok_def by blast
  qed (use settled_steps [OF _ _ ok] in \<open>unfold settled_def, blast\<close>)
qed

definition sample_review :: review_call where
  "sample_review = \<lparr>rc_new_id = ''m'', rc_candidate = ''c'', rc_review = approval_of True, rc_reviewer = Person_joe\<rparr>"

definition sample_candidate :: memory_candidate where
  "sample_candidate = hd (candidates sample_proposed)"

definition sample_memory :: memory_record where
  "sample_memory = record_of 2 ''m'' (candidate_as_write sample_candidate)"

definition after_review :: review_system where
  "after_review = mark_candidate 3 sample_review sample_candidate (Some sample_memory)
     (insert_memory 2 sample_review sample_candidate
       (the (start_review sample_review (idle_system sample_proposed))))"

lemma sample_start:
  "start_review sample_review (idle_system sample_proposed) =
     Some \<lparr>rs_store = sample_proposed, rs_flying = [(sample_review, Checked sample_candidate)], rs_reviewed = []\<rparr>"
  by (simp add: start_review_def sample_memory_defs sample_review_def idle_system_def sample_candidate_def)

lemma sample_insert:
  "insert_memory 2 sample_review sample_candidate
      \<lparr>rs_store = sample_proposed, rs_flying = [(sample_review, Checked sample_candidate)], rs_reviewed = []\<rparr>
    = \<lparr>rs_store = sample_proposed\<lparr>memories := [sample_memory]\<rparr>,
       rs_flying = [(sample_review, Stored sample_candidate (Some sample_memory))], rs_reviewed = []\<rparr>"
  by (simp add: insert_memory_def review_store_def sample_memory_defs sample_review_def sample_candidate_def
      sample_memory_def)

theorem reviews_settle_witness:
  "review_steps (idle_system sample_proposed) after_review
   \<and> row_of candidate_id ''c'' (candidates (rs_store after_review)) \<noteq> None
   \<and> row_of candidate_id ''c'' (candidates (rs_store (after_review\<lparr>rs_store :=
        snd (put_memory 4 ''n'' (sample_write Household Scope_household ''y'') System (rs_store after_review))\<rparr>)))
     = row_of candidate_id ''c'' (candidates (rs_store after_review))"
proof -
  let ?w = "sample_write Household Scope_household ''y''"
  let ?s1 = "\<lparr>rs_store = sample_proposed, rs_flying = [(sample_review, Checked sample_candidate)], rs_reviewed = []\<rparr>"
  let ?s2 = "insert_memory 2 sample_review sample_candidate ?s1"
  let ?next = "after_review\<lparr>rs_store := snd (put_memory 4 ''n'' ?w System (rs_store after_review))\<rparr>"
  have "review_step (idle_system sample_proposed) ?s1" by (rule rev_read [OF sample_start])
  moreover have "review_step ?s1 ?s2" by (rule rev_store) simp
  moreover have "review_step ?s2 after_review"
    unfolding after_review_def sample_start option.sel by (rule rev_mark) (simp add: sample_insert)
  ultimately have run: "review_steps (idle_system sample_proposed) after_review"
    by (blast intro: no_steps more_steps)
  have "put_memory 4 ''n'' ?w System (rs_store after_review)
      = (fst (put_memory 4 ''n'' ?w System (rs_store after_review)), snd (put_memory 4 ''n'' ?w System (rs_store after_review)))"
    by simp
  then have "review_step after_review ?next" by (rule rev_put)
  then have further: "review_steps after_review ?next" by (blast intro: no_steps more_steps)
  obtain c where c: "row_of candidate_id ''c'' (candidates (rs_store after_review)) = Some c"
    "cand_status c \<noteq> Cand_pending" "idle_for ''c'' after_review"
    unfolding after_review_def sample_start option.sel sample_insert
    by (simp add: mark_candidate_def review_mark_def mark_reviewed_def sample_memory_defs sample_review_def
        idle_for_def)
  from reviews_settle [OF run, THEN conjunct2] c further
  have "row_of candidate_id ''c'' (candidates (rs_store ?next)) = Some c" by blast
  with run c(1) show ?thesis by simp
qed

end
