(* ===== verification/Spec2Isabelle.thy ===== *)
theory Spec2Isabelle
  imports Write_Pilot Worker_Queue Domain_Memory Router_Exec Authority Smith_Runtime Memory_Store Agent_Runs Channel_Transports Loop_History Recall_Tool Memory_Reviews
begin

text \<open>
  \<^bold>\<open>Freyja-OS: the policy, approval, memory and routing core.\<close>

  Freyja is a locally controlled personal-agent platform. A request enters the Director, the
  router decides which model may see it, the model may ask for tools, a registry authorizes and
  runs them, memory stores keep what was said, and Agent Smith, the maintenance agent, changes
  the repository itself only through approvals. This development models these parts as
  executable functions, one theory for each, and proves what makes each of them safe and correct.

  \<^bold>\<open>How the code is modelled.\<close>
  \<^item> Python text is \<open>string\<close> (ASCII), integers are \<open>int\<close>, a class is a record, an enum a datatype,
    a dict from a request or a JSON column an association list (\<open>json_obj\<close>, insertion order).
  \<^item> An operation that may raise returns \<open>error + 'a\<close>; a method that changes its object takes
    the state and returns it updated.
  \<^item> A SQLite table is the list of its rows in rowid order; a statement is a list function of
    \<open>Prelude\<close>, and a transaction whose body raises returns the table it started with.
  \<^item> Times are microseconds; \<open>isoformat\<close> is the text that a column holds, so that comparing
    columns is comparing texts, as in the code.
  \<^item> Regular expressions are terms of \<open>rx\<close>, with a backtracking matcher that returns the ends of
    the matches in the order of preference of Python's \<open>re\<close>. Its repetitions carry fuel, the
    length of the text that is left: each round consumes a character, so it is enough
    (\<open>star_ends_fuel\<close>).
  \<^item> What is not in the repository is a parameter: SHA-256, the clock, fresh ids, git, file
    system calls, model servers, tool implementations, the iteration order of Python sets.

  \<^bold>\<open>The theories.\<close>
  \<^item> \<open>Prelude\<close>, \<open>Rx\<close>, \<open>Py_Datetime\<close>, \<open>Py_Json\<close>: text, results, tables, regular expressions, dates
    and JSON. The locale \<open>row_machine\<close> is the contract of a table whose rows move along an
    allowed relation only; every store interprets it.
  \<^item> \<open>Foundation_Models\<close>, \<open>Smith_Models\<close>: the enums and records of \<open>foundation_models.py\<close>,
    \<open>agents/models.py\<close> and \<open>tools/models.py\<close>.
  \<^item> \<open>Agent_Policy\<close> (\<open>agents/policy.py\<close>): every check of Agent Smith's policy and the loop detector.
    Properties: what the write pilot may touch, and a reference definition of a loop.
  \<^item> \<open>Approval_Store\<close>, \<open>Approval_Provider\<close> (\<open>agents/approval_store.py\<close>, \<open>approval_provider.py\<close>): the
    approval table with its status transitions, and the gates over it. Calls are also split into
    their read and write halves and interleaved freely: an approval is consumed at most once. The
    locale \<open>approval_gate\<close> is what the write pilot relies on.
  \<^item> \<open>Write_Pilot\<close> (\<open>agents/runtime.py\<close>, \<open>_WritePilotRun\<close>): the state machine from inspection to
    commit, with its four gates, its tools and rollback. Its contract \<open>pilot_contract\<close> extends
    \<open>approval_gate\<close> and is interpreted on resumed and on provider runs. A run is built with the request id it works
    under; the entry points settle it: \<open>run_write_pilot\<close> and the HTTP endpoint make a missing one,
    a provider run without one raises.
  \<^item> \<open>Smith_Objective\<close>, \<open>Smith_Runtime\<close> (\<open>agents/runtime.py\<close>, \<open>agents/smith.py\<close>): classification of
    objectives, planning, the orchestrator with callbacks and retries, dry and read-only runs. What
    the orchestrator sends to the registry is cut into the segments of its tasks (\<open>runs_tasks\<close>). The
    loop of the orchestrator is a function with a measure (pending tasks); the dry run counts
    down the configured step limit, and six steps are enough for every plan
    (\<open>dry_run_completes\<close>).
  \<^item> \<open>Worker_Queue\<close> (\<open>freyja3_workers.py\<close>, \<open>freyja3_scheduler.py\<close>, \<open>workers.py\<close>): jobs, schedules and
    the policy for untrusted workers.
  \<^item> \<open>Domain_Memory\<close> (\<open>freyja3_memory.py\<close>): memories and candidates of security domains, and the
    border of the paralegal enclave. \<open>review_candidate\<close> is a whole call; \<open>review_store\<close> and
    \<open>review_mark\<close> are its transactions.
  \<^item> \<open>Memory_Reviews\<close>: reviews whose transactions interleave with each other and with puts and
    proposals, as a step relation: what holds of them in every interleaving, beside the race that
    \<open>Domain_Memory\<close> shows.
  \<^item> \<open>Principal\<close> (\<open>memory/principal.py\<close>): memory principals and their scope keys.
  \<^item> \<open>Memory_Store\<close> (\<open>memory/store.py\<close>, \<open>memory/models.py\<close>): conversations, which refine bounded logs,
    and shared memories with provenance, expiry and quotas. The locale \<open>scoped_store\<close> is the
    contract of a store that several principals share; the shared table interprets it.
  \<^item> \<open>Tool_Registry\<close>, \<open>Household\<close> (\<open>tools/registry.py\<close>, \<open>agents/household.py\<close>): validation,
    normalisation, authorization and execution of tools. The locale \<open>guarded_service\<close> states that
    the world changes through allowed requests only; it is interpreted on every registry.
  \<^item> \<open>Routing\<close>, \<open>Router_Exec\<close> (\<open>router.py\<close>, \<open>inference.py\<close>): the decision which provider may answer,
    and its execution with tools, fallback, recall and evidence. The tool loop counts down the
    configured iterations. The shared memories that a prompt recalls are a function of the world
    that the tools read and change. An exception that leaves \<open>execute\<close> is not a value of this model.
  \<^item> \<open>Recall_Tool\<close> (\<open>tools/builtin.py\<close>): the tool \<open>memory_recall_shared\<close>, through which the model in
    the cloud reads the same memories.
  \<^item> \<open>Authority\<close> (\<open>agents/hierarchy.py\<close>, \<open>agents/personal_data.py\<close>): personal agents, maintenance
    requests and access to personal data.
  \<^item> \<open>Agent_Models\<close> (\<open>foundation_models.py\<close>, \<open>foundation_seed.py\<close>): the records that the gateway and the
    agents exchange, and the shipped catalogues of domains, agents, capabilities, endpoints and
    machines as constants.
  \<^item> \<open>Agent_Gateway\<close> (\<open>agent_gateway.py\<close>): who may reach which agent, and the handoff that results.
  \<^item> \<open>Privacy_Egress\<close> (\<open>privacy_egress.py\<close>): classification and redaction of what may leave.
  \<^item> \<open>Inference_Registry\<close> (\<open>inference_registry_v3.py\<close>, \<open>semantic_routes.py\<close>), \<open>Media\<close> (\<open>media.py\<close>): endpoints
    by capability, domain and priority, and the texts and images of attachments with their limits.
  \<^item> \<open>Ollama_Client\<close> (\<open>ollama_client.py\<close>): a call of the client with its budgets of tokens. It posts once, and
    a second time after a blank reply that used up its budget.
  \<^item> \<open>Agent_Choice\<close>, \<open>Agent_Runtime\<close> (\<open>agent_runtime_v3.py\<close>): the pure decisions of the runtime (tools,
    questions, arguments, home focuses, what to remember) and its stateful operations up to
    \<open>arun\<close>. A run is a function of the environment (registry, endpoints, answers of the clients,
    clock) on a state that keeps the world, the memory, what was sent and what was executed; an
    exception is a value and leaves the state it had. What is sent counts the posts of the Ollama
    client, two at most for each call. Both loops count down the configured
    number of iterations, as the code does.
  \<^item> \<open>Agent_Trace\<close>, \<open>Agent_Runs\<close>: the trace of every operation and of the whole run. Requests, messages and
    memory writes compose along \<open>and_then\<close>; the contract \<open>guarded_service\<close> of the registry turns
    the requests into what happened to the world.
  \<^item> \<open>Channels\<close> (\<open>channels.py\<close>), \<open>Channel_Transports\<close> (\<open>channel_transports.py\<close>, the Telegram pilot): who may
    write to which agent, the rate limit as a sliding window, threads and audit; what Telegram and Signal deliver,
    and the polls. The state keeps the windows, the threads, the audit log and what was forwarded.
  \<^item> \<open>Smith_Loop\<close> (\<open>cloyd_smith_loop.py\<close>), \<open>Loop_Tools\<close> (\<open>tools/cloyd_smith_loop.py\<close>), \<open>Loop_Daemon\<close>
    (\<open>scripts/cloyd-smith-loop-daemon.py\<close>): the ledger of jobs with its summaries and diagnostics, the
    tools that change it and the cycle of the daemon, on the answers of the OpenCode runtime.
  \<^item> \<open>Loop_Moves\<close>, \<open>Loop_History\<close>: how rows of the job table move. The locale \<open>row_relation\<close> composes moves along any
    reflexive and transitive relation; its interpretations give what a daemon cycle keeps, and a history of
    tools and cycles is a list of acts, whose reachable ledgers are an inductive set.

  \<^bold>\<open>What the properties show.\<close> Approvals cannot be forged, reused or raced, and a commit needs four
  of them; a rollback restores the target; the policy keeps writes in the sandbox and read-only
  runs read-only; private data stays on internal models; tools run
  only when authorized; memories do not cross principals or the enclave; jobs and schedules are
  handed out once; the gateway hands over only within the domains, and an agent approves only
  what it was granted, speaks only to endpoints of its domains and remembers only for itself; a
  channel forwards only what its policy admits, at most the allowed number of times a minute; a
  job of the Cloyd-Smith loop is retried a bounded number of times, and its daemon leaves the
  decisions of people as they are; the
  loops end. Where the code does not do what it means to, a theorem
  states what it does: a file deleted before any approval, a provider run without an id, a crash on a
  denied tool, an expiry that is rolled back, a race between reviewers, shared memories that
  reach the cloud through a tool, an expiry compared as text, a classification that depends on
  hash order, a division by zero.

  \<^bold>\<open>Not modelled.\<close> HTTP routes and command lines, which only parse and call the components;
  the other implementations of tools, and connectors, that talk to processes, files and remote services;
  model servers; the calendar and identity services; the continuity record of the loop tools and their status tool;
  the lock and the sleep of the daemon; the summary of a trace and latencies; logging,
  timing, connections, file permissions and thread locks of the stores (a call is one transaction,
  except the approval store and the reviews of memories, whose transactions interleave); non-ASCII text. Other scripts, provisioning, certification and the
  archived migration run around the program and are left out.
\<close>

end
